(* ===== verification/Prelude.thy ===== *)
theory Prelude
  imports Main
begin

text \<open>
  Shared vocabulary of the AutoDeploy development: results of fallible Go code and of database
  transactions, tables of rows addressed by a key, Go's fixed-width integer arithmetic, decimal
  printing (\<^verbatim>\<open>strconv.Itoa\<close>), and the length-prefixed encoding that every digest of the
  control plane is computed over.  Nothing here is specific to one component.
\<close>

section \<open>Collections of facts\<close>

named_theorems tx_simps \<open>unfolding a transaction one statement at a time\<close>
named_theorems wp_simps \<open>weakest preconditions of the basic statements\<close>
named_theorems row_simps \<open>reading a table after writing it\<close>

section \<open>Fallible computations\<close>

text \<open>
  A Go function returning \<^verbatim>\<open>(T, error)\<close> is a value of \<open>'e + 't\<close>: \<open>Inl\<close> is the error.
  Sequencing stops at the first error, as \<^verbatim>\<open>if err != nil { return err }\<close> does.
\<close>

definition tx_bind :: "'e + 'a \<Rightarrow> ('a \<Rightarrow> 'e + 'b) \<Rightarrow> 'e + 'b" where
  "tx_bind m f = (case m of Inl e \<Rightarrow> Inl e | Inr x \<Rightarrow> f x)"

definition guard :: "bool \<Rightarrow> 'e \<Rightarrow> 'e + unit" where
  "guard b e = (if b then Inr () else Inl e)"

definition from_row :: "'e \<Rightarrow> 'a option \<Rightarrow> 'e + 'a" where
  "from_row e r = (case r of None \<Rightarrow> Inl e | Some x \<Rightarrow> Inr x)"

lemma tx_bind_simps [simp]:
  "tx_bind (Inl e) f = Inl e"
  "tx_bind (Inr x) f = f x"
  by (simp_all add: tx_bind_def)

lemma tx_bind_Inr_iff [tx_simps]: "tx_bind m f = Inr y \<longleftrightarrow> (\<exists>x. m = Inr x \<and> f x = Inr y)"
  by (cases m) simp_all

lemma tx_bind_Inl_iff [tx_simps]:
  "tx_bind m f = Inl e \<longleftrightarrow> m = Inl e \<or> (\<exists>x. m = Inr x \<and> f x = Inl e)"
  by (cases m) simp_all

lemma guard_Inr_iff [simp]: "guard b e = Inr u \<longleftrightarrow> b"
  by (simp add: guard_def)

lemma guard_Inl_iff [simp]: "guard b e = Inl e' \<longleftrightarrow> \<not> b \<and> e' = e"
  by (auto simp: guard_def)

lemma guard_True [simp]: "guard True e = Inr ()"
  by (simp add: guard_def)

lemma guard_False [simp]: "guard False e = Inl e"
  by (simp add: guard_def)

lemma from_row_Inr_iff [simp]: "from_row e r = Inr x \<longleftrightarrow> r = Some x"
  by (cases r) (simp_all add: from_row_def)

lemma from_row_Inl_iff [simp]: "from_row e r = Inl e' \<longleftrightarrow> r = None \<and> e' = e"
  by (cases r) (auto simp: from_row_def)

lemma from_row_simps [simp]:
  "from_row e None = Inl e"
  "from_row e (Some x) = Inr x"
  by (simp_all add: from_row_def)

lemma tx_bind_assoc: "tx_bind (tx_bind m f) g = tx_bind m (\<lambda>x. tx_bind (f x) g)"
  by (cases m) simp_all

text \<open>Running a loop body over a list, threading a state and stopping at the first error.\<close>

fun tx_fold :: "('a \<Rightarrow> 's \<Rightarrow> 'e + 's) \<Rightarrow> 'a list \<Rightarrow> 's \<Rightarrow> 'e + 's" where
  "tx_fold f [] s = Inr s"
| "tx_fold f (x # xs) s = tx_bind (f x s) (tx_fold f xs)"

lemma tx_fold_append: "tx_fold f (xs @ ys) s = tx_bind (tx_fold f xs s) (tx_fold f ys)"
  by (induction xs arbitrary: s) (simp_all add: tx_bind_assoc tx_bind_def split: sum.splits)

lemma tx_fold_invariant:
  assumes "tx_fold f xs s = Inr t" and "P s"
    and "\<And>x s t. x \<in> set xs \<Longrightarrow> P s \<Longrightarrow> f x s = Inr t \<Longrightarrow> P t"
  shows "P t"
  using assms by (induction xs arbitrary: s) (auto simp: tx_simps)

section \<open>Transactions\<close>

text \<open>
  A transaction body reads and writes the database \<open>'s\<close> and returns a value or an error; an error
  rolls everything back, so no state accompanies it.  \<open>and_then\<close> sequences two statements the way
  the Go code does with \<^verbatim>\<open>if err != nil { return err }\<close> between them.
\<close>

type_synonym ('s, 'e, 'a) tx = "'s \<Rightarrow> 'e + ('a \<times> 's)"

definition ret :: "'a \<Rightarrow> ('s, 'e, 'a) tx" where
  "ret x s = Inr (x, s)"

definition fail :: "'e \<Rightarrow> ('s, 'e, 'a) tx" where
  "fail e s = Inl e"

definition and_then :: "('s, 'e, 'a) tx \<Rightarrow> ('a \<Rightarrow> ('s, 'e, 'b) tx) \<Rightarrow> ('s, 'e, 'b) tx" where
  "and_then m f s = (case m s of Inl e \<Rightarrow> Inl e | Inr (x, t) \<Rightarrow> f x t)"

definition seq :: "('s, 'e, 'a) tx \<Rightarrow> ('s, 'e, 'b) tx \<Rightarrow> ('s, 'e, 'b) tx" where
  "seq m n = and_then m (\<lambda>_. n)"

text \<open>\<open>ensure b e\<close> is \<^verbatim>\<open>if !b { return e }\<close>; \<open>query f\<close> reads; \<open>query_row e f\<close> reads one row.\<close>

definition ensure :: "bool \<Rightarrow> 'e \<Rightarrow> ('s, 'e, unit) tx" where
  "ensure b e s = (if b then Inr ((), s) else Inl e)"

definition query :: "('s \<Rightarrow> 'a) \<Rightarrow> ('s, 'e, 'a) tx" where
  "query f s = Inr (f s, s)"

definition query_row :: "'e \<Rightarrow> ('s \<Rightarrow> 'a option) \<Rightarrow> ('s, 'e, 'a) tx" where
  "query_row e f s = (case f s of None \<Rightarrow> Inl e | Some x \<Rightarrow> Inr (x, s))"

definition lift_result :: "('d \<Rightarrow> 'e) \<Rightarrow> 'd + 'a \<Rightarrow> ('s, 'e, 'a) tx" where
  "lift_result f r s = (case r of Inl d \<Rightarrow> Inl (f d) | Inr x \<Rightarrow> Inr (x, s))"

text \<open>Running a transaction body over the elements of a list.\<close>

fun for_each :: "('a \<Rightarrow> ('s, 'e, unit) tx) \<Rightarrow> 'a list \<Rightarrow> ('s, 'e, unit) tx" where
  "for_each f [] = ret ()"
| "for_each f (x # xs) = seq (f x) (for_each f xs)"

lemma tx_apply [simp]:
  "ret x s = Inr (x, s)"
  "fail e s = Inl e"
  "query f s = Inr (f s, s)"
  by (simp_all add: ret_def fail_def query_def)

lemma ensure_Inr [tx_simps]: "ensure b e s = Inr (u, t) \<longleftrightarrow> b \<and> t = s"
  by (auto simp: ensure_def)

lemma ensure_Inl [tx_simps]: "ensure b e s = Inl e' \<longleftrightarrow> \<not> b \<and> e' = e"
  by (auto simp: ensure_def)

lemma query_row_Inr [tx_simps]: "query_row e f s = Inr (x, t) \<longleftrightarrow> f s = Some x \<and> t = s"
  by (auto simp: query_row_def split: option.splits)

lemma query_row_Inl [tx_simps]: "query_row e f s = Inl e' \<longleftrightarrow> f s = None \<and> e' = e"
  by (auto simp: query_row_def split: option.splits)

lemma lift_result_Inr [tx_simps]: "lift_result f r s = Inr (x, t) \<longleftrightarrow> r = Inr x \<and> t = s"
  by (auto simp: lift_result_def split: sum.splits)

lemma lift_result_Inl [tx_simps]: "lift_result f r s = Inl e \<longleftrightarrow> (\<exists>d. r = Inl d \<and> e = f d)"
  by (auto simp: lift_result_def split: sum.splits)

lemma and_then_Inr [tx_simps]:
  "and_then m f s = Inr (y, u) \<longleftrightarrow> (\<exists>x t. m s = Inr (x, t) \<and> f x t = Inr (y, u))"
  by (auto simp: and_then_def split: sum.splits)

lemma and_then_Inl [tx_simps]:
  "and_then m f s = Inl e \<longleftrightarrow> m s = Inl e \<or> (\<exists>x t. m s = Inr (x, t) \<and> f x t = Inl e)"
  by (auto simp: and_then_def split: sum.splits)

lemma seq_Inr [tx_simps]:
  "seq m n s = Inr (y, u) \<longleftrightarrow> (\<exists>x t. m s = Inr (x, t) \<and> n t = Inr (y, u))"
  by (auto simp: seq_def tx_simps)

lemma seq_Inl [tx_simps]:
  "seq m n s = Inl e \<longleftrightarrow> m s = Inl e \<or> (\<exists>x t. m s = Inr (x, t) \<and> n t = Inl e)"
  by (auto simp: seq_def tx_simps)

text \<open>
  The weakest precondition of a transaction: what must hold before it so that \<open>Q\<close> holds of its
  result and the state it leaves, if it does not fail.  The simplifier computes it through the
  guards and reads of a body and stops at the writes.
\<close>

definition wp :: "('s, 'e, 'a) tx \<Rightarrow> ('a \<Rightarrow> 's \<Rightarrow> bool) \<Rightarrow> 's \<Rightarrow> bool" where
  "wp m Q s \<longleftrightarrow> (\<forall>x t. m s = Inr (x, t) \<longrightarrow> Q x t)"

lemma wpD: "wp m Q s \<Longrightarrow> m s = Inr (x, t) \<Longrightarrow> Q x t"
  by (simp add: wp_def)

lemma wpI: "(\<And>x t. m s = Inr (x, t) \<Longrightarrow> Q x t) \<Longrightarrow> wp m Q s"
  by (simp add: wp_def)

lemma wp_mono: "wp m P s \<Longrightarrow> (\<And>x t. P x t \<Longrightarrow> Q x t) \<Longrightarrow> wp m Q s"
  by (simp add: wp_def)

lemma wp_basic [wp_simps]:
  "wp (ret v) Q = Q v"
  "wp (fail e) Q = (\<lambda>s. True)"
  "wp (ensure b e) P = (\<lambda>s. b \<longrightarrow> P () s)"
  "wp (query f) R = (\<lambda>s. R (f s) s)"
  "wp (query_row e g) T = (\<lambda>s. \<forall>x. g s = Some x \<longrightarrow> T x s)"
  "wp (lift_result h r) U = (\<lambda>s. \<forall>x. r = Inr x \<longrightarrow> U x s)"
  by (auto simp: fun_eq_iff wp_def tx_simps)

lemma wp_compound [wp_simps]:
  "wp (and_then m f) Q = wp m (\<lambda>x. wp (f x) Q)"
  "wp (seq n k) Q = wp n (\<lambda>_. wp k Q)"
  by (auto simp: fun_eq_iff wp_def tx_simps)

lemma wp_cases [wp_simps]:
  "wp (if b then m else n) Q = (\<lambda>s. (b \<longrightarrow> wp m Q s) \<and> (\<not> b \<longrightarrow> wp n Q s))"
  "wp (case x of None \<Rightarrow> m | Some v \<Rightarrow> f v) Q =
     (\<lambda>s. (x = None \<longrightarrow> wp m Q s) \<and> (\<forall>v. x = Some v \<longrightarrow> wp (f v) Q s))"
  "wp (case p of (a, b) \<Rightarrow> g a b) Q = wp (g (fst p) (snd p)) Q"
  by (cases b, simp_all) (cases x, simp_all, cases p, simp)

lemma wp_for_each:
  assumes "\<And>x s. x \<in> set xs \<Longrightarrow> I s \<Longrightarrow> wp (f x) (\<lambda>_. I) s" and "I s"
  shows "wp (for_each f xs) (\<lambda>_. I) s"
  using assms
proof (induction xs arbitrary: s)
  case (Cons x xs)
  have "wp (f x) (\<lambda>_. I) s" using Cons.prems by simp
  then have "wp (f x) (\<lambda>_. wp (for_each f xs) (\<lambda>_. I)) s"
    by (rule wp_mono) (use Cons.prems in \<open>auto intro: Cons.IH\<close>)
  then show ?case by (simp add: wp_simps)
qed (simp add: wp_simps)

text \<open>
  The interface a claim about whole transactions uses: a relation between the state before and
  after, closed under doing nothing and under sequencing.  What every statement keeps, every
  transaction made of such statements keeps.
\<close>

locale kept_relation =
  fixes R :: "'s \<Rightarrow> 's \<Rightarrow> bool"
  assumes refl: "R s s"
    and trans: "R s t \<Longrightarrow> R t u \<Longrightarrow> R s u"
begin

definition keeps :: "('s, 'e, 'a) tx \<Rightarrow> bool" where
  "keeps m \<longleftrightarrow> (\<forall>s x t. m s = Inr (x, t) \<longrightarrow> R s t)"

lemma keepsI: "(\<And>s x t. m s = Inr (x, t) \<Longrightarrow> R s t) \<Longrightarrow> keeps m"
  by (simp add: keeps_def)

lemma keepsD: "keeps m \<Longrightarrow> m s = Inr (x, t) \<Longrightarrow> R s t"
  by (auto simp: keeps_def)

lemma keeps_and_then: "keeps m \<Longrightarrow> (\<And>x. keeps (f x)) \<Longrightarrow> keeps (and_then m f)"
  unfolding keeps_def and_then_Inr using trans by blast

lemma keeps_seq: "keeps m \<Longrightarrow> keeps n \<Longrightarrow> keeps (seq m n)"
  unfolding seq_def by (rule keeps_and_then)

lemma keeps_reads:
  "keeps (ret v)" "keeps (fail e)" "keeps (ensure b e)" "keeps (query f)" "keeps (query_row e g)"
  "keeps (lift_result h r)"
  by (auto simp: keeps_def tx_simps intro: refl)

lemma keeps_if: "(b \<Longrightarrow> keeps m) \<Longrightarrow> (\<not> b \<Longrightarrow> keeps n) \<Longrightarrow> keeps (if b then m else n)"
  by simp

lemma keeps_option:
  "(x = None \<Longrightarrow> keeps m) \<Longrightarrow> (\<And>v. x = Some v \<Longrightarrow> keeps (f v)) \<Longrightarrow>
   keeps (case x of None \<Rightarrow> m | Some v \<Rightarrow> f v)"
  by (cases x) simp_all

lemma keeps_for_each: "(\<And>x. keeps (f x)) \<Longrightarrow> keeps (for_each f xs)"
  by (induction xs) (auto intro: keeps_reads keeps_seq)

lemma keeps_let: "keeps (f v) \<Longrightarrow> keeps (let x = v in f x)"
  by simp

lemma keeps_prod: "(\<And>a b. p = (a, b) \<Longrightarrow> keeps (f a b)) \<Longrightarrow> keeps (case p of (a, b) \<Rightarrow> f a b)"
  by (cases p) simp

lemmas keeps_intros = keeps_and_then keeps_seq keeps_reads keeps_if keeps_option keeps_for_each
  keeps_let keeps_prod

end

section \<open>Tables\<close>

text \<open>
  A database table is the list of its rows; \<open>select_row\<close> is a primary-key lookup and
  \<open>replace_row\<close> an \<^verbatim>\<open>UPDATE ... WHERE key = $1\<close> that stores the new version of the row.
\<close>

definition select_row :: "('r \<Rightarrow> 'k) \<Rightarrow> 'k \<Rightarrow> 'r list \<Rightarrow> 'r option" where
  "select_row key k rows = find (\<lambda>r. key r = k) rows"

definition replace_row :: "('r \<Rightarrow> 'k) \<Rightarrow> 'r \<Rightarrow> 'r list \<Rightarrow> 'r list" where
  "replace_row key r rows = map (\<lambda>q. if key q = key r then r else q) rows"

lemma select_row_simps [simp]:
  "select_row key k [] = None"
  "select_row key k (r # rows) = (if key r = k then Some r else select_row key k rows)"
  by (simp_all add: select_row_def)

lemma select_row_key: "select_row key k rows = Some r \<Longrightarrow> key r = k"
  by (induction rows) (auto split: if_splits)

lemma select_row_in: "select_row key k rows = Some r \<Longrightarrow> r \<in> set rows"
  by (induction rows) (auto split: if_splits)

lemma select_row_None: "select_row key k rows = None \<longleftrightarrow> k \<notin> key ` set rows"
  by (induction rows) auto

lemma select_row_of_mem:
  "distinct (map key rows) \<Longrightarrow> r \<in> set rows \<Longrightarrow> select_row key (key r) rows = Some r"
  by (induction rows) (auto simp: image_iff)

lemma select_row_append:
  "select_row key k (xs @ ys) =
     (case select_row key k xs of None \<Rightarrow> select_row key k ys | Some r \<Rightarrow> Some r)"
  by (induction xs) auto

lemma keys_replace_row [simp]: "map key (replace_row key r rows) = map key rows"
  by (simp add: replace_row_def)

lemma length_replace_row [simp]: "length (replace_row key r rows) = length rows"
  by (simp add: replace_row_def)

lemma select_replace_row:
  "select_row key (key r) rows \<noteq> None \<Longrightarrow>
   select_row key k (replace_row key r rows) = (if k = key r then Some r else select_row key k rows)"
proof (induction rows)
  case Nil
  then show ?case by simp
next
  case (Cons q rows)
  show ?case
  proof (cases "key q = key r")
    case True
    have "k \<noteq> key r \<Longrightarrow> select_row key k (replace_row key r rows) = select_row key k rows" for k
      by (induction rows) (auto simp: replace_row_def)
    with True show ?thesis by (auto simp: replace_row_def)
  next
    case False
    with Cons show ?thesis by (auto simp: replace_row_def)
  qed
qed

lemma set_replace_row:
  "q \<in> set (replace_row key r rows) \<Longrightarrow> q = r \<or> (q \<in> set rows \<and> key q \<noteq> key r)"
  by (auto simp: replace_row_def split: if_splits)

lemma replace_row_other: "q \<in> set rows \<Longrightarrow> key q \<noteq> key r \<Longrightarrow> q \<in> set (replace_row key r rows)"
  by (force simp: replace_row_def)

lemma replace_row_mem: "k \<in> key ` set rows \<Longrightarrow> key r = k \<Longrightarrow> r \<in> set (replace_row key r rows)"
  by (force simp: replace_row_def)

text \<open>
  Every row of \<open>s\<close> is still there in \<open>t\<close>, related to its later version by \<open>F\<close>.
\<close>

definition rows_follow ::
  "('k \<Rightarrow> 's \<Rightarrow> 'r option) \<Rightarrow> ('r \<Rightarrow> 'r \<Rightarrow> bool) \<Rightarrow> 's \<Rightarrow> 's \<Rightarrow> bool" where
  "rows_follow get F s t \<longleftrightarrow> (\<forall>k r. get k s = Some r \<longrightarrow> (\<exists>q. get k t = Some q \<and> F r q))"

lemma rows_followD: "rows_follow get F s t \<Longrightarrow> get k s = Some r \<Longrightarrow> \<exists>q. get k t = Some q \<and> F r q"
  by (auto simp: rows_follow_def)

lemma rows_follow_refl: "(\<And>r. F r r) \<Longrightarrow> rows_follow get F s s"
  by (auto simp: rows_follow_def)

lemma rows_follow_same: "(\<And>r. F r r) \<Longrightarrow> (\<And>k. get k t = get k s) \<Longrightarrow> rows_follow get F s t"
  by (auto simp: rows_follow_def)

lemma rows_follow_trans:
  assumes "rows_follow get F s t" and "rows_follow get F t u" and "\<And>p q r. F p q \<Longrightarrow> F q r \<Longrightarrow> F p r"
  shows "rows_follow get F s u"
  using assms unfolding rows_follow_def by metis

text \<open>
  \<^verbatim>\<open>UPDATE t SET ... WHERE key = k AND p\<close>: no matching row is no error and affects zero rows;
  otherwise the table's trigger and CHECK constraints judge the old and the new row.  The result
  carries the number of affected rows (\<^verbatim>\<open>RowsAffected\<close>).
\<close>

definition update_row ::
  "('k \<Rightarrow> 's \<Rightarrow> 'r option) \<Rightarrow> ('r \<Rightarrow> 's \<Rightarrow> 's) \<Rightarrow> ('s \<Rightarrow> 'r \<Rightarrow> 'r \<Rightarrow> 'e option) \<Rightarrow>
   'k \<Rightarrow> ('r \<Rightarrow> bool) \<Rightarrow> ('r \<Rightarrow> 'r) \<Rightarrow> 's \<Rightarrow> 'e + (nat \<times> 's)" where
  "update_row get put chk k p f s =
     (case get k s of
        None \<Rightarrow> Inr (0, s)
      | Some r \<Rightarrow>
          if p r then (case chk s r (f r) of Some e \<Rightarrow> Inl e | None \<Rightarrow> Inr (1, put (f r) s))
          else Inr (0, s))"

lemma update_row_Inr [tx_simps]:
  "update_row get put chk k p f s = Inr (n, t) \<longleftrightarrow>
     (case get k s of
        None \<Rightarrow> n = 0 \<and> t = s
      | Some r \<Rightarrow> if p r then chk s r (f r) = None \<and> n = 1 \<and> t = put (f r) s else n = 0 \<and> t = s)"
  by (auto simp: update_row_def split: option.splits)

lemma update_row_one:
  assumes "update_row get put chk k p f s = Inr (n, t)" and "n = 1"
  obtains r where "get k s = Some r" "p r" "chk s r (f r) = None" "t = put (f r) s"
  using assms by (cases "get k s") (auto simp: update_row_def split: if_splits option.splits)

text \<open>
  The interface a component sees of one table inside the database state: a lookup by key, a
  replacement of an existing row and an insertion.  The laws are what SQL promises of a
  primary key; the lemmas are what the operations of the lease repository use.
\<close>

locale table_store =
  fixes rows :: "'s \<Rightarrow> 'r list"
    and get :: "'k \<Rightarrow> 's \<Rightarrow> 'r option"
    and put :: "'r \<Rightarrow> 's \<Rightarrow> 's"
    and key :: "'r \<Rightarrow> 'k"
  assumes get_rows: "get k s = select_row key k (rows s)"
    and rows_put: "rows (put r s) = replace_row key r (rows s)"
begin

lemma get_key: "get k s = Some r \<Longrightarrow> key r = k"
  unfolding get_rows by (rule select_row_key)

lemma get_mem: "get k s = Some r \<Longrightarrow> r \<in> set (rows s)"
  unfolding get_rows by (rule select_row_in)

lemma get_put: "get (key r) s \<noteq> None \<Longrightarrow> get k (put r s) = (if k = key r then Some r else get k s)"
  unfolding get_rows rows_put by (rule select_replace_row)

lemma get_put_same: "get k s = Some q \<Longrightarrow> key r = k \<Longrightarrow> get k (put r s) = Some r"
  using get_put [of r s k] by simp

lemma get_put_other: "get (key r) s = Some q \<Longrightarrow> k \<noteq> key r \<Longrightarrow> get k (put r s) = get k s"
  using get_put [of r s k] by simp

lemma mem_put: "q \<in> set (rows (put r s)) \<Longrightarrow> q = r \<or> (q \<in> set (rows s) \<and> key q \<noteq> key r)"
  unfolding rows_put by (rule set_replace_row)

lemma mem_put_self: "get (key r) s = Some q \<Longrightarrow> r \<in> set (rows (put r s))"
  using get_put_same [of "key r" s q r] get_mem by blast

lemma mem_put_other: "q \<in> set (rows s) \<Longrightarrow> key q \<noteq> key r \<Longrightarrow> q \<in> set (rows (put r s))"
  unfolding rows_put by (rule replace_row_other)

lemma keys_put: "map key (rows (put r s)) = map key (rows s)"
  by (simp add: rows_put)

lemma put_follows:
  "(\<And>q. F q q) \<Longrightarrow> get (key r) s = Some p \<Longrightarrow> F p r \<Longrightarrow> rows_follow get F s (put r s)"
  using get_put [of r s] by (auto simp: rows_follow_def)

lemma append_follows:
  "(\<And>q. F q q) \<Longrightarrow> rows t = rows s @ qs \<Longrightarrow> rows_follow get F s t"
  by (auto simp: rows_follow_def get_rows select_row_append split: option.splits)

text \<open>An UPDATE either changes nothing or replaces one row by a version its rules accept.\<close>

lemma update_cases:
  assumes "update_row get put chk k p f s = Inr (n, t)"
    and "\<And>s r q. chk s r q = None \<Longrightarrow> key q = key r"
  obtains (none) "n = 0" and "t = s"
  | (one) r where "get k s = Some r" and "get (key (f r)) s = Some r" and "key (f r) = k" and "p r"
      and "chk s r (f r) = None" and "n = 1" and "t = put (f r) s"
proof (cases "get k s")
  case None
  with assms(1) none show ?thesis by (simp add: update_row_def)
next
  case (Some r)
  with assms none one [of r] get_key [OF Some] show ?thesis
    by (fastforce simp: update_row_def split: if_splits option.splits)
qed

lemma get_of_mem: "distinct (map key (rows s)) \<Longrightarrow> q \<in> set (rows s) \<Longrightarrow> get (key q) s = Some q"
  unfolding get_rows by (rule select_row_of_mem)

end

text \<open>A partial unique index: among the rows that count, the indexed column determines the key.\<close>

definition indexed_by :: "('r \<Rightarrow> bool) \<Rightarrow> ('r \<Rightarrow> 'c) \<Rightarrow> ('r \<Rightarrow> 'k) \<Rightarrow> 'r list \<Rightarrow> bool" where
  "indexed_by counts column key rows \<longleftrightarrow>
     (\<forall>p \<in> set rows. \<forall>q \<in> set rows. counts p \<longrightarrow> counts q \<longrightarrow> column p = column q \<longrightarrow> key p = key q)"

lemma indexed_by_write:
  assumes old: "indexed_by counts column key rows"
    and new: "\<And>q. q \<in> set rows' \<Longrightarrow> q = r \<or> q \<in> set rows"
    and free: "\<And>q. q \<in> set rows \<Longrightarrow> counts r \<Longrightarrow> key q \<noteq> key r \<Longrightarrow> counts q \<Longrightarrow> column q \<noteq> column r"
  shows "indexed_by counts column key rows'"
  unfolding indexed_by_def
proof (intro ballI impI)
  fix p q assume m: "p \<in> set rows'" "q \<in> set rows'" and c: "counts p" "counts q" "column p = column q"
  from new [OF m(1)] new [OF m(2)] consider "p = r" "q = r"
    | "p = r" "q \<in> set rows" | "q = r" "p \<in> set rows"
    | "p \<in> set rows" "q \<in> set rows" by blast
  then show "key p = key q"
    by cases (use c free [of p] free [of q] old in \<open>(metis indexed_by_def)+\<close>)
qed

section \<open>Go's signed 64-bit arithmetic\<close>

text \<open>\<^verbatim>\<open>int64\<close> results are reduced modulo \<open>2 ^ 64\<close> into \<open>[-2 ^ 63, 2 ^ 63)\<close>.\<close>

definition wrap64 :: "int \<Rightarrow> int" where
  "wrap64 x = (x + 2 ^ 63) mod 2 ^ 64 - 2 ^ 63"

lemma wrap64_id: "- (2 ^ 63) \<le> x \<Longrightarrow> x < 2 ^ 63 \<Longrightarrow> wrap64 x = x"
  by (simp add: wrap64_def)

lemma wrap64_range: "- (2 ^ 63) \<le> wrap64 x \<and> wrap64 x < 2 ^ 63"
  using pos_mod_bound [of "2 ^ 64" "x + 2 ^ 63"] pos_mod_sign [of "2 ^ 64" "x + 2 ^ 63"]
  by (simp add: wrap64_def)

section \<open>Decimal printing\<close>

definition digit_char :: "nat \<Rightarrow> char" where
  "digit_char d = char_of (48 + d)"

fun nat_digits :: "nat \<Rightarrow> string" where
  "nat_digits n = (if n < 10 then [digit_char n] else nat_digits (n div 10) @ [digit_char (n mod 10)])"

declare nat_digits.simps [simp del]

text \<open>\<^verbatim>\<open>strconv.Itoa\<close> and \<^verbatim>\<open>strconv.FormatInt(_, 10)\<close>.\<close>

definition itoa :: "int \<Rightarrow> string" where
  "itoa i = (if i < 0 then CHR ''-'' # nat_digits (nat (- i)) else nat_digits (nat i))"

definition char_digit :: "char \<Rightarrow> nat" where
  "char_digit c = of_char c - 48"

definition digits_value :: "string \<Rightarrow> nat" where
  "digits_value cs = foldl (\<lambda>acc c. acc * 10 + char_digit c) 0 cs"

lemma char_digit_digit_char [simp]: "d < 10 \<Longrightarrow> char_digit (digit_char d) = d"
  by (simp add: char_digit_def digit_char_def)

lemma digits_value_snoc: "digits_value (cs @ [c]) = digits_value cs * 10 + char_digit c"
  by (simp add: digits_value_def)

lemma digits_value_nat_digits: "digits_value (nat_digits n) = n"
proof (induction n rule: nat_digits.induct)
  case (1 n)
  show ?case
  proof (cases "n < 10")
    case True
    then show ?thesis by (simp add: nat_digits.simps [of n] digits_value_def)
  next
    case False
    with "1" show ?thesis by (simp add: nat_digits.simps [of n] digits_value_snoc)
  qed
qed

lemma nat_digits_inject: "nat_digits m = nat_digits n \<longleftrightarrow> m = n"
  by (metis digits_value_nat_digits)

lemma nat_digits_range: "c \<in> set (nat_digits n) \<Longrightarrow> 48 \<le> (of_char c :: nat) \<and> (of_char c :: nat) < 58"
proof (induction n rule: nat_digits.induct)
  case (1 n)
  then show ?case
    by (cases "n < 10") (auto simp: nat_digits.simps [of n] digit_char_def)
qed

lemma nat_digits_nonempty [simp]: "nat_digits n \<noteq> []"
  by (simp add: nat_digits.simps [of n])

lemma minus_not_digit: "CHR ''-'' \<notin> set (nat_digits n)"
  using nat_digits_range by fastforce

lemma colon_not_digit: "CHR '':'' \<notin> set (nat_digits n)"
  using nat_digits_range by fastforce

lemma itoa_inject: "itoa i = itoa j \<longleftrightarrow> i = j"
proof
  assume eq: "itoa i = itoa j"
  have no: "CHR ''-'' # ds = nat_digits n \<Longrightarrow> False" for ds n
    using minus_not_digit [of n] by (metis list.set_intros(1))
  from eq no show "i = j"
    by (auto simp: itoa_def nat_digits_inject split: if_splits dest: sym)
qed simp

section \<open>Length-prefixed concatenation\<close>

text \<open>
  The canonical encoding under \<^verbatim>\<open>payloadDigest\<close> and \<^verbatim>\<open>computeConfigDigest\<close>: every part is
  written as its decimal byte length, a colon and the bytes.
\<close>

fun encode_parts :: "string list \<Rightarrow> string" where
  "encode_parts [] = []"
| "encode_parts (p # ps) = itoa (int (length p)) @ CHR '':'' # p @ encode_parts ps"

lemma split_at_separator:
  assumes "xs @ c # ys = us @ c # vs" and "c \<notin> set xs" and "c \<notin> set us"
  shows "xs = us \<and> ys = vs"
  using assms
proof (induction xs arbitrary: us)
  case Nil
  then show ?case by (cases us) auto
next
  case (Cons x xs)
  then show ?case by (cases us) auto
qed

lemma encode_parts_inject: "encode_parts ps = encode_parts qs \<longleftrightarrow> ps = qs"
proof
  show "encode_parts ps = encode_parts qs \<Longrightarrow> ps = qs"
  proof (induction ps arbitrary: qs)
    case Nil
    then show ?case by (cases qs) auto
  next
    case (Cons p ps)
    from Cons.prems obtain q qs' where qs: "qs = q # qs'" by (cases qs) auto
    have sep: "nat_digits (length p) = nat_digits (length q) \<and> p @ encode_parts ps = q @ encode_parts qs'"
      by (rule split_at_separator [where c = "CHR '':''"])
        (use Cons.prems qs colon_not_digit in \<open>simp_all add: itoa_def\<close>)
    then have "length p = length q" by (simp add: nat_digits_inject)
    with sep have "p = q" and "encode_parts ps = encode_parts qs'" by simp_all
    with Cons.IH qs show ?case by simp
  qed
qed simp

end
