(* ===== verification/Deployment.thy ===== *)
theory Deployment
  imports Prelude "HOL-Library.Word"
begin

text \<open>
  The deployment aggregate of \<^verbatim>\<open>internal/deployment/deployment.go\<close>: its lifecycle statuses, the
  constructor \<open>New\<close>, the persistence pair \<open>Snapshot\<close>/\<open>Rehydrate\<close>, the \<open>Transition\<close> method and the
  predicates of the execution path.  A \<^verbatim>\<open>time.Time\<close> is the number of nanoseconds since Go's zero
  time, so \<^verbatim>\<open>IsZero\<close> is \<open>t = 0\<close>, \<^verbatim>\<open>Before\<close> is \<open><\<close>; the location of a time does not influence any
  of the comparisons made here.  \<^verbatim>\<open>Revision\<close> is a 64-bit word, as in the source.
\<close>

section \<open>Statuses\<close>

text \<open>
  \<^verbatim>\<open>type Status string\<close>: the twelve named constants, and \<open>StatusOther\<close> for every other string a
  persisted row or a caller may carry (the empty string included).
\<close>

datatype status =
    StatusQueued | StatusAssigned | StatusFetching | StatusBuilding | StatusStarting
  | StatusHealthChecking | StatusActivating | StatusHealthy | StatusFailed | StatusCancelled
  | StatusSuperseded | StatusRolledBack | StatusOther string

abbreviation no_status :: status where
  "no_status \<equiv> StatusOther []"

fun isKnownStatus :: "status \<Rightarrow> bool" where
  "isKnownStatus (StatusOther s) = False"
| "isKnownStatus s = True"

fun isTerminal :: "status \<Rightarrow> bool" where
  "isTerminal StatusFailed = True"
| "isTerminal StatusCancelled = True"
| "isTerminal StatusSuperseded = True"
| "isTerminal StatusRolledBack = True"
| "isTerminal s = False"

fun canTransition :: "status \<Rightarrow> status \<Rightarrow> bool" where
  "canTransition StatusQueued t = (t \<in> {StatusAssigned, StatusCancelled, StatusSuperseded})"
| "canTransition StatusAssigned t = (t \<in> {StatusFetching, StatusCancelled, StatusFailed})"
| "canTransition StatusFetching t = (t \<in> {StatusBuilding, StatusCancelled, StatusFailed})"
| "canTransition StatusBuilding t = (t \<in> {StatusStarting, StatusCancelled, StatusFailed})"
| "canTransition StatusStarting t = (t \<in> {StatusHealthChecking, StatusCancelled, StatusFailed})"
| "canTransition StatusHealthChecking t = (t \<in> {StatusActivating, StatusCancelled, StatusFailed})"
| "canTransition StatusActivating t = (t \<in> {StatusHealthy, StatusFailed})"
| "canTransition StatusHealthy t = (t = StatusRolledBack)"
| "canTransition s t = False"

fun AgentReportablePhase :: "status \<Rightarrow> bool" where
  "AgentReportablePhase StatusFetching = True"
| "AgentReportablePhase StatusBuilding = True"
| "AgentReportablePhase StatusStarting = True"
| "AgentReportablePhase StatusHealthChecking = True"
| "AgentReportablePhase s = False"

text \<open>The pair \<^verbatim>\<open>(int, bool)\<close> of the source is an option here: \<open>None\<close> is \<^verbatim>\<open>(0, false)\<close>.\<close>

fun ExecutionOrder :: "status \<Rightarrow> int option" where
  "ExecutionOrder StatusQueued = Some 0"
| "ExecutionOrder StatusAssigned = Some 1"
| "ExecutionOrder StatusFetching = Some 2"
| "ExecutionOrder StatusBuilding = Some 3"
| "ExecutionOrder StatusStarting = Some 4"
| "ExecutionOrder StatusHealthChecking = Some 5"
| "ExecutionOrder StatusActivating = Some 6"
| "ExecutionOrder StatusHealthy = Some 7"
| "ExecutionOrder s = None"

section \<open>The aggregate\<close>

record identity =
  id_deployment :: string
  id_project :: string
  id_environment :: string
  id_server :: string
  id_commit :: string

record event =
  ev_from :: status
  ev_to :: status
  ev_at :: int

record snapshot =
  snap_version :: "16 word"
  snap_identity :: identity
  snap_status :: status
  snap_created :: int
  snap_updated :: int
  snap_revision :: "64 word"
  snap_events :: "event list"

record deployment =
  dep_identity :: identity
  dep_status :: status
  dep_created :: int
  dep_updated :: int
  dep_revision :: "64 word"
  dep_events :: "event list"

text \<open>
  An error value is the chain of what \<^verbatim>\<open>fmt.Errorf\<close> wrapped with \<^verbatim>\<open>%w\<close>, outermost first;
  \<^verbatim>\<open>errors.Is\<close> is membership.  \<open>ErrText\<close> stands for an \<^verbatim>\<open>errors.New\<close> value made on the spot.
\<close>

datatype deployment_error =
    ErrInvalidDeployment | ErrInvalidSnapshot | ErrUnknownStatus | ErrInvalidTransition
  | ErrTerminalState | ErrInvalidTimestamp | ErrText string

type_synonym dep_err = "deployment_error list"

definition CurrentSchemaVersion :: "16 word" where
  "CurrentSchemaVersion = 1"

definition canonicalTime :: "int \<Rightarrow> int" where
  "canonicalTime t = t - t mod 1000"

definition validateIdentity :: "identity \<Rightarrow> dep_err option" where
  "validateIdentity i =
     (if id_deployment i = [] then Some [ErrText ''deployment ID is required'']
      else if id_project i = [] then Some [ErrText ''project ID is required'']
      else if id_environment i = [] then Some [ErrText ''environment ID is required'']
      else if id_server i = [] then Some [ErrText ''server ID is required'']
      else if id_commit i = [] then Some [ErrText ''commit SHA is required'']
      else None)"

text \<open>The event loop of \<^verbatim>\<open>validate\<close>, with its two loop variables.\<close>

fun validateEvents :: "status \<Rightarrow> int \<Rightarrow> event list \<Rightarrow> dep_err + (status \<times> int)" where
  "validateEvents current previousAt [] = Inr (current, previousAt)"
| "validateEvents current previousAt (e # es) =
     (if ev_at e = 0 \<or> ev_at e < previousAt
      then Inl [ErrText ''event timestamp precedes prior event'']
      else if ev_from e \<noteq> current \<or> \<not> isKnownStatus (ev_to e) \<or> \<not> canTransition current (ev_to e)
      then Inl [ErrText ''invalid event transition'']
      else validateEvents (ev_to e) (ev_at e) es)"

definition validate :: "deployment \<Rightarrow> dep_err option" where
  "validate d =
     (case validateIdentity (dep_identity d) of
        Some e \<Rightarrow> Some e
      | None \<Rightarrow>
          if \<not> isKnownStatus (dep_status d) then Some [ErrUnknownStatus]
          else if dep_created d = 0 \<or> dep_updated d = 0 \<or> dep_updated d < dep_created d
          then Some [ErrText ''invalid deployment timestamps'']
          else if dep_revision d = 0 \<or> dep_revision d \<noteq> of_nat (length (dep_events d))
          then Some [ErrText ''revision must equal event count'']
          else (case dep_events d of
              [] \<Rightarrow> Some [ErrText ''creation event is required'']
            | first # rest \<Rightarrow>
                if ev_from first \<noteq> no_status \<or> ev_to first \<noteq> StatusQueued
                   \<or> ev_at first \<noteq> dep_created d
                then Some [ErrText ''invalid creation event'']
                else (case validateEvents StatusQueued (dep_created d) rest of
                    Inl e \<Rightarrow> Some e
                  | Inr (current, previousAt) \<Rightarrow>
                      if current \<noteq> dep_status d \<or> previousAt \<noteq> dep_updated d
                      then Some [ErrText ''status or updated timestamp disagrees with events'']
                      else None)))"

definition New :: "identity \<Rightarrow> int \<Rightarrow> dep_err + deployment" where
  "New i createdAt =
     (case validateIdentity i of
        Some e \<Rightarrow> Inl [ErrInvalidDeployment]
      | None \<Rightarrow>
          if createdAt = 0 then Inl [ErrInvalidDeployment]
          else let at = canonicalTime createdAt in
            Inr \<lparr>dep_identity = i, dep_status = StatusQueued, dep_created = at, dep_updated = at,
                 dep_revision = 1,
                 dep_events = [\<lparr>ev_from = no_status, ev_to = StatusQueued, ev_at = at\<rparr>]\<rparr>)"

definition Rehydrate :: "snapshot \<Rightarrow> dep_err + deployment" where
  "Rehydrate s =
     (if snap_version s \<noteq> CurrentSchemaVersion then Inl [ErrInvalidSnapshot]
      else let d = \<lparr>dep_identity = snap_identity s, dep_status = snap_status s,
                    dep_created = canonicalTime (snap_created s),
                    dep_updated = canonicalTime (snap_updated s),
                    dep_revision = snap_revision s,
                    dep_events = map (\<lambda>e. e\<lparr>ev_at := canonicalTime (ev_at e)\<rparr>) (snap_events s)\<rparr>
           in (case validate d of Some e \<Rightarrow> Inl (ErrInvalidSnapshot # e) | None \<Rightarrow> Inr d))"

definition Snapshot :: "deployment \<Rightarrow> dep_err + snapshot" where
  "Snapshot d =
     (case validate d of
        Some e \<Rightarrow> Inl (ErrInvalidDeployment # e)
      | None \<Rightarrow> Inr \<lparr>snap_version = CurrentSchemaVersion, snap_identity = dep_identity d,
                     snap_status = dep_status d, snap_created = dep_created d,
                     snap_updated = dep_updated d, snap_revision = dep_revision d,
                     snap_events = dep_events d\<rparr>)"

text \<open>On an error the source also returns the unchanged receiver, which \<open>Inl\<close> leaves implicit.\<close>

definition Transition :: "deployment \<Rightarrow> status \<Rightarrow> int \<Rightarrow> dep_err + deployment" where
  "Transition d tgt at0 =
     (case validate d of
        Some e \<Rightarrow> Inl (ErrInvalidDeployment # e)
      | None \<Rightarrow>
          if \<not> isKnownStatus tgt then Inl [ErrUnknownStatus]
          else if tgt = dep_status d then Inr d
          else let at = canonicalTime at0 in
            if at = 0 \<or> at < dep_updated d then Inl [ErrInvalidTimestamp]
            else if isTerminal (dep_status d) then Inl [ErrTerminalState]
            else if \<not> canTransition (dep_status d) tgt then Inl [ErrInvalidTransition]
            else Inr (d\<lparr>dep_status := tgt, dep_updated := at, dep_revision := dep_revision d + 1,
                        dep_events := dep_events d @
                          [\<lparr>ev_from = dep_status d, ev_to = tgt, ev_at = at\<rparr>]\<rparr>))"

section \<open>The lifecycle graph is acyclic\<close>

text \<open>A rank that every legal transition increases: the longest legal history has nine events.\<close>

fun status_rank :: "status \<Rightarrow> nat" where
  "status_rank StatusQueued = 0"
| "status_rank StatusAssigned = 1"
| "status_rank StatusFetching = 2"
| "status_rank StatusBuilding = 3"
| "status_rank StatusStarting = 4"
| "status_rank StatusHealthChecking = 5"
| "status_rank StatusActivating = 6"
| "status_rank StatusHealthy = 7"
| "status_rank s = 8"

lemma canTransition_rank: "canTransition s t \<Longrightarrow> status_rank s < status_rank t"
  by (cases s) auto

lemma status_rank_le: "status_rank s \<le> 8"
  by (cases s) auto

lemma canTransition_known: "canTransition s t \<Longrightarrow> isKnownStatus s \<and> isKnownStatus t"
  by (cases s) auto

lemma canTransition_not_terminal: "canTransition s t \<Longrightarrow> \<not> isTerminal s"
  by (cases s) auto

lemma canTransition_irrefl: "\<not> canTransition s s"
  using canTransition_rank [of s s] by blast

lemma ExecutionOrder_step:
  "canTransition s t \<Longrightarrow> ExecutionOrder s = Some i \<Longrightarrow> ExecutionOrder t = Some j \<Longrightarrow> j = i + 1"
  by (cases s) auto

lemma validateEvents_snoc:
  "validateEvents c t (es @ [e]) =
     tx_bind (validateEvents c t es) (\<lambda>(c', t'). validateEvents c' t' [e])"
  by (induction es arbitrary: c t) auto

lemma validateEvents_bound:
  "validateEvents c t es = Inr (c', t') \<Longrightarrow> length es + status_rank c \<le> status_rank c'"
proof (induction es arbitrary: c t)
  case (Cons e es)
  then have "length es + status_rank (ev_to e) \<le> status_rank c'" and "canTransition c (ev_to e)"
    by (auto split: if_splits)
  then show ?case using canTransition_rank [of c "ev_to e"] by simp
qed simp

lemma validateEvents_times: "validateEvents c t es = Inr (c', t') \<Longrightarrow> t \<le> t'"
  by (induction es arbitrary: c t) (fastforce split: if_splits)+

lemma validateEvents_known:
  "isKnownStatus c \<Longrightarrow> validateEvents c t es = Inr (c', t') \<Longrightarrow> isKnownStatus c'"
  by (induction es arbitrary: c t) (auto split: if_splits)

lemma validateEvents_sorted:
  "validateEvents c t es = Inr (c', t') \<Longrightarrow> sorted (t # map ev_at es @ [t'])"
proof (induction es arbitrary: c t)
  case (Cons e es)
  then have "sorted (ev_at e # map ev_at es @ [t'])" and "t \<le> ev_at e"
    by (auto split: if_splits)
  then show ?case by auto
qed simp

section \<open>Shape of a valid aggregate\<close>

definition creation_event :: "int \<Rightarrow> event" where
  "creation_event at = \<lparr>ev_from = no_status, ev_to = StatusQueued, ev_at = at\<rparr>"

lemma of_nat_word_0: "(of_nat n :: 64 word) = 0 \<and> n < 2 ^ 64 \<Longrightarrow> n = 0"
  by (auto simp: word_of_nat_eq_0_iff dest: dvd_imp_le)

text \<open>
  \<open>validate\<close> accepts exactly the histories that start with the creation event, follow the
  lifecycle graph with times that never go back, and agree with the head fields.
\<close>

lemma validate_None_iff:
  "validate d = None \<longleftrightarrow>
     validateIdentity (dep_identity d) = None \<and>
     dep_created d \<noteq> 0 \<and> dep_updated d \<noteq> 0 \<and>
     dep_revision d = of_nat (length (dep_events d)) \<and>
     (\<exists>es. dep_events d = creation_event (dep_created d) # es \<and>
           validateEvents StatusQueued (dep_created d) es = Inr (dep_status d, dep_updated d))"
  (is "?L = ?R")
proof
  assume L: ?L
  then obtain f es where es: "dep_events d = f # es" and
    f: "ev_from f = no_status" "ev_to f = StatusQueued" "ev_at f = dep_created d" and
    run: "validateEvents StatusQueued (dep_created d) es = Inr (dep_status d, dep_updated d)"
    by (auto simp: validate_def split: option.splits if_splits list.splits sum.splits)
  from f have "f = creation_event (dep_created d)" by (simp add: creation_event_def)
  with L es run show ?R
    by (auto simp: validate_def split: option.splits if_splits list.splits sum.splits)
next
  assume R: ?R
  then obtain es where es: "dep_events d = creation_event (dep_created d) # es" and
    run: "validateEvents StatusQueued (dep_created d) es = Inr (dep_status d, dep_updated d)"
    by blast
  have "length es \<le> 8"
    using validateEvents_bound [OF run] status_rank_le [of "dep_status d"] by simp
  then have "(of_nat (length (dep_events d)) :: 64 word) \<noteq> 0"
    using of_nat_word_0 [of "length (dep_events d)"] es by auto
  moreover have "isKnownStatus (dep_status d)"
    using validateEvents_known [OF _ run] by simp
  moreover have "dep_created d \<le> dep_updated d" using validateEvents_times [OF run] .
  ultimately show ?L
    using R es run by (auto simp: validate_def creation_event_def)
qed

lemma valid_history_bound: "validate d = None \<Longrightarrow> length (dep_events d) \<le> 9"
  using validateEvents_bound status_rank_le [of "dep_status d"]
  by (fastforce simp: validate_None_iff)

lemma valid_known: "validate d = None \<Longrightarrow> isKnownStatus (dep_status d)"
  by (auto simp: validate_None_iff dest: validateEvents_known [rotated])


section \<open>Building and replaying aggregates\<close>

text \<open>Every timestamp an aggregate made by this package carries is on a microsecond boundary.\<close>

definition canonical :: "deployment \<Rightarrow> bool" where
  "canonical d \<longleftrightarrow> canonicalTime (dep_created d) = dep_created d \<and>
     canonicalTime (dep_updated d) = dep_updated d \<and>
     (\<forall>e \<in> set (dep_events d). canonicalTime (ev_at e) = ev_at e)"

lemma canonicalTime_alt: "canonicalTime t = 1000 * (t div 1000)"
  unfolding canonicalTime_def by (rule minus_mod_eq_mult_div)

lemma canonicalTime_idem [simp]: "canonicalTime (canonicalTime t) = canonicalTime t"
  by (simp add: canonicalTime_alt)

lemma canonicalTime_le: "canonicalTime t \<le> t"
  by (simp add: canonicalTime_def)

lemma canonicalTime_mono: "s \<le> t \<Longrightarrow> canonicalTime s \<le> canonicalTime t"
  using zdiv_mono1 [of s t 1000] by (simp add: canonicalTime_alt)

lemma canonicalTime_zero_iff: "canonicalTime t = 0 \<longleftrightarrow> 0 \<le> t \<and> t < 1000"
  by (auto simp: canonicalTime_alt div_pos_pos_trivial div_int_pos_iff zdiv_eq_0_iff)

lemma Transition_Inr_iff:
  "Transition d t at = Inr d' \<longleftrightarrow>
     validate d = None \<and> isKnownStatus t \<and>
     (t = dep_status d \<and> d' = d \<or>
      t \<noteq> dep_status d \<and> canTransition (dep_status d) t \<and> canonicalTime at \<noteq> 0 \<and>
      dep_updated d \<le> canonicalTime at \<and>
      d' = d\<lparr>dep_status := t, dep_updated := canonicalTime at, dep_revision := dep_revision d + 1,
             dep_events := dep_events d @
               [\<lparr>ev_from = dep_status d, ev_to = t, ev_at = canonicalTime at\<rparr>]\<rparr>)"
  by (auto simp: Transition_def Let_def dest: canTransition_not_terminal split: option.splits if_splits)

lemma Transition_valid: "Transition d t at = Inr d' \<Longrightarrow> validate d' = None"
proof (cases "t = dep_status d")
  case True
  assume "Transition d t at = Inr d'"
  with True show ?thesis by (auto simp: Transition_Inr_iff)
next
  case False
  assume tr: "Transition d t at = Inr d'"
  from tr obtain es where es: "dep_events d = creation_event (dep_created d) # es"
    and run: "validateEvents StatusQueued (dep_created d) es = Inr (dep_status d, dep_updated d)"
    by (auto simp: Transition_Inr_iff validate_None_iff)
  let ?e = "\<lparr>ev_from = dep_status d, ev_to = t, ev_at = canonicalTime at\<rparr>"
  have "validateEvents StatusQueued (dep_created d) (es @ [?e]) = Inr (t, canonicalTime at)"
    using tr False run by (simp add: validateEvents_snoc Transition_Inr_iff)
  with tr False es show ?thesis
    by (auto simp: Transition_Inr_iff validate_None_iff)
qed

lemma Transition_canonical: "Transition d t at = Inr d' \<Longrightarrow> canonical d \<Longrightarrow> canonical d'"
  by (auto simp: Transition_Inr_iff canonical_def)

lemma Rehydrate_valid: "Rehydrate s = Inr d \<Longrightarrow> validate d = None"
  by (auto simp: Rehydrate_def Let_def split: if_splits option.splits)

lemma Rehydrate_canonical: "Rehydrate s = Inr d \<Longrightarrow> canonical d"
  by (auto simp: Rehydrate_def Let_def canonical_def split: if_splits option.splits)

lemma New_fields:
  "New i t = Inr d \<Longrightarrow> canonical d \<and> dep_identity d = i \<and> dep_status d = StatusQueued \<and>
     dep_created d = canonicalTime t \<and> dep_events d = [creation_event (canonicalTime t)]"
  by (auto simp: New_def Let_def canonical_def creation_event_def split: option.splits if_splits)

lemma map_canonical_id:
  "\<forall>e \<in> set es. canonicalTime (ev_at e) = ev_at e \<Longrightarrow>
   map (\<lambda>e. e\<lparr>ev_at := canonicalTime (ev_at e)\<rparr>) es = (es :: event list)"
  by (induction es) auto

lemma Snapshot_Rehydrate: "canonical d \<Longrightarrow> Snapshot d = Inr s \<Longrightarrow> Rehydrate s = Inr d"
  by (cases d) (auto simp: Snapshot_def Rehydrate_def canonical_def Let_def map_canonical_id
      split: option.splits)

text \<open>Replaying an event history through the public constructor and \<open>Transition\<close>.\<close>

definition replay_events :: "deployment \<Rightarrow> event list \<Rightarrow> dep_err + deployment" where
  "replay_events d es = tx_fold (\<lambda>e d. Transition d (ev_to e) (ev_at e)) es d"

lemma replay_valid_history:
  assumes "validate d = None" and "canonical d"
    and "validateEvents (dep_status d) (dep_updated d) es = Inr (c, t)"
    and "\<forall>e \<in> set es. canonicalTime (ev_at e) = ev_at e"
  shows "replay_events d es =
    Inr (d\<lparr>dep_status := c, dep_updated := t, dep_revision := dep_revision d + of_nat (length es),
           dep_events := dep_events d @ es\<rparr>)"
  using assms
proof (induction es arbitrary: d)
  case Nil
  then show ?case by (simp add: replay_events_def)
next
  case (Cons e es)
  let ?d = "d\<lparr>dep_status := ev_to e, dep_updated := ev_at e, dep_revision := dep_revision d + 1,
              dep_events := dep_events d @ [e]\<rparr>"
  from Cons.prems have can: "canTransition (dep_status d) (ev_to e)" and at: "ev_at e \<noteq> 0"
    "dep_updated d \<le> ev_at e" and fr: "ev_from e = dep_status d"
    and rest: "validateEvents (ev_to e) (ev_at e) es = Inr (c, t)"
    by (auto split: if_splits)
  have neq: "ev_to e \<noteq> dep_status d" using can canTransition_irrefl by metis
  have "\<lparr>ev_from = dep_status d, ev_to = ev_to e, ev_at = ev_at e\<rparr> = e" using fr by simp
  then have step: "Transition d (ev_to e) (ev_at e) = Inr ?d"
    using Cons.prems can at neq canTransition_known [OF can] by (simp add: Transition_Inr_iff)
  have "replay_events ?d es =
    Inr (?d\<lparr>dep_status := c, dep_updated := t, dep_revision := dep_revision ?d + of_nat (length es),
           dep_events := dep_events ?d @ es\<rparr>)"
    by (rule Cons.IH)
      (use Cons.prems rest Transition_valid [OF step] Transition_canonical [OF step] in simp_all)
  then show ?case using step by (simp add: replay_events_def)
qed

lemma rehydrated_is_replayed:
  assumes "Rehydrate s = Inr d"
  shows "tx_bind (New (dep_identity d) (dep_created d)) (\<lambda>n. replay_events n (tl (dep_events d))) = Inr d"
proof -
  have v: "validate d = None" and c: "canonical d"
    using assms Rehydrate_valid Rehydrate_canonical by auto
  then obtain es where es: "dep_events d = creation_event (dep_created d) # es"
    and run: "validateEvents StatusQueued (dep_created d) es = Inr (dep_status d, dep_updated d)"
    by (auto simp: validate_None_iff)
  let ?n = "\<lparr>dep_identity = dep_identity d, dep_status = StatusQueued, dep_created = dep_created d,
     dep_updated = dep_created d, dep_revision = 1, dep_events = [creation_event (dep_created d)]\<rparr>"
  have new: "New (dep_identity d) (dep_created d) = Inr ?n"
    using v c by (auto simp: New_def Let_def validate_None_iff canonical_def creation_event_def)
  have "replay_events ?n es = Inr d"
  proof (subst replay_valid_history)
    show "validate ?n = None" using v by (auto simp: validate_None_iff)
    show "canonical ?n" using c es by (auto simp: canonical_def creation_event_def)
    show "validateEvents (dep_status ?n) (dep_updated ?n) es = Inr (dep_status d, dep_updated d)"
      using run by simp
    show "\<forall>e\<in>set es. canonicalTime (ev_at e) = ev_at e" using c es by (auto simp: canonical_def)
    show "Inr (?n\<lparr>dep_status := dep_status d, dep_updated := dep_updated d,
        dep_revision := dep_revision ?n + of_nat (length es), dep_events := dep_events ?n @ es\<rparr>) =
        (Inr d :: dep_err + deployment)"
      using v es by (auto simp: validate_None_iff add.commute)
  qed
  with new es show ?thesis by simp
qed


section \<open>What the package promises\<close>

text \<open>The aggregates a caller can hold: made by \<open>New\<close> or \<open>Rehydrate\<close> and moved by \<open>Transition\<close>.\<close>

inductive built :: "deployment \<Rightarrow> bool" where
  built_new: "New i t = Inr d \<Longrightarrow> built d"
| built_rehydrated: "Rehydrate s = Inr d \<Longrightarrow> built d"
| built_moved: "built d \<Longrightarrow> Transition d t at = Inr d' \<Longrightarrow> built d'"

lemma built_canonical: "built d \<Longrightarrow> canonical d"
  by (induction rule: built.induct)
    (auto dest: New_fields Rehydrate_canonical Transition_canonical)

lemma New_valid_iff: "New i t = Inr d \<Longrightarrow> validate d = None \<longleftrightarrow> canonicalTime t \<noteq> 0"
  by (auto simp: New_def Let_def validate_None_iff creation_event_def split: option.splits if_splits)

text \<open>
  C39: Persistence loses nothing.  Every aggregate obtained from the package's constructors and
  moved by its transitions that \<open>Snapshot\<close> accepts is restored by \<open>Rehydrate\<close> exactly, and
  \<open>Snapshot\<close> accepts it unless its history fails \<open>validate\<close>.
\<close>

theorem snapshot_rehydrate_roundtrip:
  assumes "built d"
  shows "(validate d = None \<longleftrightarrow> (\<exists>s. Snapshot d = Inr s)) \<and>
    (\<forall>s. Snapshot d = Inr s \<longrightarrow> Rehydrate s = Inr d)"
  using Snapshot_Rehydrate [OF built_canonical [OF assms]]
  by (auto simp: Snapshot_def split: option.splits)

theorem snapshot_rehydrate_roundtrip_witness:
  "\<exists>d s. built d \<and> Snapshot d = Inr s \<and> Rehydrate s = Inr d"
proof -
  let ?i = "\<lparr>id_deployment = ''d'', id_project = ''p'', id_environment = ''e'', id_server = ''s'',
    id_commit = ''c''\<rparr>"
  obtain d where d: "New ?i 5000 = Inr d"
    by (simp add: New_def Let_def validateIdentity_def)
  have v: "validate d = None" using New_valid_iff [OF d] by (simp add: canonicalTime_def)
  show ?thesis using snapshot_rehydrate_roundtrip [OF built_new [OF d]] v built_new [OF d] by blast
qed

text \<open>
  C40: A stored history is a run of the state machine.  Whatever \<open>Rehydrate\<close> accepts is what
  creating the deployment at its creation time and replaying its recorded events through
  \<open>Transition\<close> gives, event for event.
\<close>

theorem rehydrate_is_replay:
  assumes "Rehydrate s = Inr d"
  shows "tx_bind (New (snap_identity s) (snap_created s)) (\<lambda>n. replay_events n (tl (snap_events s))) = Inr d"
proof -
  have d: "dep_identity d = snap_identity s" "dep_created d = canonicalTime (snap_created s)"
    "dep_events d = map (\<lambda>e. e\<lparr>ev_at := canonicalTime (ev_at e)\<rparr>) (snap_events s)"
    using assms by (auto simp: Rehydrate_def Let_def split: if_splits option.splits)
  have nz: "dep_created d \<noteq> 0"
    using Rehydrate_valid [OF assms] by (simp add: validate_None_iff)
  then have "snap_created s \<noteq> 0" using d(2) by (auto simp: canonicalTime_def)
  then have new: "New (snap_identity s) (snap_created s) = New (dep_identity d) (dep_created d)"
    using d nz by (simp add: New_def Let_def split: option.splits)
  have "replay_events n (map (\<lambda>e. e\<lparr>ev_at := canonicalTime (ev_at e)\<rparr>) es) = replay_events n es"
    for n es
  proof (induction es arbitrary: n)
    case (Cons e es)
    have "Transition n (ev_to e) (canonicalTime (ev_at e)) = Transition n (ev_to e) (ev_at e)"
      unfolding Transition_def canonicalTime_idem ..
    with Cons show ?case
      by (cases "Transition n (ev_to e) (ev_at e)") (simp_all add: replay_events_def)
  qed (simp add: replay_events_def)
  then have "replay_events n (tl (snap_events s)) = replay_events n (tl (dep_events d))" for n
    by (simp add: d(3) map_tl [symmetric])
  then show ?thesis using rehydrated_is_replayed [OF assms] new by simp
qed

theorem rehydrate_is_replay_witness:
  "\<exists>s d. Rehydrate s = Inr d \<and> dep_status d = StatusAssigned \<and>
    tx_bind (New (snap_identity s) (snap_created s)) (\<lambda>n. replay_events n (tl (snap_events s))) = Inr d"
proof -
  let ?s = "\<lparr>snap_version = 1, snap_identity = \<lparr>id_deployment = ''d'', id_project = ''p'',
      id_environment = ''e'', id_server = ''s'', id_commit = ''c''\<rparr>,
    snap_status = StatusAssigned, snap_created = 5000, snap_updated = 7000, snap_revision = 2,
    snap_events = [\<lparr>ev_from = no_status, ev_to = StatusQueued, ev_at = 5000\<rparr>,
      \<lparr>ev_from = StatusQueued, ev_to = StatusAssigned, ev_at = 7000\<rparr>]\<rparr>"
  obtain d where d: "Rehydrate ?s = Inr d" "dep_status d = StatusAssigned"
    by (simp add: Rehydrate_def Let_def CurrentSchemaVersion_def canonicalTime_def validate_def
        validateIdentity_def)
  show ?thesis using rehydrate_is_replay [OF d(1)] d by blast
qed

text \<open>
  \<open>Transition\<close> preserves the invariant of the aggregate and only appends: its result is valid,
  and it is the receiver itself or the receiver one legal edge further, with one more event, one
  more revision and a time that does not go back.  A terminal deployment never moves.
\<close>

lemma transition_extends_history:
  assumes "Transition d t at = Inr d'"
  shows "validate d' = None \<and> dep_identity d' = dep_identity d \<and> dep_created d' = dep_created d \<and>
    (d' = d \<or> canTransition (dep_status d) (dep_status d') \<and>
      dep_events d' = dep_events d @
        [\<lparr>ev_from = dep_status d, ev_to = dep_status d', ev_at = dep_updated d'\<rparr>] \<and>
      unat (dep_revision d') = unat (dep_revision d) + 1 \<and> dep_updated d \<le> dep_updated d') \<and>
    (isTerminal (dep_status d) \<longrightarrow> d' = d)"
proof -
  have v: "validate d = None" "validate d' = None"
    using assms Transition_valid by (auto simp: Transition_Inr_iff)
  have "unat (dep_revision d') = unat (dep_revision d) + 1" if "d' \<noteq> d"
  proof -
    have len: "length (dep_events d') = Suc (length (dep_events d))"
      using assms that by (auto simp: Transition_Inr_iff)
    have "unat (dep_revision x) = length (dep_events x)" if "validate x = None" for x
      using that valid_history_bound [OF that]
      by (auto simp: validate_None_iff unat_of_nat simp del: of_nat_Suc)
    with v len show ?thesis by simp
  qed
  with assms v show ?thesis
    by (auto simp: Transition_Inr_iff dest: canTransition_not_terminal)
qed

text \<open>
  The lifecycle is finite.  A valid aggregate has between one and nine events, its 64-bit
  revision is exactly their number, and the recorded times never go back.
\<close>

theorem valid_history_is_bounded:
  assumes "validate d = None"
  shows "1 \<le> length (dep_events d) \<and> length (dep_events d) \<le> 9 \<and>
    unat (dep_revision d) = length (dep_events d) \<and>
    sorted (map ev_at (dep_events d)) \<and> last (map ev_at (dep_events d)) = dep_updated d"
proof -
  obtain es where es: "dep_events d = creation_event (dep_created d) # es"
    and run: "validateEvents StatusQueued (dep_created d) es = Inr (dep_status d, dep_updated d)"
    using assms by (auto simp: validate_None_iff)
  have "unat (dep_revision d) = length (dep_events d)"
    using assms valid_history_bound [OF assms]
    by (auto simp: validate_None_iff unat_of_nat simp del: of_nat_Suc)
  moreover have "sorted (map ev_at (dep_events d))"
    using validateEvents_sorted [OF run] es by (auto simp: creation_event_def sorted_append)
  moreover have "last (t # map ev_at es) = t'" if "validateEvents c t es = Inr (c', t')" for c t c' t'
    using that by (induction es arbitrary: c t) (auto split: if_splits)
  ultimately show ?thesis
    using es run valid_history_bound [OF assms] by (simp add: creation_event_def)
qed

text \<open>
  \<open>New\<close> rejects the zero time before it truncates to microseconds, so a creation time in the
  first microsecond after the zero time is accepted and gives an aggregate that every method
  refuses; for every other accepted time the new aggregate is valid.
\<close>

theorem new_valid_iff:
  assumes "New i t = Inr d"
  shows "(validate d = None) = (\<not> (0 < t \<and> t < 1000)) \<and>
    (0 < t \<and> t < 1000 \<longrightarrow> Snapshot d = Inl [ErrInvalidDeployment, ErrText ''invalid deployment timestamps''])"
proof -
  have "t \<noteq> 0" using assms by (auto simp: New_def split: option.splits)
  then have iff: "(validate d = None) = (\<not> (0 < t \<and> t < 1000))"
    using New_valid_iff [OF assms] canonicalTime_zero_iff [of t] by auto
  have "Snapshot d = Inl [ErrInvalidDeployment, ErrText ''invalid deployment timestamps'']"
    if "0 < t \<and> t < 1000"
    using assms that canonicalTime_zero_iff [of t]
    by (auto simp: New_def Let_def Snapshot_def validate_def split: option.splits if_splits)
  with iff show ?thesis by blast
qed

end
