(* ===== verification/Go_Strings.thy ===== *)
theory Go_Strings
  imports Prelude
begin

text \<open>
  Go strings are byte sequences, modelled as \<^typ>\<open>string\<close> (lists of 8-bit characters).  This theory
  holds the pieces of \<^verbatim>\<open>strings\<close> and \<^verbatim>\<open>unicode/utf8\<close> the sources use, and the identifier
  validators of \<^verbatim>\<open>internal/github/source.go\<close> built from them.
\<close>

section \<open>Substrings\<close>

definition HasPrefix :: "string \<Rightarrow> string \<Rightarrow> bool" where
  "HasPrefix s p \<longleftrightarrow> take (length p) s = p"

definition HasSuffix :: "string \<Rightarrow> string \<Rightarrow> bool" where
  "HasSuffix s p \<longleftrightarrow> HasPrefix (rev s) (rev p)"

fun Contains :: "string \<Rightarrow> string \<Rightarrow> bool" where
  "Contains [] p = (p = [])"
| "Contains (c # s) p = (HasPrefix (c # s) p \<or> Contains s p)"

text \<open>\<^verbatim>\<open>strings.Split(s, sep)\<close> for a one-byte separator.\<close>

fun Split :: "string \<Rightarrow> char \<Rightarrow> string list" where
  "Split [] sep = [[]]"
| "Split (c # s) sep =
     (if c = sep then [] # Split s sep
      else case Split s sep of [] \<Rightarrow> [[c]] | p # ps \<Rightarrow> (c # p) # ps)"

definition TrimPrefix :: "string \<Rightarrow> string \<Rightarrow> string" where
  "TrimPrefix s p = (if HasPrefix s p then drop (length p) s else s)"

lemma HasPrefix_iff: "HasPrefix s p \<longleftrightarrow> (\<exists>t. s = p @ t)"
  by (metis HasPrefix_def append_eq_conv_conj append_take_drop_id)

lemma Contains_iff: "Contains s p \<longleftrightarrow> (\<exists>a b. s = a @ p @ b)"
proof (induction s)
  case (Cons c s)
  have "(\<exists>a b. c # s = a @ p @ b) \<longleftrightarrow> HasPrefix (c # s) p \<or> (\<exists>a b. s = a @ p @ b)"
    unfolding HasPrefix_iff by (auto simp: Cons_eq_append_conv)
  with Cons show ?case by simp
qed auto

lemma Contains_append_right: "Contains s p \<Longrightarrow> Contains (s @ t) p"
  unfolding Contains_iff by (metis append.assoc)

lemma Contains_middle [simp]: "Contains (a @ p @ b) p"
  unfolding Contains_iff by blast

section \<open>UTF-8\<close>

definition byte :: "char \<Rightarrow> nat" where
  "byte c = of_char c"

lemma byte_less [simp]: "byte c < 256"
  unfolding byte_def by (cases c) (simp add: of_char_def)

definition in_range :: "nat \<Rightarrow> nat \<Rightarrow> char \<Rightarrow> bool" where
  "in_range lo hi c \<longleftrightarrow> lo \<le> byte c \<and> byte c \<le> hi"

definition RuneStart :: "char \<Rightarrow> bool" where
  "RuneStart c \<longleftrightarrow> \<not> in_range 128 191 c"

text \<open>
  The width of the well-formed encoding at the head of the string, 0 where
  \<^verbatim>\<open>utf8.DecodeRuneInString\<close> reports an encoding error (or the end of the string).
\<close>

definition rune_len :: "string \<Rightarrow> nat" where
  "rune_len s =
     (case s of
        [] \<Rightarrow> 0
      | c # r \<Rightarrow>
          if byte c < 128 then 1
          else if in_range 194 223 c then
            (case r of c1 # _ \<Rightarrow> if in_range 128 191 c1 then 2 else 0 | [] \<Rightarrow> 0)
          else if in_range 224 239 c then
            (case r of
               c1 # c2 # _ \<Rightarrow>
                 if in_range (if byte c = 224 then 160 else 128) (if byte c = 237 then 159 else 191) c1
                    \<and> in_range 128 191 c2 then 3 else 0
             | _ \<Rightarrow> 0)
          else if in_range 240 244 c then
            (case r of
               c1 # c2 # c3 # _ \<Rightarrow>
                 if in_range (if byte c = 240 then 144 else 128) (if byte c = 244 then 143 else 191) c1
                    \<and> in_range 128 191 c2 \<and> in_range 128 191 c3 then 4 else 0
             | _ \<Rightarrow> 0)
          else 0)"

function ValidString :: "string \<Rightarrow> bool" where
  "ValidString s =
     (if s = [] then True
      else if rune_len s = 0 then False
      else ValidString (drop (rune_len s) s))"
  by pat_completeness auto
termination
  by (relation "measure length") auto

declare ValidString.simps [simp del]

lemma rune_len_le: "rune_len s \<le> length s"
  by (auto simp: rune_len_def split: list.splits if_splits)

lemma ValidString_Nil [simp]: "ValidString []"
  by (subst ValidString.simps) simp

lemma ValidString_ascii: "\<forall>c \<in> set s. byte c < 128 \<Longrightarrow> ValidString s"
proof (induction s)
  case (Cons c s)
  then have "rune_len (c # s) = 1" by (simp add: rune_len_def)
  with Cons show ?case by (simp add: ValidString.simps [of "c # s"])
qed simp

section \<open>Identifier validators (internal/github/source.go)\<close>

definition ValidOpaqueID :: "string \<Rightarrow> bool" where
  "ValidOpaqueID v \<longleftrightarrow> length v > 0 \<and> length v \<le> 128 \<and> ValidString v \<and> CHR 0x00 \<notin> set v"

text \<open>
  \<^verbatim>\<open>for _, c := range ref\<close> visits runes; every rejected rune is a single ASCII byte, and no
  multi-byte encoding contains one, so the loop is a test of the bytes.
\<close>

definition ValidBranchRef :: "string \<Rightarrow> bool" where
  "ValidBranchRef ref \<longleftrightarrow>
     (let prefix = ''refs/heads/'' in
      \<not> (\<not> HasPrefix ref prefix \<or> length ref \<le> length prefix \<or> length ref > 255
         \<or> HasSuffix ref ''/'' \<or> Contains ref ''//'' \<or> Contains ref ''..''
         \<or> Contains ref [CHR ''@'', CHR 0x7B] \<or> ref = ''@'')
      \<and> (\<forall>part \<in> set (Split (TrimPrefix ref prefix) (CHR ''/'')).
           \<not> (part = [] \<or> HasPrefix part ''.'' \<or> HasSuffix part ''.'' \<or> HasSuffix part ''.lock''))
      \<and> (\<forall>c \<in> set ref. \<not> (byte c \<le> 32 \<or> byte c = 127 \<or> c \<in> set ''~^:?*['' \<or> byte c = 92)))"

definition ValidCommitSHA :: "string \<Rightarrow> bool" where
  "ValidCommitSHA v \<longleftrightarrow>
     length v = 40 \<and> v \<noteq> replicate 40 (CHR ''0'') \<and>
     (\<forall>c \<in> set v. in_range 48 57 c \<or> in_range 97 102 c)"

lemma ValidBranchRef_shape:
  assumes "ValidBranchRef ref"
  shows "\<exists>name. ref = ''refs/heads/'' @ name \<and> name \<noteq> [] \<and> length ref \<le> 255"
proof -
  from assms have p: "HasPrefix ref ''refs/heads/''" and "\<not> length ref \<le> length ''refs/heads/''"
    and l: "\<not> length ref > 255"
    unfolding ValidBranchRef_def Let_def by blast+
  from p obtain name where "ref = ''refs/heads/'' @ name" by (metis HasPrefix_iff)
  with \<open>\<not> length ref \<le> length ''refs/heads/''\<close> l show ?thesis
    by (intro exI [of _ name]) auto
qed

end
