(* ===== verification/Queue.thy ===== *)
theory Queue
  imports Go_Strings
begin

text \<open>
  \<^verbatim>\<open>internal/queue\<close>: the retry policy of \<^verbatim>\<open>retry.go\<close> (full-jitter delay, failure classes) and the
  immutable execution job of \<^verbatim>\<open>job.go\<close> with its canonical payload digest.  SHA-256 and Go's
  RFC 3339 printer are arguments of the definitions that use them.
\<close>

section \<open>Retry delay\<close>

definition MaxAttempts :: int where
  "MaxAttempts = 5"

text \<open>Durations are nanoseconds.\<close>

definition retryBaseDelay :: int where
  "retryBaseDelay = 5 * 10 ^ 9"

definition retryCapDelay :: int where
  "retryCapDelay = 300 * 10 ^ 9"

text \<open>
  \<^verbatim>\<open>rand.Float64() * float64(backoff)\<close>: the generator returns \<open>r / 2 ^ 53\<close> for a 53-bit \<open>r\<close>, and
  the product is rounded to 53 significant bits, ties to even.  \<open>round53\<close> rounds the exact
  numerator \<open>r * backoff\<close>.
\<close>

fun bit_size :: "nat \<Rightarrow> nat" where
  "bit_size n = (if n = 0 then 0 else Suc (bit_size (n div 2)))"

declare bit_size.simps [simp del]

definition round53 :: "nat \<Rightarrow> nat" where
  "round53 p =
     (let s = bit_size p - 53; q = p div 2 ^ s; r = p mod 2 ^ s in
      if s = 0 then p
      else (if 2 * r > 2 ^ s \<or> (2 * r = 2 ^ s \<and> odd q) then Suc q else q) * 2 ^ s)"

definition retry_backoff :: "int \<Rightarrow> int" where
  "retry_backoff attemptNumber =
     (let n = (if attemptNumber < 1 then 1 else attemptNumber);
          shift = (if n - 1 > 20 then 20 else n - 1);
          backoff = wrap64 (retryBaseDelay * 2 ^ nat shift)
      in if backoff > retryCapDelay \<or> backoff \<le> 0 then retryCapDelay else backoff)"

definition FullJitterDelay :: "nat \<Rightarrow> int \<Rightarrow> int" where
  "FullJitterDelay r attemptNumber =
     int (round53 (r * nat (retry_backoff attemptNumber)) div 2 ^ 53)"

lemma bit_size_le: "n < 2 ^ k \<Longrightarrow> bit_size n \<le> k"
proof (induction k arbitrary: n)
  case 0
  then show ?case by (simp add: bit_size.simps)
next
  case (Suc k)
  then have "n div 2 < 2 ^ k" by auto
  with Suc.IH show ?case by (subst bit_size.simps) auto
qed

lemma round_up_multiple:
  fixes p :: nat
  assumes "p \<le> m" and "2 ^ s dvd m" and "p mod 2 ^ s \<noteq> 0"
  shows "Suc (p div 2 ^ s) * 2 ^ s \<le> m"
proof -
  obtain k where k: "m = 2 ^ s * k" using assms(2) by blast
  have "2 ^ s * (p div 2 ^ s) < p"
    using assms(3) mult_div_mod_eq [of "2 ^ s" p] by linarith
  then have "p div 2 ^ s \<noteq> k" using assms(1) k by auto
  moreover have "p div 2 ^ s \<le> k" using assms(1) k div_le_mono [of p m "2 ^ s"] by simp
  ultimately have "Suc (p div 2 ^ s) \<le> k" by simp
  then show ?thesis using k mult_le_mono1 [of "Suc (p div 2 ^ s)" k "2 ^ s"] by (simp add: mult.commute)
qed

lemma round53_le:
  assumes "p \<le> b * 2 ^ 53" and "b < 2 ^ 53"
  shows "round53 p \<le> b * 2 ^ 53"
proof -
  let ?s = "bit_size p - 53"
  have "p < 2 ^ 106"
    using assms mult_strict_right_mono [OF assms(2), of "2 ^ 53"] by simp
  then have "?s \<le> 53" using bit_size_le [of p 106] by simp
  then have "(2 :: nat) ^ ?s dvd 2 ^ 53" by (rule le_imp_power_dvd)
  then have "(2 :: nat) ^ ?s dvd b * 2 ^ 53" by (rule dvd_mult)
  moreover have "p div 2 ^ ?s * 2 ^ ?s \<le> b * 2 ^ 53"
    using assms(1) div_times_less_eq_dividend [of p "2 ^ ?s"] le_trans by blast
  moreover have "2 * (p mod 2 ^ ?s) \<ge> 2 ^ ?s \<Longrightarrow> p mod 2 ^ ?s \<noteq> 0" by (auto intro: ccontr)
  ultimately show ?thesis
    using assms(1) round_up_multiple [of p "b * 2 ^ 53" ?s]
    unfolding round53_def Let_def by (auto simp del: mult_Suc)
qed

lemma retry_backoff_alt:
  "retry_backoff n = min retryCapDelay (retryBaseDelay * 2 ^ nat (max 0 (min 20 (n - 1))))"
proof -
  let ?k = "nat (max 0 (min 20 (n - 1)))"
  have k: "?k \<le> 20" by simp
  have le: "(2 :: int) ^ ?k \<le> 2 ^ 20" using k by (intro power_increasing) simp_all
  then have "retryBaseDelay * 2 ^ ?k \<le> retryBaseDelay * 2 ^ 20"
    by (simp add: retryBaseDelay_def)
  moreover have "retryBaseDelay * 2 ^ 20 < 2 ^ 63" by (simp add: retryBaseDelay_def)
  moreover have "0 \<le> retryBaseDelay * 2 ^ ?k" by (simp add: retryBaseDelay_def)
  ultimately have w: "wrap64 (retryBaseDelay * 2 ^ ?k) = retryBaseDelay * 2 ^ ?k"
    by (intro wrap64_id) linarith+
  have "(let m = (if n < 1 then 1 else n) in if m - 1 > 20 then 20 else m - 1) = max 0 (min 20 (n - 1))"
    by (auto simp: Let_def)
  then have eq: "retry_backoff n = (let b = wrap64 (retryBaseDelay * 2 ^ ?k) in
      if b > retryCapDelay \<or> b \<le> 0 then retryCapDelay else b)"
    unfolding retry_backoff_def Let_def by presburger
  have "0 < retryBaseDelay * 2 ^ ?k" by (simp add: retryBaseDelay_def)
  then show ?thesis unfolding eq w by (auto simp: Let_def min_def)
qed

lemma retry_backoff_bounds: "0 < retry_backoff n \<and> retry_backoff n \<le> retryCapDelay"
  unfolding retry_backoff_alt by (auto simp: min_def retryBaseDelay_def retryCapDelay_def)

lemma FullJitterDelay_bounds:
  assumes "r < 2 ^ 53"
  shows "0 \<le> FullJitterDelay r n \<and> FullJitterDelay r n \<le> retry_backoff n"
proof -
  let ?b = "nat (retry_backoff n)"
  have b: "?b < 2 ^ 53" using retry_backoff_bounds [of n] by (simp add: retryCapDelay_def nat_less_iff)
  have "r * ?b \<le> 2 ^ 53 * ?b" using assms by simp
  then have "round53 (r * ?b) \<le> ?b * 2 ^ 53" using round53_le [OF _ b] by (simp add: mult.commute)
  then have "round53 (r * ?b) div 2 ^ 53 \<le> ?b"
    using div_le_mono [of _ "?b * 2 ^ 53" "2 ^ 53"] by simp
  then show ?thesis using retry_backoff_bounds [of n]
    by (simp add: FullJitterDelay_def nat_le_iff [symmetric] le_nat_iff)
qed

section \<open>Failure classes and outcomes\<close>

datatype failure_class =
    FailureClassTransient | FailureClassAuthorization | FailureClassInvalidInput
  | FailureClassCancelled | FailureClassCorruptState | FailureClassPermanentConfiguration
  | FailureClassOther string

fun FailureClass_Valid :: "failure_class \<Rightarrow> bool" where
  "FailureClass_Valid (FailureClassOther s) = False"
| "FailureClass_Valid c = True"

definition Retryable :: "failure_class \<Rightarrow> bool" where
  "Retryable c \<longleftrightarrow> c = FailureClassTransient"

datatype completion_outcome = CompletionSucceeded | CompletionFailed | CompletionOther string

section \<open>Execution jobs\<close>

text \<open>\<open>jb_utc\<close> is \<^verbatim>\<open>AvailableAt.Location() == time.UTC\<close>; \<open>jb_available\<close> the instant in nanoseconds.\<close>

record queue_job =
  jb_version :: int
  jb_kind :: string
  jb_owner :: string
  jb_project :: string
  jb_environment :: string
  jb_server :: string
  jb_deployment :: string
  jb_repository :: int
  jb_ref :: string
  jb_commit :: string
  jb_priority :: int
  jb_available :: int
  jb_utc :: bool
  jb_idempotency :: string
  jb_payload :: string
  jb_state :: string

definition payload_parts :: "(int \<Rightarrow> string) \<Rightarrow> queue_job \<Rightarrow> string list" where
  "payload_parts rfc3339 j =
     [itoa (jb_version j), jb_kind j, jb_owner j, jb_project j, jb_environment j, jb_server j,
      jb_deployment j, itoa (jb_repository j), jb_ref j, jb_commit j, itoa (jb_priority j),
      rfc3339 (jb_available j), jb_idempotency j, jb_state j]"

definition payloadDigest :: "(string \<Rightarrow> string) \<Rightarrow> (int \<Rightarrow> string) \<Rightarrow> queue_job \<Rightarrow> string" where
  "payloadDigest sha256 rfc3339 j = sha256 (encode_parts (payload_parts rfc3339 j))"

definition Job_Validate :: "(string \<Rightarrow> string) \<Rightarrow> (int \<Rightarrow> string) \<Rightarrow> queue_job \<Rightarrow> bool" where
  "Job_Validate sha256 rfc3339 j \<longleftrightarrow>
     \<not> (jb_version j \<noteq> 1 \<or> jb_kind j \<noteq> ''deployment_execution''
        \<or> \<not> ValidOpaqueID (jb_owner j) \<or> \<not> ValidOpaqueID (jb_project j)
        \<or> \<not> ValidOpaqueID (jb_environment j) \<or> \<not> ValidOpaqueID (jb_server j)
        \<or> \<not> ValidOpaqueID (jb_deployment j) \<or> jb_repository j \<le> 0
        \<or> \<not> ValidBranchRef (jb_ref j) \<or> \<not> ValidCommitSHA (jb_commit j)
        \<or> jb_priority j < -100 \<or> jb_priority j > 100
        \<or> jb_available j = 0 \<or> \<not> jb_utc j \<or> jb_available j \<noteq> jb_available j - jb_available j mod 1000
        \<or> \<not> ValidOpaqueID (jb_idempotency j) \<or> jb_state j \<noteq> ''queued''
        \<or> jb_payload j \<noteq> payloadDigest sha256 rfc3339 j)"

datatype job_error = ErrInvalidJob

definition NewDeploymentExecutionJob ::
  "(string \<Rightarrow> string) \<Rightarrow> (int \<Rightarrow> string) \<Rightarrow> string \<Rightarrow> string \<Rightarrow> string \<Rightarrow> string \<Rightarrow> string \<Rightarrow>
   int \<Rightarrow> string \<Rightarrow> string \<Rightarrow> string \<Rightarrow> int \<Rightarrow> int \<Rightarrow> job_error + queue_job" where
  "NewDeploymentExecutionJob sha256 rfc3339 owner project environment server deployment
     repository ref commit idempotency priority availableAt =
     (let j0 = \<lparr>jb_version = 1, jb_kind = ''deployment_execution'', jb_owner = owner,
                jb_project = project, jb_environment = environment, jb_server = server,
                jb_deployment = deployment, jb_repository = repository, jb_ref = ref,
                jb_commit = commit, jb_priority = priority,
                jb_available = availableAt - availableAt mod 1000, jb_utc = True,
                jb_idempotency = idempotency, jb_payload = [], jb_state = ''queued''\<rparr>;
          j = j0\<lparr>jb_payload := payloadDigest sha256 rfc3339 j0\<rparr>
      in if Job_Validate sha256 rfc3339 j then Inr j else Inl ErrInvalidJob)"

lemma payloadDigest_payload [simp]:
  "payloadDigest sha256 rfc3339 (j\<lparr>jb_payload := p\<rparr>) = payloadDigest sha256 rfc3339 j"
  by (simp add: payloadDigest_def payload_parts_def)

lemma payload_parts_inject:
  "payload_parts f j = payload_parts f k \<longleftrightarrow>
     jb_version j = jb_version k \<and> jb_kind j = jb_kind k \<and> jb_owner j = jb_owner k \<and>
     jb_project j = jb_project k \<and> jb_environment j = jb_environment k \<and> jb_server j = jb_server k \<and>
     jb_deployment j = jb_deployment k \<and> jb_repository j = jb_repository k \<and> jb_ref j = jb_ref k \<and>
     jb_commit j = jb_commit k \<and> jb_priority j = jb_priority k \<and>
     f (jb_available j) = f (jb_available k) \<and> jb_idempotency j = jb_idempotency k \<and>
     jb_state j = jb_state k"
  by (simp add: payload_parts_def itoa_inject)

lemma payloadDigest_collision:
  "payloadDigest h f j = payloadDigest h f k \<Longrightarrow>
   payload_parts f j = payload_parts f k \<or> (\<exists>x y. x \<noteq> y \<and> h x = h y)"
  unfolding payloadDigest_def using encode_parts_inject by metis


section \<open>What the package promises\<close>

text \<open>
  The delay before a retry is never negative, never above the exponential ceiling
  \<open>min (5 minutes) (5 seconds * 2 ^ (attempt - 1))\<close>, and therefore never above five minutes,
  whatever the 53 random bits are and with the float64 rounding of the product taken into account.
\<close>

lemma full_jitter_delay_bounds:
  assumes "r < 2 ^ 53"
  shows "0 \<le> FullJitterDelay r n \<and> FullJitterDelay r n \<le> retry_backoff n \<and>
    retry_backoff n = min retryCapDelay (retryBaseDelay * 2 ^ nat (max 0 (min 20 (n - 1)))) \<and>
    FullJitterDelay r n \<le> retryCapDelay"
  using FullJitterDelay_bounds [OF assms, of n] retry_backoff_bounds [of n] retry_backoff_alt [of n]
  by linarith

text \<open>
  The payload digest identifies a job.  Two jobs that pass \<open>Validate\<close> and carry the same
  payload digest agree on every field that is digested, unless SHA-256 has collided on their
  canonical encodings: no regrouping of the fields can produce the same bytes.
\<close>

lemma payload_digest_identifies_job:
  assumes "Job_Validate sha256 rfc3339 j" and "Job_Validate sha256 rfc3339 k"
    and "jb_payload j = jb_payload k"
    and no_collision: "sha256 (encode_parts (payload_parts rfc3339 j)) =
        sha256 (encode_parts (payload_parts rfc3339 k)) \<Longrightarrow>
      encode_parts (payload_parts rfc3339 j) = encode_parts (payload_parts rfc3339 k)"
  shows "jb_owner j = jb_owner k \<and> jb_project j = jb_project k \<and>
    jb_environment j = jb_environment k \<and> jb_server j = jb_server k \<and>
    jb_deployment j = jb_deployment k \<and> jb_repository j = jb_repository k \<and>
    jb_ref j = jb_ref k \<and> jb_commit j = jb_commit k \<and> jb_priority j = jb_priority k \<and>
    rfc3339 (jb_available j) = rfc3339 (jb_available k) \<and> jb_idempotency j = jb_idempotency k"
proof -
  have "payloadDigest sha256 rfc3339 j = payloadDigest sha256 rfc3339 k"
    using assms(1-3) by (simp add: Job_Validate_def)
  then have "payload_parts rfc3339 j = payload_parts rfc3339 k"
    using no_collision by (simp add: payloadDigest_def encode_parts_inject)
  then show ?thesis by (simp add: payload_parts_inject)
qed

text \<open>
  A job leaves the constructor only in the shape every consumer assumes: it passes
  \<open>Validate\<close>, is queued, is stamped on a microsecond boundary, and carries the digest of its own
  fields; in particular the payload written into the job does not change what is digested.
\<close>

theorem new_job_is_valid:
  assumes "NewDeploymentExecutionJob sha256 rfc3339 owner project environment server deployment
     repository ref commit idempotency priority availableAt = Inr j"
  shows "Job_Validate sha256 rfc3339 j \<and> jb_state j = ''queued'' \<and>
    jb_available j mod 1000 = 0 \<and> jb_available j \<le> availableAt \<and> availableAt < jb_available j + 1000 \<and>
    jb_payload j = payloadDigest sha256 rfc3339 j \<and>
    -100 \<le> jb_priority j \<and> jb_priority j \<le> 100 \<and> 0 < jb_repository j"
proof -
  have j: "Job_Validate sha256 rfc3339 j" "jb_available j = availableAt - availableAt mod 1000"
    using assms unfolding NewDeploymentExecutionJob_def Let_def by (auto split: if_splits)
  have "(availableAt - availableAt mod 1000) mod 1000 = 0"
    by (metis minus_mod_eq_mult_div mod_mult_self1_is_0)
  moreover have "0 \<le> availableAt mod 1000" "availableAt mod 1000 < 1000" by simp_all
  ultimately show ?thesis using j unfolding Job_Validate_def by auto
qed

end
