(* ===== verification/Lease_Store.thy ===== *)
theory Lease_Store
  imports Deployment Queue
begin

text \<open>
  The durable state the lease repository works on: the tables of migrations 000012 to 000021 it
  reads and writes, the CHECK constraints, unique indexes and triggers that judge every write,
  and the helpers of \<^verbatim>\<open>internal/store/postgres\<close> shared by all operations (credential lock,
  administrator session lock, deployment transition, job event append).

  A statement that PostgreSQL refuses is \<open>PgError sqlstate what\<close>.  Row locks do not appear: every
  operation of the repository is one transaction whose locks are held to commit, so it is
  modelled as one atomic function of the state.
\<close>

section \<open>Errors\<close>

datatype lease_error =
    ErrServerAuthorizationDenied | ErrAgentLeaseStale | ErrAgentLeaseIntegrityConflict
  | ErrAgentLeaseInvalidInput | ErrAgentJobTerminal | ErrAgentJobActivating
  | ErrAgentLeaseCorruptState | ErrAgentLeaseActivationCandidateNotReady
  | ErrAgentLeaseActivationNoRouteHead | ErrAgentLeaseActivationOpen
  | ErrAgentLeaseActivationEnvironmentBlocked | ErrAgentLeaseActivationUnresolved
  | ErrAgentLeaseActivationLateReportRecorded | ErrAgentLeaseActivationRouteMoved
  | ErrAgentLeaseOutcomeMismatch | ErrAgentLeaseConstraintViolation
  | ErrRouteHeadNotFound | ErrRouteHeadAlreadyExists | ErrRouteHeadConflict | ErrRouteHeadHostnameTaken
  | ErrRouteHeadHostnameImmutable
  | ErrActivationBlockUnrecorded lease_error
  | ErrDeploymentDomain dep_err | ErrNotFound | ErrAlreadyExists | ErrRevisionConflict
  | ErrRevisionOverflow
  | ErrNoRows | PgError string string | ErrPlain string

definition raise_exception :: "string \<Rightarrow> lease_error option" where
  "raise_exception what = Some (PgError ''P0001'' what)"

definition check_violation :: "string \<Rightarrow> lease_error option" where
  "check_violation what = Some (PgError ''23514'' what)"

definition unique_violation :: "string \<Rightarrow> lease_error" where
  "unique_violation index = PgError ''23505'' index"

text \<open>A chain of refusals lets a row through when none of its conditions holds.\<close>

lemma not_refused:
  "(if c then raise_exception w else x) = None \<longleftrightarrow> \<not> c \<and> x = None"
  "(if c then check_violation w else x) = None \<longleftrightarrow> \<not> c \<and> x = None"
  "(if c then Some e else x) = None \<longleftrightarrow> \<not> c \<and> x = None"
  by (simp_all add: raise_exception_def check_violation_def)

section \<open>Rows\<close>

type_synonym digest = string

record server_row =
  srv_id :: string
  srv_owner :: string
  srv_name :: string
  srv_protocol :: int
  srv_active :: bool
  srv_created :: int
  srv_revoked :: "int option"
  srv_heartbeat :: "int option"

record credential_row =
  cred_server :: string
  cred_version :: int
  cred_digest :: digest
  cred_active :: bool
  cred_issued :: int
  cred_revoked :: "int option"

record enrollment_row =
  tok_server :: string
  tok_digest :: digest
  tok_issued :: int
  tok_expires :: int
  tok_consumed :: "int option"

datatype job_state = JobQueued | JobLeased | JobRetryWait | JobSucceeded | JobFailed | JobCancelled | JobDead

record job_row =
  job_id :: int
  job_owner :: string
  job_project :: string
  job_environment :: string
  job_server :: string
  job_deployment :: string
  job_repository :: int
  job_ref :: string
  job_commit :: string
  job_priority :: int
  job_created :: int
  job_state :: job_state
  job_available :: int
  job_attempt_count :: int
  job_cancel_requested :: "int option"
  job_updated :: int

datatype attempt_state = AttemptLeased | AttemptSucceeded | AttemptFailed | AttemptExpired | AttemptCancelled

record attempt_row =
  att_id :: int
  att_job :: int
  att_number :: int
  att_server :: string
  att_environment :: string
  att_fence :: int
  att_state :: attempt_state
  att_renewal :: int
  att_lease_expires :: int
  att_authority_expires :: int
  att_cancel_deadline :: "int option"
  att_failure :: "failure_class option"
  att_result_op :: "string option"
  att_result_digest :: "digest option"
  att_closed :: "int option"

record slot_row =
  slot_environment :: string
  slot_fence :: int
  slot_current :: "int option"
  slot_reconciling :: bool
  slot_pending :: "int option"
  slot_updated :: int

datatype job_event_type =
    EvEnqueued | EvClaimed | EvCancelRequested | EvCancelled | EvExpired | EvRetryScheduled
  | EvSucceeded | EvFailed | EvDead | EvReconciled | EvActivationAuthorized | EvActivated
  | EvActivationReconciliationRequired | EvActivationNotActivated | EvActivationLateReport

record job_event_row =
  jev_job :: int
  jev_sequence :: int
  jev_type :: job_event_type
  jev_attempt :: "int option"

record execution_row =
  ContainerPort :: int
  ContainerScheme :: string
  ReleaseStrategy :: string
  DrainSeconds :: int
  HealthPolicyRevision :: int
  CPUMillis :: int
  MemoryBytes :: int
  RestartPolicy :: string
  HealthGatePath :: string
  HealthGateHost :: string
  ConfigRevision :: int

record frozen_binding =
  fb_variable :: string
  fb_scope :: string
  fb_version :: string

record frozen_literal =
  fl_variable :: string
  fl_scope :: string
  fl_value :: string

datatype binding_kind = BindSecret string | BindLiteral "string option"

record binding_row =
  bind_environment :: string
  bind_variable :: string
  bind_scope :: string
  bind_kind :: binding_kind

datatype version_state = VersionActive | VersionSuperseded | VersionRevoked

record secret_head_row =
  sh_id :: string
  sh_current :: "string option"
  sh_purpose :: string
  sh_scope :: string

record secret_version_row =
  sv_id :: string
  sv_secret :: string
  sv_owner :: string
  sv_project :: string
  sv_environment :: string
  sv_state :: version_state

datatype release_state =
  RelCandidate | RelReady | RelFailed | RelRemoving | RelRemoved | RelActive | RelRetained

record release_row =
  rel_id :: string
  rel_deployment :: string
  rel_environment :: string
  rel_image :: "digest option"
  rel_config :: digest
  rel_commit :: string
  rel_strategy :: string
  rel_state :: release_state
  rel_updated :: int

datatype operation_kind = OpPrepare | OpActivate | OpRollback | OpRetire | OpCleanup

datatype operation_state =
  OpStarted | OpSucceeded | OpFailed | OpSwitchAuthorized | OpReconciliationRequired

record operation_row =
  op_id :: int
  op_release :: string
  op_job :: int
  op_attempt :: int
  op_fence :: int
  op_kind :: operation_kind
  op_digest :: digest
  op_state :: operation_state
  op_summary :: string
  op_closed :: "int option"
  op_environment :: "string option"
  op_expected_release :: "string option"
  op_expected_revision :: "int option"
  op_route_digest :: "digest option"

record route_head_row =
  rh_environment :: string
  rh_hostname :: string
  rh_revision :: int
  rh_active :: "string option"
  rh_reconciling :: bool
  rh_created :: int
  rh_updated :: int

datatype route_event_kind = RouteHostnameAssigned string | RouteActivated string

record route_event_row =
  rev_environment :: string
  rev_kind :: route_event_kind
  rev_revision :: int

record principal =
  pr_user :: string
  pr_owner :: string
  pr_session :: string
  pr_auth_revision :: int
  pr_role :: string

record session_row =
  ses_id :: string
  ses_user :: string
  ses_owner :: string
  ses_auth_revision :: int
  ses_revoked :: bool
  ses_idle_expires :: int
  ses_absolute_expires :: int

record user_row =
  usr_id :: string
  usr_owner :: string
  usr_auth_revision :: int
  usr_active :: bool

record audit_row =
  aud_actor_type :: string
  aud_actor :: string
  aud_action :: string
  aud_server :: "string option"
  aud_credential :: "int option"
  aud_result :: string
  aud_reason :: string

record route_audit_row =
  ra_actor_type :: string
  ra_actor :: string
  ra_owner :: string
  ra_environment :: string
  ra_action :: string
  ra_hostname :: "string option"
  ra_revision :: "int option"
  ra_result :: string
  ra_reason :: string

section \<open>The database\<close>

text \<open>
  A deployment row carries its own event rows (\<^verbatim>\<open>deployment_events\<close> ordered by revision), so a
  stored deployment is a \<^typ>\<open>snapshot\<close>.
\<close>

record db =
  servers :: "server_row list"
  credentials :: "credential_row list"
  enrollment_tokens :: "enrollment_row list"
  jobs :: "job_row list"
  slots :: "slot_row list"
  attempts :: "attempt_row list"
  next_attempt :: int
  job_events :: "job_event_row list"
  deployments :: "snapshot list"
  runtime_configs :: "(string \<times> execution_row) list"
  bindings :: "binding_row list"
  secret_heads :: "secret_head_row list"
  secret_versions :: "secret_version_row list"
  executions :: "(int \<times> execution_row) list"
  frozen_secrets :: "(int \<times> frozen_binding) list"
  frozen_literals :: "(int \<times> frozen_literal) list"
  releases :: "release_row list"
  operations :: "operation_row list"
  next_operation :: int
  route_heads :: "route_head_row list"
  route_events :: "route_event_row list"
  sessions :: "session_row list"
  users :: "user_row list"
  audits :: "audit_row list"
  route_audits :: "route_audit_row list"

section \<open>Access by key\<close>

definition get_job :: "int \<Rightarrow> db \<Rightarrow> job_row option" where
  "get_job k s = select_row job_id k (jobs s)"
definition put_job :: "job_row \<Rightarrow> db \<Rightarrow> db" where
  "put_job r s = s\<lparr>jobs := replace_row job_id r (jobs s)\<rparr>"

definition get_slot :: "string \<Rightarrow> db \<Rightarrow> slot_row option" where
  "get_slot k s = select_row slot_environment k (slots s)"
definition put_slot :: "slot_row \<Rightarrow> db \<Rightarrow> db" where
  "put_slot r s = s\<lparr>slots := replace_row slot_environment r (slots s)\<rparr>"

definition get_attempt :: "int \<Rightarrow> db \<Rightarrow> attempt_row option" where
  "get_attempt k s = select_row att_id k (attempts s)"
definition put_attempt :: "attempt_row \<Rightarrow> db \<Rightarrow> db" where
  "put_attempt r s = s\<lparr>attempts := replace_row att_id r (attempts s)\<rparr>"

definition get_operation :: "int \<Rightarrow> db \<Rightarrow> operation_row option" where
  "get_operation k s = select_row op_id k (operations s)"
definition put_operation :: "operation_row \<Rightarrow> db \<Rightarrow> db" where
  "put_operation r s = s\<lparr>operations := replace_row op_id r (operations s)\<rparr>"

definition get_release :: "string \<Rightarrow> db \<Rightarrow> release_row option" where
  "get_release k s = select_row rel_id k (releases s)"
definition put_release :: "release_row \<Rightarrow> db \<Rightarrow> db" where
  "put_release r s = s\<lparr>releases := replace_row rel_id r (releases s)\<rparr>"

definition get_head :: "string \<Rightarrow> db \<Rightarrow> route_head_row option" where
  "get_head k s = select_row rh_environment k (route_heads s)"
definition put_head :: "route_head_row \<Rightarrow> db \<Rightarrow> db" where
  "put_head r s = s\<lparr>route_heads := replace_row rh_environment r (route_heads s)\<rparr>"

definition snap_id :: "snapshot \<Rightarrow> string" where
  "snap_id s = id_deployment (snap_identity s)"
definition get_deployment :: "string \<Rightarrow> db \<Rightarrow> snapshot option" where
  "get_deployment k s = select_row snap_id k (deployments s)"
definition put_deployment :: "snapshot \<Rightarrow> db \<Rightarrow> db" where
  "put_deployment r s = s\<lparr>deployments := replace_row snap_id r (deployments s)\<rparr>"

interpretation job_tbl: table_store jobs get_job put_job job_id
  by unfold_locales (simp_all add: get_job_def put_job_def)

interpretation slot_tbl: table_store slots get_slot put_slot slot_environment
  by unfold_locales (simp_all add: get_slot_def put_slot_def)

interpretation attempt_tbl: table_store attempts get_attempt put_attempt att_id
  by unfold_locales (simp_all add: get_attempt_def put_attempt_def)

interpretation operation_tbl: table_store operations get_operation put_operation op_id
  by unfold_locales (simp_all add: get_operation_def put_operation_def)

interpretation release_tbl: table_store releases get_release put_release rel_id
  by unfold_locales (simp_all add: get_release_def put_release_def)

interpretation head_tbl: table_store route_heads get_head put_head rh_environment
  by unfold_locales (simp_all add: get_head_def put_head_def)

interpretation deployment_tbl: table_store deployments get_deployment put_deployment snap_id
  by unfold_locales (simp_all add: get_deployment_def put_deployment_def)

text \<open>Writing one table leaves the others alone.\<close>

lemma put_frames [simp, row_simps]:
  "slots (put_job j s) = slots s" "attempts (put_job j s) = attempts s"
  "jobs (put_slot r s) = jobs s" "attempts (put_slot r s) = attempts s"
  "jobs (put_attempt a s) = jobs s" "slots (put_attempt a s) = slots s"
  "jobs (put_deployment d s) = jobs s" "slots (put_deployment d s) = slots s"
  "attempts (put_deployment d s) = attempts s"
  "jobs (put_operation p s) = jobs s" "slots (put_operation p s) = slots s"
  "attempts (put_operation p s) = attempts s"
  "jobs (put_release e s) = jobs s" "slots (put_release e s) = slots s"
  "attempts (put_release e s) = attempts s"
  "jobs (put_head h s) = jobs s" "slots (put_head h s) = slots s"
  "attempts (put_head h s) = attempts s"
  "operations (put_job j s) = operations s" "operations (put_slot r s) = operations s"
  "operations (put_attempt a s) = operations s" "operations (put_deployment d s) = operations s"
  "operations (put_release e s) = operations s" "operations (put_head h s) = operations s"
  by (simp_all add: put_job_def put_slot_def put_attempt_def put_deployment_def put_operation_def
      put_release_def put_head_def)

lemma get_frames [simp]:
  "get_job k (put_slot r s) = get_job k s" "get_job k (put_attempt a s) = get_job k s"
  "get_job k (put_operation p s) = get_job k s" "get_job k (put_release q s) = get_job k s"
  "get_job k (put_head h s) = get_job k s" "get_job k (put_deployment d s) = get_job k s"
  "get_slot e (put_job j s) = get_slot e s" "get_slot e (put_attempt a s) = get_slot e s"
  "get_slot e (put_operation p s) = get_slot e s" "get_slot e (put_release q s) = get_slot e s"
  "get_slot e (put_head h s) = get_slot e s" "get_slot e (put_deployment d s) = get_slot e s"
  "get_attempt k (put_job j s) = get_attempt k s" "get_attempt k (put_slot r s) = get_attempt k s"
  "get_attempt k (put_operation p s) = get_attempt k s" "get_attempt k (put_release q s) = get_attempt k s"
  "get_attempt k (put_head h s) = get_attempt k s" "get_attempt k (put_deployment d s) = get_attempt k s"
  by (simp_all add: get_job_def get_slot_def get_attempt_def put_job_def put_slot_def put_attempt_def
      put_operation_def put_release_def put_head_def put_deployment_def)

lemma get_events [simp]:
  "get_attempt k (s\<lparr>job_events := evs\<rparr>) = get_attempt k s" "get_slot e (s\<lparr>job_events := evs\<rparr>) = get_slot e s"
  "get_job i (s\<lparr>job_events := evs\<rparr>) = get_job i s"
  by (simp_all add: get_attempt_def get_slot_def get_job_def)

lemma get_frames2 [simp]:
  "get_operation k (put_job j s) = get_operation k s" "get_operation k (put_slot r s) = get_operation k s"
  "get_operation k (put_attempt a s) = get_operation k s" "get_operation k (put_release q s) = get_operation k s"
  "get_operation k (put_head h s) = get_operation k s" "get_operation k (put_deployment d s) = get_operation k s"
  "get_release e (put_job j s) = get_release e s" "get_release e (put_slot r s) = get_release e s"
  "get_release e (put_attempt a s) = get_release e s" "get_release e (put_operation p s) = get_release e s"
  "get_release e (put_head h s) = get_release e s" "get_release e (put_deployment d s) = get_release e s"
  "get_head e (put_job j s) = get_head e s" "get_head e (put_slot r s) = get_head e s"
  "get_head e (put_attempt a s) = get_head e s" "get_head e (put_operation p s) = get_head e s"
  "get_head e (put_release q s) = get_head e s" "get_head e (put_deployment d s) = get_head e s"
  "get_deployment e (put_job j s) = get_deployment e s" "get_deployment e (put_slot r s) = get_deployment e s"
  "get_deployment e (put_attempt a s) = get_deployment e s"
  "get_deployment e (put_operation p s) = get_deployment e s"
  "get_deployment e (put_release q s) = get_deployment e s" "get_deployment e (put_head h s) = get_deployment e s"
  by (simp_all add: get_operation_def get_release_def get_head_def get_deployment_def put_job_def
      put_slot_def put_attempt_def put_operation_def put_release_def put_head_def put_deployment_def)

end
