(* ===== verification/Activation_Text.thy ===== *)
theory Activation_Text
  imports Go_Strings
begin

text \<open>
  The text an activation operation carries: hexadecimal digests, the sanitizing of agent-supplied
  summaries (\<^verbatim>\<open>sanitizeBoundedText\<close> of agent_lease_repository.go), and the late-report ledger of
  activation_late_report.go, in which every entry of \<^verbatim>\<open>outcome_summary\<close> is marked by the
  fingerprint of the report it records.
\<close>

section \<open>Hexadecimal\<close>

definition hex_digit :: "nat \<Rightarrow> char" where
  "hex_digit n = (if n < 10 then char_of (48 + n) else char_of (87 + n))"

fun hex_encode :: "string \<Rightarrow> string" where
  "hex_encode [] = []"
| "hex_encode (c # cs) = hex_digit (byte c div 16) # hex_digit (byte c mod 16) # hex_encode cs"

definition hex_value :: "char \<Rightarrow> nat option" where
  "hex_value c = (if in_range 48 57 c then Some (byte c - 48)
     else if in_range 97 102 c then Some (byte c - 87)
     else if in_range 65 70 c then Some (byte c - 55) else None)"

fun hex_decode :: "string \<Rightarrow> string option" where
  "hex_decode [] = Some []"
| "hex_decode [c] = None"
| "hex_decode (c # d # cs) = (case (hex_value c, hex_value d, hex_decode cs) of
     (Some h, Some l, Some rest) \<Rightarrow> Some (char_of (16 * h + l) # rest) | _ \<Rightarrow> None)"

section \<open>Runes\<close>

text \<open>The rune by rune view of a string: a valid encoding is one chunk, an invalid byte is its own chunk.\<close>

function runes :: "string \<Rightarrow> string list" where
  "runes s = (if s = [] then []
     else if rune_len s = 0 then [hd s] # runes (tl s)
     else take (rune_len s) s # runes (drop (rune_len s) s))"
  by pat_completeness auto
termination
  by (relation "measure length") auto

declare runes.simps [simp del]

definition valid_rune :: "string \<Rightarrow> bool" where
  "valid_rune r \<longleftrightarrow> rune_len r \<noteq> 0"

text \<open>\<^verbatim>\<open>strings.ToValidUTF8(s, "?")\<close>: a run of invalid bytes becomes one question mark.\<close>

fun to_valid :: "bool \<Rightarrow> string list \<Rightarrow> string list" where
  "to_valid invalid [] = []"
| "to_valid invalid (r # rs) =
     (if valid_rune r then r # to_valid False rs
      else if invalid then to_valid True rs else ''?'' # to_valid True rs)"

text \<open>\<^verbatim>\<open>unicode.IsControl\<close>: U+0000 to U+001F and U+007F to U+009F.\<close>

definition control_rune :: "string \<Rightarrow> bool" where
  "control_rune r = (case r of
       [c] \<Rightarrow> byte c < 32 \<or> byte c = 127
     | [c, d] \<Rightarrow> byte c = 194 \<and> in_range 128 159 d
     | _ \<Rightarrow> False)"

text \<open>\<^verbatim>\<open>unicode.IsSpace\<close>.\<close>

definition space_rune :: "string \<Rightarrow> bool" where
  "space_rune r = (case r of
       [c] \<Rightarrow> byte c = 32 \<or> in_range 9 13 c
     | [c, d] \<Rightarrow> byte c = 194 \<and> (byte d = 133 \<or> byte d = 160)
     | [c, d, e] \<Rightarrow>
         (byte c = 225 \<and> byte d = 154 \<and> byte e = 128) \<or>
         (byte c = 226 \<and> byte d = 128 \<and> (in_range 128 138 e \<or> byte e = 168 \<or> byte e = 169 \<or> byte e = 175)) \<or>
         (byte c = 226 \<and> byte d = 129 \<and> byte e = 159) \<or>
         (byte c = 227 \<and> byte d = 128 \<and> byte e = 128)
     | _ \<Rightarrow> False)"

definition trim_space :: "string list \<Rightarrow> string list" where
  "trim_space rs = rev (dropWhile space_rune (rev (dropWhile space_rune rs)))"

fun rune_cut :: "string \<Rightarrow> nat \<Rightarrow> nat" where
  "rune_cut s 0 = 0"
| "rune_cut s (Suc n) = (if RuneStart (s ! Suc n) then Suc n else rune_cut s n)"

definition truncateOnRuneBoundary :: "string \<Rightarrow> int \<Rightarrow> string" where
  "truncateOnRuneBoundary s maxBytes =
     (if maxBytes \<le> 0 then [] else if int (length s) \<le> maxBytes then s
      else take (rune_cut s (nat maxBytes)) s)"

definition sanitizeBoundedText :: "string \<Rightarrow> int \<Rightarrow> string" where
  "sanitizeBoundedText summary maxBytes =
     truncateOnRuneBoundary
       (concat (trim_space (map (\<lambda>r. if control_rune r then '' '' else r) (to_valid False (runes summary)))))
       maxBytes"

definition maxActivationFailureSummaryBytes :: int where
  "maxActivationFailureSummaryBytes = 512"

definition sanitizeOutcomeSummary :: "string \<Rightarrow> string" where
  "sanitizeOutcomeSummary summary = sanitizeBoundedText summary maxActivationFailureSummaryBytes"

definition emptyFailureSummary :: string where
  "emptyFailureSummary = ''activation failure reported without detail''"

definition failureOutcomeSummary :: "string \<Rightarrow> string" where
  "failureOutcomeSummary raw =
     (let summary = sanitizeOutcomeSummary raw in if summary \<noteq> [] then summary else emptyFailureSummary)"

section \<open>The late-report ledger\<close>

definition maxOutcomeSummaryBytes :: int where
  "maxOutcomeSummaryBytes = 2048"

definition lateReportSeparator :: string where
  "lateReportSeparator = '' | ''"

definition lateReportMarkerPrefix :: string where
  "lateReportMarkerPrefix = ''late report #''"

definition lateSuccessReserve :: int where
  "lateSuccessReserve = 512"

record activationReport =
  rp_succeeded :: bool
  rp_digest_matches :: bool
  rp_observed :: string
  rp_failure :: string

definition lateReportFingerprint :: "(string \<Rightarrow> string) \<Rightarrow> bool \<Rightarrow> string \<Rightarrow> string \<Rightarrow> string" where
  "lateReportFingerprint sha256 succeeded observed failure =
     hex_encode (take 8 (sha256 (if succeeded then ''success'' @ [CHR 0x00] @ observed
                                 else ''failure'' @ [CHR 0x00] @ failure)))"

definition lateReportMarker :: "string \<Rightarrow> string" where
  "lateReportMarker fingerprint = lateReportMarkerPrefix @ fingerprint @ '':''"

definition isOriginalBlockReplay :: "string \<Rightarrow> string \<Rightarrow> bool" where
  "isOriginalBlockReplay existing failure \<longleftrightarrow>
     existing = failure \<or> HasPrefix existing (failure @ lateReportSeparator @ lateReportMarkerPrefix)"

definition lateSuccessBody :: "string \<Rightarrow> bool \<Rightarrow> string" where
  "lateSuccessBody observed matches =
     ''agent reported success after the activation was blocked; matches authorized digest: ''
     @ (if matches then ''true'' else ''false'') @ ''; observed route digest sha256:'' @ hex_encode observed"

definition lateFailureBody :: "string \<Rightarrow> string" where
  "lateFailureBody failure = ''agent reported failure after the activation was blocked: '' @ failure"

datatype late_evidence = lateEvidenceAppended | lateEvidenceReplay | lateEvidenceNoRoom

definition appendLateEvidence :: "string \<Rightarrow> string \<Rightarrow> string \<Rightarrow> bool \<Rightarrow> string \<times> late_evidence" where
  "appendLateEvidence existing fingerprint body0 success =
     (let marker = lateReportMarker fingerprint in
      if Contains existing marker then (existing, lateEvidenceReplay)
      else let room0 = maxOutcomeSummaryBytes - int (length existing) - int (length lateReportSeparator);
               room = (if success then room0 else room0 - lateSuccessReserve) in
        if room < int (length marker) then (existing, lateEvidenceNoRoom)
        else let body = sanitizeBoundedText body0 maxOutcomeSummaryBytes;
                 entry = (if body \<noteq> [] then marker @ '' '' @ body else marker)
             in (existing @ lateReportSeparator @ truncateOnRuneBoundary entry room, lateEvidenceAppended))"

definition declaredSummary :: "string \<Rightarrow> string \<Rightarrow> string" where
  "declaredSummary existing outcome =
     (let marker = (if existing = [] then ''declared '' @ outcome else lateReportSeparator @ ''declared '' @ outcome)
      in if int (length existing) + int (length marker) > maxOutcomeSummaryBytes then existing
         else existing @ marker)"

section \<open>Integers in text\<close>

text \<open>\<^verbatim>\<open>strconv.ParseInt(s, 10, 64)\<close>: an optional sign, decimal digits, the signed 64-bit range.\<close>

definition parse_digits :: "string \<Rightarrow> nat option" where
  "parse_digits ds = (if ds \<noteq> [] \<and> list_all (in_range 48 57) ds then Some (digits_value ds) else None)"

definition ParseInt :: "string \<Rightarrow> int option" where
  "ParseInt s =
     (let (neg, ds) = (case s of
            c # cs \<Rightarrow> if c = CHR ''-'' then (True, cs) else if c = CHR ''+'' then (False, cs) else (False, s)
          | [] \<Rightarrow> (False, []))
      in case parse_digits ds of
           None \<Rightarrow> None
         | Some n \<Rightarrow> let v = (if neg then - int n else int n) in
             if - (2 ^ 63) \<le> v \<and> v < 2 ^ 63 then Some v else None)"

end
