(* ===== verification/Route_Document.thy ===== *)
theory Route_Document
  imports Activation_Text
begin

text \<open>
  The Traefik route document of an environment: the name derivations of
  \<^verbatim>\<open>runtime/dockerid/dockerid.go\<close> and \<^verbatim>\<open>runtime/traefik/names.go\<close>, the hostname rules of
  \<^verbatim>\<open>healthgate/validate.go\<close>, the validation of \<^verbatim>\<open>runtime/traefik/route.go\<close> and the renderer of
  \<^verbatim>\<open>runtime/traefik/render.go\<close>.  The regular expressions are anchored, so each is the predicate of the
  whole string it matches.
\<close>

section \<open>Character classes\<close>

definition is_digit :: "char \<Rightarrow> bool" where
  "is_digit c \<longleftrightarrow> in_range 48 57 c"

definition is_lower :: "char \<Rightarrow> bool" where
  "is_lower c \<longleftrightarrow> in_range 97 122 c"

definition is_upper :: "char \<Rightarrow> bool" where
  "is_upper c \<longleftrightarrow> in_range 65 90 c"

definition is_alnum :: "char \<Rightarrow> bool" where
  "is_alnum c \<longleftrightarrow> is_digit c \<or> is_lower c \<or> is_upper c"

section \<open>Identifiers (dockerid.go, route.go)\<close>

text \<open>\<^verbatim>\<open>^[A-Za-z0-9][A-Za-z0-9_-]{0,n}$\<close>\<close>

definition identifier_chars :: "nat \<Rightarrow> string \<Rightarrow> bool" where
  "identifier_chars n s = (case s of
       [] \<Rightarrow> False
     | c # cs \<Rightarrow> is_alnum c \<and> length cs \<le> n \<and> list_all (\<lambda>d. is_alnum d \<or> d = CHR ''_'' \<or> d = CHR ''-'') cs)"

definition opaqueIDPattern :: "string \<Rightarrow> bool" where
  "opaqueIDPattern = identifier_chars 127"

definition identifierPattern :: "string \<Rightarrow> bool" where
  "identifierPattern = identifier_chars 127"

definition staticNamePattern :: "string \<Rightarrow> bool" where
  "staticNamePattern = identifier_chars 62"

definition ContainerNamePrefix :: string where
  "ContainerNamePrefix = ''autodeploy-rt-''"

text \<open>\<^verbatim>\<open>^[a-zA-Z0-9][a-zA-Z0-9_.-]+$\<close>\<close>

definition containerNamePattern :: "string \<Rightarrow> bool" where
  "containerNamePattern s = (case s of
       [] \<Rightarrow> False
     | c # cs \<Rightarrow> is_alnum c \<and> cs \<noteq> [] \<and>
         list_all (\<lambda>d. is_alnum d \<or> d = CHR ''_'' \<or> d = CHR ''.'' \<or> d = CHR ''-'') cs)"

datatype route_error = ErrInvalidIdentifier | ErrInvalidRoute | ErrNonASCIIValue

definition ContainerName :: "string \<Rightarrow> route_error + string" where
  "ContainerName runtimeInstanceID =
     (if \<not> opaqueIDPattern runtimeInstanceID then Inl ErrInvalidIdentifier
      else let name = ContainerNamePrefix @ runtimeInstanceID in
        if length name > 255 then Inl ErrInvalidIdentifier
        else if \<not> containerNamePattern name then Inl ErrInvalidIdentifier
        else Inr name)"

definition AttemptRuntimeInstanceID :: "int \<Rightarrow> string" where
  "AttemptRuntimeInstanceID attempt = itoa attempt"

section \<open>Hostnames (healthgate/validate.go)\<close>

definition MaxPathBytes :: nat where
  "MaxPathBytes = 2048"

definition MaxHostLabelBytes :: nat where
  "MaxHostLabelBytes = 253"

text \<open>One DNS label over a class of letters: \<^verbatim>\<open>x(?:[x-]{0,61}x)?\<close>.\<close>

definition host_label :: "(char \<Rightarrow> bool) \<Rightarrow> string \<Rightarrow> bool" where
  "host_label x s \<longleftrightarrow> s \<noteq> [] \<and> length s \<le> 63 \<and> x (hd s) \<and> x (last s) \<and> list_all (\<lambda>c. x c \<or> c = CHR ''-'') s"

text \<open>
  The path grammar: after the leading slash a run of allowed bytes and escaped octets, then
  optionally a question mark and such a run in which question marks are allowed too.
\<close>

definition pchar_or_slash :: "char \<Rightarrow> bool" where
  "pchar_or_slash c \<longleftrightarrow> is_alnum c \<or> c \<in> set ''._~!$&'' \<or> c = char_of (39 :: nat) \<or> c \<in> set ''()*+,;=:@/-''"

fun query_chars :: "string \<Rightarrow> bool" where
  "query_chars [] = True"
| "query_chars (c # cs) =
     (if c = CHR ''%'' then (case cs of
          h # l # rest \<Rightarrow> hex_value h \<noteq> None \<and> hex_value l \<noteq> None \<and> query_chars rest
        | _ \<Rightarrow> False)
      else (pchar_or_slash c \<or> c = CHR ''?'') \<and> query_chars cs)"

fun path_chars :: "string \<Rightarrow> bool" where
  "path_chars [] = True"
| "path_chars (c # cs) =
     (if c = CHR ''%'' then (case cs of
          h # l # rest \<Rightarrow> hex_value h \<noteq> None \<and> hex_value l \<noteq> None \<and> path_chars rest
        | _ \<Rightarrow> False)
      else if c = CHR ''?'' then query_chars cs
      else pchar_or_slash c \<and> path_chars cs)"

definition ValidPath :: "string \<Rightarrow> bool" where
  "ValidPath path \<longleftrightarrow>
     \<not> (length path < 1 \<or> length path > MaxPathBytes) \<and> \<not> HasPrefix path ''//'' \<and>
     (case path of [] \<Rightarrow> False | c # cs \<Rightarrow> c = CHR ''/'' \<and> path_chars cs)"

text \<open>The alternatives of \<^verbatim>\<open>portPattern\<close>, in the order of the source.\<close>

definition portPattern :: "string \<Rightarrow> bool" where
  "portPattern s = (case s of
       [a] \<Rightarrow> in_range 49 57 a
     | [a, b] \<Rightarrow> in_range 49 57 a \<and> is_digit b
     | [a, b, c] \<Rightarrow> in_range 49 57 a \<and> is_digit b \<and> is_digit c
     | [a, b, c, d] \<Rightarrow> in_range 49 57 a \<and> is_digit b \<and> is_digit c \<and> is_digit d
     | [a, b, c, d, e] \<Rightarrow>
         a = CHR ''6'' \<and> b = CHR ''5'' \<and> c = CHR ''5'' \<and> d = CHR ''3'' \<and> in_range 48 53 e
         \<or> a = CHR ''6'' \<and> b = CHR ''5'' \<and> c = CHR ''5'' \<and> in_range 48 50 d \<and> is_digit e
         \<or> a = CHR ''6'' \<and> b = CHR ''5'' \<and> in_range 48 52 c \<and> is_digit d \<and> is_digit e
         \<or> a = CHR ''6'' \<and> in_range 48 52 b \<and> is_digit c \<and> is_digit d \<and> is_digit e
         \<or> in_range 49 53 a \<and> is_digit b \<and> is_digit c \<and> is_digit d \<and> is_digit e
     | _ \<Rightarrow> False)"

definition host_labels :: "string \<Rightarrow> bool" where
  "host_labels s \<longleftrightarrow> list_all (host_label is_alnum) (Split s (CHR ''.''))"

definition hostPattern :: "string \<Rightarrow> bool" where
  "hostPattern host = (case Split host (CHR '':'') of
       [name] \<Rightarrow> host_labels name
     | [name, port] \<Rightarrow> host_labels name \<and> portPattern port
     | _ \<Rightarrow> False)"

definition ValidHost :: "string \<Rightarrow> bool" where
  "ValidHost host \<longleftrightarrow> \<not> (host = [] \<or> \<not> hostPattern host) \<and>
     length (hd (Split host (CHR '':''))) \<le> MaxHostLabelBytes"

definition route_letter :: "char \<Rightarrow> bool" where
  "route_letter c \<longleftrightarrow> is_lower c \<or> is_digit c"

definition routeHostnamePattern :: "string \<Rightarrow> bool" where
  "routeHostnamePattern host \<longleftrightarrow>
     2 \<le> length (Split host (CHR ''.'')) \<and> list_all (host_label route_letter) (Split host (CHR ''.''))"

definition routeHostFinalLabelAllDigits :: "string \<Rightarrow> bool" where
  "routeHostFinalLabelAllDigits s \<longleftrightarrow> s \<noteq> [] \<and> list_all is_digit s"

definition ValidRouteHostname :: "string \<Rightarrow> bool" where
  "ValidRouteHostname host \<longleftrightarrow>
     \<not> (host = [] \<or> length host > MaxHostLabelBytes \<or> \<not> routeHostnamePattern host) \<and>
     \<not> routeHostFinalLabelAllDigits (last (Split host (CHR ''.'')))"

section \<open>Routes (route.go, names.go)\<close>

record environment_route =
  rt_environment :: string
  rt_revision :: int
  rt_hostname :: string
  rt_entrypoint :: string
  rt_resolver :: string
  rt_backend :: string
  rt_port :: int
  rt_scheme :: string
  rt_release :: string
  rt_fence :: string

definition validBackendScheme :: "string \<Rightarrow> bool" where
  "validBackendScheme s \<longleftrightarrow> s = ''http'' \<or> s = ''https''"

definition validate_route :: "environment_route \<Rightarrow> route_error option" where
  "validate_route r =
     (if \<not> identifierPattern (rt_environment r) then Some ErrInvalidRoute
      else if \<not> ValidRouteHostname (rt_hostname r) then Some ErrInvalidRoute
      else if \<not> staticNamePattern (rt_entrypoint r) then Some ErrInvalidRoute
      else if \<not> staticNamePattern (rt_resolver r) then Some ErrInvalidRoute
      else if isl (ContainerName (rt_backend r)) then Some ErrInvalidRoute
      else if rt_port r < 1 \<or> rt_port r > 65535 then Some ErrInvalidRoute
      else if \<not> validBackendScheme (rt_scheme r) then Some ErrInvalidRoute
      else if \<not> identifierPattern (rt_release r) then Some ErrInvalidRoute
      else if \<not> identifierPattern (rt_fence r) then Some ErrInvalidRoute
      else None)"

definition routerName :: "environment_route \<Rightarrow> string" where
  "routerName r = ''autodeploy-router-'' @ rt_environment r"

definition serviceName :: "environment_route \<Rightarrow> string" where
  "serviceName r = ''autodeploy-svc-'' @ rt_environment r @ ''-'' @ rt_release r @ ''-'' @ rt_fence r"

definition routeFileName :: "string \<Rightarrow> string" where
  "routeFileName environmentID = ''environment-'' @ environmentID @ ''.yml''"

definition backendServerURL :: "environment_route \<Rightarrow> route_error + string" where
  "backendServerURL r = (case ContainerName (rt_backend r) of
       Inl e \<Rightarrow> Inl e
     | Inr name \<Rightarrow> Inr (rt_scheme r @ ''://'' @ name @ '':'' @ itoa (rt_port r)))"

section \<open>The document (render.go)\<close>

definition newline :: string where
  "newline = [char_of (10 :: nat)]"

text \<open>\<^verbatim>\<open>%02X\<close>: upper-case hexadecimal.\<close>

definition upper_hex_digit :: "nat \<Rightarrow> char" where
  "upper_hex_digit n = (if n < 10 then char_of (48 + n) else char_of (55 + n))"

definition backslash :: char where
  "backslash = char_of (92 :: nat)"

definition quote :: char where
  "quote = char_of (34 :: nat)"

text \<open>What one byte becomes inside the quotes; a byte outside ASCII is refused.\<close>

definition quote_byte :: "char \<Rightarrow> string option" where
  "quote_byte c =
     (if byte c \<ge> 128 then None
      else if c = backslash then Some [backslash, backslash]
      else if c = quote then Some [backslash, quote]
      else if byte c = 10 then Some [backslash, CHR ''n'']
      else if byte c = 13 then Some [backslash, CHR ''r'']
      else if byte c = 9 then Some [backslash, CHR ''t'']
      else if byte c < 32 \<or> byte c = 127
      then Some [backslash, CHR ''x'', upper_hex_digit (byte c div 16), upper_hex_digit (byte c mod 16)]
      else Some [c])"

fun quote_bytes :: "string \<Rightarrow> string option" where
  "quote_bytes [] = Some []"
| "quote_bytes (c # cs) = (case quote_byte c of
       None \<Rightarrow> None
     | Some q \<Rightarrow> (case quote_bytes cs of None \<Rightarrow> None | Some qs \<Rightarrow> Some (q @ qs)))"

definition quoteYAMLString :: "string \<Rightarrow> route_error + string" where
  "quoteYAMLString s = (case quote_bytes s of
       None \<Rightarrow> Inl ErrNonASCIIValue
     | Some q \<Rightarrow> Inr (quote # q @ [quote]))"

definition ruleValue :: "string \<Rightarrow> string" where
  "ruleValue hostname = ''Host('' @ [char_of (96 :: nat)] @ hostname @ [char_of (96 :: nat)] @ '')''"

text \<open>The document as its lines: fixed text, or an indentation, a key and a quoted value with what follows it.\<close>

datatype doc_line = Fixed string | Quoted string string string

definition document_lines :: "environment_route \<Rightarrow> string \<Rightarrow> string \<Rightarrow> string \<Rightarrow> doc_line list" where
  "document_lines r router service backendURL =
     [Fixed ''# Generated by autodeploy internal/runtime/traefik. Do not edit by hand;'',
      Fixed ''# this file is replaced atomically on every activation.'',
      Fixed (''# environment: '' @ rt_environment r),
      Fixed (''# route_revision: '' @ itoa (rt_revision r)),
      Fixed ''http:'',
      Fixed ''  routers:'',
      Quoted ''    '' router '':'',
      Quoted ''      rule: '' (ruleValue (rt_hostname r)) '''',
      Fixed ''      entryPoints:'',
      Quoted ''        - '' (rt_entrypoint r) '''',
      Quoted ''      service: '' service '''',
      Fixed ''      tls:'',
      Quoted ''        certResolver: '' (rt_resolver r) '''',
      Fixed ''  services:'',
      Quoted ''    '' service '':'',
      Fixed ''      loadBalancer:'',
      Fixed ''        servers:'',
      Quoted ''          - url: '' backendURL '''']"

fun render_line :: "doc_line \<Rightarrow> route_error + string" where
  "render_line (Fixed s) = Inr (s @ newline)"
| "render_line (Quoted pre v post) = (case quoteYAMLString v of
       Inl e \<Rightarrow> Inl e
     | Inr q \<Rightarrow> Inr (pre @ q @ post @ newline))"

fun render_lines :: "doc_line list \<Rightarrow> route_error + string" where
  "render_lines [] = Inr []"
| "render_lines (l # ls) = (case render_line l of
       Inl e \<Rightarrow> Inl e
     | Inr s \<Rightarrow> (case render_lines ls of Inl e \<Rightarrow> Inl e | Inr rest \<Rightarrow> Inr (s @ rest)))"

definition renderDocument :: "environment_route \<Rightarrow> string \<Rightarrow> string \<Rightarrow> string \<Rightarrow> route_error + string" where
  "renderDocument r router service backendURL = render_lines (document_lines r router service backendURL)"

definition Digest :: "(string \<Rightarrow> string) \<Rightarrow> string \<Rightarrow> string" where
  "Digest sha256 doc = ''sha256:'' @ hex_encode (sha256 doc)"

definition Render :: "(string \<Rightarrow> string) \<Rightarrow> environment_route \<Rightarrow> route_error + (string \<times> string)" where
  "Render sha256 r = (case validate_route r of
       Some e \<Rightarrow> Inl e
     | None \<Rightarrow> (case backendServerURL r of
           Inl e \<Rightarrow> Inl ErrInvalidRoute
         | Inr backendURL \<Rightarrow> (case renderDocument r (routerName r) (serviceName r) backendURL of
               Inl e \<Rightarrow> Inl ErrInvalidRoute
             | Inr doc \<Rightarrow> Inr (doc, Digest sha256 doc))))"

section \<open>Quoting\<close>

text \<open>
  A reader of double-quoted YAML scalars, as far as the escapes the renderer writes: it stops at
  the closing quote and returns the content and the rest of the text.
\<close>

definition upper_hex_value :: "char \<Rightarrow> nat option" where
  "upper_hex_value c = (if in_range 48 57 c then Some (byte c - 48)
     else if in_range 65 70 c then Some (byte c - 55) else None)"

fun read_scalar :: "string \<Rightarrow> (string \<times> string) option" where
  "read_scalar [] = None"
| "read_scalar (c # cs) =
     (if c = quote then Some ([], cs)
      else if c \<noteq> backslash then map_option (apfst (Cons c)) (read_scalar cs)
      else (case cs of
          [] \<Rightarrow> None
        | e # ds \<Rightarrow>
            if e = CHR ''x'' then (case ds of
                h # l # rest \<Rightarrow> (case (upper_hex_value h, upper_hex_value l) of
                    (Some a, Some b) \<Rightarrow> map_option (apfst (Cons (char_of (16 * a + b)))) (read_scalar rest)
                  | _ \<Rightarrow> None)
              | _ \<Rightarrow> None)
            else if e = backslash \<or> e = quote then map_option (apfst (Cons e)) (read_scalar ds)
            else if e = CHR ''n'' then map_option (apfst (Cons (char_of (10 :: nat)))) (read_scalar ds)
            else if e = CHR ''r'' then map_option (apfst (Cons (char_of (13 :: nat)))) (read_scalar ds)
            else if e = CHR ''t'' then map_option (apfst (Cons (char_of (9 :: nat)))) (read_scalar ds)
            else None))"

definition read_quoted :: "string \<Rightarrow> (string \<times> string) option" where
  "read_quoted s = (case s of [] \<Rightarrow> None | c # cs \<Rightarrow> if c = quote then read_scalar cs else None)"

lemma byte_char_of [simp]: "n < 256 \<Longrightarrow> byte (char_of n) = n"
  by (simp add: byte_def)

lemma char_of_byte [simp]: "char_of (byte c) = c"
  by (simp add: byte_def)

lemma byte_inject: "byte c = byte d \<longleftrightarrow> c = d"
  by (metis char_of_byte)

lemma upper_hex_value_digit: "n < 16 \<Longrightarrow> upper_hex_value (upper_hex_digit n) = Some n"
  by (auto simp: upper_hex_value_def upper_hex_digit_def in_range_def)

lemma read_quote_byte:
  assumes "quote_byte c = Some q"
  shows "read_scalar (q @ rest) = map_option (apfst (Cons c)) (read_scalar rest)"
proof -
  have sep: "backslash \<noteq> quote" "backslash \<noteq> CHR ''n''" "backslash \<noteq> CHR ''r''" "backslash \<noteq> CHR ''t''" "backslash \<noteq> CHR ''x''"
    "quote \<noteq> CHR ''n''" "quote \<noteq> CHR ''r''" "quote \<noteq> CHR ''t''" "quote \<noteq> CHR ''x''"
    by (simp_all add: backslash_def quote_def char_of_def)
  show ?thesis
  proof (cases "byte c < 32 \<or> byte c = 127")
    case True
    have "16 * (byte c div 16) + byte c mod 16 = byte c" by simp
    moreover have "byte c = 10 \<Longrightarrow> c = char_of (10 :: nat)" "byte c = 13 \<Longrightarrow> c = char_of (13 :: nat)" "byte c = 9 \<Longrightarrow> c = char_of (9 :: nat)"
      "byte c = 127 \<Longrightarrow> c = char_of (127 :: nat)"
      by (metis char_of_byte)+
    moreover have "c \<noteq> backslash" "c \<noteq> quote" using True by (auto simp: backslash_def quote_def)
    moreover have "byte c div 16 < 16" using byte_less [of c] by (simp add: less_mult_imp_div_less del: byte_less)
    ultimately show ?thesis using assms sep True
      by (auto simp: quote_byte_def upper_hex_value_digit split: if_splits)
  next
    case False
    then show ?thesis using assms sep by (auto simp: quote_byte_def split: if_splits)
  qed
qed

lemma read_scalar_end: "read_scalar (quote # rest) = Some ([], rest)"
  by simp

declare read_scalar.simps [simp del]

lemma read_quote_bytes: "quote_bytes s = Some q \<Longrightarrow> read_scalar (q @ quote # rest) = Some (s, rest)"
  by (induction s arbitrary: q) (auto simp: read_quote_byte read_scalar_end split: option.splits)

lemma quote_byte_None: "quote_byte c = None \<longleftrightarrow> \<not> byte c < 128"
  by (simp add: quote_byte_def not_less)

lemma quote_bytes_None: "quote_bytes s = None \<longleftrightarrow> \<not> list_all (\<lambda>c. byte c < 128) s"
proof (induction s)
  case (Cons c s)
  then show ?case by (cases "quote_byte c") (auto simp: quote_byte_None [symmetric] split: option.splits)
qed simp

text \<open>
  Quoting loses nothing and lets nothing out.  Every ASCII text, whatever control characters,
  quotes and backslashes it has, is quoted so that a YAML reader gets exactly that text back and
  goes on after the closing quote with what followed; a text with any other byte is refused.
\<close>

lemma quote_roundtrip:
  "if list_all (\<lambda>c. byte c < 128) s
   then \<exists>q. quoteYAMLString s = Inr q \<and> (\<forall>rest. read_quoted (q @ rest) = Some (s, rest))
   else quoteYAMLString s = Inl ErrNonASCIIValue"
proof (cases "quote_bytes s")
  case None
  then show ?thesis using quote_bytes_None [of s] by (simp add: quoteYAMLString_def)
next
  case (Some q)
  then show ?thesis using quote_bytes_None [of s] read_quote_bytes [OF Some] by (simp add: quoteYAMLString_def read_quoted_def)
qed

section \<open>Ports and hosts\<close>

lemma char_digit_byte: "char_digit c = byte c - 48"
  by (simp add: char_digit_def byte_def)

lemma digit_byte: "is_digit c \<longleftrightarrow> 48 \<le> byte c \<and> byte c \<le> 57"
  by (simp add: is_digit_def in_range_def)

lemma digit_char_byte: "is_digit c \<Longrightarrow> digit_char (char_digit c) = c"
  by (simp add: digit_char_def char_digit_byte digit_byte)

lemma char_digit_less: "is_digit c \<Longrightarrow> char_digit c < 10"
  by (simp add: char_digit_byte digit_byte less_diff_conv2)

lemma is_char_byte: "c = CHR ''0'' \<longleftrightarrow> byte c = 48" "c = CHR ''3'' \<longleftrightarrow> byte c = 51" "c = CHR ''5'' \<longleftrightarrow> byte c = 53" "c = CHR ''6'' \<longleftrightarrow> byte c = 54"
  by (simp_all add: byte_inject [symmetric]) (simp_all add: byte_def)

lemma digits_value_pos:
  assumes "s \<noteq> []" "list_all is_digit s" "hd s \<noteq> CHR ''0''"
  shows "10 ^ (length s - 1) \<le> digits_value s"
  using assms
proof (induction s rule: rev_induct)
  case (snoc c s)
  show ?case
  proof (cases "s = []")
    case True
    with snoc.prems show ?thesis by (auto simp: digits_value_def char_digit_byte digit_byte is_char_byte)
  next
    case False
    with snoc have "10 ^ (length s - 1) \<le> digits_value s" by simp
    moreover have "10 ^ (length (s @ [c]) - 1) = (10 :: nat) * 10 ^ (length s - 1)" using False by (cases s) simp_all
    ultimately show ?thesis unfolding digits_value_snoc by simp
  qed
qed simp

lemma nat_digits_digits_value:
  assumes "s \<noteq> []" "list_all is_digit s" "hd s \<noteq> CHR ''0''"
  shows "nat_digits (digits_value s) = s"
  using assms
proof (induction s rule: rev_induct)
  case (snoc c s)
  have c: "char_digit c < 10" "digit_char (char_digit c) = c" using snoc.prems by (simp_all add: char_digit_less digit_char_byte)
  show ?case
  proof (cases "s = []")
    case True
    with c show ?thesis by (simp add: nat_digits.simps digits_value_def)
  next
    case False
    then have s: "list_all is_digit s" "hd s \<noteq> CHR ''0''" using snoc.prems by simp_all
    have "0 < digits_value s" using digits_value_pos [OF False s] by (metis less_le_trans zero_less_numeral zero_less_power)
    then have "\<not> digits_value (s @ [c]) < 10" by (simp add: digits_value_snoc)
    moreover have "digits_value (s @ [c]) div 10 = digits_value s" "digits_value (s @ [c]) mod 10 = char_digit c"
      using c(1) by (simp_all add: digits_value_snoc)
    ultimately show ?thesis using snoc.IH [OF False s] c(2) by (simp add: nat_digits.simps [of "digits_value (s @ [c])"])
  qed
qed simp

lemma hd_nat_digits: "0 < n \<Longrightarrow> hd (nat_digits n) \<noteq> CHR ''0''"
proof (induction n rule: nat_digits.induct)
  case (1 n)
  then show ?case
    by (cases "n < 10") (auto simp: nat_digits.simps [of n] is_char_byte digit_char_def)
qed

lemma port_value_five:
  assumes "A \<le> 9" "B \<le> 9" "C \<le> 9" "D \<le> 9" "E \<le> 9" "A \<noteq> (0 :: nat)"
  shows "A = 6 \<and> B = 5 \<and> C = 5 \<and> D = 3 \<and> E \<le> 5 \<or> A = 6 \<and> B = 5 \<and> C = 5 \<and> D \<le> 2 \<or> A = 6 \<and> B = 5 \<and> C \<le> 4 \<or>
    A = 6 \<and> B \<le> 4 \<or> 1 \<le> A \<and> A \<le> 5 \<longleftrightarrow> 10000 * A + 1000 * B + 100 * C + 10 * D + E \<le> 65535"
proof -
  consider "A \<le> 5" | "7 \<le> A" | "A = 6" "B \<le> 4" | "A = 6" "6 \<le> B" | "A = 6" "B = 5" "C \<le> 4" | "A = 6" "B = 5" "6 \<le> C"
    | "A = 6" "B = 5" "C = 5" "D \<le> 2" | "A = 6" "B = 5" "C = 5" "4 \<le> D" | "A = 6" "B = 5" "C = 5" "D = 3"
    by (metis (no_types) Suc_leI eval_nat_numeral(2,3) linorder_neqE_nat less_Suc_eq_le semiring_norm(26,27,28))
  then show ?thesis using assms by cases auto
qed

lemma digit_value: "is_digit c \<longleftrightarrow> (\<exists>n. n \<le> 9 \<and> byte c = 48 + n)"
  by (auto simp: digit_byte intro!: exI [of _ "byte c - 48"])

lemma port_value:
  assumes "s \<noteq> []" "list_all is_digit s" "hd s \<noteq> CHR ''0''"
  shows "portPattern s \<longleftrightarrow> digits_value s \<le> 65535"
proof (cases "length s \<le> 5")
  case True
  then consider a where "s = [a]" | a b where "s = [a, b]" | a b c where "s = [a, b, c]" | a b c d where "s = [a, b, c, d]"
    | a b c d e where "s = [a, b, c, d, e]"
    using assms(1) by (auto simp: neq_Nil_conv le_Suc_eq length_Suc_conv numeral_eq_Suc)
  then show ?thesis
  proof cases
    case (5 a b c d e)
    with assms obtain A B C D E where v: "byte a = 48 + A" "byte b = 48 + B" "byte c = 48 + C" "byte d = 48 + D" "byte e = 48 + E"
      and r: "A \<le> 9" "B \<le> 9" "C \<le> 9" "D \<le> 9" "E \<le> 9" "A \<noteq> 0"
      by (auto simp: digit_value is_char_byte)
    show ?thesis using port_value_five [OF r] r 5 v
      by (simp add: portPattern_def digits_value_def char_digit_byte digit_byte is_char_byte in_range_def algebra_simps numeral_2_eq_2)
  qed (use assms in \<open>auto simp: digit_value is_char_byte portPattern_def digits_value_def char_digit_byte in_range_def\<close>)
next
  case False
  have "(10 :: nat) ^ 5 \<le> 10 ^ (length s - 1)" using False by (intro power_increasing) simp_all
  with digits_value_pos [OF assms] False show ?thesis by (auto simp: portPattern_def split: list.splits)
qed

lemma port_digits: "portPattern s \<Longrightarrow> s \<noteq> [] \<and> list_all is_digit s \<and> hd s \<noteq> CHR ''0''"
  by (auto simp: portPattern_def digit_byte in_range_def is_char_byte split: list.splits)

text \<open>
  The port pattern accepts exactly the decimal numbers from 1 to 65535, without leading zeros.
\<close>

theorem port_pattern_is_port_range: "portPattern s \<longleftrightarrow> (\<exists>n. 1 \<le> n \<and> n \<le> 65535 \<and> s = itoa n)"
proof
  assume p: "portPattern s"
  note d = port_digits [OF p]
  then have "digits_value s \<le> 65535" using port_value p by blast
  moreover have "1 \<le> digits_value s" using digits_value_pos [of s] d by (metis less_le_trans one_le_numeral one_le_power order_trans)
  moreover have "s = nat_digits (digits_value s)" using nat_digits_digits_value d by metis
  ultimately show "\<exists>n. 1 \<le> n \<and> n \<le> 65535 \<and> s = itoa n" by (intro exI [of _ "int (digits_value s)"]) (simp add: itoa_def)
next
  assume "\<exists>n. 1 \<le> n \<and> n \<le> 65535 \<and> s = itoa n"
  then obtain n where n: "1 \<le> n" "n \<le> 65535" "s = itoa n" by blast
  then have s: "s = nat_digits (nat n)" by (simp add: itoa_def)
  have "list_all is_digit s" using nat_digits_range by (fastforce simp: list_all_iff s digit_byte byte_def)
  moreover have "hd s \<noteq> CHR ''0''" using n(1) hd_nat_digits s by auto
  moreover have "digits_value s \<le> 65535" using n(2) unfolding s digits_value_nat_digits by simp
  moreover have "s \<noteq> []" unfolding s by simp
  ultimately show "portPattern s" using port_value by blast
qed

section \<open>What a document says\<close>

lemma hex_value_digit: "n < 16 \<Longrightarrow> hex_value (hex_digit n) = Some n"
  by (auto simp: hex_value_def hex_digit_def in_range_def)

lemma hex_decode_encode: "hex_decode (hex_encode s) = Some s"
proof (induction s)
  case (Cons c s)
  have "byte c div 16 < 16" using byte_less [of c] by (simp add: less_mult_imp_div_less del: byte_less)
  with Cons show ?case by (simp add: hex_value_digit)
qed simp

lemma hex_encode_inject: "hex_encode s = hex_encode t \<longleftrightarrow> s = t"
  by (metis hex_decode_encode option.inject)

lemma quote_inject: "quoteYAMLString v = Inr q \<Longrightarrow> quoteYAMLString w = Inr q \<Longrightarrow> v = w"
  by (auto simp: quoteYAMLString_def split: option.splits) (metis read_quote_bytes option.inject prod.inject)

definition one_line :: "string \<Rightarrow> bool" where
  "one_line s \<longleftrightarrow> list_all (\<lambda>c. byte c \<noteq> 10) s"

definition line_ok :: "doc_line \<Rightarrow> bool" where
  "line_ok l = (case l of Fixed s \<Rightarrow> one_line s | Quoted pre v post \<Rightarrow> one_line pre \<and> one_line post)"

lemma one_line_simps [simp]: "one_line []" "one_line (c # s) \<longleftrightarrow> byte c \<noteq> 10 \<and> one_line s" "one_line (s @ t) \<longleftrightarrow> one_line s \<and> one_line t"
  by (simp_all add: one_line_def)

lemma newline_not_in: "one_line s \<Longrightarrow> char_of (10 :: nat) \<notin> set s"
  unfolding one_line_def list_all_iff by (metis byte_char_of numeral_less_iff semiring_norm(76,78,80,81))

lemma byte_Char [simp]: "byte (Char b0 b1 b2 b3 b4 b5 b6 b7) = of_char (Char b0 b1 b2 b3 b4 b5 b6 b7)"
  by (simp add: byte_def)

lemma upper_hex_digit_line: "n < 16 \<Longrightarrow> byte (upper_hex_digit n) \<noteq> 10"
  by (auto simp: upper_hex_digit_def)

lemma quote_byte_one_line:
  assumes "quote_byte c = Some q"
  shows "one_line q"
proof -
  have "byte c div 16 < 16" using byte_less [of c] by (simp add: less_mult_imp_div_less del: byte_less)
  with assms show ?thesis
    by (auto simp: quote_byte_def upper_hex_digit_line backslash_def quote_def split: if_splits)
qed

lemma quote_bytes_one_line: "quote_bytes s = Some q \<Longrightarrow> one_line q"
  by (induction s arbitrary: q) (auto split: option.splits dest: quote_byte_one_line)

lemma render_line_shape:
  assumes "render_line l = Inr s" "line_ok l"
  shows "\<exists>t. s = t @ newline \<and> one_line t"
proof (cases l)
  case (Quoted pre v post)
  then show ?thesis using assms quote_bytes_one_line
    by (auto simp: quoteYAMLString_def line_ok_def quote_def newline_def split: option.splits)
qed (use assms in \<open>auto simp: line_ok_def\<close>)

lemma render_lines_split:
  assumes "render_lines ls = Inr d" "render_lines ms = Inr d" "length ls = length ms" "list_all line_ok ls" "list_all line_ok ms"
  shows "list_all2 (\<lambda>l m. \<exists>s. render_line l = Inr s \<and> render_line m = Inr s) ls ms"
  using assms
proof (induction ls arbitrary: d ms)
  case (Cons l ls)
  then obtain m ns where ms: "ms = m # ns" by (cases ms) auto
  from Cons.prems ms obtain a b x y where eqs: "render_line l = Inr a" "render_lines ls = Inr b" "render_line m = Inr x"
    "render_lines ns = Inr y" "a @ b = x @ y" by (auto split: sum.splits)
  obtain u w where uw: "a = u @ newline" "one_line u" "x = w @ newline" "one_line w"
    using render_line_shape eqs Cons.prems ms by (metis list.pred_inject(2))
  then have "u = w \<and> b = y" using eqs(5) split_at_separator [of u "char_of (10 :: nat)" b w y]
    by (simp add: newline_def newline_not_in)
  with Cons eqs uw ms show ?case by simp
qed simp

lemma render_quoted_inject:
  assumes "render_line (Quoted pre v post) = Inr s" "render_line (Quoted pre w post) = Inr s"
  shows "v = w"
  using assms quote_inject by (fastforce split: sum.splits)

definition plain :: "string \<Rightarrow> bool" where
  "plain s \<longleftrightarrow> list_all (\<lambda>c. 32 < byte c \<and> byte c < 127 \<and> byte c \<noteq> 58) s"

lemma plain_simps [simp]: "plain []" "plain (c # s) \<longleftrightarrow> 32 < byte c \<and> byte c < 127 \<and> byte c \<noteq> 58 \<and> plain s"
  "plain (s @ t) \<longleftrightarrow> plain s \<and> plain t"
  by (simp_all add: plain_def)

lemma plain_one_line: "plain s \<Longrightarrow> one_line s"
  unfolding plain_def one_line_def list_all_iff by fastforce

lemma plain_ascii: "plain s \<Longrightarrow> list_all (\<lambda>c. byte c < 128) s"
  unfolding plain_def list_all_iff by fastforce

lemma plain_colon: "plain s \<Longrightarrow> CHR '':'' \<notin> set s"
  unfolding plain_def list_all_iff by fastforce

lemma alnum_plain: "is_alnum c \<Longrightarrow> 32 < byte c \<and> byte c < 127 \<and> byte c \<noteq> 58"
  by (auto simp: is_alnum_def is_digit_def is_lower_def is_upper_def in_range_def)

lemma identifier_plain: "identifier_chars n s \<Longrightarrow> plain s"
  by (cases s) (auto simp: identifier_chars_def list_all_iff plain_def dest: alnum_plain)

lemma nat_digits_bytes: "c \<in> set (nat_digits n) \<Longrightarrow> 48 \<le> byte c \<and> byte c < 58"
  using nat_digits_range by (simp add: byte_def)

lemma itoa_one_line: "one_line (itoa n)"
  unfolding itoa_def one_line_def list_all_iff by (auto dest: nat_digits_bytes)

lemma itoa_ascii: "list_all (\<lambda>c. byte c < 128) (itoa n)"
  unfolding itoa_def list_all_iff by (auto dest!: nat_digits_bytes)

lemma Split_mem: "c \<in> set s \<Longrightarrow> c = sep \<or> (\<exists>p \<in> set (Split s sep). c \<in> set p)"
  by (induction s) (auto split: list.splits)

lemma Split_parts: "p \<in> set (Split s sep) \<Longrightarrow> set p \<subseteq> set s - {sep}"
  by (induction s arbitrary: p) (fastforce split: list.splits if_splits)+

lemma hostname_plain:
  assumes "ValidRouteHostname h"
  shows "plain h"
proof -
  have "32 < byte c \<and> byte c < 127 \<and> byte c \<noteq> 58" if "c \<in> set h" for c
    using Split_mem [OF that, of "CHR ''.''"] assms alnum_plain [of c]
    by (fastforce simp: ValidRouteHostname_def routeHostnamePattern_def list_all_iff host_label_def route_letter_def is_alnum_def)
  then show ?thesis by (simp add: plain_def list_all_iff)
qed

lemma ContainerName_Inr:
  assumes "ContainerName b = Inr name"
  shows "name = ContainerNamePrefix @ b \<and> plain b"
  using assms identifier_plain by (auto simp: ContainerName_def opaqueIDPattern_def Let_def split: if_splits)

lemma valid_route_parts:
  assumes "validate_route r = None"
  shows "plain (rt_environment r)" "plain (rt_hostname r)" "plain (rt_entrypoint r)" "plain (rt_resolver r)"
    "plain (rt_backend r)" "plain (rt_scheme r)" "plain (rt_release r)" "plain (rt_fence r)"
    "0 \<le> rt_port r" "ContainerName (rt_backend r) = Inr (ContainerNamePrefix @ rt_backend r)"
proof -
  obtain name where n: "ContainerName (rt_backend r) = Inr name"
    using assms by (cases "ContainerName (rt_backend r)") (auto simp: validate_route_def split: if_splits)
  then show "plain (rt_backend r)" "ContainerName (rt_backend r) = Inr (ContainerNamePrefix @ rt_backend r)"
    using ContainerName_Inr by auto
  show "plain (rt_environment r)" "plain (rt_hostname r)" "plain (rt_entrypoint r)" "plain (rt_resolver r)"
    "plain (rt_release r)" "plain (rt_fence r)"
    using assms identifier_plain hostname_plain
    by (auto simp: validate_route_def identifierPattern_def staticNamePattern_def split: if_splits)
  show "plain (rt_scheme r)" "0 \<le> rt_port r" using assms by (auto simp: validate_route_def validBackendScheme_def split: if_splits)
qed

lemma quote_ascii: "list_all (\<lambda>c. byte c < 128) s \<Longrightarrow> \<exists>q. quoteYAMLString s = Inr q"
  using quote_bytes_None [of s] by (cases "quote_bytes s") (auto simp: quoteYAMLString_def)

definition route_url :: "environment_route \<Rightarrow> string" where
  "route_url r = rt_scheme r @ ''://'' @ ContainerNamePrefix @ rt_backend r @ '':'' @ itoa (rt_port r)"

definition route_document :: "environment_route \<Rightarrow> doc_line list" where
  "route_document r = document_lines r (routerName r) (serviceName r) (route_url r)"

lemma route_document_ok: "validate_route r = None \<Longrightarrow> list_all line_ok (route_document r)"
  using valid_route_parts [of r]
  by (simp add: route_document_def document_lines_def line_ok_def plain_one_line itoa_one_line)

text \<open>No step of the renderer refuses a valid route.\<close>

lemma render_total:
  assumes "validate_route r = None"
  shows "\<exists>doc. backendServerURL r = Inr (route_url r) \<and> render_lines (document_lines r (routerName r) (serviceName r) (route_url r)) = Inr doc"
proof -
  note parts = valid_route_parts [OF assms]
  have ascii: "list_all (\<lambda>c. byte c < 128) (routerName r)" "list_all (\<lambda>c. byte c < 128) (serviceName r)"
    "list_all (\<lambda>c. byte c < 128) (route_url r)" "list_all (\<lambda>c. byte c < 128) (ruleValue (rt_hostname r))"
    using parts plain_ascii itoa_ascii
    by (simp_all add: routerName_def serviceName_def route_url_def ContainerNamePrefix_def ruleValue_def)
  obtain q1 q2 q3 q4 q5 q6 where "quoteYAMLString (routerName r) = Inr q1" "quoteYAMLString (serviceName r) = Inr q2"
    "quoteYAMLString (route_url r) = Inr q3" "quoteYAMLString (ruleValue (rt_hostname r)) = Inr q4"
    "quoteYAMLString (rt_entrypoint r) = Inr q5" "quoteYAMLString (rt_resolver r) = Inr q6"
    using quote_ascii ascii plain_ascii parts by metis
  then show ?thesis by (simp add: backendServerURL_def parts route_url_def document_lines_def)
qed

text \<open>
  A route is rendered exactly when it passes validation, and the digest returned is that of the
  document returned: no later step of the renderer refuses a valid route.
\<close>

lemma render_accepts_exactly_valid_routes:
  "case Render sha256 r of
     Inl e \<Rightarrow> e = ErrInvalidRoute \<and> validate_route r = Some e
   | Inr (doc, dg) \<Rightarrow> validate_route r = None \<and> dg = Digest sha256 doc \<and> render_lines (route_document r) = Inr doc"
proof (cases "validate_route r")
  case None
  with render_total [OF this] show ?thesis by (auto simp: Render_def renderDocument_def route_document_def)
next
  case (Some e)
  then show ?thesis by (simp add: Render_def validate_route_def split: if_splits)
qed

lemma render_route_document:
  "Render sha256 r = Inr (d, g) \<Longrightarrow> validate_route r = None \<and> g = Digest sha256 d \<and> render_lines (route_document r) = Inr d"
  by (auto simp: Render_def renderDocument_def route_document_def route_url_def backendServerURL_def valid_route_parts split: option.splits sum.splits)

lemma split_at_last_separator:
  assumes "xs @ c # ys = us @ c # vs" and "c \<notin> set ys" and "c \<notin> set vs"
  shows "xs = us \<and> ys = vs"
  using split_at_separator [of "rev ys" c "rev xs" "rev vs" "rev us"] assms
  by (metis append.assoc append_Cons append_Nil rev.simps(2) rev_append rev_is_rev_conv set_rev)

definition same_line :: "doc_line \<Rightarrow> doc_line \<Rightarrow> bool" where
  "same_line l m \<longleftrightarrow> (\<exists>s. render_line l = Inr s \<and> render_line m = Inr s)"

lemma same_line_simps:
  "same_line (Fixed s) (Fixed t) \<longleftrightarrow> s = t" "same_line (Quoted pre v post) (Quoted pre w post) \<Longrightarrow> v = w"
  unfolding same_line_def using render_quoted_inject by auto

lemma same_document:
  assumes "list_all2 same_line (route_document r) (route_document q)"
  shows "rt_environment r = rt_environment q" "rt_revision r = rt_revision q" "rt_hostname r = rt_hostname q"
    "rt_entrypoint r = rt_entrypoint q" "serviceName r = serviceName q" "rt_resolver r = rt_resolver q" "route_url r = route_url q"
  using assms unfolding route_document_def document_lines_def list.rel_inject
  by (auto simp: same_line_simps(1) itoa_inject ruleValue_def dest!: same_line_simps(2))

lemma document_identifies_route:
  assumes "validate_route r = None" "validate_route q = None" "CHR ''-'' \<notin> set (rt_fence r)" "CHR ''-'' \<notin> set (rt_fence q)"
    and "render_lines (route_document r) = Inr d" "render_lines (route_document q) = Inr d"
  shows "r = (q :: environment_route)"
proof -
  note parts = valid_route_parts [OF assms(1)] valid_route_parts [OF assms(2)]
  have "list_all2 same_line (route_document r) (route_document q)"
    using render_lines_split [OF assms(5,6)] route_document_ok assms(1,2)
    by (simp add: same_line_def [abs_def] route_document_def document_lines_def)
  note eqs = same_document [OF this]
  have service: "rt_release r = rt_release q \<and> rt_fence r = rt_fence q"
    using split_at_last_separator [of "rt_release r" "CHR ''-''" "rt_fence r" "rt_release q" "rt_fence q"] eqs(1,5) assms(3,4)
    by (simp add: serviceName_def)
  define u where "u x = ''//'' @ ContainerNamePrefix @ rt_backend x @ CHR '':'' # itoa (rt_port x)" for x :: environment_route
  have "rt_scheme r @ CHR '':'' # u r = rt_scheme q @ CHR '':'' # u q" using eqs(7) by (simp add: route_url_def u_def)
  then have url: "rt_scheme r = rt_scheme q \<and> u r = u q"
    by (rule split_at_separator) (use parts plain_colon in blast)+
  then have "rt_backend r @ CHR '':'' # itoa (rt_port r) = rt_backend q @ CHR '':'' # itoa (rt_port q)" by (simp add: u_def)
  then have "rt_backend r = rt_backend q \<and> itoa (rt_port r) = itoa (rt_port q)"
    by (rule split_at_separator) (use parts plain_colon in blast)+
  with eqs service url show ?thesis by (simp add: itoa_inject)
qed

text \<open>
  C37: The digest an activation records names the route.  Two routes with the same digest whose fences
  have no hyphen (fences are decimal numbers) are equal in every field, down to revision, release
  and fence, unless their documents are a collision of SHA-256.
\<close>

theorem digest_identifies_route:
  assumes "Render sha256 r = Inr (d, g)" "Render sha256 q = Inr (e, g)"
    and "CHR ''-'' \<notin> set (rt_fence r)" "CHR ''-'' \<notin> set (rt_fence q)"
  shows "r = q \<or> d \<noteq> e \<and> sha256 d = sha256 e"
proof -
  note r = render_route_document [OF assms(1)] and q = render_route_document [OF assms(2)]
  then have "sha256 d = sha256 e" by (simp add: Digest_def hex_encode_inject)
  moreover have "d = e \<Longrightarrow> r = q" using document_identifies_route assms(3,4) r q by blast
  ultimately show ?thesis by blast
qed

definition ex_route :: "int \<Rightarrow> environment_route" where
  "ex_route n = \<lparr>rt_environment = ''env'', rt_revision = n, rt_hostname = ''app.example.com'', rt_entrypoint = ''websecure'',
     rt_resolver = ''letsencrypt'', rt_backend = ''7'', rt_port = 8080, rt_scheme = ''http'', rt_release = ''3'', rt_fence = ''12''\<rparr>"

definition ex_sha :: "string \<Rightarrow> string" where
  "ex_sha s = replicate 32 (CHR ''a'')"

lemma ex_sha_digest: "Digest ex_sha d = Digest ex_sha []"
  by (simp add: Digest_def ex_sha_def)

lemma Render_valid: "validate_route r = None \<Longrightarrow> \<exists>d. Render sha256 r = Inr (d, Digest sha256 d)"
  using render_total [of r] by (auto simp: Render_def renderDocument_def)

theorem digest_identifies_route_witness:
  "\<exists>d e g. Render ex_sha (ex_route 1) = Inr (d, g) \<and> Render ex_sha (ex_route 2) = Inr (e, g) \<and> d \<noteq> e"
proof -
  have "validate_route (ex_route 1) = None" "validate_route (ex_route 2) = None" by code_simp+
  then obtain d e where r: "Render ex_sha (ex_route 1) = Inr (d, Digest ex_sha [])" "Render ex_sha (ex_route 2) = Inr (e, Digest ex_sha [])"
    using Render_valid ex_sha_digest by metis
  from digest_identifies_route [OF r] have "d \<noteq> e" by (auto simp: ex_route_def)
  with r show ?thesis by blast
qed

lemma Split_none: "sep \<notin> set s \<Longrightarrow> Split s sep = [s]"
  by (induction s) auto

text \<open>
  A hostname that may be routed satisfies the host rule of the health gate too, and it is neither a
  bare name nor an IPv4 address.
\<close>

lemma route_hostname_is_host:
  assumes "ValidRouteHostname h"
  shows "ValidHost h \<and> CHR ''.'' \<in> set h \<and> CHR '':'' \<notin> set h \<and> \<not> list_all (\<lambda>c. is_digit c \<or> c = CHR ''.'') h"
proof -
  have colon: "CHR '':'' \<notin> set h" using plain_colon hostname_plain assms by blast
  have "host_labels h"
    using assms by (fastforce simp: ValidRouteHostname_def routeHostnamePattern_def host_labels_def list_all_iff host_label_def route_letter_def is_alnum_def)
  then have "ValidHost h" using assms Split_none [OF colon]
    by (simp add: ValidHost_def hostPattern_def ValidRouteHostname_def)
  moreover have "CHR ''.'' \<in> set h" using Split_none [of "CHR ''.''" h] assms
    by (cases "CHR ''.'' \<in> set h") (auto simp: ValidRouteHostname_def routeHostnamePattern_def)
  moreover have "\<not> list_all (\<lambda>c. is_digit c \<or> c = CHR ''.'') h"
  proof
    assume d: "list_all (\<lambda>c. is_digit c \<or> c = CHR ''.'') h"
    let ?l = "last (Split h (CHR ''.''))"
    have "?l \<in> set (Split h (CHR ''.''))" using assms by (intro last_in_set) (auto simp: ValidRouteHostname_def routeHostnamePattern_def)
    then have "host_label route_letter ?l" "set ?l \<subseteq> set h - {CHR ''.''}"
      using assms Split_parts by (auto simp: ValidRouteHostname_def routeHostnamePattern_def list_all_iff)
    with d have "routeHostFinalLabelAllDigits ?l"
      by (auto simp: routeHostFinalLabelAllDigits_def host_label_def list_all_iff)
    with assms show False by (simp add: ValidRouteHostname_def)
  qed
  ultimately show ?thesis using colon by blast
qed

end
