(* ===== verification/Lease_Rules.thy ===== *)
theory Lease_Rules
  imports Lease_Store Route_Document
begin

text \<open>
  The statements the lease repository issues, each with what PostgreSQL does around it: the
  BEFORE triggers, CHECK constraints and unique indexes of migrations 000001, 000013, 000014 and
  000018 to 000021 judge the write, and a refusal aborts the transaction.  On top of them the
  helpers shared by all operations: credential and session locks, the compare-and-set save of a
  deployment with its append-only event log, and the job event log.
\<close>

type_synonym 'a dbtx = "(db, lease_error, 'a) tx"

section \<open>Jobs (agent_jobs)\<close>

fun job_terminal :: "job_state \<Rightarrow> bool" where
  "job_terminal JobSucceeded = True"
| "job_terminal JobFailed = True"
| "job_terminal JobCancelled = True"
| "job_terminal JobDead = True"
| "job_terminal st = False"

fun job_edge :: "job_state \<Rightarrow> job_state \<Rightarrow> bool" where
  "job_edge JobQueued t = (t \<in> {JobLeased, JobCancelled})"
| "job_edge JobLeased t = (t \<in> {JobLeased, JobSucceeded, JobFailed, JobRetryWait, JobDead, JobCancelled})"
| "job_edge JobRetryWait t = (t \<in> {JobLeased, JobCancelled, JobDead})"
| "job_edge st t = False"

definition same_job_identity :: "job_row \<Rightarrow> job_row \<Rightarrow> bool" where
  "same_job_identity old new \<longleftrightarrow>
     job_id new = job_id old \<and> job_owner new = job_owner old \<and> job_project new = job_project old \<and>
     job_environment new = job_environment old \<and> job_server new = job_server old \<and>
     job_deployment new = job_deployment old \<and> job_repository new = job_repository old \<and>
     job_ref new = job_ref old \<and> job_commit new = job_commit old \<and>
     job_priority new = job_priority old \<and> job_created new = job_created old"

definition validate_agent_job_update :: "db \<Rightarrow> job_row \<Rightarrow> job_row \<Rightarrow> lease_error option" where
  "validate_agent_job_update s old new =
     (if \<not> same_job_identity old new then raise_exception ''agent job identity is immutable''
      else if job_terminal (job_state old) then raise_exception ''agent job is terminal''
      else if \<not> job_edge (job_state old) (job_state new) then raise_exception ''invalid agent job transition''
      else if job_state old = JobLeased \<and> job_state new = JobLeased \<and>
              (job_attempt_count new \<noteq> job_attempt_count old \<or> job_available new \<noteq> job_available old)
      then raise_exception ''agent job leased-state update may only set cancel_requested_at''
      else if job_state new = JobLeased \<and> job_state old \<noteq> JobLeased \<and>
              job_attempt_count new \<noteq> job_attempt_count old + 1
      then raise_exception ''agent job attempt_count must increment by one when a new attempt is leased''
      else if \<not> (job_state new = JobLeased \<and> job_state old \<noteq> JobLeased) \<and>
              job_attempt_count new \<noteq> job_attempt_count old
      then raise_exception ''agent job attempt_count is immutable outside a new lease''
      else if job_state new = JobRetryWait \<and> job_available new \<le> job_available old
      then raise_exception ''agent job retry available_at must advance''
      else if job_state new \<noteq> JobRetryWait \<and> job_available new \<noteq> job_available old
      then raise_exception ''agent job available_at may change only when entering retry_wait''
      else if job_cancel_requested old \<noteq> None \<and> job_cancel_requested new \<noteq> job_cancel_requested old
      then raise_exception ''agent job cancel_requested_at is immutable once set''
      else if job_updated new < job_updated old
      then raise_exception ''agent job updated_at must be monotonic''
      else if \<not> (0 \<le> job_attempt_count new \<and> job_attempt_count new \<le> 5)
      then check_violation ''agent_jobs_attempt_count_check''
      else None)"

definition update_job :: "int \<Rightarrow> (job_row \<Rightarrow> bool) \<Rightarrow> (job_row \<Rightarrow> job_row) \<Rightarrow> nat dbtx" where
  "update_job = update_row get_job put_job validate_agent_job_update"

section \<open>Slots (environment_slots)\<close>

definition validate_environment_slot_update :: "db \<Rightarrow> slot_row \<Rightarrow> slot_row \<Rightarrow> lease_error option" where
  "validate_environment_slot_update s old new =
     (if slot_environment new \<noteq> slot_environment old
      then raise_exception ''environment slot identity is immutable''
      else if slot_fence new < slot_fence old then raise_exception ''environment slot fence must not decrease''
      else if slot_updated new < slot_updated old
      then raise_exception ''environment slot updated_at must be monotonic''
      else if slot_reconciling new \<noteq> (slot_pending new \<noteq> None)
      then check_violation ''environment_slots_reconciliation_consistency_check''
      else None)"

definition update_slot :: "string \<Rightarrow> (slot_row \<Rightarrow> bool) \<Rightarrow> (slot_row \<Rightarrow> slot_row) \<Rightarrow> nat dbtx" where
  "update_slot = update_row get_slot put_slot validate_environment_slot_update"

text \<open>\<^verbatim>\<open>INSERT INTO environment_slots ... ON CONFLICT DO NOTHING\<close> for one environment.\<close>

definition insert_slot :: "int \<Rightarrow> string \<Rightarrow> unit dbtx" where
  "insert_slot now env s =
     Inr ((), if get_slot env s = None
              then s\<lparr>slots := slots s @ [\<lparr>slot_environment = env, slot_fence = 0, slot_current = None,
                       slot_reconciling = False, slot_pending = None, slot_updated = now\<rparr>]\<rparr>
              else s)"

section \<open>Attempts (agent_job_attempts)\<close>

definition closure_shape :: "attempt_row \<Rightarrow> bool" where
  "closure_shape a = (case att_state a of
       AttemptLeased \<Rightarrow> att_failure a = None \<and> att_result_op a = None \<and> att_result_digest a = None
     | AttemptSucceeded \<Rightarrow> att_failure a = None \<and> att_result_op a \<noteq> None \<and> att_result_digest a \<noteq> None
     | AttemptFailed \<Rightarrow> att_failure a \<noteq> None \<and> att_result_op a \<noteq> None \<and> att_result_digest a \<noteq> None
     | AttemptExpired \<Rightarrow> att_failure a = None \<and> att_result_op a = None \<and> att_result_digest a = None
     | AttemptCancelled \<Rightarrow> att_failure a = None)"

definition attempt_checks :: "attempt_row \<Rightarrow> bool" where
  "attempt_checks a \<longleftrightarrow>
     1 \<le> att_number a \<and> att_number a \<le> 5 \<and> 0 < att_fence a \<and> 0 \<le> att_renewal a \<and>
     (case att_failure a of None \<Rightarrow> True | Some c \<Rightarrow> FailureClass_Valid c) \<and>
     (case att_result_op a of None \<Rightarrow> True | Some k \<Rightarrow> 1 \<le> length k \<and> length k \<le> 128) \<and>
     att_authority_expires a \<le> att_lease_expires a \<and>
     (att_result_op a = None \<longleftrightarrow> att_result_digest a = None) \<and>
     (att_state a \<noteq> AttemptLeased \<longleftrightarrow> att_closed a \<noteq> None) \<and>
     closure_shape a \<and>
     (case att_cancel_deadline a of None \<Rightarrow> True | Some d \<Rightarrow> att_authority_expires a \<le> d)"

definition same_attempt_identity :: "attempt_row \<Rightarrow> attempt_row \<Rightarrow> bool" where
  "same_attempt_identity old new \<longleftrightarrow>
     att_id new = att_id old \<and> att_job new = att_job old \<and> att_number new = att_number old \<and>
     att_server new = att_server old \<and> att_environment new = att_environment old \<and>
     att_fence new = att_fence old"

definition validate_agent_job_attempt_update ::
  "db \<Rightarrow> attempt_row \<Rightarrow> attempt_row \<Rightarrow> lease_error option" where
  "validate_agent_job_attempt_update s old new =
     (if \<not> same_attempt_identity old new then raise_exception ''agent job attempt identity is immutable''
      else if att_state old \<noteq> AttemptLeased then raise_exception ''agent job attempt is closed''
      else if att_renewal new < att_renewal old
      then raise_exception ''agent job attempt renewal_sequence must be monotonic''
      else if att_result_op old \<noteq> None \<and>
              (att_result_op new \<noteq> att_result_op old \<or> att_result_digest new \<noteq> att_result_digest old)
      then raise_exception ''agent job attempt result is immutable once recorded''
      else if att_failure old \<noteq> None \<and> att_failure new \<noteq> att_failure old
      then raise_exception ''agent job attempt failure_class is immutable once recorded''
      else if att_cancel_deadline old \<noteq> None \<and> att_cancel_deadline new \<noteq> att_cancel_deadline old
      then raise_exception ''agent job attempt cancel_deadline_at is immutable once set''
      else if att_cancel_deadline old = None \<and> att_cancel_deadline new \<noteq> None \<and>
              (case get_job (att_job new) s of None \<Rightarrow> True | Some j \<Rightarrow> job_cancel_requested j = None)
      then raise_exception ''agent job attempt cancel_deadline_at requires job cancel_requested_at''
      else if \<not> attempt_checks new then check_violation ''agent_job_attempts_check''
      else None)"

definition update_attempt ::
  "int \<Rightarrow> (attempt_row \<Rightarrow> bool) \<Rightarrow> (attempt_row \<Rightarrow> attempt_row) \<Rightarrow> nat dbtx" where
  "update_attempt = update_row get_attempt put_attempt validate_agent_job_attempt_update"

definition validate_agent_job_attempt_insert :: "db \<Rightarrow> attempt_row \<Rightarrow> lease_error option" where
  "validate_agent_job_attempt_insert s a =
     (case get_slot (att_environment a) s of
        None \<Rightarrow> raise_exception ''agent job attempt environment slot does not exist''
      | Some slot \<Rightarrow>
          if att_fence a \<noteq> slot_fence slot
          then raise_exception ''agent job attempt fence does not match environment slot fence''
          else (case get_job (att_job a) s of
              None \<Rightarrow> raise_exception ''agent job attempt job does not exist''
            | Some j \<Rightarrow>
                if job_server j \<noteq> att_server a \<or> job_environment j \<noteq> att_environment a
                then raise_exception ''agent job attempt server/environment must match job''
                else if att_number a \<noteq> job_attempt_count j
                then raise_exception ''agent job attempt_number must equal job attempt_count''
                else if \<not> attempt_checks a then check_violation ''agent_job_attempts_check''
                else if \<exists>b \<in> set (attempts s). att_job b = att_job a \<and> att_number b = att_number a
                then Some (unique_violation ''agent_job_attempts_job_id_attempt_number_key'')
                else if att_state a = AttemptLeased \<and>
                        (\<exists>b \<in> set (attempts s). att_job b = att_job a \<and> att_state b = AttemptLeased)
                then Some (unique_violation ''agent_job_attempts_one_leased_uq'')
                else if select_row srv_id (att_server a) (servers s) = None
                then Some (PgError ''23503'' ''agent_job_attempts_server_id_fkey'')
                else None))"

text \<open>The identity column hands out \<open>next_attempt\<close>; \<^verbatim>\<open>RETURNING id\<close>.\<close>

definition insert_attempt :: "(int \<Rightarrow> attempt_row) \<Rightarrow> int dbtx" where
  "insert_attempt mk s =
     (let a = (mk (next_attempt s))\<lparr>att_id := next_attempt s\<rparr> in
      case validate_agent_job_attempt_insert s a of
        Some e \<Rightarrow> Inl e
      | None \<Rightarrow> Inr (att_id a, s\<lparr>attempts := attempts s @ [a], next_attempt := next_attempt s + 1\<rparr>))"

section \<open>Releases, release operations and route heads\<close>

fun release_edge :: "release_state \<Rightarrow> release_state \<Rightarrow> bool" where
  "release_edge RelCandidate t = (t \<in> {RelReady, RelFailed, RelRemoving})"
| "release_edge RelReady t = (t \<in> {RelFailed, RelRemoving, RelActive})"
| "release_edge RelRemoving t = (t = RelRemoved)"
| "release_edge RelActive t = (t = RelRetained)"
| "release_edge RelRetained t = (t = RelActive)"
| "release_edge st t = False"

definition same_release_identity :: "release_row \<Rightarrow> release_row \<Rightarrow> bool" where
  "same_release_identity old new \<longleftrightarrow>
     rel_id new = rel_id old \<and> rel_deployment new = rel_deployment old \<and>
     rel_environment new = rel_environment old \<and> rel_config new = rel_config old \<and>
     rel_commit new = rel_commit old \<and> rel_strategy new = rel_strategy old"

definition validate_release_update :: "db \<Rightarrow> release_row \<Rightarrow> release_row \<Rightarrow> lease_error option" where
  "validate_release_update s old new =
     (if \<not> same_release_identity old new then raise_exception ''release identity is immutable''
      else if rel_image old \<noteq> None \<and> rel_image new \<noteq> rel_image old
      then raise_exception ''release image digest is write-once''
      else if rel_state new = RelReady \<and> rel_image new = None
      then raise_exception ''release cannot become ready without an image digest''
      else if rel_state old = RelFailed \<or> rel_state old = RelRemoved
      then raise_exception ''release is terminal''
      else if rel_state new \<noteq> rel_state old \<and> \<not> release_edge (rel_state old) (rel_state new)
      then raise_exception ''invalid release transition''
      else if rel_updated new < rel_updated old
      then raise_exception ''release updated_at must be monotonic''
      else if rel_state new = RelActive \<and>
              (\<exists>r \<in> set (releases s). rel_id r \<noteq> rel_id new \<and> rel_environment r = rel_environment new \<and>
                 rel_state r = RelActive)
      then Some (unique_violation ''releases_environment_active_idx'')
      else None)"

definition update_release ::
  "string \<Rightarrow> (release_row \<Rightarrow> bool) \<Rightarrow> (release_row \<Rightarrow> release_row) \<Rightarrow> nat dbtx" where
  "update_release = update_row get_release put_release validate_release_update"

definition insert_release :: "release_row \<Rightarrow> unit dbtx" where
  "insert_release r s =
     (if \<exists>q \<in> set (releases s). rel_id q = rel_id r \<or> rel_deployment q = rel_deployment r
      then Inl (unique_violation ''releases_pkey'')
      else if rel_state r = RelActive \<and>
              (\<exists>q \<in> set (releases s). rel_environment q = rel_environment r \<and> rel_state q = RelActive)
      then Inl (unique_violation ''releases_environment_active_idx'')
      else Inr ((), s\<lparr>releases := releases s @ [r]\<rparr>))"

text \<open>\<^verbatim>\<open>unresolvedActivation\<close> of activation_state.go: every state but the two terminal ones.\<close>

definition activationTerminalStates :: "operation_state list" where
  "activationTerminalStates = [OpSucceeded, OpFailed]"

definition unresolvedActivation :: "operation_state \<Rightarrow> bool" where
  "unresolvedActivation st \<longleftrightarrow> st \<notin> set activationTerminalStates"

definition unresolved_operation :: "operation_row \<Rightarrow> bool" where
  "unresolved_operation p \<longleftrightarrow> op_kind p = OpActivate \<and> unresolvedActivation (op_state p)"

definition control_byte :: "char \<Rightarrow> bool" where
  "control_byte c \<longleftrightarrow> byte c < 32 \<or> byte c = 127"

definition operation_checks :: "operation_row \<Rightarrow> bool" where
  "operation_checks p \<longleftrightarrow>
     0 < op_fence p \<and> length (op_summary p) \<le> 2048 \<and> \<not> list_ex control_byte (op_summary p) \<and>
     (op_state p \<in> {OpStarted, OpSwitchAuthorized} \<longleftrightarrow> op_closed p = None) \<and>
     (op_kind p = OpActivate \<longleftrightarrow> op_environment p \<noteq> None) \<and>
     (op_kind p = OpActivate \<longleftrightarrow> op_expected_revision p \<noteq> None) \<and>
     (op_kind p = OpActivate \<longleftrightarrow> op_route_digest p \<noteq> None) \<and>
     (case op_expected_revision p of None \<Rightarrow> True | Some r \<Rightarrow> 0 \<le> r)"

definition open_activation_idx :: "string" where
  "open_activation_idx = ''release_operations_environment_open_activation_idx''"

text \<open>The partial unique index of migration 000021 over the other rows of the table.\<close>

definition open_activation_conflict :: "db \<Rightarrow> operation_row \<Rightarrow> bool" where
  "open_activation_conflict s p \<longleftrightarrow> unresolved_operation p \<and>
     (\<exists>q \<in> set (operations s). op_id q \<noteq> op_id p \<and> unresolved_operation q \<and>
        op_environment q = op_environment p)"

definition same_operation_identity :: "operation_row \<Rightarrow> operation_row \<Rightarrow> bool" where
  "same_operation_identity old new \<longleftrightarrow>
     op_id new = op_id old \<and> op_release new = op_release old \<and> op_job new = op_job old \<and>
     op_attempt new = op_attempt old \<and> op_fence new = op_fence old \<and> op_kind new = op_kind old \<and>
     op_digest new = op_digest old \<and> op_environment new = op_environment old \<and>
     op_expected_release new = op_expected_release old \<and>
     op_expected_revision new = op_expected_revision old \<and> op_route_digest new = op_route_digest old"

definition validate_release_operation_update ::
  "db \<Rightarrow> operation_row \<Rightarrow> operation_row \<Rightarrow> lease_error option" where
  "validate_release_operation_update s old new =
     (if \<not> same_operation_identity old new then raise_exception ''release operation identity is immutable''
      else if op_kind old = OpActivate \<and> op_state old = OpReconciliationRequired \<and>
              op_state new \<notin> {OpSucceeded, OpFailed, OpReconciliationRequired}
      then raise_exception ''reconciliation_required activate release operation may only move to succeeded, failed or stay''
      else if op_kind old = OpActivate \<and> op_state old = OpReconciliationRequired \<and> op_closed new \<noteq> op_closed old
      then raise_exception ''activate release operation closed_at is immutable once set''
      else if op_kind old = OpActivate \<and> op_state old \<notin> {OpReconciliationRequired, OpSwitchAuthorized}
      then raise_exception ''release operation is closed''
      else if op_kind old = OpActivate \<and> op_state old = OpSwitchAuthorized \<and>
              op_state new \<notin> {OpSucceeded, OpReconciliationRequired}
      then raise_exception ''activate release operation must close to succeeded or reconciliation_required''
      else if op_kind old \<noteq> OpActivate \<and> op_state old \<noteq> OpStarted
      then raise_exception ''release operation is closed''
      else if op_kind old \<noteq> OpActivate \<and> op_state new \<notin> {OpSucceeded, OpFailed}
      then raise_exception ''release operation must close to succeeded or failed''
      else if \<not> operation_checks new then check_violation ''release_operations_check''
      else if open_activation_conflict s new then Some (unique_violation open_activation_idx)
      else None)"

definition update_operation ::
  "int \<Rightarrow> (operation_row \<Rightarrow> bool) \<Rightarrow> (operation_row \<Rightarrow> operation_row) \<Rightarrow> nat dbtx" where
  "update_operation = update_row get_operation put_operation validate_release_operation_update"

definition validate_release_operation_insert :: "db \<Rightarrow> operation_row \<Rightarrow> lease_error option" where
  "validate_release_operation_insert s p =
     (case get_attempt (op_attempt p) s of
        None \<Rightarrow> raise_exception ''release operation attempt does not exist''
      | Some a \<Rightarrow>
          if op_fence p \<noteq> att_fence a
          then raise_exception ''release operation fence does not match attempt fence''
          else if op_job p \<noteq> att_job a then raise_exception ''release operation job_id does not match attempt job_id''
          else if op_environment p \<noteq> None \<and>
                  (case get_release (op_release p) s of
                     None \<Rightarrow> True | Some r \<Rightarrow> Some (rel_environment r) \<noteq> op_environment p)
          then raise_exception ''release operation environment_id does not match release environment''
          else if \<not> operation_checks p then check_violation ''release_operations_check''
          else if open_activation_conflict s p then Some (unique_violation open_activation_idx)
          else None)"

definition insert_operation :: "(int \<Rightarrow> operation_row) \<Rightarrow> int dbtx" where
  "insert_operation mk s =
     (let p = (mk (next_operation s))\<lparr>op_id := next_operation s\<rparr> in
      case validate_release_operation_insert s p of
        Some e \<Rightarrow> Inl e
      | None \<Rightarrow> Inr (op_id p, s\<lparr>operations := operations s @ [p], next_operation := next_operation s + 1\<rparr>))"

text \<open>The CHECKs of \<^verbatim>\<open>route_heads\<close>; its hostname pattern is that of \<^const>\<open>ValidRouteHostname\<close>.\<close>

definition head_checks :: "route_head_row \<Rightarrow> bool" where
  "head_checks h \<longleftrightarrow> 1 \<le> length (rh_environment h) \<and> length (rh_environment h) \<le> 128 \<and>
     ValidRouteHostname (rh_hostname h) \<and> 0 \<le> rh_revision h \<and> rh_created h \<le> rh_updated h"

definition validate_route_head_update :: "db \<Rightarrow> route_head_row \<Rightarrow> route_head_row \<Rightarrow> lease_error option" where
  "validate_route_head_update s old new =
     (if rh_environment new \<noteq> rh_environment old then raise_exception ''route head identity is immutable''
      else if rh_revision new = rh_revision old \<and>
              (rh_reconciling new = rh_reconciling old \<or> rh_hostname new \<noteq> rh_hostname old \<or>
               rh_active new \<noteq> rh_active old \<or> rh_created new \<noteq> rh_created old)
      then raise_exception ''route head revision must advance by exactly one unless only reconciliation_required changes''
      else if rh_revision new \<noteq> rh_revision old \<and> rh_revision new \<noteq> rh_revision old + 1
      then raise_exception ''route head revision must advance by exactly one''
      else if rh_updated new < rh_updated old then raise_exception ''route head updated_at must be monotonic''
      else if rh_active old \<noteq> None \<and> rh_hostname new \<noteq> rh_hostname old
      then raise_exception ''route head hostname cannot change while a release is active''
      else if \<not> head_checks new then check_violation ''route_heads_check''
      else if \<exists>h \<in> set (route_heads s). rh_environment h \<noteq> rh_environment new \<and> rh_hostname h = rh_hostname new
      then Some (unique_violation ''route_heads_hostname_key'')
      else None)"

definition update_head ::
  "string \<Rightarrow> (route_head_row \<Rightarrow> bool) \<Rightarrow> (route_head_row \<Rightarrow> route_head_row) \<Rightarrow> nat dbtx" where
  "update_head = update_row get_head put_head validate_route_head_update"

definition insert_route_event :: "route_event_row \<Rightarrow> unit dbtx" where
  "insert_route_event e s = Inr ((), s\<lparr>route_events := route_events s @ [e]\<rparr>)"

text \<open>
  The deferred constraint triggers of migration 000018, evaluated at COMMIT: the release a route
  head names is in state \<^verbatim>\<open>active\<close>.
\<close>

definition commit_checks :: "db \<Rightarrow> bool" where
  "commit_checks s \<longleftrightarrow>
     (\<forall>h \<in> set (route_heads s). case rh_active h of None \<Rightarrow> True
        | Some r \<Rightarrow> (case get_release r s of None \<Rightarrow> False | Some rel \<Rightarrow> rel_state rel = RelActive))"

text \<open>
  Running one transaction: an error rolls back, a value commits.  A body may commit and still
  hand an error to its caller (\<open>Inl\<close> inside \<open>Inr\<close>).
\<close>

definition run_tx :: "(lease_error + 'a) dbtx \<Rightarrow> db \<Rightarrow> (lease_error + 'a) \<times> db" where
  "run_tx m s = (case m s of
       Inl e \<Rightarrow> (Inl e, s)
     | Inr (r, t) \<Rightarrow> if commit_checks t then (r, t)
                     else (Inl (PgError ''P0001'' ''route head active release''), s))"

text \<open>A call that answers with an error and leaves the database as it was.\<close>

lemma run_tx_refuses: "wp m (\<lambda>_ _. False) s \<Longrightarrow> \<exists>e. run_tx m s = (Inl e, s)"
  by (auto simp: wp_def run_tx_def split: sum.splits prod.splits)

lemma run_tx_unchanged: "wp m (\<lambda>_ t. t = s) s \<Longrightarrow> snd (run_tx m s) = s"
  by (auto simp: wp_def run_tx_def split: sum.splits prod.splits)

definition refused :: "(lease_error + 'a) \<times> db \<Rightarrow> db \<Rightarrow> bool" where
  "refused r s \<longleftrightarrow> (\<exists>e. r = (Inl e, s))"

lemma refused_if: "refused (if b then (Inl e, s) else r) s \<longleftrightarrow> b \<or> refused r s"
  by (auto simp: refused_def)

lemma refused_run_tx: "wp m (\<lambda>_ _. False) s \<Longrightarrow> refused (run_tx m s) s"
  using run_tx_refuses by (simp add: refused_def)

lemma run_tx_committed: "run_tx m s = (Inr r, t) \<Longrightarrow> commit_checks t"
  by (auto simp: run_tx_def split: sum.splits prod.splits if_splits)

lemma run_tx_commits: "commit_checks s \<Longrightarrow> commit_checks (snd (run_tx m s))"
  by (auto simp: run_tx_def split: sum.splits prod.splits)

text \<open>A relation kept by a transaction is kept by its commit or rollback.\<close>

locale committed_relation = kept_relation R for R :: "db \<Rightarrow> db \<Rightarrow> bool"
begin

lemma run_tx_kept: "keeps m \<Longrightarrow> R s (snd (run_tx m s))"
  by (auto simp: run_tx_def refl dest: keepsD split: sum.splits prod.splits)

end

end
