(* ===== verification/Deployment_Repository.thy ===== *)
theory Deployment_Repository
  imports Lease_Rules
begin

text \<open>
  \<^verbatim>\<open>internal/store/postgres/deployment_repository.go\<close>: persisting the deployment aggregate.
  \<open>Create\<close> inserts a head with its history, \<open>Save\<close> is a compare-and-set on the revision that
  appends the events not yet stored, \<open>GetByID\<close> loads and validates.  The event rows of a
  deployment carry consecutive revisions, so they are the event list of the stored snapshot.
\<close>

section \<open>Statements\<close>

text \<open>\<^verbatim>\<open>validate_deployment_event\<close>, the BEFORE INSERT trigger of migration 000001.\<close>

definition validate_deployment_event :: "snapshot \<Rightarrow> event \<Rightarrow> lease_error option" where
  "validate_deployment_event head e =
     (if snap_events head = [] then
        (if ev_from e \<noteq> no_status \<or> ev_to e \<noteq> StatusQueued \<or> ev_at e \<noteq> snap_created head
         then raise_exception ''invalid deployment creation event'' else None)
      else let previous = last (snap_events head) in
        (if ev_at e < ev_at previous then raise_exception ''deployment event must follow its predecessor''
         else if ev_from e \<noteq> ev_to previous \<or> \<not> canTransition (ev_from e) (ev_to e)
         then raise_exception ''invalid deployment transition'' else None))"

definition insert_deployment_event :: "string \<Rightarrow> event \<Rightarrow> unit dbtx" where
  "insert_deployment_event k e s = (case get_deployment k s of
       None \<Rightarrow> Inl (PgError ''P0001'' ''deployment does not exist'')
     | Some head \<Rightarrow> (case validate_deployment_event head e of
           Some err \<Rightarrow> Inl err
         | None \<Rightarrow> Inr ((), put_deployment (head\<lparr>snap_events := snap_events head @ [e]\<rparr>) s)))"

definition appendEvents :: "string \<Rightarrow> event list \<Rightarrow> unit dbtx" where
  "appendEvents k es = for_each (insert_deployment_event k) es"

definition validate_deployment_row :: "db \<Rightarrow> snapshot \<Rightarrow> snapshot \<Rightarrow> lease_error option" where
  "validate_deployment_row s old new =
     (if \<not> isKnownStatus (snap_status new) \<or> snap_updated new < snap_created new \<or> snap_revision new = 0
      then check_violation ''deployments_check'' else None)"

definition update_deployment ::
  "string \<Rightarrow> (snapshot \<Rightarrow> bool) \<Rightarrow> (snapshot \<Rightarrow> snapshot) \<Rightarrow> nat dbtx" where
  "update_deployment = update_row get_deployment put_deployment validate_deployment_row"

section \<open>The repository\<close>

text \<open>A revision above the range of a signed bigint.\<close>

definition postgresRevision :: "64 word \<Rightarrow> lease_error + int" where
  "postgresRevision r = (if uint r > 2 ^ 63 - 1 then Inl ErrRevisionOverflow else Inr (uint r))"

definition checkedSnapshot :: "deployment \<Rightarrow> lease_error + snapshot" where
  "checkedSnapshot d = (case Snapshot d of
       Inl e \<Rightarrow> Inl (ErrDeploymentDomain e)
     | Inr s \<Rightarrow> tx_bind (postgresRevision (snap_revision s)) (\<lambda>_. Inr s))"

definition readSnapshot :: "string \<Rightarrow> snapshot dbtx" where
  "readSnapshot k = query_row ErrNotFound (get_deployment k)"

fun matchingPrefix :: "event list \<Rightarrow> event list \<Rightarrow> bool" where
  "matchingPrefix [] candidate = True"
| "matchingPrefix (e # stored) [] = False"
| "matchingPrefix (e # stored) (c # candidate) =
     (ev_from e = ev_from c \<and> ev_to e = ev_to c \<and> ev_at e = ev_at c \<and> matchingPrefix stored candidate)"

definition insert_deployment :: "snapshot \<Rightarrow> unit dbtx" where
  "insert_deployment snap s =
     (if get_deployment (snap_id snap) s \<noteq> None then Inl ErrAlreadyExists
      else Inr ((), s\<lparr>deployments := deployments s @ [snap\<lparr>snap_events := []\<rparr>]\<rparr>))"

definition createTx :: "deployment \<Rightarrow> unit dbtx" where
  "createTx d = and_then (lift_result id (checkedSnapshot d)) (\<lambda>snap.
     seq (insert_deployment snap) (appendEvents (snap_id snap) (snap_events snap)))"

text \<open>
  \<open>Rehydrate\<close> rewrites the event slice it is given to microseconds in place, so the prefix test
  that follows it sees the truncated times.
\<close>

definition saveTx :: "deployment \<Rightarrow> unit dbtx" where
  "saveTx d = and_then (lift_result id (checkedSnapshot d)) (\<lambda>snap.
     and_then (query_row ErrNotFound (get_deployment (snap_id snap))) (\<lambda>_.
     and_then (readSnapshot (snap_id snap)) (\<lambda>stored.
     seq (ensure (snap_identity stored = snap_identity snap) ErrRevisionConflict) (
     and_then (lift_result ErrDeploymentDomain (Rehydrate stored)) (\<lambda>loaded.
     seq (ensure (\<not> (snap_revision stored > snap_revision snap \<or>
                     \<not> matchingPrefix (dep_events loaded) (snap_events snap))) ErrRevisionConflict) (
     seq (ensure (snap_revision stored \<noteq> snap_revision snap) ErrRevisionConflict) (
     and_then (update_deployment (snap_id snap) (\<lambda>r. snap_revision r = snap_revision stored)
        (\<lambda>r. r\<lparr>snap_version := snap_version snap, snap_status := snap_status snap,
               snap_updated := snap_updated snap, snap_revision := snap_revision snap\<rparr>)) (\<lambda>n.
     seq (ensure (n = 1) ErrRevisionConflict)
         (appendEvents (snap_id snap) (drop (unat (snap_revision stored)) (snap_events snap)))))))))))"

definition GetByID :: "string \<Rightarrow> deployment dbtx" where
  "GetByID k = seq (ensure (k \<noteq> []) ErrNotFound) (
     and_then (readSnapshot k) (\<lambda>snap. lift_result ErrDeploymentDomain (Rehydrate snap)))"

definition Create :: "deployment \<Rightarrow> db \<Rightarrow> (lease_error + unit) \<times> db" where
  "Create d = run_tx (and_then (createTx d) (\<lambda>u. ret (Inr u)))"

definition Save :: "deployment \<Rightarrow> db \<Rightarrow> (lease_error + unit) \<times> db" where
  "Save d = run_tx (and_then (saveTx d) (\<lambda>u. ret (Inr u)))"

text \<open>\<^verbatim>\<open>transitionDeployment\<close> of agent_lease_repository.go: load, move, save; a repeated status is a no-op.\<close>

definition transitionDeployment :: "string \<Rightarrow> status \<Rightarrow> int \<Rightarrow> unit dbtx" where
  "transitionDeployment k tgt at =
     and_then (readSnapshot k) (\<lambda>snap.
     and_then (lift_result ErrDeploymentDomain (Rehydrate snap)) (\<lambda>current.
     and_then (lift_result ErrDeploymentDomain (Transition current tgt at)) (\<lambda>nxt.
     if dep_revision nxt = dep_revision current then ret () else saveTx nxt)))"

end
