(* ===== verification/Lease_Common.thy ===== *)
theory Lease_Common
  imports Deployment_Repository
begin

text \<open>
  What every lease operation starts with and ends with: the credential check of an agent, the
  session check of an administrator, the audit row, and the numbered job event log
  (\<^verbatim>\<open>agent_lease_repository.go\<close>, \<^verbatim>\<open>server_repository.go\<close>).
\<close>

section \<open>Constants\<close>

definition leaseDuration :: int where
  "leaseDuration = 90 * 10 ^ 9"

definition claimDiscoveryPerJob :: int where
  "claimDiscoveryPerJob = 5"

definition claimDiscoveryMax :: int where
  "claimDiscoveryMax = 200"

definition cancellationGrace :: int where
  "cancellationGrace = 60 * 10 ^ 9"

definition expireBatchMaxLimit :: int where
  "expireBatchMaxLimit = 100"

section \<open>Authorization\<close>

text \<open>
  The comparison runs against a fixed dummy digest when no credential was found; since the result
  also requires that one was found, only its timing depends on the dummy.
\<close>

definition matchServerCredential :: "bool \<Rightarrow> digest option \<Rightarrow> digest \<Rightarrow> bool" where
  "matchServerCredential foundServer stored presented =
     (foundServer \<and> (case stored of None \<Rightarrow> False | Some d \<Rightarrow> d = presented))"

definition active_credential :: "string \<Rightarrow> db \<Rightarrow> digest option" where
  "active_credential srv s =
     map_option cred_digest (find (\<lambda>c. cred_server c = srv \<and> cred_active c) (credentials s))"

definition lockActiveServerCredential :: "string \<Rightarrow> digest \<Rightarrow> string dbtx" where
  "lockActiveServerCredential srv presented s =
     (case select_row srv_id srv (servers s) of
        None \<Rightarrow> Inl ErrServerAuthorizationDenied
      | Some r \<Rightarrow>
          let foundServer = srv_active r;
              stored = (if foundServer then active_credential srv s else None)
          in if matchServerCredential foundServer stored presented then Inr (srv_owner r, s)
             else Inl ErrServerAuthorizationDenied)"

definition authenticateServerCandidate :: "string \<Rightarrow> digest \<Rightarrow> db \<Rightarrow> bool" where
  "authenticateServerCandidate srv presented s =
     (let foundServer = (case select_row srv_id srv (servers s) of None \<Rightarrow> False | Some r \<Rightarrow> srv_active r);
          stored = (if foundServer then active_credential srv s else None)
      in matchServerCredential foundServer stored presented)"

definition Principal_Validate :: "principal \<Rightarrow> bool" where
  "Principal_Validate p \<longleftrightarrow>
     \<not> (pr_user p = [] \<or> pr_owner p = [] \<or> pr_session p = [] \<or> pr_auth_revision p = 0 \<or> pr_role p \<noteq> ''owner'')"

definition live_session :: "int \<Rightarrow> principal \<Rightarrow> db \<Rightarrow> bool" where
  "live_session now p s \<longleftrightarrow>
     (\<exists>q \<in> set (sessions s). \<exists>u \<in> set (users s).
        usr_id u = ses_user q \<and> usr_owner u = ses_owner q \<and>
        ses_id q = pr_session p \<and> ses_user q = pr_user p \<and> ses_owner q = pr_owner p \<and>
        ses_auth_revision q = pr_auth_revision p \<and> usr_auth_revision u = pr_auth_revision p \<and>
        usr_active u \<and> \<not> ses_revoked q \<and> ses_idle_expires q > now \<and> ses_absolute_expires q > now)"

definition lockAdministratorSession :: "int \<Rightarrow> principal \<Rightarrow> unit dbtx" where
  "lockAdministratorSession now p s =
     (if \<not> Principal_Validate p then Inl ErrServerAuthorizationDenied
      else if \<not> live_session now p s then Inl ErrServerAuthorizationDenied
      else Inr ((), s))"

text \<open>
  \<^verbatim>\<open>range reason\<close> visits runes of a valid UTF-8 string; a control rune is one byte and no other
  encoding contains such a byte.
\<close>

definition validReason :: "string \<Rightarrow> bool" where
  "validReason reason \<longleftrightarrow>
     \<not> (length reason > 512 \<or> \<not> ValidString reason) \<and> \<not> list_ex control_byte reason"

definition insertServerAuditEvent :: "audit_row \<Rightarrow> unit dbtx" where
  "insertServerAuditEvent a s =
     (if length (aud_reason a) > 512 \<or> list_ex control_byte (aud_reason a)
      then Inl (PgError ''23514'' ''server_audit_events_reason_check'')
      else if length (aud_actor a) > 128 then Inl (PgError ''23514'' ''server_audit_events_actor_id_check'')
      else if (case aud_credential a of None \<Rightarrow> False | Some v \<Rightarrow> v \<le> 0)
      then Inl (PgError ''23514'' ''server_audit_events_credential_version_check'')
      else Inr ((), s\<lparr>audits := audits s @ [a]\<rparr>))"

definition validOperationID :: "string \<Rightarrow> bool" where
  "validOperationID k \<longleftrightarrow> 1 \<le> length k \<and> length k \<le> 128"

section \<open>Locking a lease\<close>

text \<open>
  The common opening of \<^verbatim>\<open>Renew\<close>, \<^verbatim>\<open>Complete\<close>, \<^verbatim>\<open>AcknowledgeCancellation\<close> and the activation
  calls: find the attempt, refuse a foreign server, then lock slot, job and attempt.
\<close>

definition lock_lease :: "string \<Rightarrow> int \<Rightarrow> (slot_row \<times> job_row \<times> attempt_row) dbtx" where
  "lock_lease srv attempt =
     and_then (query_row ErrServerAuthorizationDenied (get_attempt attempt)) (\<lambda>found.
     seq (ensure (att_server found = srv) ErrServerAuthorizationDenied) (
     and_then (query_row ErrNoRows (get_slot (att_environment found))) (\<lambda>slot.
     and_then (query_row ErrNoRows (get_job (att_job found))) (\<lambda>job.
     and_then (query_row ErrNoRows (get_attempt attempt)) (\<lambda>a.
     seq (ensure (att_server a = srv) ErrServerAuthorizationDenied)
         (ret (slot, job, a)))))))"

lemma lock_lease_Inr [tx_simps]:
  "lock_lease srv attempt s = Inr (r, t) \<longleftrightarrow>
     (\<exists>slot job a. r = (slot, job, a) \<and> t = s \<and> get_attempt attempt s = Some a \<and> att_server a = srv \<and>
        get_slot (att_environment a) s = Some slot \<and> get_job (att_job a) s = Some job)"
  by (auto simp: lock_lease_def tx_simps)

lemma lock_lease_wp [wp_simps]:
  "wp (lock_lease srv attempt) Q =
     (\<lambda>s. \<forall>slot job a. get_attempt attempt s = Some a \<longrightarrow> att_server a = srv \<longrightarrow>
        get_slot (att_environment a) s = Some slot \<longrightarrow> get_job (att_job a) s = Some job \<longrightarrow> Q (slot, job, a) s)"
  by (auto simp: fun_eq_iff wp_def tx_simps)

definition credential_accepted :: "string \<Rightarrow> digest \<Rightarrow> db \<Rightarrow> bool" where
  "credential_accepted srv presented s \<longleftrightarrow>
     (\<exists>r. select_row srv_id srv (servers s) = Some r \<and> srv_active r \<and> active_credential srv s = Some presented)"

lemma lockActiveServerCredential_Inr [tx_simps]:
  "lockActiveServerCredential srv presented s = Inr (x, t) \<longleftrightarrow>
     t = s \<and> credential_accepted srv presented s \<and>
     map_option srv_owner (select_row srv_id srv (servers s)) = Some x"
  by (auto simp: lockActiveServerCredential_def credential_accepted_def matchServerCredential_def Let_def
      split: option.splits)

lemma lockActiveServerCredential_wp [wp_simps]:
  "wp (lockActiveServerCredential srv presented) Q =
     (\<lambda>s. credential_accepted srv presented s \<longrightarrow> (\<forall>r. select_row srv_id srv (servers s) = Some r \<longrightarrow> Q (srv_owner r) s))"
  by (auto simp: fun_eq_iff wp_def tx_simps)

lemma lockAdministratorSession_Inr [tx_simps]:
  "lockAdministratorSession now p s = Inr (x, t) \<longleftrightarrow> t = s \<and> Principal_Validate p \<and> live_session now p s"
  by (auto simp: lockAdministratorSession_def)

lemma lockAdministratorSession_wp [wp_simps]:
  "wp (lockAdministratorSession now p) Q = (\<lambda>s. Principal_Validate p \<longrightarrow> live_session now p s \<longrightarrow> Q () s)"
  by (auto simp: fun_eq_iff wp_def tx_simps)

section \<open>The job event log\<close>

definition next_sequence :: "int \<Rightarrow> db \<Rightarrow> int" where
  "next_sequence job s =
     foldr max (map jev_sequence (filter (\<lambda>e. jev_job e = job) (job_events s))) 0 + 1"

definition appendAgentJobEvent :: "int \<Rightarrow> int option \<Rightarrow> job_event_type \<Rightarrow> unit dbtx" where
  "appendAgentJobEvent job attempt kind s =
     Inr ((), s\<lparr>job_events := job_events s @
       [\<lparr>jev_job = job, jev_sequence = next_sequence job s, jev_type = kind, jev_attempt = attempt\<rparr>]\<rparr>)"

end
