(* ===== verification/Lease_Claim.thy ===== *)
theory Lease_Claim
  imports Lease_Common "HOL-Library.List_Lexorder" "HOL-Library.Char_ord" "HOL-Library.Product_Lexorder"
begin

text \<open>
  Claiming and renewing leases: \<^verbatim>\<open>Claim\<close>, \<^verbatim>\<open>tryClaim\<close> and \<^verbatim>\<open>Renew\<close> of
  agent_lease_repository.go and the claim-time freeze of agent_lease_execution.go.

  \<^verbatim>\<open>FOR UPDATE SKIP LOCKED\<close> may pass over a row another transaction holds; which rows are held is
  the pair of arguments \<open>slot_locked\<close>, \<open>job_locked\<close>.  SHA-256 is the argument \<open>sha256\<close>.  Text
  columns are ordered by their bytes.
\<close>

section \<open>Claim-time freeze (agent_lease_execution.go)\<close>

definition lockEnvironmentRuntimeConfig :: "string \<Rightarrow> db \<Rightarrow> execution_row option" where
  "lockEnvironmentRuntimeConfig env s = map_option snd (select_row fst env (runtime_configs s))"

definition active_version_of :: "string \<Rightarrow> db \<Rightarrow> string option" where
  "active_version_of head s = (case select_row sh_id head (secret_heads s) of
       None \<Rightarrow> None
     | Some h \<Rightarrow> (case sh_current h of
           None \<Rightarrow> None
         | Some v \<Rightarrow> (case select_row sv_id v (secret_versions s) of
               None \<Rightarrow> None
             | Some sv \<Rightarrow> if sv_state sv = VersionActive then Some (sv_id sv) else None)))"

definition secret_bindings_of :: "string \<Rightarrow> db \<Rightarrow> (binding_row \<times> string) list" where
  "secret_bindings_of env s = concat (map (\<lambda>b. case bind_kind b of
       BindSecret h \<Rightarrow> if bind_environment b = env then [(b, h)] else []
     | BindLiteral v \<Rightarrow> []) (bindings s))"

definition literal_bindings_of :: "string \<Rightarrow> db \<Rightarrow> (binding_row \<times> string option) list" where
  "literal_bindings_of env s = concat (map (\<lambda>b. case bind_kind b of
       BindSecret h \<Rightarrow> []
     | BindLiteral v \<Rightarrow> if bind_environment b = env then [(b, v)] else []) (bindings s))"

text \<open>\<open>None\<close> is \<^verbatim>\<open>ok=false\<close>: some binding's secret head has no active current version.\<close>

definition resolveRuntimeSecretBindings :: "string \<Rightarrow> db \<Rightarrow> frozen_binding list option" where
  "resolveRuntimeSecretBindings env s =
     (let total = length (secret_bindings_of env s);
          rows = concat (map (\<lambda>(b, h). case active_version_of h s of
              None \<Rightarrow> []
            | Some v \<Rightarrow> [\<lparr>fb_variable = bind_variable b, fb_scope = bind_scope b, fb_version = v\<rparr>])
            (sort_key (\<lambda>(b, h). bind_variable b) (secret_bindings_of env s)))
      in if length rows \<noteq> total then None else Some rows)"

definition resolveRuntimeLiteralBindings :: "string \<Rightarrow> db \<Rightarrow> frozen_literal list option" where
  "resolveRuntimeLiteralBindings env s =
     (let rows = sort_key (\<lambda>(b, v). bind_variable b) (literal_bindings_of env s)
      in if list_ex (\<lambda>(b, v). v = None) rows then None
         else Some (map (\<lambda>(b, v). \<lparr>fl_variable = bind_variable b, fl_scope = bind_scope b,
                                    fl_value = the v\<rparr>) rows))"

text \<open>\<^verbatim>\<open>agent_job_attempt_execution\<close> is insert-once: its primary key is the attempt.\<close>

definition insertAttemptExecution :: "int \<Rightarrow> execution_row \<Rightarrow> unit dbtx" where
  "insertAttemptExecution attempt cfg s =
     (if select_row fst attempt (executions s) \<noteq> None
      then Inl (unique_violation ''agent_job_attempt_execution_pkey'')
      else Inr ((), s\<lparr>executions := executions s @ [(attempt, cfg)]\<rparr>))"

definition insert_frozen_secret :: "int \<Rightarrow> frozen_binding \<Rightarrow> unit dbtx" where
  "insert_frozen_secret attempt b s =
     (if \<exists>(k, c) \<in> set (frozen_secrets s). k = attempt \<and> fb_version c = fb_version b \<and> fb_variable c = fb_variable b
      then Inl (unique_violation ''frozen_secret_versions_pkey'')
      else Inr ((), s\<lparr>frozen_secrets := frozen_secrets s @ [(attempt, b)]\<rparr>))"

definition insertFrozenSecretVersions :: "int \<Rightarrow> frozen_binding list \<Rightarrow> unit dbtx" where
  "insertFrozenSecretVersions attempt = for_each (insert_frozen_secret attempt)"

definition insert_frozen_literal :: "int \<Rightarrow> frozen_literal \<Rightarrow> unit dbtx" where
  "insert_frozen_literal attempt l s =
     (if \<exists>(k, c) \<in> set (frozen_literals s). k = attempt \<and> fl_variable c = fl_variable l
      then Inl (unique_violation ''frozen_literal_values_pkey'')
      else Inr ((), s\<lparr>frozen_literals := frozen_literals s @ [(attempt, l)]\<rparr>))"

definition insertFrozenLiteralValues :: "int \<Rightarrow> frozen_literal list \<Rightarrow> unit dbtx" where
  "insertFrozenLiteralValues attempt = for_each (insert_frozen_literal attempt)"

definition frozen_secrets_of :: "int \<Rightarrow> db \<Rightarrow> frozen_binding list" where
  "frozen_secrets_of attempt s =
     sort_key fb_variable (map snd (filter (\<lambda>(k, b). k = attempt) (frozen_secrets s)))"

definition frozen_literals_of :: "int \<Rightarrow> db \<Rightarrow> frozen_literal list" where
  "frozen_literals_of attempt s =
     sort_key fl_variable (map snd (filter (\<lambda>(k, b). k = attempt) (frozen_literals s)))"

definition execution_of :: "int \<Rightarrow> db \<Rightarrow> execution_row option" where
  "execution_of attempt s = map_option snd (select_row fst attempt (executions s))"

definition copyPreviousFrozenLiteralValues :: "int \<Rightarrow> int \<Rightarrow> frozen_literal list dbtx" where
  "copyPreviousFrozenLiteralValues new prev =
     and_then (query (frozen_literals_of prev)) (\<lambda>ls.
     seq (insertFrozenLiteralValues new ls) (ret ls))"

definition copyPreviousAttemptExecution :: "int \<Rightarrow> int \<Rightarrow> execution_row dbtx" where
  "copyPreviousAttemptExecution new prev =
     and_then (query_row ErrNoRows (execution_of prev)) (\<lambda>cfg.
     seq (insertAttemptExecution new cfg) (ret cfg))"

definition copyPreviousFrozenSecretVersions :: "int \<Rightarrow> int \<Rightarrow> frozen_binding list dbtx" where
  "copyPreviousFrozenSecretVersions new prev =
     and_then (query (frozen_secrets_of prev)) (\<lambda>bs.
     seq (insertFrozenSecretVersions new bs) (ret bs))"

definition config_parts :: "execution_row \<Rightarrow> frozen_binding list \<Rightarrow> frozen_literal list \<Rightarrow> string list" where
  "config_parts cfg bs ls =
     (let sorted = sort_key fb_variable bs; sortedLiterals = sort_key fl_variable ls in
      [''3'', itoa (ContainerPort cfg), ContainerScheme cfg, ReleaseStrategy cfg,
       itoa (DrainSeconds cfg), itoa (HealthPolicyRevision cfg), itoa (CPUMillis cfg),
       itoa (MemoryBytes cfg), RestartPolicy cfg, HealthGatePath cfg, HealthGateHost cfg,
       itoa (ConfigRevision cfg), itoa (int (length sorted))]
      @ concat (map (\<lambda>b. [fb_variable b, fb_scope b, fb_version b]) sorted)
      @ [itoa (int (length sortedLiterals))]
      @ concat (map (\<lambda>l. [fl_variable l, fl_scope l, fl_value l]) sortedLiterals))"

definition computeConfigDigest ::
  "(string \<Rightarrow> digest) \<Rightarrow> execution_row \<Rightarrow> frozen_binding list \<Rightarrow> frozen_literal list \<Rightarrow> digest" where
  "computeConfigDigest sha256 cfg bs ls = sha256 (encode_parts (config_parts cfg bs ls))"

definition release_of_deployment :: "string \<Rightarrow> db \<Rightarrow> release_row option" where
  "release_of_deployment dep s = select_row rel_deployment dep (releases s)"

definition ensureRelease :: "int \<Rightarrow> string \<Rightarrow> string \<Rightarrow> string \<Rightarrow> string \<Rightarrow> digest \<Rightarrow> string dbtx" where
  "ensureRelease now dep env commit strategy configDigest =
     and_then (query (release_of_deployment dep)) (\<lambda>existing. case existing of
       None \<Rightarrow> seq (insert_release \<lparr>rel_id = dep, rel_deployment = dep, rel_environment = env,
                rel_image = None, rel_config = configDigest, rel_commit = commit,
                rel_strategy = strategy, rel_state = RelCandidate, rel_updated = now\<rparr>) (ret dep)
     | Some r \<Rightarrow> seq (ensure (rel_config r = configDigest) ErrAgentLeaseCorruptState) (ret dep))"

section \<open>Trying one candidate\<close>

record claimed_lease =
  cl_job :: int
  cl_attempt :: int
  cl_number :: int
  cl_fence :: int
  cl_owner :: string
  cl_project :: string
  cl_environment :: string
  cl_deployment :: string
  cl_repository :: int
  cl_ref :: string
  cl_commit :: string
  cl_config :: execution_row
  cl_release :: string
  cl_secrets :: "frozen_binding list"
  cl_literals :: "frozen_literal list"
  cl_lease_expires :: int
  cl_authority_expires :: int

text \<open>
  \<open>CandidateSkipped\<close> is \<^verbatim>\<open>ok=false\<close>.  \<open>CandidateSkippedAborted\<close> is the same return value, made after
  PostgreSQL refused a statement: the surrounding transaction is then in its failed state and
  refuses every later statement, COMMIT included.
\<close>

datatype claim_step = CandidateSkipped | CandidateSkippedAborted | CandidateClaimed claimed_lease

definition isCheckViolation :: "lease_error \<Rightarrow> bool" where
  "isCheckViolation e = (case e of PgError code what \<Rightarrow> code = ''23514'' | _ \<Rightarrow> False)"

text \<open>The configuration and slot reads: \<open>None\<close> when the candidate cannot be claimed.\<close>

definition claimable_slot :: "(string \<Rightarrow> bool) \<Rightarrow> string \<Rightarrow> db \<Rightarrow> execution_row option" where
  "claimable_slot slot_locked env s =
     (case lockEnvironmentRuntimeConfig env s of
        None \<Rightarrow> None
      | Some cfg \<Rightarrow>
          if slot_locked env then None
          else (case get_slot env s of
              None \<Rightarrow> None
            | Some slot \<Rightarrow> if slot_current slot \<noteq> None \<or> slot_reconciling slot then None else Some cfg))"

definition claimable_job :: "(int \<Rightarrow> bool) \<Rightarrow> string \<Rightarrow> int \<Rightarrow> string \<Rightarrow> int \<Rightarrow> db \<Rightarrow> job_row option" where
  "claimable_job job_locked srv job env now s =
     (if job_locked job then None
      else (case get_job job s of
          None \<Rightarrow> None
        | Some j \<Rightarrow>
            if job_environment j \<noteq> env \<or> job_server j \<noteq> srv then None
            else if (job_state j \<noteq> JobQueued \<and> job_state j \<noteq> JobRetryWait) \<or> job_available j > now
                    \<or> job_cancel_requested j \<noteq> None then None
            else Some j))"

datatype freeze_plan = FreshFreeze "frozen_binding list" "frozen_literal list" | CopyFreeze int

definition attempt_of_job :: "int \<Rightarrow> int \<Rightarrow> db \<Rightarrow> attempt_row option" where
  "attempt_of_job job n s = find (\<lambda>a. att_job a = job \<and> att_number a = n) (attempts s)"

definition plan_freeze :: "string \<Rightarrow> job_row \<Rightarrow> freeze_plan option dbtx" where
  "plan_freeze env j s =
     (let planned = job_attempt_count j + 1 in
      if planned = 1 then
        (case resolveRuntimeSecretBindings env s of
           None \<Rightarrow> Inr (None, s)
         | Some bs \<Rightarrow> (case resolveRuntimeLiteralBindings env s of
               None \<Rightarrow> Inr (None, s)
             | Some ls \<Rightarrow> Inr (Some (FreshFreeze bs ls), s)))
      else (case attempt_of_job (job_id j) (planned - 1) s of
          None \<Rightarrow> Inl ErrAgentLeaseCorruptState
        | Some a \<Rightarrow> Inr (Some (CopyFreeze (att_id a)), s)))"

text \<open>\<^verbatim>\<open>UPDATE environment_slots SET fence=fence+1 ... RETURNING fence\<close>.\<close>

definition advance_fence :: "int \<Rightarrow> string \<Rightarrow> int dbtx" where
  "advance_fence now env =
     seq (update_slot env (\<lambda>_. True) (\<lambda>r. r\<lparr>slot_fence := slot_fence r + 1, slot_updated := now\<rparr>))
         (query_row ErrNoRows (\<lambda>s. map_option slot_fence (get_slot env s)))"

datatype lease_job_result = JobNotLeased | JobLeaseRefused | JobLeasedAs int

definition lease_job :: "int \<Rightarrow> int \<Rightarrow> job_state \<Rightarrow> lease_job_result dbtx" where
  "lease_job now job st s =
     (case update_job job (\<lambda>j. job_state j = st)
             (\<lambda>j. j\<lparr>job_state := JobLeased, job_attempt_count := job_attempt_count j + 1,
                    job_updated := now\<rparr>) s of
        Inl e \<Rightarrow> if isCheckViolation e then Inr (JobLeaseRefused, s) else Inl e
      | Inr (n, t) \<Rightarrow>
          (case get_job job t of
             Some j \<Rightarrow> if n = 0 then Inr (JobNotLeased, t) else Inr (JobLeasedAs (job_attempt_count j), t)
           | None \<Rightarrow> Inr (JobNotLeased, t)))"

definition new_attempt :: "string \<Rightarrow> int \<Rightarrow> string \<Rightarrow> int \<Rightarrow> int \<Rightarrow> int \<Rightarrow> int \<Rightarrow> attempt_row" where
  "new_attempt srv job env number fence expires k =
     \<lparr>att_id = k, att_job = job, att_number = number, att_server = srv, att_environment = env,
      att_fence = fence, att_state = AttemptLeased, att_renewal = 0, att_lease_expires = expires,
      att_authority_expires = expires, att_cancel_deadline = None, att_failure = None,
      att_result_op = None, att_result_digest = None, att_closed = None\<rparr>"

text \<open>The frozen rows of an attempt: fresh for attempt 1, the previous attempt's rows for a retry.\<close>

definition freeze_attempt ::
  "int \<Rightarrow> execution_row \<Rightarrow> freeze_plan \<Rightarrow> (execution_row \<times> frozen_binding list \<times> frozen_literal list) dbtx" where
  "freeze_attempt attempt runtimeConfig plan = (case plan of
       FreshFreeze bs ls \<Rightarrow>
         seq (insertAttemptExecution attempt runtimeConfig) (
         seq (insertFrozenSecretVersions attempt bs) (
         seq (insertFrozenLiteralValues attempt ls) (
         ret (runtimeConfig, bs, ls))))
     | CopyFreeze prev \<Rightarrow>
         and_then (copyPreviousAttemptExecution attempt prev) (\<lambda>cfg.
         and_then (copyPreviousFrozenSecretVersions attempt prev) (\<lambda>bs.
         and_then (copyPreviousFrozenLiteralValues attempt prev) (\<lambda>ls.
         ret (cfg, bs, ls)))))"

text \<open>Everything after the job has been leased: attempt, slot, deployment, freeze, release, event.\<close>

definition record_claim ::
  "(string \<Rightarrow> digest) \<Rightarrow> string \<Rightarrow> job_row \<Rightarrow> string \<Rightarrow> int \<Rightarrow> int \<Rightarrow> execution_row \<Rightarrow> freeze_plan \<Rightarrow>
   int \<Rightarrow> int \<Rightarrow> claimed_lease dbtx" where
  "record_claim sha256 srv j env now leaseExpiresAt runtimeConfig plan newFence attemptNumber =
     and_then (insert_attempt (new_attempt srv (job_id j) env attemptNumber newFence leaseExpiresAt)) (\<lambda>attempt.
     seq (update_slot env (\<lambda>_. True) (\<lambda>r. r\<lparr>slot_current := Some attempt, slot_updated := now\<rparr>)) (
     seq (if attemptNumber = 1 then transitionDeployment (job_deployment j) StatusAssigned now else ret ()) (
     and_then (freeze_attempt attempt runtimeConfig plan) (\<lambda>(cfg, bs, ls).
     and_then (ensureRelease now (job_deployment j) env (job_commit j) (ReleaseStrategy cfg)
                 (computeConfigDigest sha256 cfg bs ls)) (\<lambda>release.
     seq (appendAgentJobEvent (job_id j) (Some attempt) EvClaimed) (
     ret \<lparr>cl_job = job_id j, cl_attempt = attempt, cl_number = attemptNumber, cl_fence = newFence,
          cl_owner = job_owner j, cl_project = job_project j, cl_environment = env,
          cl_deployment = job_deployment j, cl_repository = job_repository j, cl_ref = job_ref j,
          cl_commit = job_commit j, cl_config = cfg, cl_release = release, cl_secrets = bs,
          cl_literals = ls, cl_lease_expires = leaseExpiresAt,
          cl_authority_expires = leaseExpiresAt\<rparr>))))))"

definition tryClaim ::
  "(string \<Rightarrow> digest) \<Rightarrow> (string \<Rightarrow> bool) \<Rightarrow> (int \<Rightarrow> bool) \<Rightarrow> string \<Rightarrow> int \<Rightarrow> string \<Rightarrow> int \<Rightarrow> int \<Rightarrow>
   claim_step dbtx" where
  "tryClaim sha256 slot_locked job_locked srv job env now leaseExpiresAt =
     and_then (query (claimable_slot slot_locked env)) (\<lambda>config. case config of
       None \<Rightarrow> ret CandidateSkipped
     | Some runtimeConfig \<Rightarrow>
     and_then (query (claimable_job job_locked srv job env now)) (\<lambda>row. case row of
       None \<Rightarrow> ret CandidateSkipped
     | Some j \<Rightarrow>
     and_then (plan_freeze env j) (\<lambda>planned. case planned of
       None \<Rightarrow> ret CandidateSkipped
     | Some plan \<Rightarrow>
     and_then (advance_fence now env) (\<lambda>newFence.
     and_then (lease_job now job (job_state j)) (\<lambda>leased. case leased of
       JobNotLeased \<Rightarrow> ret CandidateSkipped
     | JobLeaseRefused \<Rightarrow> ret CandidateSkippedAborted
     | JobLeasedAs attemptNumber \<Rightarrow>
         and_then (record_claim sha256 srv j env now leaseExpiresAt runtimeConfig plan newFence attemptNumber)
           (\<lambda>lease. ret (CandidateClaimed lease)))))))"

section \<open>Claiming\<close>

text \<open>The candidate loop; \<open>limit\<close> is the number of leases still wanted.\<close>

fun claim_loop ::
  "(string \<Rightarrow> digest) \<Rightarrow> (string \<Rightarrow> bool) \<Rightarrow> (int \<Rightarrow> bool) \<Rightarrow> string \<Rightarrow> int \<Rightarrow> int \<Rightarrow>
   (int \<times> string) list \<Rightarrow> claimed_lease list \<Rightarrow> claimed_lease list dbtx" where
  "claim_loop sha256 slot_locked job_locked srv now limit [] claimed = ret claimed"
| "claim_loop sha256 slot_locked job_locked srv now limit ((job, env) # cs) claimed =
     (if int (length claimed) \<ge> limit then ret claimed
      else and_then (tryClaim sha256 slot_locked job_locked srv job env now (now + leaseDuration)) (\<lambda>r.
        case r of
          CandidateSkipped \<Rightarrow> claim_loop sha256 slot_locked job_locked srv now limit cs claimed
        | CandidateSkippedAborted \<Rightarrow> fail (PgError ''25P02'' ''current transaction is aborted'')
        | CandidateClaimed lease \<Rightarrow>
            claim_loop sha256 slot_locked job_locked srv now limit cs (claimed @ [lease])))"

text \<open>The claim transaction over the candidates an earlier, unlocked read discovered.\<close>

definition claim_tx ::
  "(string \<Rightarrow> digest) \<Rightarrow> (string \<Rightarrow> bool) \<Rightarrow> (int \<Rightarrow> bool) \<Rightarrow> string \<Rightarrow> digest \<Rightarrow> int \<Rightarrow> int \<Rightarrow>
   (int \<times> string) list \<Rightarrow> (lease_error + claimed_lease list) dbtx" where
  "claim_tx sha256 slot_locked job_locked srv presented now limit candidates =
     seq (lockActiveServerCredential srv presented)
         (and_then (claim_loop sha256 slot_locked job_locked srv now limit candidates []) (\<lambda>ls. ret (Inr ls)))"

definition discovery_limit :: "int \<Rightarrow> int" where
  "discovery_limit limit =
     (let d = limit * claimDiscoveryPerJob in if d > claimDiscoveryMax then claimDiscoveryMax else d)"

definition discover :: "string \<Rightarrow> int \<Rightarrow> int \<Rightarrow> db \<Rightarrow> (int \<times> string) list" where
  "discover srv now lim s =
     map (\<lambda>j. (job_id j, job_environment j))
       (take (nat lim)
         (sort_key (\<lambda>j. (- job_priority j, job_available j, job_created j, job_id j))
           (filter (\<lambda>j. job_server j = srv \<and> (job_state j = JobQueued \<or> job_state j = JobRetryWait)
                        \<and> job_available j \<le> now) (jobs s))))"

definition sortedDistinctEnvironments :: "(int \<times> string) list \<Rightarrow> string list" where
  "sortedDistinctEnvironments candidates = sort (remdups (map snd candidates))"

definition ensure_slots :: "int \<Rightarrow> string list \<Rightarrow> db \<Rightarrow> db" where
  "ensure_slots now envs s = (case for_each (insert_slot now) envs s of Inr (u, t) \<Rightarrow> t | Inl e \<Rightarrow> s)"

definition Claim ::
  "(string \<Rightarrow> digest) \<Rightarrow> (string \<Rightarrow> bool) \<Rightarrow> (int \<Rightarrow> bool) \<Rightarrow> string \<Rightarrow> digest \<Rightarrow> int \<Rightarrow> int \<Rightarrow> db \<Rightarrow>
   (lease_error + claimed_lease list) \<times> db" where
  "Claim sha256 slot_locked job_locked srv presented limit0 now s =
     (if limit0 \<le> 0 then (Inr [], s)
      else if \<not> ValidOpaqueID srv then (Inl ErrServerAuthorizationDenied, s)
      else let limit = (if limit0 > 50 then 50 else limit0) in
        if \<not> authenticateServerCandidate srv presented s then (Inl ErrServerAuthorizationDenied, s)
        else let candidates = discover srv now (discovery_limit limit) s;
                 s1 = ensure_slots now (sortedDistinctEnvironments candidates) s
             in run_tx (claim_tx sha256 slot_locked job_locked srv presented now limit candidates) s1)"

section \<open>Renewing\<close>

record renewal_result =
  rn_lease_expires :: int
  rn_authority_expires :: int
  rn_cancel_requested :: bool

definition renew_tx ::
  "string \<Rightarrow> digest \<Rightarrow> int \<Rightarrow> int \<Rightarrow> int \<Rightarrow> int \<Rightarrow> (lease_error + renewal_result) dbtx" where
  "renew_tx srv presented attempt fence sequence now =
     seq (lockActiveServerCredential srv presented) (
     and_then (lock_lease srv attempt) (\<lambda>(slot, job, a).
     seq (ensure (\<not> (att_state a \<noteq> AttemptLeased \<or> att_fence a \<noteq> fence \<or> slot_fence slot \<noteq> fence \<or>
                     slot_current slot \<noteq> Some attempt \<or> \<not> att_authority_expires a > now)) ErrAgentLeaseStale) (
     let cancelRequested = (job_cancel_requested job \<noteq> None) in
     if sequence = att_renewal a
     then ret (Inr \<lparr>rn_lease_expires = att_lease_expires a, rn_authority_expires = att_authority_expires a,
                    rn_cancel_requested = cancelRequested\<rparr>)
     else seq (ensure (sequence = att_renewal a + 1) ErrAgentLeaseStale) (
       let newExpiresAt = (case att_cancel_deadline a of
             None \<Rightarrow> now + leaseDuration
           | Some d \<Rightarrow> if d < now + leaseDuration then d else now + leaseDuration) in
       seq (update_attempt attempt (\<lambda>_. True) (\<lambda>r. r\<lparr>att_renewal := sequence,
              att_lease_expires := newExpiresAt, att_authority_expires := newExpiresAt\<rparr>))
           (ret (Inr \<lparr>rn_lease_expires = newExpiresAt, rn_authority_expires = newExpiresAt,
                      rn_cancel_requested = cancelRequested\<rparr>))))))"

definition Renew ::
  "string \<Rightarrow> digest \<Rightarrow> int \<Rightarrow> int \<Rightarrow> int \<Rightarrow> int \<Rightarrow> db \<Rightarrow> (lease_error + renewal_result) \<times> db" where
  "Renew srv presented attempt fence sequence now s =
     (if \<not> ValidOpaqueID srv \<or> attempt \<le> 0 \<or> fence \<le> 0 \<or> sequence < 0
      then (Inl ErrServerAuthorizationDenied, s)
      else run_tx (renew_tx srv presented attempt fence sequence now) s)"

end
