(* ===== verification/Lease_Finish.thy ===== *)
theory Lease_Finish
  imports Lease_Claim
begin

text \<open>
  Everything that ends or blocks a lease short of an activation: \<^verbatim>\<open>Complete\<close>,
  \<^verbatim>\<open>RequestCancellation\<close>, \<^verbatim>\<open>AcknowledgeCancellation\<close>, the sweeper (\<^verbatim>\<open>ExpireBatch\<close>, \<^verbatim>\<open>expireOne\<close>), server
  revocation, \<^verbatim>\<open>Reconcile\<close>, \<^verbatim>\<open>MarkReconciled\<close>, and the read-only authorizations and the progress
  report of agent_lease_materialize.go.

  \<open>draw\<close> supplies the random bits of a retry delay; \<open>now\<close> is the transaction's clock reading.
\<close>

section \<open>Blocking an environment for reconciliation\<close>

definition blockActivationForReconciliation ::
  "int \<Rightarrow> int \<Rightarrow> int \<Rightarrow> int \<Rightarrow> string \<Rightarrow> string \<Rightarrow> unit dbtx" where
  "blockActivationForReconciliation now job attempt operation env summary =
     and_then (query (get_head env)) (\<lambda>head.
     and_then (update_operation operation (\<lambda>p. op_state p = OpSwitchAuthorized)
        (\<lambda>p. p\<lparr>op_state := OpReconciliationRequired, op_closed := Some now, op_summary := summary\<rparr>)) (\<lambda>n.
     seq (ensure (n = 1) ErrAgentLeaseStale) (
     seq (case head of
            None \<Rightarrow> ret ()
          | Some h \<Rightarrow> if rh_reconciling h then ret ()
              else and_then (update_head env (\<lambda>r. \<not> rh_reconciling r)
                     (\<lambda>r. r\<lparr>rh_reconciling := True, rh_updated := max (rh_updated r) now\<rparr>)) (\<lambda>m.
                   ensure (m = 1) ErrAgentLeaseCorruptState)) (
     and_then (update_slot env (\<lambda>_. True)
        (\<lambda>r. r\<lparr>slot_reconciling := True, slot_pending := Some attempt, slot_updated := now\<rparr>)) (\<lambda>m.
     seq (ensure (m = 1) ErrAgentLeaseCorruptState)
         (appendAgentJobEvent job (Some attempt) EvActivationReconciliationRequired))))))"

section \<open>Closing an attempt whose authority ended\<close>

definition activationBlockedByAuthorityEndSummary :: string where
  "activationBlockedByAuthorityEndSummary = ''attempt authority ended (expired or server revoked) while the activation was unresolved; live traffic may already have switched; operator reconciliation required''"

text \<open>The unresolved activate operation of an attempt in an environment.\<close>

definition unresolved_of_attempt :: "int \<Rightarrow> string \<Rightarrow> db \<Rightarrow> operation_row option" where
  "unresolved_of_attempt attempt env s =
     find (\<lambda>p. op_attempt p = attempt \<and> op_environment p = Some env \<and> unresolved_operation p) (operations s)"

definition divertUnresolvedActivation :: "int \<Rightarrow> int \<Rightarrow> int \<Rightarrow> string \<Rightarrow> bool dbtx" where
  "divertUnresolvedActivation now job attempt env =
     and_then (query (unresolved_of_attempt attempt env)) (\<lambda>found. case found of
       None \<Rightarrow> ret False
     | Some p \<Rightarrow> if op_state p \<noteq> OpSwitchAuthorized then ret True
         else seq (blockActivationForReconciliation now job attempt (op_id p) env
                     activationBlockedByAuthorityEndSummary) (ret True))"

text \<open>The job state an expired or revoked attempt leaves behind.\<close>

definition closed_job_state :: "bool \<Rightarrow> int \<Rightarrow> job_state" where
  "closed_job_state cancelRequested attemptNumber =
     (if cancelRequested then JobCancelled
      else if attemptNumber \<ge> MaxAttempts then JobDead else JobRetryWait)"

definition close_job :: "nat \<Rightarrow> int \<Rightarrow> int \<Rightarrow> int \<Rightarrow> job_state \<Rightarrow> nat dbtx" where
  "close_job draw now job attemptNumber st =
     (if st = JobRetryWait
      then update_job job (\<lambda>j. job_state j = JobLeased)
             (\<lambda>j. j\<lparr>job_state := JobRetryWait,
                    job_available := canonicalTime (now + FullJitterDelay draw attemptNumber),
                    job_updated := now\<rparr>)
      else update_job job (\<lambda>j. job_state j = JobLeased) (\<lambda>j. j\<lparr>job_state := st, job_updated := now\<rparr>))"

definition closeAttemptOrdinary ::
  "nat \<Rightarrow> int \<Rightarrow> int \<Rightarrow> int \<Rightarrow> string \<Rightarrow> int \<Rightarrow> string \<Rightarrow> bool \<Rightarrow> unit dbtx" where
  "closeAttemptOrdinary draw now job attempt env attemptNumber dep cancelRequested =
     (let st = closed_job_state cancelRequested attemptNumber in
     seq (update_attempt attempt (\<lambda>_. True) (\<lambda>a. a\<lparr>
            att_state := (if cancelRequested then AttemptCancelled else AttemptExpired),
            att_closed := Some now\<rparr>)) (
     seq (update_slot env (\<lambda>_. True) (\<lambda>r. r\<lparr>slot_fence := slot_fence r + 1, slot_current := None,
            slot_reconciling := True, slot_pending := Some attempt, slot_updated := now\<rparr>)) (
     seq (close_job draw now job attemptNumber st) (
     seq (if st = JobCancelled then transitionDeployment dep StatusCancelled now
          else if st = JobDead then transitionDeployment dep StatusFailed now else ret ()) (
     seq (appendAgentJobEvent job (Some attempt) (if cancelRequested then EvCancelled else EvExpired)) (
     if cancelRequested then ret ()
     else if st = JobRetryWait then appendAgentJobEvent job (Some attempt) EvRetryScheduled
     else if st = JobDead then appendAgentJobEvent job (Some attempt) EvDead
     else ret ()))))))"

definition closeExpiredOrRevokedAttempt ::
  "nat \<Rightarrow> int \<Rightarrow> int \<Rightarrow> int \<Rightarrow> string \<Rightarrow> int \<Rightarrow> string \<Rightarrow> bool \<Rightarrow> bool dbtx" where
  "closeExpiredOrRevokedAttempt draw now job attempt env attemptNumber dep cancelRequested =
     and_then (divertUnresolvedActivation now job attempt env) (\<lambda>diverted.
     if diverted then ret True
     else seq (closeAttemptOrdinary draw now job attempt env attemptNumber dep cancelRequested) (ret False))"

section \<open>Completing\<close>

text \<open>The \<^verbatim>\<open>switch outcome\<close> of the input validation; the empty failure class is \<open>FailureClassOther []\<close>.\<close>

definition valid_completion :: "completion_outcome \<Rightarrow> failure_class \<Rightarrow> bool" where
  "valid_completion outcome failureClass = (case outcome of
       CompletionSucceeded \<Rightarrow> failureClass = FailureClassOther []
     | CompletionFailed \<Rightarrow> FailureClass_Valid failureClass
     | CompletionOther k \<Rightarrow> False)"

definition completion_state :: "completion_outcome \<Rightarrow> attempt_state" where
  "completion_state outcome = (if outcome = CompletionFailed then AttemptFailed else AttemptSucceeded)"

definition completion_class :: "completion_outcome \<Rightarrow> failure_class \<Rightarrow> failure_class option" where
  "completion_class outcome failureClass = (if outcome = CompletionFailed then Some failureClass else None)"

definition completed_job_state :: "completion_outcome \<Rightarrow> failure_class \<Rightarrow> int \<Rightarrow> job_state" where
  "completed_job_state outcome failureClass attemptNumber =
     (if outcome = CompletionSucceeded then JobSucceeded
      else if Retryable failureClass \<and> attemptNumber < MaxAttempts then JobRetryWait
      else if Retryable failureClass then JobDead
      else JobFailed)"

definition completion_event :: "job_state \<Rightarrow> job_event_type" where
  "completion_event st = (if st = JobFailed then EvFailed else if st = JobRetryWait then EvRetryScheduled
     else if st = JobDead then EvDead else EvSucceeded)"

text \<open>The read-only replay branch over a closed attempt.\<close>

definition replay_completion ::
  "completion_outcome \<Rightarrow> failure_class \<Rightarrow> string \<Rightarrow> digest \<Rightarrow> attempt_row \<Rightarrow> unit dbtx" where
  "replay_completion outcome failureClass operationID resultDigest a =
     (case att_result_op a of
        None \<Rightarrow> fail ErrAgentLeaseStale
      | Some stored \<Rightarrow>
          ensure (\<not> (att_state a \<noteq> completion_state outcome \<or> stored \<noteq> operationID \<or>
                     att_result_digest a \<noteq> Some resultDigest \<or>
                     att_failure a \<noteq> completion_class outcome failureClass)) ErrAgentLeaseIntegrityConflict)"

definition activation_open :: "int \<Rightarrow> int \<Rightarrow> db \<Rightarrow> bool" where
  "activation_open attempt fence s \<longleftrightarrow>
     (\<exists>p \<in> set (operations s). op_attempt p = attempt \<and> op_fence p = fence \<and> unresolved_operation p)"

text \<open>\<^verbatim>\<open>UPDATE environment_slots SET current_attempt_id=NULL ... WHERE ... AND current_attempt_id=$3\<close>.\<close>

definition free_slot :: "int \<Rightarrow> string \<Rightarrow> int \<Rightarrow> nat dbtx" where
  "free_slot now env attempt =
     update_slot env (\<lambda>r. slot_current r = Some attempt) (\<lambda>r. r\<lparr>slot_current := None, slot_updated := now\<rparr>)"

definition complete_tx ::
  "nat \<Rightarrow> string \<Rightarrow> digest \<Rightarrow> int \<Rightarrow> int \<Rightarrow> completion_outcome \<Rightarrow> failure_class \<Rightarrow> string \<Rightarrow> digest \<Rightarrow> int \<Rightarrow>
   unit dbtx" where
  "complete_tx draw srv presented attempt fence outcome failureClass operationID resultDigest now =
     seq (lockActiveServerCredential srv presented) (
     and_then (lock_lease srv attempt) (\<lambda>(slot, job, a).
     if att_state a \<noteq> AttemptLeased
     then replay_completion outcome failureClass operationID resultDigest a
     else and_then (query (activation_open attempt fence)) (\<lambda>activationOpen.
     seq (ensure (\<not> activationOpen) ErrAgentLeaseActivationOpen) (
     seq (ensure (\<not> (att_fence a \<noteq> fence \<or> slot_fence slot \<noteq> fence \<or> slot_current slot \<noteq> Some attempt \<or>
                     \<not> att_authority_expires a > now)) ErrAgentLeaseStale) (
     let st = completed_job_state outcome failureClass (att_number a) in
     seq (update_attempt attempt (\<lambda>_. True) (\<lambda>r. r\<lparr>att_state := completion_state outcome,
            att_closed := Some now, att_failure := completion_class outcome failureClass,
            att_result_op := Some operationID, att_result_digest := Some resultDigest\<rparr>)) (
     seq (free_slot now (att_environment a) attempt) (
     seq (close_job draw now (att_job a) (att_number a) st) (
     seq (if st = JobDead \<or> st = JobFailed
          then transitionDeployment (job_deployment job) StatusFailed now else ret ())
         (appendAgentJobEvent (att_job a) (Some attempt) (completion_event st))))))))))"

definition Complete ::
  "nat \<Rightarrow> string \<Rightarrow> digest \<Rightarrow> int \<Rightarrow> int \<Rightarrow> completion_outcome \<Rightarrow> failure_class \<Rightarrow> string \<Rightarrow> digest \<Rightarrow> int \<Rightarrow>
   db \<Rightarrow> (lease_error + unit) \<times> db" where
  "Complete draw srv presented attempt fence outcome failureClass operationID resultDigest now s =
     (if \<not> ValidOpaqueID srv \<or> attempt \<le> 0 \<or> fence \<le> 0 \<or> \<not> validOperationID operationID
         \<or> \<not> valid_completion outcome failureClass
      then (Inl ErrAgentLeaseInvalidInput, s)
      else run_tx (and_then (complete_tx draw srv presented attempt fence outcome failureClass
             operationID resultDigest now) (\<lambda>u. ret (Inr u))) s)"

section \<open>Cancelling\<close>

definition leased_attempt_of_job :: "int \<Rightarrow> db \<Rightarrow> attempt_row option" where
  "leased_attempt_of_job job s = find (\<lambda>a. att_job a = job \<and> att_state a = AttemptLeased) (attempts s)"

definition request_cancellation_tx :: "principal \<Rightarrow> int \<Rightarrow> int \<Rightarrow> unit dbtx" where
  "request_cancellation_tx p job now =
     seq (lockAdministratorSession now p) (
     and_then (query_row ErrServerAuthorizationDenied (get_job job)) (\<lambda>j.
     seq (ensure (job_owner j = pr_owner p) ErrServerAuthorizationDenied) (
     case job_state j of
       JobCancelled \<Rightarrow> ret ()
     | JobSucceeded \<Rightarrow> fail ErrAgentJobTerminal
     | JobFailed \<Rightarrow> fail ErrAgentJobTerminal
     | JobDead \<Rightarrow> fail ErrAgentJobTerminal
     | JobLeased \<Rightarrow>
         if job_cancel_requested j \<noteq> None then ret ()
         else and_then (query_row ErrNoRows (leased_attempt_of_job job)) (\<lambda>a.
           and_then (query_row ErrNoRows (get_deployment (job_deployment j))) (\<lambda>d.
           seq (ensure (snap_status d \<noteq> StatusActivating) ErrAgentJobActivating) (
           let deadline = now + cancellationGrace in
           seq (update_job job (\<lambda>_. True) (\<lambda>r. r\<lparr>job_cancel_requested := Some now, job_updated := now\<rparr>)) (
           seq (update_attempt (att_id a) (\<lambda>_. True) (\<lambda>r. r\<lparr>att_cancel_deadline := Some deadline,
                  att_lease_expires := min (att_lease_expires r) deadline,
                  att_authority_expires := min (att_authority_expires r) deadline\<rparr>))
               (appendAgentJobEvent job (Some (att_id a)) EvCancelRequested)))))
     | _ \<Rightarrow>
         seq (update_job job (\<lambda>_. True) (\<lambda>r. r\<lparr>job_state := JobCancelled, job_cancel_requested := Some now,
                job_updated := now\<rparr>)) (
         seq (transitionDeployment (job_deployment j) StatusCancelled now)
             (appendAgentJobEvent job None EvCancelled)))))"

definition RequestCancellation :: "principal \<Rightarrow> int \<Rightarrow> int \<Rightarrow> db \<Rightarrow> (lease_error + unit) \<times> db" where
  "RequestCancellation p job now s =
     (if \<not> Principal_Validate p \<or> job \<le> 0 then (Inl ErrServerAuthorizationDenied, s)
      else run_tx (and_then (request_cancellation_tx p job now) (\<lambda>u. ret (Inr u))) s)"

definition replay_cancellation :: "string \<Rightarrow> digest \<Rightarrow> attempt_row \<Rightarrow> unit dbtx" where
  "replay_cancellation operationID resultDigest a =
     (case att_result_op a of
        None \<Rightarrow> fail ErrAgentLeaseStale
      | Some stored \<Rightarrow>
          ensure (\<not> (att_state a \<noteq> AttemptCancelled \<or> stored \<noteq> operationID \<or>
                     att_result_digest a \<noteq> Some resultDigest)) ErrAgentLeaseIntegrityConflict)"

definition acknowledge_tx ::
  "string \<Rightarrow> digest \<Rightarrow> int \<Rightarrow> int \<Rightarrow> string \<Rightarrow> digest \<Rightarrow> int \<Rightarrow> unit dbtx" where
  "acknowledge_tx srv presented attempt fence operationID resultDigest now =
     seq (lockActiveServerCredential srv presented) (
     and_then (lock_lease srv attempt) (\<lambda>(slot, job, a).
     if att_state a \<noteq> AttemptLeased
     then replay_cancellation operationID resultDigest a
     else seq (ensure (job_cancel_requested job \<noteq> None) ErrAgentLeaseInvalidInput) (
     seq (ensure (\<not> (att_fence a \<noteq> fence \<or> slot_fence slot \<noteq> fence \<or> slot_current slot \<noteq> Some attempt \<or>
                     \<not> att_authority_expires a > now)) ErrAgentLeaseStale) (
     seq (update_attempt attempt (\<lambda>_. True) (\<lambda>r. r\<lparr>att_state := AttemptCancelled, att_closed := Some now,
            att_result_op := Some operationID, att_result_digest := Some resultDigest\<rparr>)) (
     seq (free_slot now (att_environment a) attempt) (
     seq (update_job (att_job a) (\<lambda>j. job_state j = JobLeased)
            (\<lambda>j. j\<lparr>job_state := JobCancelled, job_updated := now\<rparr>)) (
     seq (transitionDeployment (job_deployment job) StatusCancelled now)
         (appendAgentJobEvent (att_job a) (Some attempt) EvCancelled))))))))"

definition AcknowledgeCancellation ::
  "string \<Rightarrow> digest \<Rightarrow> int \<Rightarrow> int \<Rightarrow> string \<Rightarrow> digest \<Rightarrow> int \<Rightarrow> db \<Rightarrow> (lease_error + unit) \<times> db" where
  "AcknowledgeCancellation srv presented attempt fence operationID resultDigest now s =
     (if \<not> ValidOpaqueID srv \<or> attempt \<le> 0 \<or> fence \<le> 0 \<or> \<not> validOperationID operationID
      then (Inl ErrAgentLeaseInvalidInput, s)
      else run_tx (and_then (acknowledge_tx srv presented attempt fence operationID resultDigest now)
             (\<lambda>u. ret (Inr u))) s)"

section \<open>The sweeper\<close>

text \<open>
  \<open>expire_one_tx\<close> is \<^verbatim>\<open>expireOne\<close>: \<open>True\<close> when the attempt was closed.  The three \<open>locked\<close>
  predicates say which rows other transactions hold.
\<close>

definition expire_one_tx ::
  "(string \<Rightarrow> bool) \<Rightarrow> (int \<Rightarrow> bool) \<Rightarrow> (int \<Rightarrow> bool) \<Rightarrow> nat \<Rightarrow> int \<Rightarrow> int \<Rightarrow> bool dbtx" where
  "expire_one_tx slot_locked job_locked attempt_locked draw now attempt =
     and_then (query (get_attempt attempt)) (\<lambda>found. case found of
       None \<Rightarrow> ret False
     | Some f \<Rightarrow>
     and_then (query (get_slot (att_environment f))) (\<lambda>slot. case slot of
       None \<Rightarrow> ret False
     | Some sl \<Rightarrow>
     if slot_locked (att_environment f) \<or> slot_current sl \<noteq> Some attempt then ret False
     else and_then (query (get_job (att_job f))) (\<lambda>job. case job of
       None \<Rightarrow> ret False
     | Some j \<Rightarrow>
     if job_locked (att_job f) \<or> job_state j \<noteq> JobLeased then ret False
     else and_then (query (get_attempt attempt)) (\<lambda>again. case again of
       None \<Rightarrow> ret False
     | Some a \<Rightarrow>
     if attempt_locked attempt \<or> att_state a \<noteq> AttemptLeased \<or> att_authority_expires a > now then ret False
     else and_then (closeExpiredOrRevokedAttempt draw now (att_job f) attempt (att_environment f)
            (att_number a) (job_deployment j) (job_cancel_requested j \<noteq> None)) (\<lambda>diverted.
          ret (\<not> diverted))))))"

definition expireOne ::
  "(string \<Rightarrow> bool) \<Rightarrow> (int \<Rightarrow> bool) \<Rightarrow> (int \<Rightarrow> bool) \<Rightarrow> nat \<Rightarrow> int \<Rightarrow> int \<Rightarrow> db \<Rightarrow> (lease_error + bool) \<times> db" where
  "expireOne slot_locked job_locked attempt_locked draw now attempt =
     run_tx (and_then (expire_one_tx slot_locked job_locked attempt_locked draw now attempt) (\<lambda>b. ret (Inr b)))"

definition expirable :: "int \<Rightarrow> db \<Rightarrow> attempt_row \<Rightarrow> bool" where
  "expirable now s a \<longleftrightarrow> att_state a = AttemptLeased \<and> att_authority_expires a \<le> now \<and>
     \<not> (\<exists>p \<in> set (operations s). op_attempt p = att_id a \<and> op_environment p = Some (att_environment a) \<and>
          unresolved_operation p \<and> op_state p \<noteq> OpSwitchAuthorized)"

definition discover_expired :: "int \<Rightarrow> int \<Rightarrow> db \<Rightarrow> int list" where
  "discover_expired now limit s =
     map att_id (take (nat limit)
       (sort_key (\<lambda>a. (att_authority_expires a, att_id a)) (filter (expirable now s) (attempts s))))"

text \<open>One committed transaction per candidate; an error ends the batch with the count so far.\<close>

fun expire_all ::
  "(int \<Rightarrow> db \<Rightarrow> (lease_error + bool) \<times> db) \<Rightarrow> int list \<Rightarrow> int \<Rightarrow> db \<Rightarrow> (int \<times> lease_error option) \<times> db" where
  "expire_all one [] processed s = ((processed, None), s)"
| "expire_all one (k # ks) processed s = (case one k s of
       (Inl e, t) \<Rightarrow> ((processed, Some e), t)
     | (Inr ok, t) \<Rightarrow> expire_all one ks (if ok then processed + 1 else processed) t)"

definition ExpireBatch ::
  "(string \<Rightarrow> bool) \<Rightarrow> (int \<Rightarrow> bool) \<Rightarrow> (int \<Rightarrow> bool) \<Rightarrow> (int \<Rightarrow> nat) \<Rightarrow> int \<Rightarrow> int \<Rightarrow> db \<Rightarrow>
   (int \<times> lease_error option) \<times> db" where
  "ExpireBatch slot_locked job_locked attempt_locked draw now limit0 s =
     (if limit0 \<le> 0 then ((0, None), s)
      else let limit = (if limit0 > expireBatchMaxLimit then expireBatchMaxLimit else limit0)
           in expire_all (\<lambda>k. expireOne slot_locked job_locked attempt_locked (draw k) now k)
                (discover_expired now limit s) 0 s)"

section \<open>Revoking a server's leases\<close>

definition in_flight :: "string \<Rightarrow> db \<Rightarrow> attempt_row list" where
  "in_flight srv s =
     sort_key (\<lambda>a. (att_environment a, att_id a))
       (filter (\<lambda>a. att_server a = srv \<and> att_state a = AttemptLeased) (attempts s))"

definition revoke_one :: "(int \<Rightarrow> nat) \<Rightarrow> int \<Rightarrow> attempt_row \<Rightarrow> unit dbtx" where
  "revoke_one draw now c =
     and_then (query_row ErrNoRows (get_slot (att_environment c))) (\<lambda>slot.
     if slot_current slot \<noteq> Some (att_id c) then ret ()
     else and_then (query_row ErrNoRows (get_job (att_job c))) (\<lambda>j.
     if job_state j \<noteq> JobLeased then ret ()
     else and_then (query_row ErrNoRows (get_attempt (att_id c))) (\<lambda>a.
     if att_state a \<noteq> AttemptLeased then ret ()
     else seq (closeExpiredOrRevokedAttempt (draw (att_id c)) now (att_job c) (att_id c) (att_environment c)
            (att_number a) (job_deployment j) (job_cancel_requested j \<noteq> None)) (ret ()))))"

definition revokeInFlightLeases :: "(int \<Rightarrow> nat) \<Rightarrow> string \<Rightarrow> int \<Rightarrow> unit dbtx" where
  "revokeInFlightLeases draw srv now =
     and_then (query (in_flight srv)) (\<lambda>cs. for_each (revoke_one draw now) cs)"

section \<open>Reconciling\<close>

definition reconcile_tx ::
  "string \<Rightarrow> digest \<Rightarrow> string \<Rightarrow> int \<Rightarrow> int \<Rightarrow> int \<Rightarrow> unit dbtx" where
  "reconcile_tx srv presented env attempt fence now =
     seq (lockActiveServerCredential srv presented) (
     and_then (query_row ErrServerAuthorizationDenied (get_slot env)) (\<lambda>slot.
     and_then (query_row ErrServerAuthorizationDenied (get_attempt attempt)) (\<lambda>a.
     seq (ensure (\<not> (att_server a \<noteq> srv \<or> att_environment a \<noteq> env \<or> att_fence a \<noteq> fence \<or>
                     att_state a = AttemptLeased \<or> att_closed a = None)) ErrServerAuthorizationDenied) (
     and_then (query (unresolved_of_attempt attempt env)) (\<lambda>unresolved.
     seq (ensure (unresolved = None) ErrAgentLeaseCorruptState) (
     if slot_pending slot \<noteq> Some attempt
     then and_then (query (\<lambda>s. \<exists>e \<in> set (job_events s). jev_job e = att_job a \<and> jev_attempt e = Some attempt
                               \<and> jev_type e = EvReconciled)) (\<lambda>already.
          ensure already ErrServerAuthorizationDenied)
     else seq (update_slot env (\<lambda>_. True) (\<lambda>r. r\<lparr>slot_reconciling := False, slot_pending := None,
                 slot_updated := now\<rparr>))
              (appendAgentJobEvent (att_job a) (Some attempt) EvReconciled)))))))"

definition Reconcile ::
  "string \<Rightarrow> digest \<Rightarrow> string \<Rightarrow> int \<Rightarrow> int \<Rightarrow> int \<Rightarrow> db \<Rightarrow> (lease_error + unit) \<times> db" where
  "Reconcile srv presented env attempt fence now s =
     (if \<not> ValidOpaqueID srv \<or> \<not> ValidOpaqueID env \<or> attempt \<le> 0 \<or> fence \<le> 0
      then (Inl ErrAgentLeaseInvalidInput, s)
      else run_tx (and_then (reconcile_tx srv presented env attempt fence now) (\<lambda>u. ret (Inr u))) s)"

record ReconcilingEnvironment =
  re_environment :: string
  re_attempt :: int
  re_job :: int
  re_server :: string
  re_since :: int

definition reconciling_rows :: "string \<Rightarrow> db \<Rightarrow> ReconcilingEnvironment list" where
  "reconciling_rows owner s =
     sort_key (\<lambda>e. (re_since e, re_environment e)) (concat (map (\<lambda>es.
       case slot_pending es of
         None \<Rightarrow> []
       | Some k \<Rightarrow> (case get_attempt k s of
             None \<Rightarrow> []
           | Some a \<Rightarrow> (case get_job (att_job a) s of
                 None \<Rightarrow> []
               | Some j \<Rightarrow> if slot_reconciling es \<and> job_owner j = owner
                   then [\<lparr>re_environment = slot_environment es, re_attempt = att_id a, re_job = att_job a,
                          re_server = att_server a, re_since = slot_updated es\<rparr>] else []))) (slots s)))"

definition ListReconcilingEnvironments ::
  "principal \<Rightarrow> int \<Rightarrow> db \<Rightarrow> (lease_error + ReconcilingEnvironment list) \<times> db" where
  "ListReconcilingEnvironments p now s =
     (if \<not> Principal_Validate p then (Inl ErrServerAuthorizationDenied, s)
      else run_tx (seq (lockAdministratorSession now p)
             (and_then (query (reconciling_rows (pr_owner p))) (\<lambda>es. ret (Inr es)))) s)"

definition administrator_audit :: "principal \<Rightarrow> string \<Rightarrow> audit_row" where
  "administrator_audit p reason =
     \<lparr>aud_actor_type = ''administrator'', aud_actor = pr_user p, aud_action = ''environment_mark_reconciled'',
      aud_server = None, aud_credential = None, aud_result = ''success'', aud_reason = reason\<rparr>"

definition clearPlainReconciliation :: "principal \<Rightarrow> string \<Rightarrow> int \<Rightarrow> int option \<Rightarrow> string \<Rightarrow> int \<Rightarrow> unit dbtx" where
  "clearPlainReconciliation p env job attempt reason now =
     seq (update_slot env (\<lambda>_. True) (\<lambda>r. r\<lparr>slot_reconciling := False, slot_pending := None,
            slot_updated := now\<rparr>)) (
     seq (insertServerAuditEvent (administrator_audit p reason))
         (appendAgentJobEvent job attempt EvReconciled))"

definition environment_unresolved :: "string \<Rightarrow> db \<Rightarrow> bool" where
  "environment_unresolved env s \<longleftrightarrow>
     (\<exists>p \<in> set (operations s). op_environment p = Some env \<and> unresolved_operation p)"

definition mark_reconciled_tx :: "principal \<Rightarrow> string \<Rightarrow> string \<Rightarrow> int \<Rightarrow> unit dbtx" where
  "mark_reconciled_tx p env reason now =
     seq (lockAdministratorSession now p) (
     and_then (query_row ErrServerAuthorizationDenied (get_slot env)) (\<lambda>slot.
     case slot_pending slot of
       None \<Rightarrow> fail ErrServerAuthorizationDenied
     | Some k \<Rightarrow>
     and_then (query_row ErrNoRows (get_attempt k)) (\<lambda>a.
     and_then (query_row ErrNoRows (get_job (att_job a))) (\<lambda>j.
     seq (ensure (job_owner j = pr_owner p) ErrServerAuthorizationDenied) (
     and_then (query (environment_unresolved env)) (\<lambda>unresolved.
     seq (ensure (\<not> unresolved) ErrAgentLeaseActivationUnresolved)
         (clearPlainReconciliation p env (att_job a) (Some k) reason now)))))))"

definition MarkReconciled :: "principal \<Rightarrow> string \<Rightarrow> string \<Rightarrow> int \<Rightarrow> db \<Rightarrow> (lease_error + unit) \<times> db" where
  "MarkReconciled p env reason now s =
     (if \<not> Principal_Validate p \<or> \<not> ValidOpaqueID env \<or> \<not> validReason reason
      then (Inl ErrServerAuthorizationDenied, s)
      else run_tx (and_then (mark_reconciled_tx p env reason now) (\<lambda>u. ret (Inr u))) s)"

section \<open>Authorizing work under a lease (agent_lease_materialize.go)\<close>

text \<open>The checks \<^verbatim>\<open>AuthorizeMaterialization\<close>, \<^verbatim>\<open>AuthorizeCheckout\<close> and \<^verbatim>\<open>ReportProgress\<close> share.\<close>

definition authorize_attempt :: "string \<Rightarrow> digest \<Rightarrow> int \<Rightarrow> int \<Rightarrow> int \<Rightarrow> (attempt_row \<times> job_row) dbtx" where
  "authorize_attempt srv presented attempt fence now =
     seq (lockActiveServerCredential srv presented) (
     and_then (query_row ErrServerAuthorizationDenied (get_attempt attempt)) (\<lambda>found.
     seq (ensure (att_server found = srv) ErrServerAuthorizationDenied) (
     and_then (query_row ErrNoRows (get_slot (att_environment found))) (\<lambda>slot.
     seq (ensure (\<not> (slot_fence slot \<noteq> fence \<or> slot_reconciling slot \<or> slot_current slot \<noteq> Some attempt))
            ErrServerAuthorizationDenied) (
     and_then (query_row ErrNoRows (get_job (att_job found))) (\<lambda>j.
     seq (ensure (job_cancel_requested j = None) ErrServerAuthorizationDenied) (
     and_then (query_row ErrNoRows (get_attempt attempt)) (\<lambda>a.
     seq (ensure (\<not> (att_state a \<noteq> AttemptLeased \<or> att_fence a \<noteq> fence \<or> \<not> att_authority_expires a > now))
            ErrServerAuthorizationDenied)
         (ret (a, j))))))))))"

record frozen_reference =
  fr_variable :: string
  fr_scope :: string
  fr_version :: string
  fr_secret :: string
  fr_purpose :: string

record materialization_authorization =
  ma_attempt :: int
  ma_fence :: int
  ma_job :: int
  ma_owner :: string
  ma_project :: string
  ma_environment :: string
  ma_deployment :: string
  ma_secrets :: "frozen_reference list"

text \<open>The join of a frozen reference with its version and head rows.\<close>

definition frozen_join :: "db \<Rightarrow> frozen_binding \<Rightarrow> (frozen_binding \<times> secret_version_row \<times> secret_head_row) option" where
  "frozen_join s f = (case select_row sv_id (fb_version f) (secret_versions s) of
       None \<Rightarrow> None
     | Some sv \<Rightarrow> (case select_row sh_id (sv_secret sv) (secret_heads s) of
           None \<Rightarrow> None
         | Some sh \<Rightarrow> Some (f, sv, sh)))"

definition materializable ::
  "job_row \<Rightarrow> string \<Rightarrow> frozen_binding \<times> secret_version_row \<times> secret_head_row \<Rightarrow> bool" where
  "materializable j env = (\<lambda>(f, sv, sh).
     sv_state sv \<noteq> VersionRevoked \<and>
     \<not> (sv_owner sv \<noteq> job_owner j \<or> sv_project sv \<noteq> job_project j \<or> sv_environment sv \<noteq> env \<or>
        sh_scope sh \<noteq> fb_scope f))"

definition authorize_materialization_tx ::
  "string \<Rightarrow> digest \<Rightarrow> int \<Rightarrow> int \<Rightarrow> int \<Rightarrow> (lease_error + materialization_authorization) dbtx" where
  "authorize_materialization_tx srv presented attempt fence now =
     and_then (authorize_attempt srv presented attempt fence now) (\<lambda>(a, j).
     and_then (query (\<lambda>s. List.map_filter (frozen_join s) (frozen_secrets_of attempt s))) (\<lambda>rows.
     seq (ensure (list_all (materializable j (att_environment a)) rows) ErrServerAuthorizationDenied)
         (ret (Inr \<lparr>ma_attempt = attempt, ma_fence = fence, ma_job = att_job a, ma_owner = job_owner j,
            ma_project = job_project j, ma_environment = att_environment a,
            ma_deployment = job_deployment j,
            ma_secrets = map (\<lambda>(f, sv, sh). \<lparr>fr_variable = fb_variable f, fr_scope = fb_scope f,
              fr_version = fb_version f, fr_secret = sv_secret sv, fr_purpose = sh_purpose sh\<rparr>) rows\<rparr>))))"

definition AuthorizeMaterialization ::
  "string \<Rightarrow> digest \<Rightarrow> int \<Rightarrow> int \<Rightarrow> int \<Rightarrow> db \<Rightarrow> (lease_error + materialization_authorization) \<times> db" where
  "AuthorizeMaterialization srv presented attempt fence now s =
     (if \<not> ValidOpaqueID srv \<or> attempt \<le> 0 \<or> fence \<le> 0 then (Inl ErrAgentLeaseInvalidInput, s)
      else run_tx (authorize_materialization_tx srv presented attempt fence now) s)"

record checkout_authorization =
  ca_attempt :: int
  ca_fence :: int
  ca_job :: int
  ca_owner :: string
  ca_project :: string
  ca_environment :: string
  ca_deployment :: string
  ca_repository :: int
  ca_commit :: string

definition AuthorizeCheckout ::
  "string \<Rightarrow> digest \<Rightarrow> int \<Rightarrow> int \<Rightarrow> int \<Rightarrow> db \<Rightarrow> (lease_error + checkout_authorization) \<times> db" where
  "AuthorizeCheckout srv presented attempt fence now s =
     (if \<not> ValidOpaqueID srv \<or> attempt \<le> 0 \<or> fence \<le> 0 then (Inl ErrAgentLeaseInvalidInput, s)
      else run_tx (and_then (authorize_attempt srv presented attempt fence now) (\<lambda>(a, j).
        ret (Inr \<lparr>ca_attempt = attempt, ca_fence = fence, ca_job = att_job a, ca_owner = job_owner j,
           ca_project = job_project j, ca_environment = att_environment a, ca_deployment = job_deployment j,
           ca_repository = job_repository j, ca_commit = job_commit j\<rparr>))) s)"

definition report_progress_tx :: "string \<Rightarrow> digest \<Rightarrow> int \<Rightarrow> int \<Rightarrow> status \<Rightarrow> int \<Rightarrow> unit dbtx" where
  "report_progress_tx srv presented attempt fence phase now =
     and_then (authorize_attempt srv presented attempt fence now) (\<lambda>(a, j).
     and_then (query_row ErrNoRows (get_deployment (job_deployment j))) (\<lambda>d.
     case ExecutionOrder (snap_status d) of
       None \<Rightarrow> fail ErrServerAuthorizationDenied
     | Some currentOrder \<Rightarrow>
         let targetOrder = (case ExecutionOrder phase of None \<Rightarrow> 0 | Some n \<Rightarrow> n) in
         if targetOrder \<le> currentOrder then ret ()
         else if targetOrder > currentOrder + 1 then fail ErrAgentLeaseInvalidInput
         else transitionDeployment (job_deployment j) phase now))"

definition ReportProgress ::
  "string \<Rightarrow> digest \<Rightarrow> int \<Rightarrow> int \<Rightarrow> status \<Rightarrow> int \<Rightarrow> db \<Rightarrow> (lease_error + unit) \<times> db" where
  "ReportProgress srv presented attempt fence phase now s =
     (if \<not> ValidOpaqueID srv \<or> attempt \<le> 0 \<or> fence \<le> 0 \<or> \<not> AgentReportablePhase phase
      then (Inl ErrAgentLeaseInvalidInput, s)
      else run_tx (and_then (report_progress_tx srv presented attempt fence phase now) (\<lambda>u. ret (Inr u))) s)"

end
