(* ===== verification/Activation.thy ===== *)
theory Activation
  imports Lease_Finish Route_Document
begin

text \<open>
  Fenced activation: \<^verbatim>\<open>Activate\<close> (tx1) authorizes one host switch, \<^verbatim>\<open>ReportActivationResult\<close> (tx2)
  finalizes it or blocks the environment for reconciliation.  Arguments that stand for other
  code: \<open>sha256\<close>, and \<open>describe\<close>, the text of an error.
\<close>

section \<open>tx1: authorizing the switch\<close>

definition DefaultEntrypointName :: string where
  "DefaultEntrypointName = ''websecure''"

definition DefaultCertResolverName :: string where
  "DefaultCertResolverName = ''letsencrypt-production''"

record activation_result =
  ar_operation :: string
  ar_revision :: int
  ar_hostname :: string
  ar_entrypoint :: string
  ar_resolver :: string
  ar_backend :: string
  ar_digest :: string

definition activation_response :: "int \<Rightarrow> int \<Rightarrow> string \<Rightarrow> int \<Rightarrow> string \<Rightarrow> activation_result" where
  "activation_response operation revision hostname attempt digestText =
     \<lparr>ar_operation = itoa operation, ar_revision = revision, ar_hostname = hostname,
      ar_entrypoint = DefaultEntrypointName, ar_resolver = DefaultCertResolverName,
      ar_backend = AttemptRuntimeInstanceID attempt, ar_digest = digestText\<rparr>"

definition activation_of :: "int \<Rightarrow> int \<Rightarrow> db \<Rightarrow> operation_row option" where
  "activation_of attempt fence s =
     find (\<lambda>p. op_attempt p = attempt \<and> op_fence p = fence \<and> op_kind p = OpActivate) (operations s)"

text \<open>The answer to a repeated call: only a live authorization for the same image is replayed.\<close>

definition replay_activation ::
  "int \<Rightarrow> string \<Rightarrow> digest \<Rightarrow> operation_row \<Rightarrow> (lease_error + activation_result) dbtx" where
  "replay_activation attempt env imageDigest p =
     (if op_state p \<noteq> OpSwitchAuthorized then
        (if unresolvedActivation (op_state p) then fail ErrAgentLeaseActivationEnvironmentBlocked
         else fail ErrAgentLeaseStale)
      else seq (ensure (op_digest p = imageDigest) ErrAgentLeaseIntegrityConflict) (
        and_then (query_row ErrNoRows (get_head env)) (\<lambda>h.
        ret (Inr (activation_response (op_id p) (the (op_expected_revision p) + 1) (rh_hostname h) attempt
               (''sha256:'' @ hex_encode (the (op_route_digest p))))))))"

text \<open>The candidate release becomes ready with its image digest, or already is.\<close>

definition ready_candidate :: "int \<Rightarrow> digest \<Rightarrow> release_row \<Rightarrow> unit dbtx" where
  "ready_candidate now imageDigest r = (case rel_state r of
       RelCandidate \<Rightarrow> seq (update_release (rel_id r) (\<lambda>_. True)
           (\<lambda>q. q\<lparr>rel_image := Some imageDigest, rel_state := RelReady, rel_updated := now\<rparr>)) (ret ())
     | RelReady \<Rightarrow> ensure (rel_image r = Some imageDigest) ErrAgentLeaseIntegrityConflict
     | _ \<Rightarrow> fail ErrAgentLeaseActivationCandidateNotReady)"

definition activation_route :: "int \<Rightarrow> int \<Rightarrow> string \<Rightarrow> route_head_row \<Rightarrow> execution_row \<Rightarrow> string \<Rightarrow> environment_route" where
  "activation_route attempt fence env h cfg release =
     \<lparr>rt_environment = env, rt_revision = rh_revision h + 1, rt_hostname = rh_hostname h,
      rt_entrypoint = DefaultEntrypointName, rt_resolver = DefaultCertResolverName,
      rt_backend = AttemptRuntimeInstanceID attempt, rt_port = ContainerPort cfg,
      rt_scheme = ContainerScheme cfg, rt_release = release, rt_fence = itoa fence\<rparr>"

text \<open>\<^verbatim>\<open>traefik.Render\<close> as \<^verbatim>\<open>Activate\<close> uses it: the digest text, every error wrapped.\<close>

definition route_digest :: "(string \<Rightarrow> string) \<Rightarrow> environment_route \<Rightarrow> lease_error + string" where
  "route_digest sha256 r = (case Render sha256 r of
       Inl e \<Rightarrow> Inl (ErrPlain ''render activation route document'')
     | Inr (doc, digest) \<Rightarrow> Inr digest)"

definition decode_route_digest :: "string \<Rightarrow> lease_error + digest" where
  "decode_route_digest text = (case hex_decode (TrimPrefix text ''sha256:'') of
       None \<Rightarrow> Inl (ErrPlain ''decode rendered route digest'')
     | Some raw \<Rightarrow> if length raw = 32 then Inr raw else Inl (ErrPlain ''decode rendered route digest''))"

text \<open>\<^verbatim>\<open>INSERT INTO release_operations\<close>, a collision on the open-activation index translated.\<close>

definition insert_activation :: "(int \<Rightarrow> operation_row) \<Rightarrow> int dbtx" where
  "insert_activation mk s = (case insert_operation mk s of
       Inl e \<Rightarrow> Inl (if e = unique_violation open_activation_idx
                     then ErrAgentLeaseActivationEnvironmentBlocked else e)
     | Inr r \<Rightarrow> Inr r)"

definition new_activation ::
  "string \<Rightarrow> int \<Rightarrow> int \<Rightarrow> int \<Rightarrow> digest \<Rightarrow> string \<Rightarrow> string option \<Rightarrow> int \<Rightarrow> digest \<Rightarrow> int \<Rightarrow> operation_row" where
  "new_activation release job attempt fence img env expected revision routeDigest k =
     \<lparr>op_id = k, op_release = release, op_job = job, op_attempt = attempt, op_fence = fence,
      op_kind = OpActivate, op_digest = img, op_state = OpSwitchAuthorized, op_summary = [],
      op_closed = None, op_environment = Some env, op_expected_release = expected,
      op_expected_revision = Some revision, op_route_digest = Some routeDigest\<rparr>"

definition authorize_switch ::
  "(string \<Rightarrow> string) \<Rightarrow> int \<Rightarrow> int \<Rightarrow> digest \<Rightarrow> int \<Rightarrow> string \<Rightarrow> string \<Rightarrow> int \<Rightarrow>
   (lease_error + activation_result) dbtx" where
  "authorize_switch sha256 attempt fence imageDigest job env dep now =
     seq (transitionDeployment dep StatusActivating now) (
     and_then (query_row ErrAgentLeaseActivationNoRouteHead (get_head env)) (\<lambda>h.
     seq (ensure (\<not> rh_reconciling h) ErrAgentLeaseStale) (
     and_then (query_row ErrAgentLeaseCorruptState (release_of_deployment dep)) (\<lambda>r.
     seq (ready_candidate now imageDigest r) (
     and_then (query_row ErrNoRows (execution_of attempt)) (\<lambda>cfg.
     and_then (lift_result id (route_digest sha256 (activation_route attempt fence env h cfg (rel_id r)))) (\<lambda>text.
     and_then (lift_result id (decode_route_digest text)) (\<lambda>raw.
     and_then (insert_activation (new_activation (rel_id r) job attempt fence imageDigest env
          (if rh_active h = Some [] then None else rh_active h) (rh_revision h) raw)) (\<lambda>operation.
     seq (appendAgentJobEvent job (Some attempt) EvActivationAuthorized)
         (ret (Inr (activation_response operation (rh_revision h + 1) (rh_hostname h) attempt text))))))))))))"

definition activate_tx ::
  "(string \<Rightarrow> string) \<Rightarrow> string \<Rightarrow> digest \<Rightarrow> int \<Rightarrow> int \<Rightarrow> digest \<Rightarrow> int \<Rightarrow>
   (lease_error + activation_result) dbtx" where
  "activate_tx sha256 srv presented attempt fence imageDigest now =
     seq (lockActiveServerCredential srv presented) (
     and_then (lock_lease srv attempt) (\<lambda>(slot, job, a).
     seq (ensure (\<not> (att_state a \<noteq> AttemptLeased \<or> att_fence a \<noteq> fence \<or> slot_fence slot \<noteq> fence \<or>
                     slot_current slot \<noteq> Some attempt \<or> \<not> att_authority_expires a > now)) ErrAgentLeaseStale) (
     seq (ensure (job_cancel_requested job = None) ErrAgentLeaseStale) (
     and_then (query (activation_of attempt fence)) (\<lambda>existing. case existing of
       Some p \<Rightarrow> replay_activation attempt (att_environment a) imageDigest p
     | None \<Rightarrow>
         and_then (query (environment_unresolved (att_environment a))) (\<lambda>unresolved.
         seq (ensure (\<not> unresolved) ErrAgentLeaseActivationEnvironmentBlocked)
             (authorize_switch sha256 attempt fence imageDigest (att_job a) (att_environment a)
                (job_deployment job) now)))))))"

definition Activate ::
  "(string \<Rightarrow> string) \<Rightarrow> string \<Rightarrow> digest \<Rightarrow> int \<Rightarrow> int \<Rightarrow> digest \<Rightarrow> int \<Rightarrow> db \<Rightarrow>
   (lease_error + activation_result) \<times> db" where
  "Activate sha256 srv presented attempt fence imageDigest now s =
     (if \<not> ValidOpaqueID srv \<or> attempt \<le> 0 \<or> fence \<le> 0 then (Inl ErrAgentLeaseInvalidInput, s)
      else run_tx (activate_tx sha256 srv presented attempt fence imageDigest now) s)"

section \<open>Finalizing a successful switch\<close>

record activationFinalizeInput =
  fi_job :: int
  fi_attempt :: int
  fi_operation :: int
  fi_environment :: string
  fi_deployment :: string
  fi_candidate :: string
  fi_expected_revision :: int
  fi_expected_release :: "string option"
  fi_result :: digest
  fi_summary :: string
  fi_now :: int
  fi_from :: operation_state

definition validateFinalizeFromState :: "operation_state \<Rightarrow> lease_error option" where
  "validateFinalizeFromState st =
     (if st = OpSwitchAuthorized \<or> st = OpReconciliationRequired then None
      else Some (ErrPlain ''finalizeActivationSucceeded: programming error''))"

definition release_state_of :: "string \<Rightarrow> db \<Rightarrow> release_state option" where
  "release_state_of k s = map_option rel_state (get_release k s)"

definition retain_predecessor :: "activationFinalizeInput \<Rightarrow> unit dbtx" where
  "retain_predecessor i = (case fi_expected_release i of
       None \<Rightarrow> ret ()
     | Some k \<Rightarrow>
         and_then (query (release_state_of k)) (\<lambda>st.
         seq (ensure (st = Some RelActive) ErrAgentLeaseCorruptState)
             (seq (update_release k (\<lambda>r. rel_state r = RelActive)
                (\<lambda>r. r\<lparr>rel_state := RelRetained, rel_updated := fi_now i\<rparr>)) (ret ()))))"

text \<open>The completion half of the finalize: attempt, slot and job, each required to match one row.\<close>

definition complete_activated :: "activationFinalizeInput \<Rightarrow> unit dbtx" where
  "complete_activated i =
     and_then (update_attempt (fi_attempt i) (\<lambda>a. att_state a = AttemptLeased) (\<lambda>a. a\<lparr>
        att_state := AttemptSucceeded, att_closed := Some (fi_now i), att_failure := None,
        att_result_op := Some (itoa (fi_operation i)), att_result_digest := Some (fi_result i)\<rparr>)) (\<lambda>n.
     seq (ensure (n = 1) ErrAgentLeaseCorruptState) (
     and_then (update_slot (fi_environment i)
        (\<lambda>r. slot_current r = Some (fi_attempt i) \<and> (slot_pending r = None \<or> slot_pending r = Some (fi_attempt i)))
        (\<lambda>r. r\<lparr>slot_current := None, slot_reconciling := False, slot_pending := None,
               slot_updated := fi_now i\<rparr>)) (\<lambda>n.
     seq (ensure (n = 1) ErrAgentLeaseCorruptState) (
     and_then (update_job (fi_job i) (\<lambda>j. job_state j = JobLeased)
        (\<lambda>j. j\<lparr>job_state := JobSucceeded, job_updated := fi_now i\<rparr>)) (\<lambda>n.
     seq (ensure (n = 1) ErrAgentLeaseCorruptState) (
     seq (appendAgentJobEvent (fi_job i) (Some (fi_attempt i)) EvActivated)
         (appendAgentJobEvent (fi_job i) (Some (fi_attempt i)) EvSucceeded)))))))"

text \<open>The route half: head check, predecessor, candidate, head, route event, operation.\<close>

definition switch_route :: "activationFinalizeInput \<Rightarrow> unit dbtx" where
  "switch_route i =
     and_then (query_row ErrAgentLeaseCorruptState (get_head (fi_environment i))) (\<lambda>h.
     seq (ensure (rh_revision h = fi_expected_revision i \<and> rh_active h = fi_expected_release i)
            ErrAgentLeaseActivationRouteMoved) (
     seq (ensure (\<not> (rh_reconciling h \<and> fi_from i = OpSwitchAuthorized)) ErrAgentLeaseCorruptState) (
     and_then (query (release_state_of (fi_candidate i))) (\<lambda>st.
     seq (ensure (st = Some RelReady) ErrAgentLeaseCorruptState) (
     seq (retain_predecessor i) (
     seq (update_release (fi_candidate i) (\<lambda>r. rel_state r = RelReady)
            (\<lambda>r. r\<lparr>rel_state := RelActive, rel_updated := fi_now i\<rparr>)) (
     and_then (update_head (fi_environment i) (\<lambda>r. rh_revision r = fi_expected_revision i)
        (\<lambda>r. r\<lparr>rh_active := Some (fi_candidate i), rh_revision := rh_revision r + 1, rh_reconciling := False,
               rh_updated := max (rh_updated r) (fi_now i)\<rparr>)) (\<lambda>n.
     seq (ensure (n = 1) ErrAgentLeaseActivationRouteMoved) (
     seq (insert_route_event \<lparr>rev_environment = fi_environment i, rev_kind = RouteActivated (fi_candidate i),
            rev_revision = fi_expected_revision i + 1\<rparr>) (
     and_then (update_operation (fi_operation i) (\<lambda>p. op_state p = fi_from i)
        (\<lambda>p. p\<lparr>op_state := OpSucceeded,
               op_closed := (case op_closed p of None \<Rightarrow> Some (fi_now i) | Some t \<Rightarrow> Some t),
               op_summary := fi_summary i\<rparr>)) (\<lambda>n.
     ensure (n = 1) ErrAgentLeaseStale)))))))))))"

definition finalizeActivationSucceeded :: "activationFinalizeInput \<Rightarrow> unit dbtx" where
  "finalizeActivationSucceeded i = (case validateFinalizeFromState (fi_from i) of
       Some e \<Rightarrow> fail e
     | None \<Rightarrow>
         seq (transitionDeployment (fi_deployment i) StatusHealthy (fi_now i)) (
         seq (switch_route i) (complete_activated i)))"

section \<open>Classifying failures\<close>

definition isDeploymentDomainError :: "lease_error \<Rightarrow> bool" where
  "isDeploymentDomainError e = (case e of
       ErrDeploymentDomain chain \<Rightarrow>
         list_ex (\<lambda>x. x \<in> {ErrInvalidTransition, ErrTerminalState, ErrInvalidTimestamp, ErrUnknownStatus,
                           ErrInvalidSnapshot, ErrInvalidDeployment}) chain
     | ErrRevisionConflict \<Rightarrow> True
     | ErrNotFound \<Rightarrow> True
     | ErrRevisionOverflow \<Rightarrow> True
     | _ \<Rightarrow> False)"

definition isRetryableActivationPgCode :: "string \<Rightarrow> bool" where
  "isRetryableActivationPgCode code \<longleftrightarrow>
     code \<in> {''XX000'', ''40001'', ''40P01'', ''40003'', ''57014'', ''57P01'', ''57P02'', ''57P03'', ''57P05'',
             ''55P03'', ''25006'', ''25P03'', ''25P04'', ''58030'', ''26000''}
     \<or> HasPrefix code ''08'' \<or> HasPrefix code ''53''"

definition isRetryableActivationPgError :: "string \<Rightarrow> string \<Rightarrow> bool" where
  "isRetryableActivationPgError code routine \<longleftrightarrow>
     isRetryableActivationPgCode code \<or> (code = ''0A000'' \<and> routine = ''RevalidateCachedQuery'')"

text \<open>The database error a chain carries; the statements of this model never raise \<^verbatim>\<open>0A000\<close>.\<close>

fun pg_code :: "lease_error \<Rightarrow> string option" where
  "pg_code (PgError code what) = Some code"
| "pg_code (ErrActivationBlockUnrecorded e) = pg_code e"
| "pg_code e = None"

text \<open>Context, network and connection errors do not occur in the model; what remains are SQLSTATEs.\<close>

definition isTransientActivationFailure :: "lease_error \<Rightarrow> bool" where
  "isTransientActivationFailure e =
     (case pg_code e of None \<Rightarrow> False | Some code \<Rightarrow> isRetryableActivationPgError code [])"

definition isDeterministicActivationFailure :: "lease_error \<Rightarrow> bool" where
  "isDeterministicActivationFailure e \<longleftrightarrow> \<not> isTransientActivationFailure e"

fun classifyActivationResultError :: "lease_error \<Rightarrow> lease_error" where
  "classifyActivationResultError (ErrActivationBlockUnrecorded e) = ErrActivationBlockUnrecorded e"
| "classifyActivationResultError (PgError code what) =
     (if isRetryableActivationPgError code [] then PgError code what else ErrAgentLeaseConstraintViolation)"
| "classifyActivationResultError e =
     (if isDeploymentDomainError e then ErrAgentLeaseCorruptState else e)"

section \<open>Late reports\<close>

definition leasedOccupant :: "attempt_row \<Rightarrow> slot_row \<Rightarrow> int \<Rightarrow> bool" where
  "leasedOccupant a slot fence \<longleftrightarrow>
     att_state a = AttemptLeased \<and> slot_fence slot = fence \<and> slot_current slot = Some (att_id a)"

text \<open>\<open>True\<close> when an entry and its event were written.\<close>

definition writeLateEvidence ::
  "(string \<Rightarrow> digest) \<Rightarrow> int \<Rightarrow> int \<Rightarrow> int \<Rightarrow> string \<Rightarrow> activationReport \<Rightarrow> bool dbtx" where
  "writeLateEvidence sha256 job attempt operation existing rep =
     (let fingerprint = lateReportFingerprint sha256 (rp_succeeded rep) (rp_observed rep) (rp_failure rep);
          body = (if rp_succeeded rep then lateSuccessBody (rp_observed rep) (rp_digest_matches rep)
                  else lateFailureBody (rp_failure rep));
          (updated, outcome) = appendLateEvidence existing fingerprint body (rp_succeeded rep)
      in if outcome \<noteq> lateEvidenceAppended then ret False
         else and_then (update_operation operation
                (\<lambda>p. op_kind p = OpActivate \<and> op_state p = OpReconciliationRequired)
                (\<lambda>p. p\<lparr>op_summary := updated\<rparr>)) (\<lambda>n.
              seq (ensure (n = 1) (ErrPlain ''record late activation report: operation not updated'')) (
              seq (appendAgentJobEvent job (Some attempt) EvActivationLateReport) (ret True))))"

definition recordLateReport ::
  "(string \<Rightarrow> digest) \<Rightarrow> attempt_row \<Rightarrow> slot_row \<Rightarrow> int \<Rightarrow> operation_row \<Rightarrow> activationReport \<Rightarrow>
   (lease_error + unit) dbtx" where
  "recordLateReport sha256 a slot fence p rep =
     seq (ensure (leasedOccupant a slot fence) ErrAgentLeaseStale)
         (and_then (writeLateEvidence sha256 (att_job a) (att_id a) (op_id p) (op_summary p) rep) (\<lambda>appended.
          if appended then ret (Inl ErrAgentLeaseActivationLateReportRecorded)
          else fail ErrAgentLeaseActivationLateReportRecorded))"

definition declared_events :: "int \<Rightarrow> int \<Rightarrow> db \<Rightarrow> job_event_row list" where
  "declared_events job attempt s = filter (\<lambda>e. jev_job e = job \<and> jev_attempt e = Some attempt \<and>
     jev_type e = EvReconciled) (job_events s)"

definition traced_contradiction :: "int \<Rightarrow> int \<Rightarrow> db \<Rightarrow> bool" where
  "traced_contradiction job attempt s \<longleftrightarrow>
     (\<exists>e \<in> set (job_events s). jev_job e = job \<and> jev_attempt e = Some attempt \<and>
        jev_type e = EvActivationLateReport \<and> declared_events job attempt s \<noteq> [] \<and>
        jev_sequence e > foldr max (map jev_sequence (declared_events job attempt s)) 0)"

definition traceDeclaredContradiction :: "int \<Rightarrow> int \<Rightarrow> (lease_error + unit) dbtx" where
  "traceDeclaredContradiction job attempt =
     and_then (query (\<lambda>s. declared_events job attempt s \<noteq> [] \<and> \<not> traced_contradiction job attempt s)) (\<lambda>trace.
     if trace then seq (appendAgentJobEvent job (Some attempt) EvActivationLateReport)
                       (ret (Inl ErrAgentLeaseIntegrityConflict))
     else fail ErrAgentLeaseIntegrityConflict)"

section \<open>Recording a block after a failure\<close>

datatype activationBlockOutcome =
    activationBlockRecorded | activationBlockNoopSucceeded | activationBlockNoopOther
  | activationBlockLateRecorded | activationBlockStale

fun lateOutcomeError :: "activationBlockOutcome \<Rightarrow> lease_error option" where
  "lateOutcomeError activationBlockLateRecorded = Some ErrAgentLeaseActivationLateReportRecorded"
| "lateOutcomeError activationBlockStale = Some ErrAgentLeaseStale"
| "lateOutcomeError x = None"

text \<open>The body of \<^verbatim>\<open>recordBlockInFreshTransaction\<close>; the flag says whether it ends in COMMIT.\<close>

definition fresh_block_tx ::
  "(string \<Rightarrow> digest) \<Rightarrow> string \<Rightarrow> int \<Rightarrow> int \<Rightarrow> int \<Rightarrow> string \<Rightarrow> activationReport \<Rightarrow> int \<Rightarrow>
   (activationBlockOutcome \<times> bool) dbtx" where
  "fresh_block_tx sha256 srv attempt fence operation evidence rep now =
     and_then (query_row ErrNoRows (get_attempt attempt)) (\<lambda>a.
     seq (ensure (att_server a = srv) ErrNoRows) (
     and_then (query_row ErrNoRows (get_slot (att_environment a))) (\<lambda>slot.
     and_then (query_row ErrNoRows (get_operation operation)) (\<lambda>p.
     seq (ensure (op_attempt p = attempt \<and> op_fence p = fence \<and> op_kind p = OpActivate) ErrNoRows) (
     if op_state p = OpSucceeded then ret (activationBlockNoopSucceeded, False)
     else if op_state p = OpReconciliationRequired then
       (if \<not> rp_succeeded rep \<and> isOriginalBlockReplay (op_summary p) (rp_failure rep)
        then ret (activationBlockRecorded, False)
        else if \<not> leasedOccupant a slot fence then ret (activationBlockStale, False)
        else and_then (writeLateEvidence sha256 (att_job a) attempt operation (op_summary p) rep) (\<lambda>appended.
             ret (activationBlockLateRecorded, appended)))
     else if op_state p \<noteq> OpSwitchAuthorized \<or> \<not> leasedOccupant a slot fence
     then ret (activationBlockNoopOther, False)
     else seq (blockActivationForReconciliation now (att_job a) attempt operation (att_environment a) evidence)
              (ret (activationBlockRecorded, True)))))))"

definition deferred_trigger_error :: lease_error where
  "deferred_trigger_error = PgError ''P0001'' ''route head active release''"

definition recordBlockInFreshTransaction ::
  "(string \<Rightarrow> digest) \<Rightarrow> string \<Rightarrow> int \<Rightarrow> int \<Rightarrow> int \<Rightarrow> string \<Rightarrow> activationReport \<Rightarrow> int \<Rightarrow> db \<Rightarrow>
   (lease_error + activationBlockOutcome) \<times> db" where
  "recordBlockInFreshTransaction sha256 srv attempt fence operation evidence rep now s =
     (case fresh_block_tx sha256 srv attempt fence operation evidence rep now s of
        Inl e \<Rightarrow> (Inl (ErrActivationBlockUnrecorded e), s)
      | Inr ((outcome, commits), t) \<Rightarrow>
          if \<not> commits then (Inr outcome, s)
          else if commit_checks t then (Inr outcome, t)
          else (Inl (ErrActivationBlockUnrecorded deferred_trigger_error), s))"

definition blockAfterAbortedTransaction ::
  "(string \<Rightarrow> digest) \<Rightarrow> (lease_error \<Rightarrow> string) \<Rightarrow> string \<Rightarrow> int \<Rightarrow> int \<Rightarrow> int \<Rightarrow> string \<Rightarrow> lease_error \<Rightarrow>
   activationReport \<Rightarrow> int \<Rightarrow> db \<Rightarrow> (lease_error + unit) \<times> db" where
  "blockAfterAbortedTransaction sha256 describe srv attempt fence operation prefix cause rep now s =
     (case recordBlockInFreshTransaction sha256 srv attempt fence operation
             (sanitizeOutcomeSummary (prefix @ describe cause)) rep now s of
        (Inl e, t) \<Rightarrow> (Inl e, t)
      | (Inr outcome, t) \<Rightarrow>
          if outcome = activationBlockNoopSucceeded then (Inr (), t)
          else (case lateOutcomeError outcome of Some e \<Rightarrow> (Inl e, t) | None \<Rightarrow> (Inl cause, t)))"

definition blockAfterFinalizeFailure ::
  "(string \<Rightarrow> digest) \<Rightarrow> (lease_error \<Rightarrow> string) \<Rightarrow> string \<Rightarrow> int \<Rightarrow> int \<Rightarrow> int \<Rightarrow> int \<Rightarrow> string \<Rightarrow> lease_error \<Rightarrow>
   activationReport \<Rightarrow> int \<Rightarrow> db \<Rightarrow> (lease_error + unit) \<times> db" where
  "blockAfterFinalizeFailure sha256 describe srv job attempt fence operation env cause rep now s =
     (if \<not> isDeterministicActivationFailure cause then (Inl cause, s)
      else (case blockActivationForReconciliation now job attempt operation env
                   (sanitizeOutcomeSummary (''activation finalize failed: '' @ describe cause)) s of
          Inl e \<Rightarrow> (Inl (ErrActivationBlockUnrecorded e), s)
        | Inr (u, t) \<Rightarrow>
            if commit_checks t then (Inl cause, t)
            else blockAfterAbortedTransaction sha256 describe srv attempt fence operation
                   ''activation finalize failed: '' cause rep now s))"

section \<open>tx2: the result of the switch\<close>

text \<open>The closures \<^verbatim>\<open>refuseAmbiguous\<close> and the failure branch, from the state the locks were taken in.\<close>

definition refuse_ambiguous ::
  "(string \<Rightarrow> digest) \<Rightarrow> string \<Rightarrow> int \<Rightarrow> int \<Rightarrow> int \<Rightarrow> int \<Rightarrow> string \<Rightarrow> string \<Rightarrow> lease_error \<Rightarrow> activationReport \<Rightarrow>
   int \<Rightarrow> db \<Rightarrow> (lease_error + unit) \<times> db" where
  "refuse_ambiguous sha256 srv job attempt fence operation env evidence0 refusal rep now s =
     (let evidence = sanitizeOutcomeSummary evidence0 in
      case blockActivationForReconciliation now job attempt operation env evidence s of
        Inl e \<Rightarrow> (Inl (ErrActivationBlockUnrecorded e), s)
      | Inr (u, t) \<Rightarrow>
          if commit_checks t then (Inl refusal, t)
          else (case recordBlockInFreshTransaction sha256 srv attempt fence operation evidence rep now s of
              (Inl e, v) \<Rightarrow> (Inl e, v)
            | (Inr outcome, v) \<Rightarrow>
                (case lateOutcomeError outcome of Some e \<Rightarrow> (Inl e, v) | None \<Rightarrow> (Inl refusal, v))))"

definition report_failure ::
  "(string \<Rightarrow> digest) \<Rightarrow> string \<Rightarrow> int \<Rightarrow> int \<Rightarrow> int \<Rightarrow> int \<Rightarrow> string \<Rightarrow> activationReport \<Rightarrow> int \<Rightarrow> db \<Rightarrow>
   (lease_error + unit) \<times> db" where
  "report_failure sha256 srv job attempt fence operation env rep now s =
     (case blockActivationForReconciliation now job attempt operation env (rp_failure rep) s of
        Inl e \<Rightarrow> (Inl (ErrActivationBlockUnrecorded e), s)
      | Inr (u, t) \<Rightarrow>
          if commit_checks t then (Inr (), t)
          else (case recordBlockInFreshTransaction sha256 srv attempt fence operation (rp_failure rep) rep now s of
              (Inl e, v) \<Rightarrow> (Inl e, v)
            | (Inr outcome, v) \<Rightarrow> (case outcome of
                  activationBlockRecorded \<Rightarrow> (Inr (), v)
                | activationBlockNoopSucceeded \<Rightarrow> (Inl ErrAgentLeaseIntegrityConflict, v)
                | activationBlockLateRecorded \<Rightarrow> (Inl ErrAgentLeaseActivationLateReportRecorded, v)
                | _ \<Rightarrow> (Inl ErrAgentLeaseStale, v))))"

definition optionalStringForSummary :: "string option \<Rightarrow> string" where
  "optionalStringForSummary v = (case v of None \<Rightarrow> ''<none>'' | Some x \<Rightarrow> x)"

definition moved_evidence :: "operation_row \<Rightarrow> route_head_row \<Rightarrow> string" where
  "moved_evidence p h =
     ''route head moved since authorization: expected revision '' @ itoa (the (op_expected_revision p))
     @ '' active '' @ optionalStringForSummary (op_expected_release p) @ '', found revision ''
     @ itoa (rh_revision h) @ '' active '' @ optionalStringForSummary (rh_active h)"

definition mismatch_evidence :: "operation_row \<Rightarrow> digest \<Rightarrow> string" where
  "mismatch_evidence p observed =
     ''route digest mismatch: expected sha256:'' @ hex_encode (the (op_route_digest p))
     @ '' observed sha256:'' @ hex_encode observed"

definition report_success ::
  "(string \<Rightarrow> digest) \<Rightarrow> (lease_error \<Rightarrow> string) \<Rightarrow> string \<Rightarrow> job_row \<Rightarrow> attempt_row \<Rightarrow> operation_row \<Rightarrow>
   activationReport \<Rightarrow> int \<Rightarrow> db \<Rightarrow> (lease_error + unit) \<times> db" where
  "report_success sha256 describe srv job a p rep now s =
     (let env = att_environment a; attempt = att_id a; fence = att_fence a; operation = op_id p;
          refuse = (\<lambda>evidence refusal. refuse_ambiguous sha256 srv (att_job a) attempt fence operation env
                      evidence refusal rep now s) in
      if \<not> rp_digest_matches rep then refuse (mismatch_evidence p (rp_observed rep)) ErrAgentLeaseIntegrityConflict
      else (case get_head env s of
          None \<Rightarrow> refuse (''environment '' @ env @ '' has no route head at activation result'')
                    ErrAgentLeaseCorruptState
        | Some h \<Rightarrow>
            if rh_active h \<noteq> op_expected_release p \<or> Some (rh_revision h) \<noteq> op_expected_revision p
            then refuse (moved_evidence p h) ErrAgentLeaseActivationRouteMoved
            else (case finalizeActivationSucceeded \<lparr>fi_job = att_job a, fi_attempt = attempt,
                      fi_operation = operation, fi_environment = env, fi_deployment = job_deployment job,
                      fi_candidate = op_release p, fi_expected_revision = the (op_expected_revision p),
                      fi_expected_release = op_expected_release p, fi_result = rp_observed rep,
                      fi_summary = ''activated route_digest=sha256:'' @ hex_encode (rp_observed rep),
                      fi_now = now, fi_from = OpSwitchAuthorized\<rparr> s of
                Inl cause \<Rightarrow> blockAfterFinalizeFailure sha256 describe srv (att_job a) attempt fence operation
                               env cause rep now s
              | Inr (u, t) \<Rightarrow>
                  if commit_checks t then (Inr (), t)
                  else blockAfterAbortedTransaction sha256 describe srv attempt fence operation
                         ''activation finalize failed at commit: '' deferred_trigger_error rep now s)))"

text \<open>The rows tx2 locks before it looks at the report.\<close>

definition locate_activation ::
  "string \<Rightarrow> digest \<Rightarrow> int \<Rightarrow> int \<Rightarrow> int \<Rightarrow> (slot_row \<times> job_row \<times> attempt_row \<times> operation_row) dbtx" where
  "locate_activation srv presented attempt fence parsed =
     seq (lockActiveServerCredential srv presented) (
     and_then (lock_lease srv attempt) (\<lambda>(slot, job, a).
     seq (ensure (att_fence a = fence) ErrAgentLeaseStale) (
     and_then (query_row ErrAgentLeaseStale (activation_of attempt fence)) (\<lambda>p.
     seq (ensure (op_id p = parsed) ErrAgentLeaseIntegrityConflict) (
     seq (ensure (map_option length (op_route_digest p) = Some 32) ErrAgentLeaseCorruptState)
         (ret (slot, job, a, p)))))))"

text \<open>The \<^verbatim>\<open>switch op.state\<close> for every state but the open one.\<close>

definition answer_closed ::
  "(string \<Rightarrow> digest) \<Rightarrow> slot_row \<Rightarrow> attempt_row \<Rightarrow> operation_row \<Rightarrow> activationReport \<Rightarrow> int \<Rightarrow>
   (lease_error + unit) dbtx" where
  "answer_closed sha256 slot a p rep fence = (case op_state p of
       OpSucceeded \<Rightarrow>
         if \<not> rp_succeeded rep \<or> \<not> rp_digest_matches rep
         then traceDeclaredContradiction (att_job a) (att_id a) else ret (Inr ())
     | OpFailed \<Rightarrow>
         if \<not> rp_succeeded rep then fail ErrAgentLeaseIntegrityConflict
         else traceDeclaredContradiction (att_job a) (att_id a)
     | OpReconciliationRequired \<Rightarrow>
         if \<not> rp_succeeded rep \<and> isOriginalBlockReplay (op_summary p) (rp_failure rep) then ret (Inr ())
         else recordLateReport sha256 a slot fence p rep
     | _ \<Rightarrow> fail ErrAgentLeaseCorruptState)"

text \<open>The pair is \<^verbatim>\<open>occupantChecked\<close> and the answer.\<close>

definition reportActivationResult ::
  "(string \<Rightarrow> digest) \<Rightarrow> (lease_error \<Rightarrow> string) \<Rightarrow> string \<Rightarrow> digest \<Rightarrow> int \<Rightarrow> int \<Rightarrow> string \<Rightarrow> bool \<Rightarrow> digest \<Rightarrow>
   string \<Rightarrow> int \<Rightarrow> db \<Rightarrow> (bool \<times> (lease_error + unit)) \<times> db" where
  "reportActivationResult sha256 describe srv presented attempt fence operationID succeeded observed failure now s =
     (if \<not> ValidOpaqueID srv \<or> attempt \<le> 0 \<or> fence \<le> 0 \<or> \<not> validOperationID operationID
      then ((False, Inl ErrAgentLeaseInvalidInput), s)
      else (case ParseInt operationID of
          None \<Rightarrow> ((False, Inl ErrAgentLeaseInvalidInput), s)
        | Some parsed \<Rightarrow>
            if parsed \<le> 0 then ((False, Inl ErrAgentLeaseInvalidInput), s)
            else (case locate_activation srv presented attempt fence parsed s of
                Inl e \<Rightarrow> ((False, Inl e), s)
              | Inr ((slot, job, a, p), t) \<Rightarrow>
                  let rep = \<lparr>rp_succeeded = succeeded, rp_digest_matches = (op_route_digest p = Some observed),
                             rp_observed = observed, rp_failure = failureOutcomeSummary failure\<rparr> in
                  if op_state p \<noteq> OpSwitchAuthorized
                  then (let (r, u) = run_tx (answer_closed sha256 slot a p rep fence) s in ((False, r), u))
                  else if \<not> leasedOccupant a slot fence then ((False, Inl ErrAgentLeaseStale), s)
                  else (let (r, u) = (if \<not> succeeded
                           then report_failure sha256 srv (att_job a) attempt fence (op_id p) (att_environment a) rep now s
                           else report_success sha256 describe srv job a p rep now s)
                        in ((True, r), u)))))"

definition ReportActivationResult ::
  "(string \<Rightarrow> digest) \<Rightarrow> (lease_error \<Rightarrow> string) \<Rightarrow> string \<Rightarrow> digest \<Rightarrow> int \<Rightarrow> int \<Rightarrow> string \<Rightarrow> bool \<Rightarrow> digest \<Rightarrow>
   string \<Rightarrow> int \<Rightarrow> db \<Rightarrow> (lease_error + unit) \<times> db" where
  "ReportActivationResult sha256 describe srv presented attempt fence operationID succeeded observed failure now s =
     (case reportActivationResult sha256 describe srv presented attempt fence operationID succeeded observed
             failure now s of
        ((occupantChecked, r), t) \<Rightarrow>
          (case r of
             Inr u \<Rightarrow> (Inr u, t)
           | Inl e \<Rightarrow> (Inl (if occupantChecked then classifyActivationResultError e else e), t)))"

end
