(* ===== verification/Activation_Resolution.thy ===== *)
theory Activation_Resolution
  imports Activation
begin

text \<open>
  \<^verbatim>\<open>activation_resolution.go\<close>: clearing a blocked environment by a declared outcome.  The
  operator's \<open>ResolveActivation\<close> and the agent's \<open>ReconcileActivation\<close> authenticate differently and
  share \<open>resolveDeclared\<close>; the fields of \<^verbatim>\<open>declaredResolution\<close> that are Go closures are the
  functions of the record below.
\<close>

section \<open>Declarations\<close>

definition ActivationOutcomeActivated :: string where
  "ActivationOutcomeActivated = ''activated''"

definition ActivationOutcomeNotActivated :: string where
  "ActivationOutcomeNotActivated = ''not_activated''"

definition ActivationOutcomeNoActivation :: string where
  "ActivationOutcomeNoActivation = ''no_activation''"

definition validActivationOutcome :: "string \<Rightarrow> bool" where
  "validActivationOutcome outcome \<longleftrightarrow>
     outcome \<in> {ActivationOutcomeActivated, ActivationOutcomeNotActivated, ActivationOutcomeNoActivation}"

record declaredResolution =
  dr_environment :: string
  dr_job :: int
  dr_attempt :: int
  dr_slot_current :: "int option"
  dr_outcome :: string
  dr_authorize :: "attempt_row \<Rightarrow> lease_error option"
  dr_outcome_digest :: "digest option"
  dr_plain_refusal :: "attempt_row \<Rightarrow> lease_error option"
  dr_clear_plain :: "unit dbtx"
  dr_audit :: "unit dbtx"

definition refuse_if :: "lease_error option \<Rightarrow> unit dbtx" where
  "refuse_if e = (case e of None \<Rightarrow> ret () | Some err \<Rightarrow> fail err)"

definition unresolved_of_environment :: "string \<Rightarrow> db \<Rightarrow> operation_row option" where
  "unresolved_of_environment env s =
     find (\<lambda>p. op_environment p = Some env \<and> unresolved_operation p) (operations s)"

section \<open>Not activated\<close>

definition resolveNotActivated ::
  "int \<Rightarrow> int \<Rightarrow> int \<Rightarrow> string \<Rightarrow> string \<Rightarrow> bool \<Rightarrow> string \<Rightarrow> int \<Rightarrow> unit dbtx" where
  "resolveNotActivated job attempt operation env dep headFlagged summary now =
     seq (transitionDeployment dep StatusFailed now) (
     seq (if headFlagged
          then and_then (update_head env rh_reconciling
                 (\<lambda>r. r\<lparr>rh_reconciling := False, rh_updated := max (rh_updated r) now\<rparr>)) (\<lambda>n.
               ensure (n = 1) ErrAgentLeaseCorruptState)
          else ret ()) (
     and_then (update_operation operation (\<lambda>p. op_state p = OpReconciliationRequired)
        (\<lambda>p. p\<lparr>op_state := OpFailed,
               op_closed := (case op_closed p of None \<Rightarrow> Some now | Some t \<Rightarrow> Some t),
               op_summary := summary\<rparr>)) (\<lambda>n.
     seq (ensure (n = 1) ErrAgentLeaseCorruptState) (
     and_then (update_attempt attempt (\<lambda>a. att_state a = AttemptLeased)
        (\<lambda>a. a\<lparr>att_state := AttemptExpired, att_closed := Some now\<rparr>)) (\<lambda>n.
     seq (ensure (n = 1) ErrAgentLeaseCorruptState) (
     and_then (update_slot env (\<lambda>r. slot_current r = Some attempt \<and> slot_pending r = Some attempt)
        (\<lambda>r. r\<lparr>slot_current := None, slot_reconciling := False, slot_pending := None,
               slot_updated := now\<rparr>)) (\<lambda>n.
     seq (ensure (n = 1) ErrAgentLeaseCorruptState) (
     and_then (update_job job (\<lambda>j. job_state j = JobLeased)
        (\<lambda>j. j\<lparr>job_state := JobFailed, job_updated := now\<rparr>)) (\<lambda>n.
     seq (ensure (n = 1) ErrAgentLeaseCorruptState) (
     seq (appendAgentJobEvent job (Some attempt) EvActivationNotActivated)
         (appendAgentJobEvent job (Some attempt) EvFailed)))))))))))"

section \<open>The shared resolution\<close>

text \<open>The shape every activation block leaves; anything else is refused.\<close>

definition blocked_shape :: "declaredResolution \<Rightarrow> job_row \<Rightarrow> attempt_row \<Rightarrow> operation_row \<Rightarrow> bool" where
  "blocked_shape d j a p \<longleftrightarrow>
     att_state a = AttemptLeased \<and> att_closed a = None \<and>
     att_environment a = dr_environment d \<and> att_fence a = op_fence p \<and>
     job_state j = JobLeased \<and> dr_slot_current d = Some (dr_attempt d)"

definition resolve_operation :: "declaredResolution \<Rightarrow> job_row \<Rightarrow> operation_row \<Rightarrow> int \<Rightarrow> unit dbtx" where
  "resolve_operation d j p now =
     and_then (query_row ErrNoRows (get_deployment (job_deployment j))) (\<lambda>dep.
     seq (ensure (snap_status dep = StatusActivating) ErrAgentLeaseCorruptState) (
     and_then (query (get_head (dr_environment d))) (\<lambda>head.
     let headFlagged = (case head of None \<Rightarrow> False | Some h \<Rightarrow> rh_reconciling h);
         summary = declaredSummary (op_summary p) (dr_outcome d) in
     seq (if dr_outcome d = ActivationOutcomeActivated
          then finalizeActivationSucceeded \<lparr>fi_job = dr_job d, fi_attempt = dr_attempt d,
                 fi_operation = op_id p, fi_environment = dr_environment d,
                 fi_deployment = job_deployment j, fi_candidate = op_release p,
                 fi_expected_revision = the (op_expected_revision p),
                 fi_expected_release = op_expected_release p, fi_result = the (op_route_digest p),
                 fi_summary = summary, fi_now = now, fi_from = OpReconciliationRequired\<rparr>
          else resolveNotActivated (dr_job d) (dr_attempt d) (op_id p) (dr_environment d)
                 (job_deployment j) headFlagged summary now) (
     seq (dr_audit d)
         (appendAgentJobEvent (dr_job d) (Some (dr_attempt d)) EvReconciled)))))"

definition resolveDeclared :: "declaredResolution \<Rightarrow> int \<Rightarrow> unit dbtx" where
  "resolveDeclared d now =
     and_then (query_row ErrNoRows (get_job (dr_job d))) (\<lambda>j.
     and_then (query_row ErrNoRows (get_attempt (dr_attempt d))) (\<lambda>a.
     seq (refuse_if (dr_authorize d a)) (
     and_then (query (unresolved_of_environment (dr_environment d))) (\<lambda>found. case found of
       None \<Rightarrow>
         seq (ensure (dr_outcome d = ActivationOutcomeNoActivation) ErrAgentLeaseOutcomeMismatch) (
         seq (refuse_if (dr_plain_refusal d a)) (dr_clear_plain d))
     | Some p \<Rightarrow>
         seq (ensure (op_attempt p = dr_attempt d) ErrAgentLeaseCorruptState) (
         seq (ensure (dr_outcome d \<noteq> ActivationOutcomeNoActivation) ErrAgentLeaseOutcomeMismatch) (
         seq (ensure (op_state p = OpReconciliationRequired) ErrAgentLeaseActivationUnresolved) (
         seq (ensure (blocked_shape d j a p) ErrAgentLeaseCorruptState) (
         seq (ensure (map_option length (op_route_digest p) = Some 32) ErrAgentLeaseCorruptState) (
         seq (ensure (\<not> (dr_outcome d = ActivationOutcomeActivated \<and> dr_outcome_digest d \<noteq> None \<and>
                         dr_outcome_digest d \<noteq> op_route_digest p)) ErrAgentLeaseIntegrityConflict)
             (resolve_operation d j p now)))))))))) "

section \<open>Repeated declarations\<close>

text \<open>\<^verbatim>\<open>ORDER BY id DESC LIMIT 1\<close> over the attempt's activate operations.\<close>

definition latest_activation :: "int \<Rightarrow> db \<Rightarrow> operation_row option" where
  "latest_activation attempt s =
     (let ps = filter (\<lambda>p. op_attempt p = attempt \<and> op_kind p = OpActivate) (operations s) in
      find (\<lambda>p. \<forall>q \<in> set ps. op_id q \<le> op_id p) ps)"

definition agreeResolvedOutcome :: "int \<Rightarrow> string \<Rightarrow> digest option \<Rightarrow> unit dbtx" where
  "agreeResolvedOutcome attempt outcome presented =
     and_then (query (latest_activation attempt)) (\<lambda>found. case found of
       None \<Rightarrow> ensure (outcome = ActivationOutcomeNoActivation) ErrAgentLeaseIntegrityConflict
     | Some p \<Rightarrow>
         if op_state p = OpSucceeded then
           seq (ensure (outcome = ActivationOutcomeActivated) ErrAgentLeaseIntegrityConflict)
               (ensure (presented = None \<or> presented = op_route_digest p) ErrAgentLeaseIntegrityConflict)
         else if op_state p = OpFailed then
           ensure (outcome = ActivationOutcomeNotActivated) ErrAgentLeaseIntegrityConflict
         else fail ErrAgentLeaseCorruptState)"

definition reconciled_event :: "int \<Rightarrow> db \<Rightarrow> bool" where
  "reconciled_event attempt s \<longleftrightarrow>
     (\<exists>e \<in> set (job_events s). jev_attempt e = Some attempt \<and> jev_type e = EvReconciled)"

text \<open>The most recent attempt of the environment, when the owner's and already reconciled.\<close>

definition prior_resolution :: "string \<Rightarrow> string \<Rightarrow> db \<Rightarrow> attempt_row option" where
  "prior_resolution env owner s =
     find (\<lambda>a. att_environment a = env \<and>
        (\<forall>b \<in> set (attempts s). att_environment b = env \<longrightarrow> att_id b \<le> att_id a) \<and>
        (case get_job (att_job a) s of None \<Rightarrow> False | Some j \<Rightarrow> job_owner j = owner) \<and>
        reconciled_event (att_id a) s) (attempts s)"

definition confirmResolvedOutcome :: "principal \<Rightarrow> string \<Rightarrow> string \<Rightarrow> unit dbtx" where
  "confirmResolvedOutcome p env outcome =
     and_then (query_row ErrServerAuthorizationDenied (prior_resolution env (pr_owner p))) (\<lambda>a.
     agreeResolvedOutcome (att_id a) outcome None)"

section \<open>The operator's path\<close>

definition operator_resolution ::
  "principal \<Rightarrow> string \<Rightarrow> string \<Rightarrow> string \<Rightarrow> int \<Rightarrow> int \<Rightarrow> int option \<Rightarrow> int \<Rightarrow> declaredResolution" where
  "operator_resolution p env outcome auditReason job attempt slotCurrent now =
     \<lparr>dr_environment = env, dr_job = job, dr_attempt = attempt, dr_slot_current = slotCurrent,
      dr_outcome = outcome, dr_authorize = (\<lambda>_. None), dr_outcome_digest = None,
      dr_plain_refusal = (\<lambda>a. if att_state a = AttemptLeased \<and> att_closed a = None
                              then Some ErrAgentLeaseCorruptState else None),
      dr_clear_plain = clearPlainReconciliation p env job (Some attempt) auditReason now,
      dr_audit = insertServerAuditEvent (administrator_audit p auditReason)\<rparr>"

definition resolve_activation_tx :: "principal \<Rightarrow> string \<Rightarrow> string \<Rightarrow> string \<Rightarrow> int \<Rightarrow> unit dbtx" where
  "resolve_activation_tx p env outcome auditReason now =
     seq (lockAdministratorSession now p) (
     and_then (query_row ErrServerAuthorizationDenied (get_slot env)) (\<lambda>slot.
     case slot_pending slot of
       None \<Rightarrow> confirmResolvedOutcome p env outcome
     | Some attempt \<Rightarrow>
         and_then (query_row ErrNoRows (get_attempt attempt)) (\<lambda>a.
         and_then (query_row ErrNoRows (get_job (att_job a))) (\<lambda>j.
         seq (ensure (job_owner j = pr_owner p) ErrServerAuthorizationDenied)
             (resolveDeclared (operator_resolution p env outcome auditReason (att_job a) attempt
                (slot_current slot) now) now)))))"

definition ResolveActivation ::
  "principal \<Rightarrow> string \<Rightarrow> string \<Rightarrow> string \<Rightarrow> int \<Rightarrow> db \<Rightarrow> (lease_error + unit) \<times> db" where
  "ResolveActivation p env outcome reason now s =
     (if \<not> Principal_Validate p \<or> \<not> ValidOpaqueID env then (Inl ErrServerAuthorizationDenied, s)
      else if \<not> validActivationOutcome outcome then (Inl ErrAgentLeaseInvalidInput, s)
      else let auditReason = ''outcome='' @ outcome @ ''; '' @ reason in
        if \<not> validReason auditReason then (Inl ErrServerAuthorizationDenied, s)
        else run_tx (and_then (resolve_activation_tx p env outcome auditReason now) (\<lambda>u. ret (Inr u))) s)"

section \<open>The agent's path\<close>

definition agent_match :: "string \<Rightarrow> string \<Rightarrow> int \<Rightarrow> attempt_row \<Rightarrow> lease_error option" where
  "agent_match srv env fence a =
     (if att_server a \<noteq> srv \<or> att_environment a \<noteq> env \<or> att_fence a \<noteq> fence
      then Some ErrServerAuthorizationDenied else None)"

definition agent_resolution ::
  "string \<Rightarrow> string \<Rightarrow> int \<Rightarrow> int \<Rightarrow> int \<Rightarrow> int option \<Rightarrow> string \<Rightarrow> digest \<Rightarrow> int \<Rightarrow> declaredResolution" where
  "agent_resolution srv env job attempt fence slotCurrent outcome outcomeDigest now =
     \<lparr>dr_environment = env, dr_job = job, dr_attempt = attempt, dr_slot_current = slotCurrent,
      dr_outcome = outcome, dr_authorize = agent_match srv env fence, dr_outcome_digest = Some outcomeDigest,
      dr_plain_refusal = (\<lambda>a. if att_state a = AttemptLeased \<or> att_closed a = None
                              then Some ErrServerAuthorizationDenied else None),
      dr_clear_plain =
        seq (update_slot env (\<lambda>_. True) (\<lambda>r. r\<lparr>slot_reconciling := False, slot_pending := None,
               slot_updated := now\<rparr>))
            (appendAgentJobEvent job (Some attempt) EvReconciled),
      dr_audit = ret ()\<rparr>"

definition reconcile_activation_tx ::
  "string \<Rightarrow> digest \<Rightarrow> string \<Rightarrow> int \<Rightarrow> int \<Rightarrow> string \<Rightarrow> digest \<Rightarrow> int \<Rightarrow> unit dbtx" where
  "reconcile_activation_tx srv presented env attempt fence outcome outcomeDigest now =
     seq (lockActiveServerCredential srv presented) (
     and_then (query_row ErrServerAuthorizationDenied (get_slot env)) (\<lambda>slot.
     if slot_pending slot \<noteq> Some attempt then
       and_then (query_row ErrServerAuthorizationDenied (get_attempt attempt)) (\<lambda>a.
       seq (refuse_if (agent_match srv env fence a)) (
       seq (ensure (\<not> (att_state a = AttemptLeased \<or> att_closed a = None)) ErrServerAuthorizationDenied) (
       and_then (query (\<lambda>s. declared_events (att_job a) attempt s \<noteq> [])) (\<lambda>already.
       seq (ensure already ErrServerAuthorizationDenied)
           (agreeResolvedOutcome attempt outcome (Some outcomeDigest))))))
     else
       and_then (query_row ErrNoRows (get_attempt attempt)) (\<lambda>a.
       seq (refuse_if (agent_match srv env fence a))
           (resolveDeclared (agent_resolution srv env (att_job a) attempt fence (slot_current slot)
              outcome outcomeDigest now) now))))"

definition ReconcileActivation ::
  "string \<Rightarrow> digest \<Rightarrow> string \<Rightarrow> int \<Rightarrow> int \<Rightarrow> string \<Rightarrow> digest \<Rightarrow> int \<Rightarrow> db \<Rightarrow> (lease_error + unit) \<times> db" where
  "ReconcileActivation srv presented env attempt fence outcome outcomeDigest now s =
     (if \<not> ValidOpaqueID srv \<or> \<not> ValidOpaqueID env \<or> attempt \<le> 0 \<or> fence \<le> 0 \<or> \<not> validActivationOutcome outcome
      then (Inl ErrAgentLeaseInvalidInput, s)
      else run_tx (and_then (reconcile_activation_tx srv presented env attempt fence outcome outcomeDigest now)
             (\<lambda>u. ret (Inr u))) s)"

end
