(* ===== verification/Lease_Steps.thy ===== *)
theory Lease_Steps
  imports Activation_Resolution
begin

text \<open>
  The lease subsystem as a transition system, and the interface through which a claim about every
  operation is reduced to the statements of \<^verbatim>\<open>Lease_Rules\<close>: a relation between states that is
  reflexive, transitive and kept by each statement is kept by each operation and each step.
\<close>

section \<open>Steps\<close>

text \<open>
  One committed (or rolled back) transaction of the repository.  The operations that consist of
  several transactions appear by their transactions, so that other steps may come in between:
  \<^verbatim>\<open>Claim\<close> (slot creation, then the claim), \<^verbatim>\<open>ExpireBatch\<close> (one per candidate), and the fallback
  that records an activation block after a rollback.  All arguments are arbitrary, the clock
  reading included.
\<close>

inductive lease_step :: "db \<Rightarrow> db \<Rightarrow> bool" where
  ensure_slots_step: "lease_step s (ensure_slots now envs s)"
| claim_step: "lease_step s (snd (run_tx (claim_tx sha256 slot_locked job_locked srv d now limit candidates) s))"
| renew_step: "lease_step s (snd (Renew srv d attempt fence sequence now s))"
| complete_step: "lease_step s (snd (Complete draw srv d attempt fence outcome cls operation result now s))"
| request_cancellation_step: "lease_step s (snd (RequestCancellation p job now s))"
| acknowledge_step: "lease_step s (snd (AcknowledgeCancellation srv d attempt fence operation result now s))"
| expire_step: "lease_step s (snd (expireOne slot_locked job_locked attempt_locked draw now attempt s))"
| revoke_step: "lease_step s (snd (run_tx (and_then (revokeInFlightLeases draws srv now) (\<lambda>u. ret (Inr u))) s))"
| reconcile_step: "lease_step s (snd (Reconcile srv d env attempt fence now s))"
| mark_reconciled_step: "lease_step s (snd (MarkReconciled p env reason now s))"
| materialize_step: "lease_step s (snd (AuthorizeMaterialization srv d attempt fence now s))"
| checkout_step: "lease_step s (snd (AuthorizeCheckout srv d attempt fence now s))"
| progress_step: "lease_step s (snd (ReportProgress srv d attempt fence phase now s))"
| activate_step: "lease_step s (snd (Activate sha srv d attempt fence img now s))"
| report_step: "lease_step s (snd (ReportActivationResult sha256 describe srv d attempt fence operation ok obs why now s))"
| fresh_block_step: "lease_step s (snd (recordBlockInFreshTransaction sha256 srv attempt fence op_key evidence rep now s))"
| resolve_step: "lease_step s (snd (ResolveActivation p env outcome_name reason now s))"
| reconcile_activation_step:
    "lease_step s (snd (ReconcileActivation srv d env attempt fence outcome_name outcome_digest now s))"

text \<open>
  The steps that confirm a switch: the agent reports the very route digest that was authorized,
  or an operator or the agent declares that the switch took place.
\<close>

inductive confirming_step :: "db \<Rightarrow> db \<Rightarrow> bool" where
  confirmed_report:
    "activation_of attempt fence s = Some p \<Longrightarrow> op_route_digest p = Some obs \<Longrightarrow>
     confirming_step s (snd (ReportActivationResult sha256 describe srv d attempt fence operation True obs why now s))"
| declared_by_operator:
    "confirming_step s (snd (ResolveActivation admin env ActivationOutcomeActivated reason now s))"
| declared_by_agent:
    "confirming_step s (snd (ReconcileActivation srv d env attempt fence ActivationOutcomeActivated outcome_digest now s))"

text \<open>The claim of a batch is the only step that adds attempts and freezes configuration for them.\<close>

inductive claiming_step :: "db \<Rightarrow> db \<Rightarrow> bool" where
  claimed: "claiming_step s (snd (run_tx (claim_tx sha256 slot_locked job_locked srv d now limit candidates) s))"

section \<open>Reporting in several transactions\<close>

text \<open>
  What the report of an activation keeps, given what its transactions keep; the finalizing
  transaction is needed only for a leased attempt, its job and its environment.
\<close>

locale reports_kept = committed_relation R for R :: "db \<Rightarrow> db \<Rightarrow> bool" +
  assumes block_given: "keeps (blockActivationForReconciliation now job k op env summary)"
    and fresh_block_tx_given: "keeps (fresh_block_tx sha srv k fence op ev rep now)"
    and answer_closed_given: "keeps (answer_closed sha slot a p rep fence)"
begin

lemma recordBlock_kept:
  "R s (snd (recordBlockInFreshTransaction sha srv k fence op ev rep now s))"
  using keepsD [OF fresh_block_tx_given]
  by (auto simp: recordBlockInFreshTransaction_def refl split: sum.splits prod.splits)

lemma recordBlock_keptD:
  "recordBlockInFreshTransaction sha srv k fence op ev rep now s = (r, t) \<Longrightarrow> R s t"
  using recordBlock_kept [of s] by (metis snd_conv)

lemma blockAfterAborted_kept:
  "R s (snd (blockAfterAbortedTransaction sha describe srv k fence op pre cause rep now s))"
  by (auto simp: blockAfterAbortedTransaction_def dest: recordBlock_keptD split: sum.splits prod.splits option.splits)

lemma blockAfterFinalizeFailure_kept:
  "R s (snd (blockAfterFinalizeFailure sha describe srv job k fence op env cause rep now s))"
  by (auto simp: blockAfterFinalizeFailure_def refl blockAfterAborted_kept dest: keepsD [OF block_given]
      split: sum.splits prod.splits)

lemma refuse_ambiguous_kept:
  "R s (snd (refuse_ambiguous sha srv job k fence op env ev refusal rep now s))"
  by (auto simp: refuse_ambiguous_def Let_def refl dest: keepsD [OF block_given] recordBlock_keptD
      split: sum.splits prod.splits option.splits)

lemma report_failure_kept: "R s (snd (report_failure sha srv job k fence op env rep now s))"
  by (auto simp: report_failure_def refl dest: keepsD [OF block_given] recordBlock_keptD
      split: sum.splits prod.splits activationBlockOutcome.splits)

lemma report_success_kept:
  assumes "\<And>i u t. fi_attempt i = att_id a \<Longrightarrow> fi_environment i = att_environment a \<Longrightarrow> fi_job i = att_job a \<Longrightarrow>
      finalizeActivationSucceeded i s = Inr (u, t) \<Longrightarrow> R s t"
  shows "R s (snd (report_success sha describe srv job a p rep now s))"
  by (auto simp: report_success_def Let_def refl refuse_ambiguous_kept blockAfterFinalizeFailure_kept
      blockAfterAborted_kept intro: assms [rotated 3] split: sum.splits prod.splits option.splits)

lemma report_kept:
  assumes fin: "\<And>a i u t. get_attempt k s = Some a \<Longrightarrow> att_state a = AttemptLeased \<Longrightarrow> fi_attempt i = k \<Longrightarrow>
      fi_environment i = att_environment a \<Longrightarrow> fi_job i = att_job a \<Longrightarrow>
      finalizeActivationSucceeded i s = Inr (u, t) \<Longrightarrow> R s t"
  shows "R s (snd (ReportActivationResult sha describe srv d k fence opid ok obs why now s))"
proof -
  have answer: "R s t" if "run_tx (answer_closed sha slot a p rep fence) s = (r, t)" for slot a p rep r t
    using run_tx_kept [OF answer_closed_given, of s sha slot a p rep fence] that by simp
  have success: "R s (snd (report_success sha describe srv job a p rep now s))"
    if "locate_activation srv d k fence parsed s = Inr ((slot, job, a, p), t)" "leasedOccupant a slot fence"
    for parsed slot job a p rep t
  proof (rule report_success_kept)
    from that have a: "get_attempt k s = Some a" "att_state a = AttemptLeased"
      by (auto simp: locate_activation_def leasedOccupant_def tx_simps)
    with attempt_tbl.get_key [OF a(1)] show "fi_attempt i = att_id a \<Longrightarrow> fi_environment i = att_environment a \<Longrightarrow>
        fi_job i = att_job a \<Longrightarrow> finalizeActivationSucceeded i s = Inr (u, t) \<Longrightarrow> R s t" for i u t
      using fin by simp
  qed
  have "R s (snd (reportActivationResult sha describe srv d k fence opid ok obs why now s))"
    unfolding reportActivationResult_def
    by (auto simp: Let_def refl answer split: sum.splits prod.splits option.splits)
       (metis report_failure_kept success snd_conv)+
  then show ?thesis
    by (auto simp: ReportActivationResult_def split: sum.splits prod.splits)
qed

end

section \<open>What every statement keeps, every operation keeps\<close>

text \<open>
  First for the statements of everything but a claim and a finalized activation: the only update of
  a route head among them flips its reconciliation flag.
\<close>

locale work_statements_kept = kept_relation R for R :: "db \<Rightarrow> db \<Rightarrow> bool" +
  assumes update_job_kept: "keeps (update_job k pj fj)"
    and update_slot_kept: "keeps (update_slot e ps fs)"
    and update_attempt_kept: "keeps (update_attempt k pa fa)"
    and update_operation_kept: "keeps (update_operation k po fo)"
    and update_release_kept: "keeps (update_release e pr fr)"
    and flag_head_kept: "keeps (update_head e ph (\<lambda>r. r\<lparr>rh_reconciling := b, rh_updated := max (rh_updated r) now\<rparr>))"
    and insert_slot_kept: "keeps (insert_slot now e)"
    and insert_operation_kept: "keeps (insert_operation mko)"
    and insert_release_kept: "keeps (insert_release rel)"
    and insert_route_event_kept: "keeps (insert_route_event ev)"
    and append_job_event_kept: "keeps (appendAgentJobEvent k att kind)"
    and audit_kept: "keeps (insertServerAuditEvent aud)"
    and saveTx_kept: "keeps (saveTx dep)"
begin

lemma reads_kept:
  "keeps (lockActiveServerCredential srv d)" "keeps (lockAdministratorSession now p)"
  "keeps (lock_lease srv k)" "keeps (plan_freeze env j)" "keeps (readSnapshot dep)"
  by (rule keepsI; auto simp: plan_freeze_def readSnapshot_def Let_def tx_simps refl split: if_splits option.splits)+

lemma transitionDeployment_kept: "keeps (transitionDeployment k tgt at)"
  unfolding transitionDeployment_def by (intro keeps_intros reads_kept saveTx_kept)

lemmas statements =
  update_job_kept update_attempt_kept update_slot_kept update_operation_kept update_release_kept
  flag_head_kept insert_slot_kept insert_operation_kept insert_release_kept
  insert_route_event_kept append_job_event_kept audit_kept reads_kept transitionDeployment_kept

lemma ensureRelease_kept: "keeps (ensureRelease now dep env commit strategy d)"
  unfolding ensureRelease_def by (intro keeps_intros statements)

lemma advance_fence_kept: "keeps (advance_fence now env)"
  unfolding advance_fence_def by (intro keeps_intros statements)

lemma lease_job_kept: "keeps (lease_job now job st)"
  by (rule keepsI)
    (auto simp: lease_job_def refl dest: keepsD [OF update_job_kept]
      split: sum.splits option.splits if_splits)

lemma close_job_kept: "keeps (close_job draw now job n st)"
  unfolding close_job_def by (intro keeps_intros statements)

lemma block_kept: "keeps (blockActivationForReconciliation now job att op env summary)"
  unfolding blockActivationForReconciliation_def by (intro keeps_intros statements)

lemma divert_kept: "keeps (divertUnresolvedActivation now job att env)"
  unfolding divertUnresolvedActivation_def by (intro keeps_intros block_kept)

lemma closeAttemptOrdinary_kept:
  "keeps (closeAttemptOrdinary draw now job att env n dep cancel)"
  unfolding closeAttemptOrdinary_def by (intro keeps_intros statements close_job_kept)

lemma closeExpired_kept: "keeps (closeExpiredOrRevokedAttempt draw now job att env n dep cancel)"
  unfolding closeExpiredOrRevokedAttempt_def
  by (intro keeps_intros divert_kept closeAttemptOrdinary_kept)

lemma complete_tx_kept: "keeps (complete_tx draw srv d att fence outc cls opid res now)"
  unfolding complete_tx_def replay_completion_def free_slot_def
  by (intro keeps_intros statements close_job_kept)

lemma request_cancellation_tx_kept: "keeps (request_cancellation_tx p job now)"
  unfolding request_cancellation_tx_def
  by (intro keeps_intros statements)
    (auto intro!: keeps_intros statements split: job_state.splits)

lemma acknowledge_tx_kept: "keeps (acknowledge_tx srv d att fence opid res now)"
  unfolding acknowledge_tx_def replay_cancellation_def free_slot_def
  by (intro keeps_intros statements)

lemma expire_one_tx_kept: "keeps (expire_one_tx sl jl al draw now att)"
  unfolding expire_one_tx_def by (intro keeps_intros closeExpired_kept)

lemma revokeInFlightLeases_kept: "keeps (revokeInFlightLeases draw srv now)"
  unfolding revokeInFlightLeases_def revoke_one_def
  by (intro keeps_intros closeExpired_kept)

lemma reconcile_tx_kept: "keeps (reconcile_tx srv d env att fence now)"
  unfolding reconcile_tx_def by (intro keeps_intros statements)

lemma clearPlain_kept: "keeps (clearPlainReconciliation p env job att reason now)"
  unfolding clearPlainReconciliation_def by (intro keeps_intros statements)

lemma mark_reconciled_tx_kept: "keeps (mark_reconciled_tx p env reason now)"
  unfolding mark_reconciled_tx_def by (intro keeps_intros statements clearPlain_kept)

lemma authorize_attempt_kept: "keeps (authorize_attempt srv d att fence now)"
  unfolding authorize_attempt_def by (intro keeps_intros statements)

lemma report_progress_tx_kept: "keeps (report_progress_tx srv d att fence phase now)"
  unfolding report_progress_tx_def
  by (intro keeps_intros statements authorize_attempt_kept)

lemma renew_tx_kept: "keeps (renew_tx srv d att fence sq now)"
  unfolding renew_tx_def by (intro keeps_intros statements)

lemma insert_activation_kept: "keeps (insert_activation mk)"
  by (rule keepsI)
    (auto simp: insert_activation_def split: sum.splits dest: keepsD [OF insert_operation_kept])

lemma ready_candidate_kept: "keeps (ready_candidate now img r)"
  unfolding ready_candidate_def
  by (auto intro!: keeps_intros statements split: release_state.splits)

lemma activate_tx_kept: "keeps (activate_tx sha srv d att fence img now)"
  unfolding activate_tx_def replay_activation_def authorize_switch_def
  by (intro keeps_intros statements insert_activation_kept ready_candidate_kept)

lemma writeLateEvidence_kept: "keeps (writeLateEvidence sha job att op existing rep)"
  unfolding writeLateEvidence_def by (intro keeps_intros statements)

lemma answer_closed_kept: "keeps (answer_closed sha slot a p rep fence)"
  unfolding answer_closed_def recordLateReport_def traceDeclaredContradiction_def
  by (auto intro!: keeps_intros statements writeLateEvidence_kept
      split: operation_state.splits)

lemma fresh_block_tx_kept: "keeps (fresh_block_tx sha srv att fence op ev rep now)"
  unfolding fresh_block_tx_def
  by (intro keeps_intros statements writeLateEvidence_kept block_kept)

lemma resolveNotActivated_kept: "keeps (resolveNotActivated job att op env dep fl sm now)"
  unfolding resolveNotActivated_def by (intro keeps_intros statements)

lemma refuse_if_kept: "keeps (refuse_if e)"
  unfolding refuse_if_def by (intro keeps_intros)

lemma resolveDeclared_quiet:
  assumes "keeps (dr_clear_plain d)" and "keeps (dr_audit d)"
    and "\<And>i. dr_outcome d = ActivationOutcomeActivated \<Longrightarrow> keeps (finalizeActivationSucceeded i)"
  shows "keeps (resolveDeclared d now)"
  unfolding resolveDeclared_def resolve_operation_def
  by (intro keeps_intros statements refuse_if_kept resolveNotActivated_kept assms)

lemma agreeResolvedOutcome_kept: "keeps (agreeResolvedOutcome att outc d)"
  unfolding agreeResolvedOutcome_def by (intro keeps_intros)

lemma resolve_activation_tx_quiet:
  assumes "\<And>i. outc = ActivationOutcomeActivated \<Longrightarrow> keeps (finalizeActivationSucceeded i)"
  shows "keeps (resolve_activation_tx p env outc reason now)"
  unfolding resolve_activation_tx_def confirmResolvedOutcome_def operator_resolution_def
  by (intro keeps_intros statements agreeResolvedOutcome_kept resolveDeclared_quiet)
    (simp_all add: clearPlain_kept statements assms)

lemma reconcile_activation_tx_quiet:
  assumes "\<And>i. outc = ActivationOutcomeActivated \<Longrightarrow> keeps (finalizeActivationSucceeded i)"
  shows "keeps (reconcile_activation_tx srv d env att fence outc dg now)"
  unfolding reconcile_activation_tx_def agent_resolution_def
  by (intro keeps_intros statements agreeResolvedOutcome_kept refuse_if_kept resolveDeclared_quiet)
    (simp_all add: keeps_intros statements assms)

end

sublocale work_statements_kept \<subseteq> reports_kept R
  by unfold_locales (rule block_kept fresh_block_tx_kept answer_closed_kept)+

context work_statements_kept
begin

text \<open>Transactions, committed or not.\<close>

lemma answered_kept: "keeps m \<Longrightarrow> keeps (and_then m (\<lambda>u. ret (Inr u)))"
  by (intro keeps_intros)

lemma ensure_slots_kept: "R s (ensure_slots now envs s)"
proof -
  have "keeps (for_each (insert_slot now) envs)" by (intro keeps_intros statements)
  then show ?thesis by (auto simp: ensure_slots_def refl dest: keepsD split: sum.splits prod.splits)
qed

lemma authorization_kept:
  "keeps (authorize_materialization_tx srv d k fence now)"
  unfolding authorize_materialization_tx_def by (intro keeps_intros authorize_attempt_kept)

text \<open>A report that does not confirm the authorized switch keeps the relation.\<close>

lemma unconfirmed_report_kept:
  assumes "\<not> (ok \<and> (\<exists>p. activation_of k fence s = Some p \<and> op_route_digest p = Some obs))"
  shows "R s (snd (ReportActivationResult sha describe srv d k fence opid ok obs why now s))"
proof -
  have answer: "R s t" if "run_tx (answer_closed sha slot a p rep fence) s = (r, t)" for slot a p rep r t
    using run_tx_kept [OF answer_closed_kept, of s sha slot a p rep fence] that by simp
  have success: "R s (snd (report_success sha describe srv job a p rep now s))"
    if "\<not> rp_digest_matches rep" for job a p rep
    using that by (simp add: report_success_def refuse_ambiguous_kept)
  have located: "activation_of k fence s = Some p"
    if "locate_activation srv d k fence parsed s = Inr ((slot, job, a, p), t)" for parsed slot job a p t
    using that by (auto simp: locate_activation_def tx_simps)
  have "R s (snd (reportActivationResult sha describe srv d k fence opid ok obs why now s))"
    using assms unfolding reportActivationResult_def
    by (auto simp: Let_def refl answer dest!: located split: sum.splits prod.splits option.splits)
       (metis activationReport.select_convs(2) report_failure_kept success snd_conv)+
  then show ?thesis
    by (auto simp: ReportActivationResult_def split: sum.splits prod.splits)
qed

text \<open>A step that neither claims nor confirms a switch.\<close>

lemma work_step:
  assumes "lease_step s t" and "\<not> confirming_step s t" and "\<not> claiming_step s t"
  shows "R s t"
  using assms(1)
proof cases
  case (report_step sha describe srv d k fence operation ok obs why now)
  show ?thesis
    unfolding report_step(1)
  proof (rule unconfirmed_report_kept, rule notI, elim conjE exE)
    fix p assume "ok" "activation_of k fence s = Some p" "op_route_digest p = Some obs"
    with confirmed_report [of k fence s p obs sha describe srv d operation why now] report_step assms(2) show False by simp
  qed
next
  case (claim_step sha sl jl srv d now limit cs)
  with assms(3) claimed show ?thesis by blast
next
  case (resolve_step p env outc reason now)
  then have "outc \<noteq> ActivationOutcomeActivated" using assms(2) declared_by_operator declared_by_agent by blast
  with resolve_step show ?thesis
    by (auto simp: ResolveActivation_def Let_def refl intro!: run_tx_kept keeps_intros resolve_activation_tx_quiet)
next
  case (reconcile_activation_step srv d env k fence outc dg now)
  then have "outc \<noteq> ActivationOutcomeActivated" using assms(2) declared_by_operator declared_by_agent by blast
  with reconcile_activation_step show ?thesis
    by (auto simp: ReconcileActivation_def refl intro!: run_tx_kept keeps_intros reconcile_activation_tx_quiet)
qed (auto simp: Renew_def Complete_def RequestCancellation_def AcknowledgeCancellation_def expireOne_def
    Reconcile_def MarkReconciled_def AuthorizeMaterialization_def AuthorizeCheckout_def ReportProgress_def
    Activate_def Let_def refl ensure_slots_kept recordBlock_kept
    intro!: run_tx_kept answered_kept keeps_intros renew_tx_kept complete_tx_kept
    request_cancellation_tx_kept acknowledge_tx_kept expire_one_tx_kept revokeInFlightLeases_kept
    reconcile_tx_kept mark_reconciled_tx_kept authorization_kept authorize_attempt_kept report_progress_tx_kept
    activate_tx_kept)

text \<open>A step that confirms a switch, given what every update of a route head keeps.\<close>

lemma finalize_given: "(\<And>e p f. keeps (update_head e p f)) \<Longrightarrow> keeps (finalizeActivationSucceeded i)"
  unfolding finalizeActivationSucceeded_def switch_route_def complete_activated_def retain_predecessor_def
  by (intro keeps_intros statements)

lemma confirming_kept:
  assumes "confirming_step s t" and fin: "\<And>i. keeps (finalizeActivationSucceeded i)"
  shows "R s t"
  using assms(1)
proof cases
  case (confirmed_report k fence p obs sha describe srv d operation why now)
  then show ?thesis using report_kept [OF keepsD [OF fin]] by simp
qed (auto simp: ResolveActivation_def ReconcileActivation_def Let_def refl
    intro!: run_tx_kept keeps_intros resolve_activation_tx_quiet reconcile_activation_tx_quiet fin)

end

text \<open>With the statements that freeze the configuration of an attempt, claims are kept.\<close>

locale quiet_statements_kept = work_statements_kept R for R :: "db \<Rightarrow> db \<Rightarrow> bool" +
  assumes insert_attempt_kept: "keeps (insert_attempt mka)"
    and execution_kept: "keeps (insertAttemptExecution k cfg)"
    and frozen_secret_kept: "keeps (insert_frozen_secret k fb)"
    and frozen_literal_kept: "keeps (insert_frozen_literal k fl)"
begin

lemmas claim_statements = statements insert_attempt_kept execution_kept frozen_secret_kept frozen_literal_kept

lemma freeze_kept:
  "keeps (insertFrozenSecretVersions k bs)" "keeps (insertFrozenLiteralValues k ls)"
  "keeps (copyPreviousFrozenLiteralValues n k)" "keeps (copyPreviousAttemptExecution n k)"
  "keeps (copyPreviousFrozenSecretVersions n k)"
  unfolding insertFrozenSecretVersions_def insertFrozenLiteralValues_def copyPreviousFrozenLiteralValues_def
    copyPreviousAttemptExecution_def copyPreviousFrozenSecretVersions_def
  by (intro keeps_intros claim_statements)+

lemma freeze_attempt_kept: "keeps (freeze_attempt k cfg plan)"
  unfolding freeze_attempt_def
  by (cases plan) (auto intro!: keeps_intros claim_statements freeze_kept)

lemma record_claim_kept:
  "keeps (record_claim sha srv j env now exp cfg plan fence num)"
  unfolding record_claim_def
  by (intro keeps_intros claim_statements freeze_attempt_kept ensureRelease_kept)

lemma tryClaim_kept: "keeps (tryClaim sha sl jl srv job env now exp)"
  unfolding tryClaim_def
  by (intro keeps_intros claim_statements advance_fence_kept lease_job_kept)
    (auto intro!: keeps_intros record_claim_kept split: lease_job_result.splits)

lemma claim_loop_kept: "keeps (claim_loop sha sl jl srv now limit cs claimed)"
proof (induction cs arbitrary: claimed)
  case (Cons c cs)
  then show ?case
    by (cases c) (auto intro!: keeps_intros tryClaim_kept split: claim_step.splits)
qed (simp add: keeps_reads)

lemma claim_tx_kept: "keeps (claim_tx sha sl jl srv d now limit cs)"
  unfolding claim_tx_def by (intro keeps_intros claim_statements claim_loop_kept)

lemma claiming_kept: "claiming_step s t \<Longrightarrow> R s t"
  by (induction rule: claiming_step.induct) (rule run_tx_kept [OF claim_tx_kept])

lemma step_quiet: "lease_step s t \<Longrightarrow> \<not> confirming_step s t \<Longrightarrow> R s t"
  using work_step claiming_kept by blast

end

text \<open>With every update of a route head kept, a finalized activation is kept too.\<close>

locale statements_kept = quiet_statements_kept R for R :: "db \<Rightarrow> db \<Rightarrow> bool" +
  assumes update_head_kept: "keeps (update_head e ph fh)"
begin

lemma finalize_kept: "keeps (finalizeActivationSucceeded i)"
  by (rule finalize_given) (rule update_head_kept)

lemma step_kept: "lease_step s t \<Longrightarrow> R s t"
  using step_quiet confirming_kept [OF _ finalize_kept] by blast

end

end
