(* ===== verification/Lease_History.thy ===== *)
theory Lease_History
  imports Lease_Steps "HOL-Library.Sublist"
begin

text \<open>
  What no operation ever undoes.  \<open>evolves s t\<close> relates a state to a later one: jobs, attempts,
  operations, releases and deployments keep their identity and, once closed, their content;
  fences, revisions and counters do not go back; the logs only grow.  It is reflexive and
  transitive, so it is enough that every statement of \<^verbatim>\<open>Lease_Rules\<close> and of the helpers keeps it:
  the operations inherit it through the interface \<open>kept_relation\<close>.
\<close>

section \<open>One row and its later version\<close>

definition job_follows :: "job_row \<Rightarrow> job_row \<Rightarrow> bool" where
  "job_follows j k \<longleftrightarrow> same_job_identity j k \<and> (job_terminal (job_state j) \<longrightarrow> k = j) \<and>
     job_attempt_count j \<le> job_attempt_count k \<and> job_available j \<le> job_available k \<and>
     job_updated j \<le> job_updated k \<and>
     (job_cancel_requested j \<noteq> None \<longrightarrow> job_cancel_requested k = job_cancel_requested j)"

definition attempt_follows :: "attempt_row \<Rightarrow> attempt_row \<Rightarrow> bool" where
  "attempt_follows a b \<longleftrightarrow> same_attempt_identity a b \<and> (att_state a \<noteq> AttemptLeased \<longrightarrow> b = a) \<and>
     att_renewal a \<le> att_renewal b \<and>
     (att_cancel_deadline a \<noteq> None \<longrightarrow> att_cancel_deadline b = att_cancel_deadline a)"

definition slot_follows :: "slot_row \<Rightarrow> slot_row \<Rightarrow> bool" where
  "slot_follows r q \<longleftrightarrow> slot_environment q = slot_environment r \<and> slot_fence r \<le> slot_fence q \<and>
     slot_updated r \<le> slot_updated q"

definition operation_follows :: "operation_row \<Rightarrow> operation_row \<Rightarrow> bool" where
  "operation_follows p q \<longleftrightarrow> same_operation_identity p q \<and>
     (\<not> unresolvedActivation (op_state p) \<longrightarrow> q = p) \<and>
     (op_kind p = OpActivate \<and> op_state p = OpReconciliationRequired \<longrightarrow>
        op_closed q = op_closed p \<and> op_state q \<in> {OpSucceeded, OpFailed, OpReconciliationRequired})"

definition release_follows :: "release_row \<Rightarrow> release_row \<Rightarrow> bool" where
  "release_follows r q \<longleftrightarrow> same_release_identity r q \<and>
     (rel_image r \<noteq> None \<longrightarrow> rel_image q = rel_image r) \<and>
     (rel_state r = RelFailed \<or> rel_state r = RelRemoved \<longrightarrow> q = r) \<and> rel_updated r \<le> rel_updated q"

definition head_follows :: "route_head_row \<Rightarrow> route_head_row \<Rightarrow> bool" where
  "head_follows h k \<longleftrightarrow> rh_environment k = rh_environment h \<and> rh_revision h \<le> rh_revision k \<and>
     rh_updated h \<le> rh_updated k \<and> (rh_revision k = rh_revision h \<longrightarrow> rh_active k = rh_active h)"

definition deployment_follows :: "snapshot \<Rightarrow> snapshot \<Rightarrow> bool" where
  "deployment_follows d e \<longleftrightarrow> snap_identity e = snap_identity d \<and> snap_created e = snap_created d \<and>
     prefix (snap_events d) (snap_events e)"

text \<open>The lease tables and the logs.\<close>

definition grows :: "db \<Rightarrow> db \<Rightarrow> bool" where
  "grows s t \<longleftrightarrow>
     rows_follow get_job job_follows s t \<and> rows_follow get_attempt attempt_follows s t \<and>
     rows_follow get_slot slot_follows s t \<and> rows_follow get_operation operation_follows s t \<and>
     rows_follow get_release release_follows s t \<and> rows_follow get_head head_follows s t \<and>
     rows_follow get_deployment deployment_follows s t \<and>
     next_attempt s \<le> next_attempt t \<and> next_operation s \<le> next_operation t \<and>
     prefix (job_events s) (job_events t) \<and> prefix (route_events s) (route_events t) \<and>
     prefix (audits s) (audits t) \<and> prefix (executions s) (executions t) \<and>
     prefix (frozen_secrets s) (frozen_secrets t) \<and> prefix (frozen_literals s) (frozen_literals t)"

text \<open>What the lease operations read and other components write.\<close>

definition same_inputs :: "db \<Rightarrow> db \<Rightarrow> bool" where
  "same_inputs s t \<longleftrightarrow>
     servers t = servers s \<and> credentials t = credentials s \<and> enrollment_tokens t = enrollment_tokens s \<and> sessions t = sessions s \<and> users t = users s \<and>
     runtime_configs t = runtime_configs s \<and> bindings t = bindings s \<and>
     secret_heads t = secret_heads s \<and> secret_versions t = secret_versions s"

definition evolves :: "db \<Rightarrow> db \<Rightarrow> bool" where
  "evolves s t \<longleftrightarrow> grows s t \<and> same_inputs s t"

lemmas evolves_defs = evolves_def grows_def same_inputs_def

lemmas follows_defs = job_follows_def attempt_follows_def slot_follows_def operation_follows_def
  release_follows_def head_follows_def deployment_follows_def

lemmas identity_defs = same_job_identity_def same_attempt_identity_def same_operation_identity_def
  same_release_identity_def

lemma follows_refl [simp]:
  "job_follows j j" "attempt_follows a a" "slot_follows r r" "release_follows e e" "head_follows h h"
  "deployment_follows d d" "operation_follows p p"
  by (simp_all add: follows_defs identity_defs)

lemma job_follows_trans: "job_follows i j \<Longrightarrow> job_follows j k \<Longrightarrow> job_follows i k"
  by (auto simp: job_follows_def same_job_identity_def)

lemma attempt_follows_trans: "attempt_follows a b \<Longrightarrow> attempt_follows b c \<Longrightarrow> attempt_follows a c"
  by (auto simp: attempt_follows_def same_attempt_identity_def)

lemma slot_follows_trans: "slot_follows a b \<Longrightarrow> slot_follows b c \<Longrightarrow> slot_follows a c"
  by (auto simp: slot_follows_def)

lemma release_follows_trans: "release_follows a b \<Longrightarrow> release_follows b c \<Longrightarrow> release_follows a c"
  by (auto simp: release_follows_def same_release_identity_def)

lemma head_follows_trans: "head_follows a b \<Longrightarrow> head_follows b c \<Longrightarrow> head_follows a c"
  by (auto simp: head_follows_def)

lemma deployment_follows_trans: "deployment_follows a b \<Longrightarrow> deployment_follows b c \<Longrightarrow> deployment_follows a c"
  by (auto simp: deployment_follows_def intro: prefix_order.trans)


lemma operation_follows_trans: "operation_follows a b \<Longrightarrow> operation_follows b c \<Longrightarrow> operation_follows a c"
  by (auto simp: operation_follows_def same_operation_identity_def unresolvedActivation_def
      activationTerminalStates_def)

lemmas rows_trans =
  rows_follow_trans [OF _ _ job_follows_trans] rows_follow_trans [OF _ _ attempt_follows_trans]
  rows_follow_trans [OF _ _ slot_follows_trans] rows_follow_trans [OF _ _ operation_follows_trans]
  rows_follow_trans [OF _ _ release_follows_trans] rows_follow_trans [OF _ _ head_follows_trans]
  rows_follow_trans [OF _ _ deployment_follows_trans]

interpretation history: kept_relation evolves
proof
  show "evolves s s" for s by (simp add: evolves_defs rows_follow_refl)
  show "evolves s u" if "evolves s t" and "evolves t u" for s t u
    using that unfolding evolves_defs
    by (elim conjE, intro conjI) (erule (1) rows_trans | erule (1) prefix_order.trans | simp)+
qed

section \<open>Statements keep the history\<close>

lemma follow_same:
  "jobs t = jobs s \<Longrightarrow> rows_follow get_job job_follows s t"
  "attempts t = attempts s \<Longrightarrow> rows_follow get_attempt attempt_follows s t"
  "slots t = slots s \<Longrightarrow> rows_follow get_slot slot_follows s t"
  "operations t = operations s \<Longrightarrow> rows_follow get_operation operation_follows s t"
  "releases t = releases s \<Longrightarrow> rows_follow get_release release_follows s t"
  "route_heads t = route_heads s \<Longrightarrow> rows_follow get_head head_follows s t"
  "deployments t = deployments s \<Longrightarrow> rows_follow get_deployment deployment_follows s t"
  by (simp_all add: rows_follow_same get_job_def get_attempt_def get_slot_def get_operation_def
      get_release_def get_head_def get_deployment_def)

lemma evolves_put_job: "get_job (job_id r) s = Some p \<Longrightarrow> job_follows p r \<Longrightarrow> evolves s (put_job r s)"
  using job_tbl.put_follows [of job_follows r s p] by (simp add: evolves_defs put_job_def follow_same)

lemma evolves_put_attempt:
  "get_attempt (att_id r) s = Some p \<Longrightarrow> attempt_follows p r \<Longrightarrow> evolves s (put_attempt r s)"
  using attempt_tbl.put_follows [of attempt_follows r s p] by (simp add: evolves_defs put_attempt_def follow_same)

lemma evolves_put_slot:
  "get_slot (slot_environment r) s = Some p \<Longrightarrow> slot_follows p r \<Longrightarrow> evolves s (put_slot r s)"
  using slot_tbl.put_follows [of slot_follows r s p] by (simp add: evolves_defs put_slot_def follow_same)

lemma evolves_put_operation:
  "get_operation (op_id r) s = Some p \<Longrightarrow> operation_follows p r \<Longrightarrow> evolves s (put_operation r s)"
  using operation_tbl.put_follows [of operation_follows r s p]
  by (simp add: evolves_defs put_operation_def follow_same)

lemma evolves_put_release:
  "get_release (rel_id r) s = Some p \<Longrightarrow> release_follows p r \<Longrightarrow> evolves s (put_release r s)"
  using release_tbl.put_follows [of release_follows r s p]
  by (simp add: evolves_defs put_release_def follow_same)

lemma evolves_put_head:
  "get_head (rh_environment r) s = Some p \<Longrightarrow> head_follows p r \<Longrightarrow> evolves s (put_head r s)"
  using head_tbl.put_follows [of head_follows r s p] by (simp add: evolves_defs put_head_def follow_same)

lemma evolves_put_deployment:
  "get_deployment (snap_id r) s = Some p \<Longrightarrow> deployment_follows p r \<Longrightarrow> evolves s (put_deployment r s)"
  using deployment_tbl.put_follows [of deployment_follows r s p]
  by (simp add: evolves_defs put_deployment_def follow_same)

text \<open>A row that the table's rules accept follows the row it replaces.\<close>

lemma accepted_job:
  assumes "validate_agent_job_update s p r = None"
  shows "job_follows p r" and "job_id r = job_id p"
  using assms unfolding validate_agent_job_update_def not_refused
  by (auto simp: job_follows_def same_job_identity_def)

lemma accepted_attempt:
  assumes "validate_agent_job_attempt_update s p r = None"
  shows "attempt_follows p r" and "att_id r = att_id p" and "attempt_checks r"
  using assms unfolding validate_agent_job_attempt_update_def not_refused
  by (auto simp: attempt_follows_def same_attempt_identity_def)

lemma accepted_slot:
  assumes "validate_environment_slot_update s p r = None"
  shows "slot_follows p r" and "slot_environment r = slot_environment p"
    and "slot_reconciling r \<longleftrightarrow> slot_pending r \<noteq> None"
  using assms unfolding validate_environment_slot_update_def not_refused
  by (auto simp: slot_follows_def)

lemma accepted_operation:
  assumes "validate_release_operation_update s p r = None"
  shows "operation_follows p r" and "op_id r = op_id p" and "operation_checks r"
    and "\<not> open_activation_conflict s r"
proof -
  note chk = assms [unfolded validate_release_operation_update_def not_refused]
  from chk have ident: "same_operation_identity p r" by blast
  from chk have "unresolvedActivation (op_state p)"
    by (cases "op_kind p = OpActivate"; cases "op_state p")
      (auto simp: unresolvedActivation_def activationTerminalStates_def)
  moreover from chk have "op_kind p = OpActivate \<and> op_state p = OpReconciliationRequired \<Longrightarrow>
      op_closed r = op_closed p \<and> op_state r \<in> {OpSucceeded, OpFailed, OpReconciliationRequired}"
    by blast
  ultimately show "operation_follows p r" using ident unfolding operation_follows_def by blast
  show "op_id r = op_id p" using ident by (simp add: same_operation_identity_def)
  show "operation_checks r" and "\<not> open_activation_conflict s r" using chk by blast+
qed

lemma accepted_release:
  assumes "validate_release_update s p r = None"
  shows "release_follows p r" and "rel_id r = rel_id p"
  using assms unfolding validate_release_update_def not_refused
  by (auto simp: release_follows_def same_release_identity_def)

lemma accepted_head:
  assumes "validate_route_head_update s p r = None"
  shows "head_follows p r" and "rh_environment r = rh_environment p"
  using assms unfolding validate_route_head_update_def not_refused
  by (auto simp: head_follows_def)

lemma update_job_evolves: "history.keeps (update_job k p f)"
  unfolding update_job_def
  by (rule history.keepsI, erule job_tbl.update_cases [OF _ accepted_job(2)])
    (auto simp: history.refl dest: accepted_job(1) intro!: evolves_put_job)

lemma update_attempt_evolves: "history.keeps (update_attempt k p f)"
  unfolding update_attempt_def
  by (rule history.keepsI, erule attempt_tbl.update_cases [OF _ accepted_attempt(2)])
    (auto simp: history.refl dest: accepted_attempt(1) intro!: evolves_put_attempt)

lemma update_slot_evolves: "history.keeps (update_slot k p f)"
  unfolding update_slot_def
  by (rule history.keepsI, erule slot_tbl.update_cases [OF _ accepted_slot(2)])
    (auto simp: history.refl dest: accepted_slot(1) intro!: evolves_put_slot)

lemma update_operation_evolves: "history.keeps (update_operation k p f)"
  unfolding update_operation_def
  by (rule history.keepsI, erule operation_tbl.update_cases [OF _ accepted_operation(2)])
    (auto simp: history.refl dest: accepted_operation(1) intro!: evolves_put_operation)

lemma update_release_evolves: "history.keeps (update_release k p f)"
  unfolding update_release_def
  by (rule history.keepsI, erule release_tbl.update_cases [OF _ accepted_release(2)])
    (auto simp: history.refl dest: accepted_release(1) intro!: evolves_put_release)

lemma update_head_evolves: "history.keeps (update_head k p f)"
  unfolding update_head_def
  by (rule history.keepsI, erule head_tbl.update_cases [OF _ accepted_head(2)])
    (auto simp: history.refl dest: accepted_head(1) intro!: evolves_put_head)


lemma insert_slot_evolves: "history.keeps (insert_slot now env)"
  by (rule history.keepsI)
    (auto simp: insert_slot_def evolves_defs follow_same rows_follow_refl
      intro!: slot_tbl.append_follows split: if_splits)

lemma insert_attempt_evolves: "history.keeps (insert_attempt mk)"
  by (rule history.keepsI)
    (auto simp: insert_attempt_def Let_def evolves_defs follow_same
      intro!: attempt_tbl.append_follows split: option.splits)

lemma insert_operation_evolves: "history.keeps (insert_operation mk)"
  by (rule history.keepsI)
    (auto simp: insert_operation_def Let_def evolves_defs follow_same
      intro!: operation_tbl.append_follows split: option.splits)

lemma insert_release_evolves: "history.keeps (insert_release r)"
  by (rule history.keepsI)
    (auto simp: insert_release_def evolves_defs follow_same
      intro!: release_tbl.append_follows split: if_splits)

lemma append_logs_evolve:
  "history.keeps (insert_route_event e)" "history.keeps (appendAgentJobEvent job att kind)"
  "history.keeps (insertServerAuditEvent a)" "history.keeps (insertAttemptExecution k cfg)"
  "history.keeps (insert_frozen_secret k b)" "history.keeps (insert_frozen_literal k l)"
  by (rule history.keepsI; auto simp: insert_route_event_def appendAgentJobEvent_def
      insertServerAuditEvent_def insertAttemptExecution_def insert_frozen_secret_def
      insert_frozen_literal_def evolves_defs follow_same split: if_splits)+

lemma update_deployment_evolves:
  assumes "\<And>r. deployment_follows r (f r)"
  shows "history.keeps (update_deployment k p f)"
proof (rule history.keepsI)
  fix s n t
  assume u: "update_deployment k p f s = Inr (n, t)"
  have same: "snap_id (f r) = snap_id r" for r
    using assms [of r] by (simp add: deployment_follows_def snap_id_def)
  show "evolves s t"
    using u same deployment_tbl.get_key assms
    by (fastforce simp: update_deployment_def update_row_def history.refl
        intro: evolves_put_deployment split: option.splits if_splits)
qed

lemma insert_deployment_event_evolves: "history.keeps (insert_deployment_event k e)"
proof (rule history.keepsI)
  fix s u t
  assume "insert_deployment_event k e s = Inr (u, t)"
  then obtain d where d: "get_deployment k s = Some d"
    and t: "t = put_deployment (d\<lparr>snap_events := snap_events d @ [e]\<rparr>) s"
    by (auto simp: insert_deployment_event_def split: option.splits)
  with deployment_tbl.get_key [OF d] show "evolves s t"
    by (auto simp: snap_id_def deployment_follows_def intro!: evolves_put_deployment)
qed

lemma appendEvents_evolves: "history.keeps (appendEvents k es)"
  unfolding appendEvents_def by (intro history.keeps_for_each insert_deployment_event_evolves)

lemma saveTx_evolves: "history.keeps (saveTx d)"
  unfolding saveTx_def readSnapshot_def
  by (intro history.keeps_intros update_deployment_evolves appendEvents_evolves)
    (simp add: deployment_follows_def)

text \<open>The interface is provided: every step of the system evolves the state.\<close>

interpretation history: statements_kept evolves
  by unfold_locales (intro update_job_evolves update_slot_evolves update_attempt_evolves
    update_operation_evolves update_release_evolves update_head_evolves insert_slot_evolves
    insert_attempt_evolves insert_operation_evolves insert_release_evolves append_logs_evolve saveTx_evolves)+

end
