(* ===== verification/Lease_Keys.thy ===== *)
theory Lease_Keys
  imports Lease_Steps
begin

text \<open>
  Primary keys stay keys, identity columns hand out fresh numbers and no two attempts of a job have
  one number: \<open>keyed\<close> is what lets a row found by a predicate be found again by its key.
\<close>

definition keyed :: "db \<Rightarrow> bool" where
  "keyed s \<longleftrightarrow>
     distinct (map job_id (jobs s)) \<and> distinct (map slot_environment (slots s)) \<and>
     distinct (map att_id (attempts s)) \<and> (\<forall>a \<in> set (attempts s). att_id a < next_attempt s) \<and>
     distinct (map (\<lambda>a. (att_job a, att_number a)) (attempts s)) \<and>
     distinct (map op_id (operations s)) \<and> (\<forall>p \<in> set (operations s). op_id p < next_operation s) \<and>
     distinct (map rel_id (releases s)) \<and> distinct (map rh_environment (route_heads s)) \<and>
     distinct (map snap_id (deployments s))"

interpretation keys: kept_relation "\<lambda>s t. keyed s \<longrightarrow> keyed t"
  by unfold_locales simp_all

lemma keyed_get:
  "keyed s \<Longrightarrow> a \<in> set (attempts s) \<Longrightarrow> get_attempt (att_id a) s = Some a"
  "keyed s \<Longrightarrow> p \<in> set (operations s) \<Longrightarrow> get_operation (op_id p) s = Some p"
  "keyed s \<Longrightarrow> j \<in> set (jobs s) \<Longrightarrow> get_job (job_id j) s = Some j"
  "keyed s \<Longrightarrow> r \<in> set (slots s) \<Longrightarrow> get_slot (slot_environment r) s = Some r"
  "keyed s \<Longrightarrow> e \<in> set (releases s) \<Longrightarrow> get_release (rel_id e) s = Some e"
  "keyed s \<Longrightarrow> h \<in> set (route_heads s) \<Longrightarrow> get_head (rh_environment h) s = Some h"
  by (simp_all add: keyed_def attempt_tbl.get_of_mem operation_tbl.get_of_mem job_tbl.get_of_mem
      slot_tbl.get_of_mem release_tbl.get_of_mem head_tbl.get_of_mem)

lemma bounded_keys: "map key ys = map key xs \<Longrightarrow> (\<forall>y \<in> set ys. key y < b) = (\<forall>x \<in> set xs. key x < b)"
  by (metis (mono_tags, lifting) image_iff image_set)

lemma keyed_same:
  assumes "keyed s" and "map job_id (jobs t) = map job_id (jobs s)"
    and "map slot_environment (slots t) = map slot_environment (slots s)"
    and "map att_id (attempts t) = map att_id (attempts s)" "next_attempt t = next_attempt s"
    and "map op_id (operations t) = map op_id (operations s)" "next_operation t = next_operation s"
    and "map rel_id (releases t) = map rel_id (releases s)"
    and "map rh_environment (route_heads t) = map rh_environment (route_heads s)"
    and "map snap_id (deployments t) = map snap_id (deployments s)"
    and "map (\<lambda>a. (att_job a, att_number a)) (attempts t) = map (\<lambda>a. (att_job a, att_number a)) (attempts s)"
  shows "keyed t"
  using assms bounded_keys [OF assms(4)] bounded_keys [OF assms(6)] unfolding keyed_def by simp

lemma keyed_put:
  "keyed s \<Longrightarrow> keyed (put_job j s)" "keyed s \<Longrightarrow> keyed (put_slot r s)"
  "keyed s \<Longrightarrow> keyed (put_operation p s)" "keyed s \<Longrightarrow> keyed (put_release e s)" "keyed s \<Longrightarrow> keyed (put_head h s)"
  "keyed s \<Longrightarrow> keyed (put_deployment d s)"
  by (rule keyed_same [of s]; simp add: put_job_def put_slot_def put_operation_def
      put_release_def put_head_def put_deployment_def)+

lemma keyed_put_attempt:
  assumes "keyed s" and "get_attempt k s = Some a" and "same_attempt_identity a b"
  shows "keyed (put_attempt b s)"
proof (rule keyed_same [OF assms(1)])
  have id: "att_id b = att_id a" "att_job b = att_job a" "att_number b = att_number a" "att_id a = k"
    using assms(3) attempt_tbl.get_key [OF assms(2)] by (simp_all add: same_attempt_identity_def)
  have "q = a" if "q \<in> set (attempts s)" "att_id q = att_id b" for q
    using keyed_get(1) [OF assms(1) that(1)] that(2) assms(2) id(1,4) by simp
  then show "map (\<lambda>a. (att_job a, att_number a)) (attempts (put_attempt b s)) = map (\<lambda>a. (att_job a, att_number a)) (attempts s)"
    using id(2,3) unfolding put_attempt_def replace_row_def by auto
qed (simp_all add: put_attempt_def)

lemma update_row_keyed:
  assumes "\<And>r s. keyed s \<Longrightarrow> keyed (put r s)"
  shows "keys.keeps (update_row get put chk k p f)"
  using assms by (intro keys.keepsI) (auto simp: tx_simps split: option.splits if_splits)

lemma updates_keyed:
  "keys.keeps (update_job i a b)" "keys.keeps (update_slot e c d)"
  "keys.keeps (update_operation i h k)" "keys.keeps (update_release e l m)" "keys.keeps (update_head e n q)"
  "keys.keeps (update_deployment e u v)"
  unfolding update_job_def update_slot_def update_operation_def update_release_def
    update_head_def update_deployment_def
  by (rule update_row_keyed; rule keyed_put; assumption)+

lemma update_attempt_keyed: "keys.keeps (update_attempt k p f)"
proof (rule keys.keepsI, rule impI)
  fix s n t assume u: "update_attempt k p f s = Inr (n, t)" and ok: "keyed s"
  then consider "t = s" | r where "get_attempt k s = Some r" "validate_agent_job_attempt_update s r (f r) = None" "t = put_attempt (f r) s"
    by (auto simp: update_attempt_def tx_simps split: option.splits if_splits)
  then show "keyed t"
  proof cases
    case (2 r)
    from 2(2) have "same_attempt_identity r (f r)" unfolding validate_agent_job_attempt_update_def not_refused by blast
    from keyed_put_attempt [OF ok 2(1) this] 2(3) show ?thesis by simp
  qed (use ok in simp)
qed

lemma insert_attempt_numbers:
  assumes "validate_agent_job_attempt_insert s a = None" and "b \<in> set (attempts s)"
  shows "(att_job b, att_number b) \<noteq> (att_job a, att_number a)"
  using assms by (auto simp: validate_agent_job_attempt_insert_def raise_exception_def check_violation_def split: option.splits if_splits)

lemma insert_rows_keyed:
  "keys.keeps (insert_slot now env)" "keys.keeps (insert_attempt mk)" "keys.keeps (insert_operation mk')"
proof -
  show "keys.keeps (insert_slot now env)" "keys.keeps (insert_operation mk')"
    by (rule keys.keepsI; auto simp: insert_slot_def insert_operation_def
      Let_def keyed_def get_slot_def select_row_None split: if_splits option.splits)+
  show "keys.keeps (insert_attempt mk)"
    by (rule keys.keepsI) (fastforce simp: insert_attempt_def Let_def keyed_def dest: insert_attempt_numbers split: option.splits)
qed

lemma insert_release_keyed: "keys.keeps (insert_release r)"
  by (rule keys.keepsI) (fastforce simp: insert_release_def keyed_def split: if_splits)

lemma append_logs_keyed:
  "keys.keeps (insert_route_event e)" "keys.keeps (appendAgentJobEvent job att kind)"
  "keys.keeps (insertServerAuditEvent a)" "keys.keeps (insertAttemptExecution k cfg)"
  "keys.keeps (insert_frozen_secret k b)" "keys.keeps (insert_frozen_literal k l)"
  by (rule keys.keepsI; auto simp: insert_route_event_def appendAgentJobEvent_def
      insertServerAuditEvent_def insertAttemptExecution_def insert_frozen_secret_def
      insert_frozen_literal_def keyed_def split: if_splits)+

lemma insert_deployment_event_keyed: "keys.keeps (insert_deployment_event k e)"
  by (rule keys.keepsI) (auto simp: insert_deployment_event_def intro: keyed_put split: option.splits)

lemma saveTx_keyed: "keys.keeps (saveTx d)"
  unfolding saveTx_def readSnapshot_def appendEvents_def
  by (intro keys.keeps_intros updates_keyed insert_deployment_event_keyed)

interpretation keys: statements_kept "\<lambda>s t. keyed s \<longrightarrow> keyed t"
  by unfold_locales (intro updates_keyed update_attempt_keyed insert_rows_keyed insert_release_keyed append_logs_keyed saveTx_keyed)+

section \<open>Partial unique indexes\<close>

text \<open>
  \<^verbatim>\<open>release_operations_environment_open_activation_idx\<close> and \<^verbatim>\<open>releases_environment_active_idx\<close>: an
  environment has at most one activation whose outcome is not settled and at most one active
  release.
\<close>

definition one_open_activation :: "db \<Rightarrow> bool" where
  "one_open_activation s \<longleftrightarrow> indexed_by unresolved_operation op_environment op_id (operations s)"

definition one_active_release :: "db \<Rightarrow> bool" where
  "one_active_release s \<longleftrightarrow> indexed_by (\<lambda>r. rel_state r = RelActive) rel_environment rel_id (releases s)"

definition indexed :: "db \<Rightarrow> bool" where
  "indexed s \<longleftrightarrow> one_open_activation s \<and> one_active_release s"

interpretation indexes: kept_relation "\<lambda>s t. indexed s \<longrightarrow> indexed t"
  by unfold_locales simp_all

lemma indexed_same: "operations t = operations s \<Longrightarrow> releases t = releases s \<Longrightarrow> indexed s \<Longrightarrow> indexed t"
  by (simp add: indexed_def one_open_activation_def one_active_release_def)

lemma releases_frames [simp]:
  "releases (put_job j s) = releases s" "releases (put_slot r s) = releases s"
  "releases (put_attempt a s) = releases s" "releases (put_operation p s) = releases s"
  "releases (put_head h s) = releases s" "releases (put_deployment d s) = releases s"
  by (simp_all add: put_job_def put_slot_def put_attempt_def put_operation_def put_head_def put_deployment_def)

lemma plain_rows_indexed:
  assumes "\<And>r s. operations (put r s) = operations s" "\<And>r s. releases (put r s) = releases s"
  shows "indexes.keeps (update_row get put chk k p f)"
  using assms
  by (intro indexes.keepsI) (auto simp: tx_simps split: option.splits if_splits intro: indexed_same [rotated 2])

lemma plain_updates_indexed:
  "indexes.keeps (update_job i a b)" "indexes.keeps (update_slot e c d)" "indexes.keeps (update_attempt i f g)"
  "indexes.keeps (update_head e n q)" "indexes.keeps (update_deployment e u v)"
  unfolding update_job_def update_slot_def update_attempt_def update_head_def update_deployment_def
  by (rule plain_rows_indexed; simp)+

lemma update_operation_indexed: "indexes.keeps (update_operation k p f)"
  unfolding update_operation_def
proof (rule indexes.keepsI, rule impI)
  fix s n t assume u: "update_row get_operation put_operation validate_release_operation_update k p f s = Inr (n, t)"
    and ok: "indexed s"
  show "indexed t"
  proof (cases "t = s")
    case False
    with u obtain r where t: "t = put_operation (f r) s"
      and v: "validate_release_operation_update s r (f r) = None"
      by (auto simp: tx_simps split: option.splits if_splits)
    from v have free: "\<not> open_activation_conflict s (f r)"
      unfolding validate_release_operation_update_def not_refused by blast
    have "one_open_activation t"
      unfolding one_open_activation_def t
      by (rule indexed_by_write [where r = "f r" and rows = "operations s"])
        (use ok free operation_tbl.mem_put in \<open>auto simp: indexed_def one_open_activation_def open_activation_conflict_def\<close>)
    with ok show ?thesis by (simp add: indexed_def one_active_release_def t)
  qed (use ok in simp)
qed

lemma update_release_indexed: "indexes.keeps (update_release k p f)"
  unfolding update_release_def
proof (rule indexes.keepsI, rule impI)
  fix s n t assume u: "update_row get_release put_release validate_release_update k p f s = Inr (n, t)"
    and ok: "indexed s"
  show "indexed t"
  proof (cases "t = s")
    case False
    with u obtain r where t: "t = put_release (f r) s" and v: "validate_release_update s r (f r) = None"
      by (auto simp: tx_simps split: option.splits if_splits)
    from v have free: "rel_state (f r) = RelActive \<Longrightarrow> q \<in> set (releases s) \<Longrightarrow> rel_id q \<noteq> rel_id (f r) \<Longrightarrow>
        rel_state q = RelActive \<Longrightarrow> rel_environment q \<noteq> rel_environment (f r)" for q
      unfolding validate_release_update_def not_refused by blast
    have "one_active_release t"
      unfolding one_active_release_def t
      by (rule indexed_by_write [where r = "f r" and rows = "releases s"])
        (use ok free release_tbl.mem_put in \<open>auto simp: indexed_def one_active_release_def\<close>)
    with ok show ?thesis by (simp add: indexed_def one_open_activation_def t)
  qed (use ok in simp)
qed

lemma insert_operation_indexed: "indexes.keeps (insert_operation mk)"
proof (rule indexes.keepsI, rule impI)
  fix s k t assume i: "insert_operation mk s = Inr (k, t)" and ok: "indexed s"
  then obtain p where t: "t = s\<lparr>operations := operations s @ [p], next_operation := next_operation s + 1\<rparr>"
    and v: "validate_release_operation_insert s p = None"
    by (auto simp: insert_operation_def Let_def split: option.splits)
  from v have free: "\<not> open_activation_conflict s p"
    unfolding validate_release_operation_insert_def
    by (cases "get_attempt (op_attempt p) s") (simp_all add: not_refused raise_exception_def)
  have "indexed_by unresolved_operation op_environment op_id (operations s @ [p])"
    by (rule indexed_by_write [where r = p and rows = "operations s"])
      (use ok free in \<open>auto simp: indexed_def one_open_activation_def open_activation_conflict_def\<close>)
  with ok show "indexed t" by (simp add: t indexed_def one_open_activation_def one_active_release_def)
qed

lemma inserts_indexed:
  "indexes.keeps (insert_slot now env)" "indexes.keeps (insert_attempt mk)" "indexes.keeps (insert_route_event e)"
  "indexes.keeps (appendAgentJobEvent job att kind)" "indexes.keeps (insertServerAuditEvent a)"
  "indexes.keeps (insertAttemptExecution k cfg)" "indexes.keeps (insert_frozen_secret k b)"
  "indexes.keeps (insert_frozen_literal k l)"
  by (rule indexes.keepsI; auto simp: insert_slot_def insert_attempt_def insert_route_event_def
      appendAgentJobEvent_def insertServerAuditEvent_def insertAttemptExecution_def insert_frozen_secret_def
      insert_frozen_literal_def Let_def indexed_def one_open_activation_def one_active_release_def
      split: if_splits option.splits)+

lemma insert_release_indexed: "indexes.keeps (insert_release r)"
proof (rule indexes.keepsI, rule impI)
  fix s u t assume i: "insert_release r s = Inr (u, t)" and ok: "indexed s"
  then have t: "t = s\<lparr>releases := releases s @ [r]\<rparr>"
    and free: "\<And>q. q \<in> set (releases s) \<Longrightarrow> rel_state r = RelActive \<Longrightarrow> rel_state q = RelActive \<Longrightarrow>
      rel_environment q \<noteq> rel_environment r"
    by (auto simp: insert_release_def split: if_splits)
  have "indexed_by (\<lambda>r. rel_state r = RelActive) rel_environment rel_id (releases s @ [r])"
    by (rule indexed_by_write [where r = r and rows = "releases s"])
      (use ok free in \<open>auto simp: indexed_def one_active_release_def\<close>)
  with ok show "indexed t" by (simp add: t indexed_def one_open_activation_def one_active_release_def)
qed

lemma saveTx_indexed: "indexes.keeps (saveTx d)"
proof -
  have "indexes.keeps (insert_deployment_event k e)" for k e
    by (rule indexes.keepsI)
      (auto simp: insert_deployment_event_def indexed_def one_open_activation_def one_active_release_def split: option.splits)
  then show ?thesis
    unfolding saveTx_def readSnapshot_def appendEvents_def
    by (intro indexes.keeps_intros plain_updates_indexed)
qed

interpretation indexes: statements_kept "\<lambda>s t. indexed s \<longrightarrow> indexed t"
  by unfold_locales (intro plain_updates_indexed update_operation_indexed update_release_indexed
    insert_operation_indexed inserts_indexed insert_release_indexed saveTx_indexed)+

section \<open>CHECK constraints\<close>

text \<open>Every stored attempt and operation satisfies the CHECK constraints of its table.\<close>

definition checked :: "db \<Rightarrow> bool" where
  "checked s \<longleftrightarrow> (\<forall>a \<in> set (attempts s). attempt_checks a) \<and> (\<forall>p \<in> set (operations s). operation_checks p)"

interpretation checks: kept_relation "\<lambda>s t. checked s \<longrightarrow> checked t"
  by unfold_locales simp_all

lemma checked_same: "attempts t = attempts s \<Longrightarrow> operations t = operations s \<Longrightarrow> checked s \<Longrightarrow> checked t"
  by (simp add: checked_def)

lemma plain_rows_checked:
  assumes "\<And>r s. attempts (put r s) = attempts s" "\<And>r s. operations (put r s) = operations s"
  shows "checks.keeps (update_row get put chk k p f)"
  using assms
  by (intro checks.keepsI) (auto simp: tx_simps split: option.splits if_splits intro: checked_same [rotated 2])

lemma plain_updates_checked:
  "checks.keeps (update_job i a b)" "checks.keeps (update_slot e c d)" "checks.keeps (update_release e f g)"
  "checks.keeps (update_head e n q)" "checks.keeps (update_deployment e u v)"
  unfolding update_job_def update_slot_def update_release_def update_head_def update_deployment_def
  by (rule plain_rows_checked; simp)+

lemma update_attempt_checked: "checks.keeps (update_attempt k p f)"
proof (rule checks.keepsI, rule impI)
  fix s n t assume u: "update_attempt k p f s = Inr (n, t)" and ok: "checked s"
  then consider "t = s" | r where "validate_agent_job_attempt_update s r (f r) = None" "t = put_attempt (f r) s"
    by (auto simp: update_attempt_def tx_simps split: option.splits if_splits)
  then show "checked t"
  proof cases
    case (2 r)
    from 2(1) have "attempt_checks (f r)" unfolding validate_agent_job_attempt_update_def not_refused by blast
    with ok 2(2) show ?thesis using attempt_tbl.mem_put [of _ "f r" s] by (auto simp: checked_def)
  qed (use ok in simp)
qed

lemma update_operation_checked: "checks.keeps (update_operation k p f)"
proof (rule checks.keepsI, rule impI)
  fix s n t assume u: "update_operation k p f s = Inr (n, t)" and ok: "checked s"
  then consider "t = s" | r where "validate_release_operation_update s r (f r) = None" "t = put_operation (f r) s"
    by (auto simp: update_operation_def tx_simps split: option.splits if_splits)
  then show "checked t"
  proof cases
    case (2 r)
    from 2(1) have "operation_checks (f r)" unfolding validate_release_operation_update_def not_refused by blast
    with ok 2(2) show ?thesis using operation_tbl.mem_put [of _ "f r" s] by (auto simp: checked_def)
  qed (use ok in simp)
qed

lemma insert_attempt_checked: "checks.keeps (insert_attempt mk)"
proof (rule checks.keepsI, rule impI)
  fix s k t assume i: "insert_attempt mk s = Inr (k, t)" and ok: "checked s"
  then obtain a where t: "t = s\<lparr>attempts := attempts s @ [a], next_attempt := next_attempt s + 1\<rparr>"
    and v: "validate_agent_job_attempt_insert s a = None"
    by (auto simp: insert_attempt_def Let_def split: option.splits)
  from v have "attempt_checks a"
    unfolding validate_agent_job_attempt_insert_def
    by (auto simp: raise_exception_def check_violation_def split: option.splits if_splits)
  with ok show "checked t" by (simp add: t checked_def)
qed

lemma insert_operation_checked: "checks.keeps (insert_operation mk)"
proof (rule checks.keepsI, rule impI)
  fix s k t assume i: "insert_operation mk s = Inr (k, t)" and ok: "checked s"
  then obtain p where t: "t = s\<lparr>operations := operations s @ [p], next_operation := next_operation s + 1\<rparr>"
    and v: "validate_release_operation_insert s p = None"
    by (auto simp: insert_operation_def Let_def split: option.splits)
  from v have "operation_checks p"
    unfolding validate_release_operation_insert_def
    by (cases "get_attempt (op_attempt p) s") (simp_all add: not_refused raise_exception_def)
  with ok show "checked t" by (simp add: t checked_def)
qed

lemma inserts_checked:
  "checks.keeps (insert_slot now env)" "checks.keeps (insert_release r)" "checks.keeps (insert_route_event e)"
  "checks.keeps (appendAgentJobEvent job att kind)" "checks.keeps (insertServerAuditEvent a)"
  "checks.keeps (insertAttemptExecution k cfg)" "checks.keeps (insert_frozen_secret k b)"
  "checks.keeps (insert_frozen_literal k l)" "checks.keeps (insert_deployment_event dep ev)"
  by (rule checks.keepsI; auto simp: insert_slot_def insert_release_def insert_route_event_def
      appendAgentJobEvent_def insertServerAuditEvent_def insertAttemptExecution_def insert_frozen_secret_def
      insert_frozen_literal_def insert_deployment_event_def checked_def split: if_splits option.splits)+

lemma saveTx_checked: "checks.keeps (saveTx d)"
  unfolding saveTx_def readSnapshot_def appendEvents_def
  by (intro checks.keeps_intros plain_updates_checked inserts_checked)

interpretation checks: statements_kept "\<lambda>s t. checked s \<longrightarrow> checked t"
  by unfold_locales (intro plain_updates_checked update_attempt_checked update_operation_checked
    insert_attempt_checked insert_operation_checked inserts_checked saveTx_checked)+

end
