(* ===== verification/Lease_Frames.thy ===== *)
theory Lease_Frames
  imports Lease_Steps
begin

text \<open>
  What parts of an operation leave alone: statements on deployments, releases, operations, route
  heads and the logs do not touch the lease tables, and no step but a confirming one moves the
  traffic of an environment.
\<close>

section \<open>The lease tables\<close>

definition same_lease_rows :: "db \<Rightarrow> db \<Rightarrow> bool" where
  "same_lease_rows s t \<longleftrightarrow> jobs t = jobs s \<and> slots t = slots s \<and> attempts t = attempts s \<and>
     next_attempt t = next_attempt s"

interpretation lease_rows: kept_relation same_lease_rows
  by unfold_locales (simp_all add: same_lease_rows_def)

lemma same_lease_rows_get:
  assumes "same_lease_rows s t"
  shows "get_job k t = get_job k s" "get_slot e t = get_slot e s" "get_attempt k t = get_attempt k s"
  using assms by (simp_all add: same_lease_rows_def get_job_def get_slot_def get_attempt_def)

lemma next_attempt_frames [simp]:
  "next_attempt (put_job j s) = next_attempt s" "next_attempt (put_slot r s) = next_attempt s"
  "next_attempt (put_attempt a s) = next_attempt s" "next_attempt (put_operation p s) = next_attempt s"
  "next_attempt (put_release e s) = next_attempt s" "next_attempt (put_head h s) = next_attempt s"
  "next_attempt (put_deployment d s) = next_attempt s"
  by (simp_all add: put_job_def put_slot_def put_attempt_def put_deployment_def put_operation_def
      put_release_def put_head_def)

lemma update_row_frame:
  assumes "\<And>r s. same_lease_rows s (put r s)"
  shows "lease_rows.keeps (update_row get put chk k p f)"
  using assms by (intro lease_rows.keepsI) (auto simp: tx_simps lease_rows.refl split: option.splits if_splits)

lemma other_updates_frame:
  "lease_rows.keeps (update_operation k p f)" "lease_rows.keeps (update_release e q g)"
  "lease_rows.keeps (update_head e r h)" "lease_rows.keeps (update_deployment e u v)"
  unfolding update_operation_def update_release_def update_head_def update_deployment_def
  by (rule update_row_frame; simp add: same_lease_rows_def)+

lemma inserts_frame:
  "lease_rows.keeps (insert_operation mk)" "lease_rows.keeps (insert_release r)"
  "lease_rows.keeps (insert_route_event e)" "lease_rows.keeps (appendAgentJobEvent job att kind)"
  "lease_rows.keeps (insertServerAuditEvent a)" "lease_rows.keeps (insertAttemptExecution k cfg)"
  "lease_rows.keeps (insert_frozen_secret k b)" "lease_rows.keeps (insert_frozen_literal k l)"
  "lease_rows.keeps (insert_deployment_event dep ev)"
  by (rule lease_rows.keepsI; auto simp: insert_operation_def insert_release_def insert_route_event_def
      appendAgentJobEvent_def insertServerAuditEvent_def insertAttemptExecution_def insert_frozen_secret_def
      insert_frozen_literal_def insert_deployment_event_def Let_def same_lease_rows_def
      split: if_splits option.splits)+

lemma reads_frame:
  "lease_rows.keeps (lockActiveServerCredential srv d)" "lease_rows.keeps (lockAdministratorSession now p)"
  "lease_rows.keeps (lock_lease srv k)" "lease_rows.keeps (plan_freeze env j)" "lease_rows.keeps (readSnapshot dep)"
  by (rule lease_rows.keepsI; auto simp: plan_freeze_def readSnapshot_def Let_def tx_simps lease_rows.refl
      split: if_splits option.splits)+

lemma transitionDeployment_frame: "lease_rows.keeps (transitionDeployment k tgt at)"
  unfolding transitionDeployment_def saveTx_def appendEvents_def
  by (intro lease_rows.keeps_intros reads_frame other_updates_frame inserts_frame)

lemmas frame_statements = other_updates_frame inserts_frame reads_frame transitionDeployment_frame

lemma freeze_frame: "lease_rows.keeps (freeze_attempt k cfg plan)"
  unfolding freeze_attempt_def insertFrozenSecretVersions_def insertFrozenLiteralValues_def
    copyPreviousFrozenLiteralValues_def copyPreviousAttemptExecution_def copyPreviousFrozenSecretVersions_def
  by (cases plan) (auto intro!: lease_rows.keeps_intros frame_statements)

lemma ensureRelease_frame: "lease_rows.keeps (ensureRelease now dep env commit strategy d)"
  unfolding ensureRelease_def by (intro lease_rows.keeps_intros frame_statements)

lemma activation_frame:
  "lease_rows.keeps (insert_activation mk)" "lease_rows.keeps (ready_candidate now img r)"
  "lease_rows.keeps (retain_predecessor i)" "lease_rows.keeps (writeLateEvidence sha job k op existing rep)"
proof -
  show "lease_rows.keeps (insert_activation mk)"
    by (rule lease_rows.keepsI)
      (auto simp: insert_activation_def split: sum.splits dest: lease_rows.keepsD [OF inserts_frame(1)])
  show "lease_rows.keeps (ready_candidate now img r)"
    unfolding ready_candidate_def
    by (auto intro!: lease_rows.keeps_intros frame_statements split: release_state.splits)
  show "lease_rows.keeps (retain_predecessor i)" "lease_rows.keeps (writeLateEvidence sha job k op existing rep)"
    unfolding retain_predecessor_def writeLateEvidence_def by (intro lease_rows.keeps_intros frame_statements)+
qed

lemma switch_route_frame: "lease_rows.keeps (switch_route i)"
  unfolding switch_route_def by (intro lease_rows.keeps_intros frame_statements activation_frame)

lemma activate_frame: "lease_rows.keeps (activate_tx sha srv d k fence img now)"
  unfolding activate_tx_def replay_activation_def authorize_switch_def
  by (intro lease_rows.keeps_intros frame_statements activation_frame)

lemma answer_closed_frame: "lease_rows.keeps (answer_closed sha slot a p rep fence)"
  unfolding answer_closed_def recordLateReport_def traceDeclaredContradiction_def
  by (auto intro!: lease_rows.keeps_intros frame_statements activation_frame split: operation_state.splits)

lemma replays_frame:
  "lease_rows.keeps (replay_completion outc cls opid res a)" "lease_rows.keeps (replay_cancellation opid res a)"
  "lease_rows.keeps (agreeResolvedOutcome k outcome dg)"
  unfolding replay_completion_def replay_cancellation_def agreeResolvedOutcome_def
  by (intro lease_rows.keeps_intros)+

lemma authorize_frame:
  "lease_rows.keeps (authorize_attempt srv d k fence now)"
  "lease_rows.keeps (report_progress_tx srv d k fence phase now)"
  unfolding report_progress_tx_def authorize_attempt_def by (intro lease_rows.keeps_intros frame_statements)+

text \<open>Neutral statements between two writes.\<close>

lemma wp_frame:
  assumes "lease_rows.keeps m" and "\<And>x t. same_lease_rows s t \<Longrightarrow> Q x t"
  shows "wp m Q s"
  using lease_rows.keepsD [OF assms(1)] assms(2) unfolding wp_def by blast

section \<open>Route heads\<close>

text \<open>Only statements on route heads change them.\<close>

interpretation heads: kept_relation "\<lambda>s t. route_heads t = route_heads s"
  by unfold_locales simp_all

lemma route_heads_frames [simp]:
  "route_heads (put_job j s) = route_heads s" "route_heads (put_slot r s) = route_heads s"
  "route_heads (put_attempt a s) = route_heads s" "route_heads (put_operation p s) = route_heads s"
  "route_heads (put_release q s) = route_heads s" "route_heads (put_deployment d s) = route_heads s"
  by (simp_all add: put_job_def put_slot_def put_attempt_def put_operation_def put_release_def put_deployment_def)

lemma update_row_heads:
  assumes "\<And>r s. route_heads (put r s) = route_heads s"
  shows "heads.keeps (update_row get put chk k p f)"
  using assms by (intro heads.keepsI) (auto simp: tx_simps split: option.splits if_splits)

lemma updates_heads:
  "heads.keeps (update_job i a b)" "heads.keeps (update_slot e c d)" "heads.keeps (update_attempt i f g)"
  "heads.keeps (update_operation i h k)" "heads.keeps (update_release e l m)" "heads.keeps (update_deployment e u v)"
  unfolding update_job_def update_slot_def update_attempt_def update_operation_def update_release_def
    update_deployment_def
  by (rule update_row_heads; simp)+

lemma inserts_heads:
  "heads.keeps (insert_slot now env)" "heads.keeps (insert_attempt mk)" "heads.keeps (insert_operation mk')"
  "heads.keeps (insert_release r)" "heads.keeps (insert_route_event e)"
  "heads.keeps (appendAgentJobEvent job att kind)" "heads.keeps (insertServerAuditEvent a)"
  "heads.keeps (insertAttemptExecution k cfg)" "heads.keeps (insert_frozen_secret k b)"
  "heads.keeps (insert_frozen_literal k l)" "heads.keeps (insert_deployment_event dep ev)"
  by (rule heads.keepsI; auto simp: insert_slot_def insert_attempt_def insert_operation_def insert_release_def
      insert_route_event_def appendAgentJobEvent_def insertServerAuditEvent_def insertAttemptExecution_def
      insert_frozen_secret_def insert_frozen_literal_def insert_deployment_event_def Let_def
      split: if_splits option.splits)+

lemma saveTx_heads: "heads.keeps (saveTx d)"
  unfolding saveTx_def readSnapshot_def appendEvents_def
  by (intro heads.keeps_intros updates_heads inserts_heads)

lemmas statements_heads = updates_heads inserts_heads saveTx_heads

section \<open>Traffic\<close>

text \<open>What an environment's route head serves: its revision and the release it points to.\<close>

definition traffic :: "db \<Rightarrow> string \<Rightarrow> (int \<times> string option) option" where
  "traffic s e = map_option (\<lambda>h. (rh_revision h, rh_active h)) (get_head e s)"

interpretation traffic: kept_relation "\<lambda>s t. traffic t = traffic s"
  by unfold_locales simp_all

lemma heads_traffic: "heads.keeps m \<Longrightarrow> traffic.keeps m"
  by (rule traffic.keepsI) (auto simp: traffic_def get_head_def fun_eq_iff dest: heads.keepsD)

lemma flag_head_traffic:
  "traffic.keeps (update_head e p (\<lambda>r. r\<lparr>rh_reconciling := b, rh_updated := max (rh_updated r) now\<rparr>))"
  (is "traffic.keeps (update_head e p ?f)")
proof (rule traffic.keepsI)
  fix s n t assume "update_head e p ?f s = Inr (n, t)"
  then consider "t = s" | r where "get_head e s = Some r" "t = put_head (?f r) s"
    by (auto simp: update_head_def tx_simps split: option.splits if_splits)
  then show "traffic t = traffic s"
  proof cases
    case (2 r)
    then have "get_head (rh_environment (?f r)) s = Some r" using head_tbl.get_key [OF 2(1)] by simp
    then show ?thesis unfolding 2(2) using head_tbl.get_put [of "?f r" s]
      by (auto simp: traffic_def fun_eq_iff)
  qed simp
qed

interpretation traffic: quiet_statements_kept "\<lambda>s t. traffic t = traffic s"
  by unfold_locales (intro flag_head_traffic heads_traffic [OF statements_heads(1)] heads_traffic [OF statements_heads(2)]
    heads_traffic [OF statements_heads(3)] heads_traffic [OF statements_heads(4)] heads_traffic [OF statements_heads(5)]
    heads_traffic [OF inserts_heads(1)] heads_traffic [OF inserts_heads(2)] heads_traffic [OF inserts_heads(3)]
    heads_traffic [OF inserts_heads(4)] heads_traffic [OF inserts_heads(5)] heads_traffic [OF inserts_heads(6)]
    heads_traffic [OF inserts_heads(7)] heads_traffic [OF inserts_heads(8)] heads_traffic [OF inserts_heads(9)]
    heads_traffic [OF inserts_heads(10)] heads_traffic [OF saveTx_heads])+

section \<open>Hostnames\<close>

text \<open>Every route head is well formed and no two environments have one hostname.\<close>

definition hosts_ok :: "db \<Rightarrow> bool" where
  "hosts_ok s \<longleftrightarrow> distinct (map rh_environment (route_heads s)) \<and> distinct (map rh_hostname (route_heads s)) \<and>
     list_all head_checks (route_heads s)"

interpretation hosts: kept_relation "\<lambda>s t. hosts_ok s \<longrightarrow> hosts_ok t"
  by unfold_locales simp_all

lemma heads_hosts: "heads.keeps m \<Longrightarrow> hosts.keeps m"
  by (rule hosts.keepsI) (auto simp: hosts_ok_def dest: heads.keepsD)

lemma distinct_replaced:
  assumes "distinct (map key rows)" "distinct (map val rows)" "\<And>q. q \<in> set rows \<Longrightarrow> key q \<noteq> key r \<Longrightarrow> val q \<noteq> val r"
  shows "distinct (map val (replace_row key r rows))"
  using assms
proof (induction rows)
  case (Cons q rows)
  show ?case
  proof (cases "key q = key r")
    case True
    then have other: "key x \<noteq> key r" if "x \<in> set rows" for x using Cons.prems(1) that True by (metis distinct.simps(2) image_eqI list.simps(9) list.set_map)
    then have "replace_row key r rows = rows" by (simp add: replace_row_def map_idI)
    moreover have "val r \<notin> val ` set rows" using Cons.prems(3) other by force
    ultimately show ?thesis using True Cons.prems(2) by (simp add: replace_row_def)
  next
    case False
    have "val q \<notin> val ` set (replace_row key r rows)"
      using Cons.prems(2,3) False by (auto simp: replace_row_def)
    moreover have "replace_row key r (q # rows) = q # replace_row key r rows" using False by (simp add: replace_row_def)
    moreover have "distinct (map val (replace_row key r rows))" using Cons by simp
    ultimately show ?thesis by (simp only: list.map distinct.simps list.set_map simp_thms)
  qed
qed (simp add: replace_row_def)

lemma update_head_hosts: "hosts.keeps (update_head e p f)"
proof (rule hosts.keepsI, rule impI)
  fix s n t assume u: "update_head e p f s = Inr (n, t)" and ok: "hosts_ok s"
  from u consider "t = s" | r where "validate_route_head_update s r (f r) = None" "t = put_head (f r) s"
    by (auto simp: update_head_def tx_simps split: option.splits if_splits)
  then show "hosts_ok t"
  proof cases
    case (2 r)
    then have "head_checks (f r)" "\<And>h. h \<in> set (route_heads s) \<Longrightarrow> rh_environment h \<noteq> rh_environment (f r) \<Longrightarrow> rh_hostname h \<noteq> rh_hostname (f r)"
      by (auto simp: validate_route_head_update_def not_refused)
    with ok show ?thesis unfolding 2(2)
      by (auto simp: hosts_ok_def put_head_def keys_replace_row list_all_iff intro!: distinct_replaced dest!: set_replace_row)
  qed (use ok in simp)
qed

interpretation hosts: statements_kept "\<lambda>s t. hosts_ok s \<longrightarrow> hosts_ok t"
  by unfold_locales (intro update_head_hosts heads_hosts [OF statements_heads(1)] heads_hosts [OF statements_heads(2)]
    heads_hosts [OF statements_heads(3)] heads_hosts [OF statements_heads(4)] heads_hosts [OF statements_heads(5)]
    heads_hosts [OF inserts_heads(1)] heads_hosts [OF inserts_heads(2)] heads_hosts [OF inserts_heads(3)]
    heads_hosts [OF inserts_heads(4)] heads_hosts [OF inserts_heads(5)] heads_hosts [OF inserts_heads(6)]
    heads_hosts [OF inserts_heads(7)] heads_hosts [OF inserts_heads(8)] heads_hosts [OF inserts_heads(9)]
    heads_hosts [OF inserts_heads(10)] heads_hosts [OF saveTx_heads])+

end
