(* ===== verification/Lease_Occupancy.thy ===== *)
theory Lease_Occupancy
  imports Lease_History Lease_Keys Lease_Frames
begin

text \<open>
  Who holds an environment.  \<open>occupancy_ok\<close> ties the three tables of a lease together: a leased
  attempt is the occupant its slot names and carries the slot's fence, a slot's occupant is a
  leased attempt, later attempts of an environment carry greater fences, and a job is leased
  exactly while its newest attempt is.  It speaks only of a view of the rows; the statements that
  leave the view alone keep \<open>same_occupancy\<close>, and closing a lease and granting one are the two moves.
\<close>

section \<open>The invariant\<close>

record attempt_view =
  av_job :: int
  av_number :: int
  av_environment :: string
  av_fence :: int
  av_leased :: bool

record slot_view =
  sv_fence :: int
  sv_current :: "int option"

record job_view =
  jv_leased :: bool
  jv_environment :: string
  jv_count :: int

definition view_attempt :: "attempt_row \<Rightarrow> attempt_view" where
  "view_attempt a = \<lparr>av_job = att_job a, av_number = att_number a, av_environment = att_environment a,
     av_fence = att_fence a, av_leased = (att_state a = AttemptLeased)\<rparr>"

definition view_slot :: "slot_row \<Rightarrow> slot_view" where
  "view_slot r = \<lparr>sv_fence = slot_fence r, sv_current = slot_current r\<rparr>"

definition view_job :: "job_row \<Rightarrow> job_view" where
  "view_job j = \<lparr>jv_leased = (job_state j = JobLeased), jv_environment = job_environment j,
     jv_count = job_attempt_count j\<rparr>"

definition att_of :: "db \<Rightarrow> int \<Rightarrow> attempt_view option" where
  "att_of s k = map_option view_attempt (get_attempt k s)"

definition slot_of :: "db \<Rightarrow> string \<Rightarrow> slot_view option" where
  "slot_of s e = map_option view_slot (get_slot e s)"

definition job_of :: "db \<Rightarrow> int \<Rightarrow> job_view option" where
  "job_of s k = map_option view_job (get_job k s)"

definition occupancy_ok ::
  "(int \<Rightarrow> attempt_view option) \<Rightarrow> (string \<Rightarrow> slot_view option) \<Rightarrow> (int \<Rightarrow> job_view option) \<Rightarrow> int \<Rightarrow> bool" where
  "occupancy_ok att slot job nxt \<longleftrightarrow>
     (\<forall>k a. att k = Some a \<longrightarrow> av_leased a \<longrightarrow>
        slot (av_environment a) = Some \<lparr>sv_fence = av_fence a, sv_current = Some k\<rparr> \<and>
        job (av_job a) = Some \<lparr>jv_leased = True, jv_environment = av_environment a, jv_count = av_number a\<rparr>) \<and>
     (\<forall>e r k. slot e = Some r \<longrightarrow> sv_current r = Some k \<longrightarrow>
        (\<exists>a. att k = Some a \<and> av_leased a \<and> av_environment a = e)) \<and>
     (\<forall>k a. att k = Some a \<longrightarrow> k < nxt \<and>
        (\<exists>r. slot (av_environment a) = Some r \<and> av_fence a \<le> sv_fence r)) \<and>
     (\<forall>k l a b. att k = Some a \<longrightarrow> att l = Some b \<longrightarrow> av_environment a = av_environment b \<longrightarrow>
        k < l \<longrightarrow> av_fence a < av_fence b) \<and>
     (\<forall>i j. job i = Some j \<longrightarrow> jv_leased j \<longrightarrow> (\<exists>k a. att k = Some a \<and> av_leased a \<and> av_job a = i))"

definition occupied_properly :: "db \<Rightarrow> bool" where
  "occupied_properly s \<longleftrightarrow> occupancy_ok (att_of s) (slot_of s) (job_of s) (next_attempt s)"

lemma occ_leased:
  "occupancy_ok att slot job nxt \<Longrightarrow> att k = Some a \<Longrightarrow> av_leased a \<Longrightarrow>
   slot (av_environment a) = Some \<lparr>sv_fence = av_fence a, sv_current = Some k\<rparr> \<and>
   job (av_job a) = Some \<lparr>jv_leased = True, jv_environment = av_environment a, jv_count = av_number a\<rparr>"
  by (simp add: occupancy_ok_def)

lemma occ_current:
  "occupancy_ok att slot job nxt \<Longrightarrow> slot e = Some r \<Longrightarrow> sv_current r = Some k \<Longrightarrow>
   \<exists>a. att k = Some a \<and> av_leased a \<and> av_environment a = e"
  by (simp add: occupancy_ok_def)

lemma occ_bound:
  "occupancy_ok att slot job nxt \<Longrightarrow> att k = Some a \<Longrightarrow>
   k < nxt \<and> (\<exists>r. slot (av_environment a) = Some r \<and> av_fence a \<le> sv_fence r)"
  by (simp add: occupancy_ok_def)

lemma occ_fence:
  "occupancy_ok att slot job nxt \<Longrightarrow> att k = Some a \<Longrightarrow> att l = Some b \<Longrightarrow>
   av_environment a = av_environment b \<Longrightarrow> k < l \<Longrightarrow> av_fence a < av_fence b"
  unfolding occupancy_ok_def by blast

lemma occ_job:
  "occupancy_ok att slot job nxt \<Longrightarrow> job i = Some j \<Longrightarrow> jv_leased j \<Longrightarrow>
   \<exists>k a. att k = Some a \<and> av_leased a \<and> av_job a = i"
  unfolding occupancy_ok_def by blast

text \<open>Two leased attempts of one environment are one attempt, and so are two of one job.\<close>

lemma occ_unique:
  assumes "occupancy_ok att slot job nxt" and "att k = Some a" and "att l = Some b"
    and "av_leased a" and "av_leased b" and "av_environment a = av_environment b \<or> av_job a = av_job b"
  shows "k = l"
  using occ_leased [OF assms(1,2,4)] occ_leased [OF assms(1,3,5)] assms(6) by auto

section \<open>The two moves\<close>

text \<open>Closing: the attempt is no longer leased, its slot names nobody, its job is not leased.\<close>

lemma close_move:
  assumes ok: "occupancy_ok att slot job nxt"
    and a: "att k = Some a" "av_leased a"
    and r: "slot (av_environment a) = Some r" "sv_fence r \<le> sv_fence r'" "sv_current r' = None"
    and j: "\<not> jv_leased j'"
  shows "occupancy_ok (att(k \<mapsto> a\<lparr>av_leased := False\<rparr>)) (slot(av_environment a \<mapsto> r'))
           (job(av_job a \<mapsto> j')) nxt"
proof -
  have other: "av_environment b \<noteq> av_environment a \<and> av_job b \<noteq> av_job a"
    if "att l = Some b" "av_leased b" "l \<noteq> k" for l b
    using occ_unique [OF ok that(1) a(1) that(2) a(2)] that(3) by blast
  show ?thesis
    unfolding occupancy_ok_def
  proof (intro conjI allI impI)
    fix l b assume b: "(att(k \<mapsto> a\<lparr>av_leased := False\<rparr>)) l = Some b" "av_leased b"
    then have l: "att l = Some b" "l \<noteq> k" by (auto split: if_splits)
    show "(slot(av_environment a \<mapsto> r')) (av_environment b) = Some \<lparr>sv_fence = av_fence b, sv_current = Some l\<rparr>"
      "(job(av_job a \<mapsto> j')) (av_job b) =
         Some \<lparr>jv_leased = True, jv_environment = av_environment b, jv_count = av_number b\<rparr>"
      using other [OF l(1) b(2) l(2)] occ_leased [OF ok l(1) b(2)] by auto
  next
    fix e q l assume q: "(slot(av_environment a \<mapsto> r')) e = Some q" "sv_current q = Some l"
    then have e: "slot e = Some q" "e \<noteq> av_environment a" using r by (auto split: if_splits)
    with occ_current [OF ok e(1) q(2)] show "\<exists>c. (att(k \<mapsto> a\<lparr>av_leased := False\<rparr>)) l = Some c \<and>
        av_leased c \<and> av_environment c = e" using a by auto
  next
    fix l b assume "(att(k \<mapsto> a\<lparr>av_leased := False\<rparr>)) l = Some b"
    then obtain c where c: "att l = Some c" "av_environment b = av_environment c" "av_fence b = av_fence c"
      using a by (auto split: if_splits)
    show "l < nxt" using occ_bound [OF ok c(1)] by blast
    show "\<exists>q. (slot(av_environment a \<mapsto> r')) (av_environment b) = Some q \<and> av_fence b \<le> sv_fence q"
      using occ_bound [OF ok c(1)] c r by auto
  next
    fix l m b c assume "(att(k \<mapsto> a\<lparr>av_leased := False\<rparr>)) l = Some b"
      "(att(k \<mapsto> a\<lparr>av_leased := False\<rparr>)) m = Some c" "av_environment b = av_environment c"
      "l < m"
    then show "av_fence b < av_fence c" using a occ_fence [OF ok] by (auto split: if_splits)
  next
    fix i q assume q: "(job(av_job a \<mapsto> j')) i = Some q" "jv_leased q"
    then have "job i = Some q" "i \<noteq> av_job a" using j by (auto split: if_splits)
    then obtain l b where "att l = Some b" "av_leased b" "av_job b = i"
      using occ_job [OF ok _ q(2)] by blast
    with \<open>i \<noteq> av_job a\<close> a show "\<exists>l b. (att(k \<mapsto> a\<lparr>av_leased := False\<rparr>)) l = Some b \<and>
        av_leased b \<and> av_job b = i" by (intro exI [of _ l] exI [of _ b]) auto
  qed
qed

text \<open>Granting: a free slot's fence advances and a fresh attempt of an idle job becomes the occupant.\<close>

lemma grant_move:
  assumes ok: "occupancy_ok att slot job nxt"
    and r: "slot e = Some r" "sv_current r = None"
    and j: "job i = Some j" "\<not> jv_leased j" "jv_environment j = e"
    and v: "v = \<lparr>av_job = i, av_number = n, av_environment = e, av_fence = sv_fence r + 1, av_leased = True\<rparr>"
  shows "occupancy_ok (att(nxt \<mapsto> v)) (slot(e \<mapsto> \<lparr>sv_fence = sv_fence r + 1, sv_current = Some nxt\<rparr>))
           (job(i \<mapsto> \<lparr>jv_leased = True, jv_environment = e, jv_count = n\<rparr>)) (nxt + 1)"
proof -
  have fresh: "l < nxt" if "att l = Some b" for l b using occ_bound [OF ok that] by blast
  have other: "av_environment b \<noteq> e \<and> av_job b \<noteq> i" if "att l = Some b" "av_leased b" for l b
    using occ_leased [OF ok that] r j by auto
  have below: "av_fence b \<le> sv_fence r" if "att l = Some b" "av_environment b = e" for l b
    using occ_bound [OF ok that(1)] that(2) r by auto
  show ?thesis
    unfolding occupancy_ok_def
  proof (intro conjI allI impI)
    fix l b assume b: "(att(nxt \<mapsto> v)) l = Some b" "av_leased b"
    show "(slot(e \<mapsto> \<lparr>sv_fence = sv_fence r + 1, sv_current = Some nxt\<rparr>)) (av_environment b) =
        Some \<lparr>sv_fence = av_fence b, sv_current = Some l\<rparr>"
      and "(job(i \<mapsto> \<lparr>jv_leased = True, jv_environment = e, jv_count = n\<rparr>)) (av_job b) =
        Some \<lparr>jv_leased = True, jv_environment = av_environment b, jv_count = av_number b\<rparr>"
      using b v other occ_leased [OF ok _ b(2)] by (auto split: if_splits)
  next
    fix x q l assume q: "(slot(e \<mapsto> \<lparr>sv_fence = sv_fence r + 1, sv_current = Some nxt\<rparr>)) x = Some q"
      "sv_current q = Some l"
    show "\<exists>c. (att(nxt \<mapsto> v)) l = Some c \<and> av_leased c \<and> av_environment c = x"
      using q v occ_current [OF ok _ q(2), of x] fresh by (force split: if_splits)
  next
    fix l b assume b: "(att(nxt \<mapsto> v)) l = Some b"
    show "l < nxt + 1" using b fresh by (fastforce split: if_splits)
    show "\<exists>q. (slot(e \<mapsto> \<lparr>sv_fence = sv_fence r + 1, sv_current = Some nxt\<rparr>)) (av_environment b) = Some q \<and>
        av_fence b \<le> sv_fence q"
      using b v occ_bound [OF ok, of l b] below [of l b] by (auto split: if_splits)
  next
    fix l m b c assume "(att(nxt \<mapsto> v)) l = Some b" "(att(nxt \<mapsto> v)) m = Some c"
      "av_environment b = av_environment c" "l < m"
    then show "av_fence b < av_fence c"
      using v below [of l b] fresh [of m c] occ_fence [OF ok, of l b m c] by (auto split: if_splits)
  next
    fix x q assume q: "(job(i \<mapsto> \<lparr>jv_leased = True, jv_environment = e, jv_count = n\<rparr>)) x = Some q" "jv_leased q"
    show "\<exists>l b. (att(nxt \<mapsto> v)) l = Some b \<and> av_leased b \<and> av_job b = x"
    proof (cases "x = i")
      case True
      then show ?thesis using v by auto
    next
      case False
      with q obtain l b where "att l = Some b" "av_leased b" "av_job b = x"
        using occ_job [OF ok, of x q] by auto
      then show ?thesis using fresh by (intro exI [of _ l] exI [of _ b]) auto
    qed
  qed
qed

text \<open>A new slot is free.\<close>

lemma empty_slot_move:
  assumes ok: "occupancy_ok att slot job nxt" and e: "slot e = None"
  shows "occupancy_ok att (slot(e \<mapsto> \<lparr>sv_fence = f, sv_current = None\<rparr>)) job nxt"
proof -
  have "av_environment a \<noteq> e" if "att k = Some a" for k a using occ_bound [OF ok that] e by auto
  then show ?thesis using ok unfolding occupancy_ok_def by (auto split: if_splits)
qed

section \<open>Statements and the view\<close>

definition same_occupancy :: "db \<Rightarrow> db \<Rightarrow> bool" where
  "same_occupancy s t \<longleftrightarrow> att_of t = att_of s \<and> slot_of t = slot_of s \<and> job_of t = job_of s \<and>
     next_attempt t = next_attempt s"

interpretation view: kept_relation same_occupancy
  by unfold_locales (simp_all add: same_occupancy_def)

interpretation occupancy: kept_relation "\<lambda>s t. occupied_properly s \<longrightarrow> occupied_properly t"
  by unfold_locales simp_all

lemma same_occupancy_proper: "same_occupancy s t \<Longrightarrow> occupied_properly s \<Longrightarrow> occupied_properly t"
  by (simp add: same_occupancy_def occupied_properly_def)

lemma view_keeps: "view.keeps m \<Longrightarrow> occupancy.keeps m"
  by (auto simp: view.keeps_def occupancy.keeps_def intro: same_occupancy_proper)

lemmas view_defs = att_of_def slot_of_def job_of_def

lemma view_frames [simp]:
  "att_of (put_job j s) = att_of s" "att_of (put_slot r s) = att_of s"
  "att_of (put_operation p s) = att_of s" "att_of (put_release e s) = att_of s"
  "att_of (put_head h s) = att_of s" "att_of (put_deployment d s) = att_of s"
  "slot_of (put_job j s) = slot_of s" "slot_of (put_attempt a s) = slot_of s"
  "slot_of (put_operation p s) = slot_of s" "slot_of (put_release e s) = slot_of s"
  "slot_of (put_head h s) = slot_of s" "slot_of (put_deployment d s) = slot_of s"
  "job_of (put_slot r s) = job_of s" "job_of (put_attempt a s) = job_of s"
  "job_of (put_operation p s) = job_of s" "job_of (put_release e s) = job_of s"
  "job_of (put_head h s) = job_of s" "job_of (put_deployment d s) = job_of s"
  by (simp_all add: view_defs fun_eq_iff)

lemma view_put:
  "get_attempt (att_id a) s = Some b \<Longrightarrow> att_of (put_attempt a s) = (att_of s)(att_id a \<mapsto> view_attempt a)"
  "get_slot (slot_environment r) s = Some q \<Longrightarrow> slot_of (put_slot r s) = (slot_of s)(slot_environment r \<mapsto> view_slot r)"
  "get_job (job_id j) s = Some i \<Longrightarrow> job_of (put_job j s) = (job_of s)(job_id j \<mapsto> view_job j)"
  by (simp_all add: view_defs fun_eq_iff attempt_tbl.get_put slot_tbl.get_put job_tbl.get_put)

text \<open>What an accepted update does to the view.\<close>

lemma update_attempt_view:
  assumes "update_attempt k p f s = Inr (n, t)"
  obtains (none) "n = 0" "t = s" "\<And>a. get_attempt k s = Some a \<Longrightarrow> \<not> p a"
  | (one) a where "get_attempt k s = Some a" "n = 1" "p a"
      "view_attempt (f a) = (view_attempt a)\<lparr>av_leased := (att_state (f a) = AttemptLeased)\<rparr>"
      "att_of t = (att_of s)(k \<mapsto> view_attempt (f a))" "slot_of t = slot_of s" "job_of t = job_of s"
      "next_attempt t = next_attempt s"
proof (cases "n = 0")
  case True
  with assms none show ?thesis
    by (auto simp: update_attempt_def update_row_def split: option.splits if_splits)
next
  case False
  from assms show ?thesis unfolding update_attempt_def
  proof (rule attempt_tbl.update_cases [OF _ accepted_attempt(2)])
    fix a assume a: "get_attempt k s = Some a" "get_attempt (att_id (f a)) s = Some a" "att_id (f a) = k"
      "p a" "validate_agent_job_attempt_update s a (f a) = None" "n = 1" "t = put_attempt (f a) s"
    moreover have "view_attempt (f a) = (view_attempt a)\<lparr>av_leased := (att_state (f a) = AttemptLeased)\<rparr>"
      using accepted_attempt(1) [OF a(5)]
      by (simp add: view_attempt_def attempt_follows_def same_attempt_identity_def)
    ultimately show ?thesis using one [of a] view_put(1) [of "f a" s a] by simp
  qed (use False in simp_all)
qed

lemma update_slot_view:
  assumes "update_slot k p f s = Inr (n, t)"
  obtains (none) "n = 0" "t = s" "\<And>r. get_slot k s = Some r \<Longrightarrow> \<not> p r"
  | (one) r where "get_slot k s = Some r" "n = 1" "p r" "slot_fence r \<le> slot_fence (f r)"
      "slot_of t = (slot_of s)(k \<mapsto> view_slot (f r))" "att_of t = att_of s" "job_of t = job_of s"
      "next_attempt t = next_attempt s" "get_slot k t = Some (f r)"
proof (cases "n = 0")
  case True
  with assms none show ?thesis
    by (auto simp: update_slot_def update_row_def split: option.splits if_splits)
next
  case False
  from assms show ?thesis unfolding update_slot_def
  proof (rule slot_tbl.update_cases [OF _ accepted_slot(2)])
    fix r assume r: "get_slot k s = Some r" "get_slot (slot_environment (f r)) s = Some r"
      "slot_environment (f r) = k" "p r" "validate_environment_slot_update s r (f r) = None" "n = 1"
      "t = put_slot (f r) s"
    with accepted_slot(1) [OF r(5)] show ?thesis
      using one [of r] view_put(2) [of "f r" s r] slot_tbl.get_put_same [OF r(1,3)]
      by (simp add: slot_follows_def)
  qed (use False in simp_all)
qed

lemma update_job_view:
  assumes "update_job k p f s = Inr (n, t)"
  obtains (none) "n = 0" "t = s" "\<And>j. get_job k s = Some j \<Longrightarrow> \<not> p j"
  | (one) j where "get_job k s = Some j" "n = 1" "p j" "job_environment (f j) = job_environment j"
      "job_state (f j) = JobLeased \<longrightarrow> job_state j = JobLeased \<Longrightarrow> job_attempt_count (f j) = job_attempt_count j"
      "job_of t = (job_of s)(k \<mapsto> view_job (f j))" "att_of t = att_of s" "slot_of t = slot_of s"
      "next_attempt t = next_attempt s" "get_job k t = Some (f j)"
proof (cases "n = 0")
  case True
  with assms none show ?thesis
    by (auto simp: update_job_def update_row_def split: option.splits if_splits)
next
  case False
  from assms show ?thesis unfolding update_job_def
  proof (rule job_tbl.update_cases [OF _ accepted_job(2)])
    fix j assume j: "get_job k s = Some j" "get_job (job_id (f j)) s = Some j" "job_id (f j) = k" "p j"
      "validate_agent_job_update s j (f j) = None" "n = 1" "t = put_job (f j) s"
    have "job_attempt_count (f j) = job_attempt_count j"
      if "job_state (f j) = JobLeased \<longrightarrow> job_state j = JobLeased"
      using j(5) that unfolding validate_agent_job_update_def not_refused by blast
    with accepted_job(1) [OF j(5)] show ?thesis
      using one [of j] view_put(3) [of "f j" s j] job_tbl.get_put_same [OF j(1,3)] j
      by (simp add: job_follows_def same_job_identity_def)
  qed (use False in simp_all)
qed

text \<open>Statements the view does not notice.\<close>

lemma update_attempt_neutral:
  assumes "\<And>a. att_state (f a) = att_state a"
  shows "view.keeps (update_attempt k p f)"
proof (rule view.keepsI)
  fix s n t assume "update_attempt k p f s = Inr (n, t)"
  then show "same_occupancy s t"
  proof (cases rule: update_attempt_view)
    case (one a)
    have "att_of s k = Some (view_attempt (f a))"
      using one(1,4) assms [of a] by (simp add: att_of_def view_attempt_def)
    with one show ?thesis by (auto simp: same_occupancy_def fun_upd_idem)
  qed (simp add: view.refl)
qed

lemma update_slot_neutral:
  assumes "\<And>r. slot_fence (f r) = slot_fence r" and "\<And>r. slot_current (f r) = slot_current r"
  shows "view.keeps (update_slot k p f)"
proof (rule view.keepsI)
  fix s n t assume "update_slot k p f s = Inr (n, t)"
  then show "same_occupancy s t"
  proof (cases rule: update_slot_view)
    case (one r)
    have "slot_of s k = Some (view_slot (f r))"
      using one(1) assms [of r] by (simp add: slot_of_def view_slot_def)
    with one show ?thesis by (auto simp: same_occupancy_def fun_upd_idem)
  qed (simp add: view.refl)
qed

lemma update_job_neutral_at:
  assumes "update_job k p f s = Inr (n, t)" and "get_job k s = Some j"
    and "job_state (f j) = JobLeased \<longleftrightarrow> job_state j = JobLeased"
  shows "same_occupancy s t"
  using assms(1)
proof (cases rule: update_job_view)
  case (one i)
  have "job_of s k = Some (view_job (f j))"
    using one(1,4,5) assms(2,3) by (simp add: job_of_def view_job_def)
  with one assms(2) show ?thesis by (auto simp: same_occupancy_def fun_upd_idem)
qed (simp add: view.refl)

lemma rows_view: "same_lease_rows s t \<Longrightarrow> same_occupancy s t"
  by (simp add: same_lease_rows_def same_occupancy_def view_defs get_job_def get_slot_def get_attempt_def fun_eq_iff)

lemma frame_neutral: "lease_rows.keeps m \<Longrightarrow> view.keeps m"
  by (auto simp: lease_rows.keeps_def view.keeps_def intro: rows_view)

lemmas other_updates_neutral = other_updates_frame [THEN frame_neutral]
lemmas inserts_neutral = inserts_frame [THEN frame_neutral]
lemmas reads_neutral = reads_frame [THEN frame_neutral]
lemmas transitionDeployment_neutral = transitionDeployment_frame [THEN frame_neutral]

lemmas view_statements = update_attempt_neutral update_slot_neutral other_updates_neutral inserts_neutral
  reads_neutral transitionDeployment_neutral

section \<open>Closing a lease\<close>

lemma closing:
  assumes ok: "occupied_properly s" and v: "att_of s k = Some v" "av_leased v"
    and a: "update_attempt k p f s = Inr (n, s1)" "n = 1 \<or> p = (\<lambda>_. True)" "\<And>a. att_state (f a) \<noteq> AttemptLeased"
    and r: "update_slot (av_environment v) q g s1 = Inr (m, s2)" "m = 1 \<or> (\<forall>r. slot_current r = Some k \<longrightarrow> q r)"
      "\<And>r. slot_current (g r) = None"
    and j: "update_job (av_job v) (\<lambda>j. job_state j = JobLeased) h s2 = Inr (l, s3)" "\<And>j. job_state (h j) \<noteq> JobLeased"
  shows "occupied_properly s3"
proof -
  note inv = ok [unfolded occupied_properly_def]
  from v have got: "\<exists>x. get_attempt k s = Some x" by (auto simp: att_of_def)
  from a(1) obtain s1': "att_of s1 = (att_of s)(k \<mapsto> v\<lparr>av_leased := False\<rparr>)" "slot_of s1 = slot_of s"
    "job_of s1 = job_of s" "next_attempt s1 = next_attempt s"
  proof (cases rule: update_attempt_view)
    case none
    with got a(2) show ?thesis by auto
  next
    case (one x)
    have "view_attempt x = v" using one(1) v by (simp add: att_of_def)
    with that one a(3) [of x] show ?thesis by simp
  qed
  obtain w where w: "slot_of s1 (av_environment v) = Some w" "sv_current w = Some k"
    using occ_leased [OF inv v] s1' by auto
  from r(1) obtain w' where s2: "slot_of s2 = (slot_of s1)(av_environment v \<mapsto> w')" "sv_fence w \<le> sv_fence w'"
    "sv_current w' = None" "att_of s2 = att_of s1" "job_of s2 = job_of s1" "next_attempt s2 = next_attempt s1"
  proof (cases rule: update_slot_view)
    case none
    with w r(2) show ?thesis by (auto simp: slot_of_def view_slot_def)
  next
    case (one x)
    with w r(3) [of x] show ?thesis by (intro that [of "view_slot (g x)"]) (auto simp: slot_of_def view_slot_def)
  qed
  have "job_of s2 (av_job v) = Some \<lparr>jv_leased = True, jv_environment = av_environment v, jv_count = av_number v\<rparr>"
    using occ_leased [OF inv v] s1' s2 by simp
  then have job: "\<exists>y. get_job (av_job v) s2 = Some y \<and> job_state y = JobLeased"
    by (auto simp: job_of_def view_job_def)
  from j(1) obtain u where s3: "job_of s3 = (job_of s2)(av_job v \<mapsto> u)" "\<not> jv_leased u" "att_of s3 = att_of s2"
    "slot_of s3 = slot_of s2" "next_attempt s3 = next_attempt s2"
  proof (cases rule: update_job_view)
    case none
    with job show ?thesis by auto
  next
    case (one x)
    with j(2) [of x] show ?thesis by (intro that [of "view_job (h x)"]) (auto simp: view_job_def)
  qed
  show ?thesis
    unfolding occupied_properly_def s3 s2 s1'
    by (rule close_move [OF inv v _ s2(2,3) s3(2)]) (use w s1' in simp)
qed

text \<open>The three updates in a row, unchecked and with the row counts checked.\<close>

lemma closing_wp:
  assumes "occupied_properly s" and "att_of s k = Some v" "av_leased v" "av_environment v = e" "av_job v = i"
    and "\<And>a. att_state (f a) \<noteq> AttemptLeased" "\<And>r. slot_current r = Some k \<Longrightarrow> q r"
    and "\<And>r. slot_current (g r) = None" "\<And>j. job_state (h j) \<noteq> JobLeased"
    and "\<And>t. occupied_properly t \<Longrightarrow> Q t"
  shows "wp (update_attempt k (\<lambda>_. True) f) (\<lambda>_. wp (update_slot e q g)
           (\<lambda>_. wp (update_job i (\<lambda>j. job_state j = JobLeased) h) (\<lambda>_. Q))) s"
  unfolding wp_def
proof (intro allI impI)
  fix n1 s1 n2 s2 n3 s3
  assume u: "update_attempt k (\<lambda>_. True) f s = Inr (n1, s1)" "update_slot e q g s1 = Inr (n2, s2)"
    "update_job i (\<lambda>j. job_state j = JobLeased) h s2 = Inr (n3, s3)"
  have "occupied_properly s3"
    by (rule closing [OF assms(1-3) u(1) _ assms(6) u(2) [folded assms(4)] _ assms(8) u(3) [folded assms(5)] assms(9)])
      (use assms(7) in auto)
  then show "Q s3" by (rule assms(10))
qed

lemma closing_checked_wp:
  assumes "occupied_properly s" and "att_of s k = Some v" "av_leased v" "av_environment v = e" "av_job v = i"
    and "\<And>a. att_state (f a) \<noteq> AttemptLeased" "\<And>r. slot_current (g r) = None" "\<And>j. job_state (h j) \<noteq> JobLeased"
    and "\<And>t. occupied_properly t \<Longrightarrow> Q t"
  shows "wp (update_attempt k p f) (\<lambda>n s1. n = 1 \<longrightarrow> wp (update_slot e q g)
           (\<lambda>m s2. m = 1 \<longrightarrow> wp (update_job i (\<lambda>j. job_state j = JobLeased) h) (\<lambda>l t. l = 1 \<longrightarrow> Q t) s2) s1) s"
  unfolding wp_def
proof (intro allI impI)
  fix n1 s1 n2 s2 n3 s3
  assume u: "update_attempt k p f s = Inr (n1, s1)" "n1 = 1" "update_slot e q g s1 = Inr (n2, s2)" "n2 = 1"
    "update_job i (\<lambda>j. job_state j = JobLeased) h s2 = Inr (n3, s3)" "n3 = 1"
  have "occupied_properly s3"
    by (rule closing [OF assms(1-3) u(1) _ assms(6) u(3) [folded assms(4)] _ assms(7) u(5) [folded assms(5)] assms(8)])
      (use u in auto)
  then show "Q s3" by (rule assms(9))
qed

lemma view_wp:
  assumes "view.keeps m" and "occupied_properly s" and "\<And>x t. occupied_properly t \<Longrightarrow> Q x t"
  shows "wp m Q s"
  using assms view.keepsD [OF assms(1)] same_occupancy_proper unfolding wp_def by blast

lemma occupancy_wp: "occupancy.keeps m \<longleftrightarrow> (\<forall>s. occupied_properly s \<longrightarrow> wp m (\<lambda>_. occupied_properly) s)"
  by (auto simp: occupancy.keeps_def wp_def)

text \<open>What holding the locks of a leased attempt says of the view.\<close>

lemma locked_view:
  assumes "get_attempt k s = Some a" and "att_state a = AttemptLeased"
  shows "att_of s k = Some (view_attempt a)" and "av_leased (view_attempt a)"
    and "av_environment (view_attempt a) = att_environment a" and "av_job (view_attempt a) = att_job a"
  using assms by (simp_all add: att_of_def view_attempt_def)

lemma close_job_update:
  "close_job draw now job n st = update_job job (\<lambda>j. job_state j = JobLeased)
     (\<lambda>j. if st = JobRetryWait then j\<lparr>job_state := JobRetryWait,
            job_available := canonicalTime (now + FullJitterDelay draw n), job_updated := now\<rparr>
          else j\<lparr>job_state := st, job_updated := now\<rparr>)"
  by (simp add: close_job_def)

lemma final_states [simp]:
  "completion_state outcome \<noteq> AttemptLeased" "completed_job_state outcome cls n \<noteq> JobLeased"
  "closed_job_state cancel n \<noteq> JobLeased"
  by (simp_all add: completion_state_def completed_job_state_def closed_job_state_def)

lemmas replays_neutral = replays_frame [THEN frame_neutral]

lemmas view_steps = view_wp [OF transitionDeployment_neutral] view_wp [OF inserts_neutral(1)]
  view_wp [OF inserts_neutral(2)] view_wp [OF inserts_neutral(3)] view_wp [OF inserts_neutral(4)]
  view_wp [OF inserts_neutral(5)] view_wp [OF replays_neutral(1)] view_wp [OF replays_neutral(2)]
  view_wp [OF other_updates_neutral(1)] view_wp [OF other_updates_neutral(2)] view_wp [OF other_updates_neutral(3)]

lemma complete_tx_occupancy: "occupancy.keeps (complete_tx draw srv d k fence outc cls opid res now)"
  unfolding occupancy_wp complete_tx_def free_slot_def close_job_update Let_def
  by (auto simp: wp_simps intro!: view_steps closing_wp dest: locked_view split: if_splits)

lemma acknowledge_tx_occupancy: "occupancy.keeps (acknowledge_tx srv d k fence opid res now)"
  unfolding occupancy_wp acknowledge_tx_def free_slot_def
  by (auto simp: wp_simps intro!: view_steps closing_wp dest: locked_view)

lemma block_neutral: "view.keeps (blockActivationForReconciliation now job k op env summary)"
  unfolding blockActivationForReconciliation_def by (intro view.keeps_intros view_statements) simp_all

lemma divert_neutral: "view.keeps (divertUnresolvedActivation now job k env)"
  unfolding divertUnresolvedActivation_def by (intro view.keeps_intros block_neutral)

lemma closeAttemptOrdinary_wp:
  assumes "occupied_properly s" and "get_attempt k s = Some a" "att_state a = AttemptLeased"
  shows "wp (closeAttemptOrdinary draw now (att_job a) k (att_environment a) n dep cancel) (\<lambda>_. occupied_properly) s"
  unfolding closeAttemptOrdinary_def Let_def close_job_update wp_compound
  by (rule closing_wp [OF assms(1) locked_view [OF assms(2,3)]])
    (auto simp: wp_simps if_distrib [of job_state] intro!: view_steps)

text \<open>The attempt a diverted or closed lease belongs to is read before the diversion is decided.\<close>

lemma divert_reads:
  "divertUnresolvedActivation now job k env s = Inr (False, t) \<Longrightarrow> t = s"
  by (auto simp: divertUnresolvedActivation_def tx_simps split: option.splits if_splits)

lemma closeExpired_wp:
  assumes ok: "occupied_properly s" and a: "get_attempt k s = Some a" "att_state a = AttemptLeased"
  shows "wp (closeExpiredOrRevokedAttempt draw now (att_job a) k (att_environment a) n dep cancel)
           (\<lambda>_. occupied_properly) s"
  unfolding closeExpiredOrRevokedAttempt_def wp_compound
proof (rule wpI)
  fix b t assume d: "divertUnresolvedActivation now (att_job a) k (att_environment a) s = Inr (b, t)"
  show "wp (if b then ret True else seq (closeAttemptOrdinary draw now (att_job a) k (att_environment a) n dep cancel)
          (ret False)) (\<lambda>_. occupied_properly) t"
  proof (cases b)
    case True
    with view.keepsD [OF divert_neutral d] ok show ?thesis by (auto simp: wp_simps intro: same_occupancy_proper)
  next
    case False
    with d have "t = s" by (auto dest: divert_reads)
    with False closeAttemptOrdinary_wp [OF ok a] show ?thesis by (simp add: wp_simps)
  qed
qed

lemma expire_one_tx_occupancy: "occupancy.keeps (expire_one_tx sl jl al draw now k)"
  unfolding occupancy_wp expire_one_tx_def by (auto simp: wp_simps intro!: closeExpired_wp)

lemma revoke_one_occupancy:
  assumes "get_attempt (att_id c) s = Some a" and "att_environment a = att_environment c" "att_job a = att_job c"
    and "occupied_properly s"
  shows "wp (revoke_one draw now c) (\<lambda>_. occupied_properly) s"
  using assms closeExpired_wp [OF assms(4,1)] unfolding revoke_one_def by (auto simp: wp_simps)

lemma reconcile_neutral:
  "view.keeps (reconcile_tx srv d env k fence now)" "view.keeps (clearPlainReconciliation p env job att reason now)"
  unfolding reconcile_tx_def clearPlainReconciliation_def
  by (intro view.keeps_intros view_statements; simp)+

lemma mark_reconciled_neutral: "view.keeps (mark_reconciled_tx p env reason now)"
  unfolding mark_reconciled_tx_def by (intro view.keeps_intros view_statements reconcile_neutral)

lemmas authorize_neutral = authorize_frame [THEN frame_neutral]

lemma renew_neutral: "view.keeps (renew_tx srv d k fence sq now)"
  unfolding renew_tx_def by (intro view.keeps_intros view_statements) simp

lemma job_neutral_wp:
  assumes "get_job k s = Some j" and "job_state (f j) = JobLeased \<longleftrightarrow> job_state j = JobLeased"
    and "occupied_properly s" and "\<And>t. occupied_properly t \<Longrightarrow> Q t"
  shows "wp (update_job k p f) (\<lambda>_. Q) s"
proof (rule wpI)
  fix n t assume "update_job k p f s = Inr (n, t)"
  from update_job_neutral_at [OF this assms(1,2)] assms(3) have "occupied_properly t"
    by (rule same_occupancy_proper)
  then show "Q t" by (rule assms(4))
qed

lemma request_cancellation_occupancy: "occupancy.keeps (request_cancellation_tx p job now)"
  unfolding occupancy_wp request_cancellation_tx_def Let_def
proof (simp only: wp_simps, intro allI impI)
  fix s j
  assume ok: "occupied_properly s" and j: "get_job job s = Some j"
  note rules = job_neutral_wp [OF j] view_steps view_wp [OF update_attempt_neutral]
  show "wp (case job_state j of
       JobCancelled \<Rightarrow> ret ()
     | JobSucceeded \<Rightarrow> fail ErrAgentJobTerminal
     | JobFailed \<Rightarrow> fail ErrAgentJobTerminal
     | JobDead \<Rightarrow> fail ErrAgentJobTerminal
     | JobLeased \<Rightarrow>
         if job_cancel_requested j \<noteq> None then ret ()
         else and_then (query_row ErrNoRows (leased_attempt_of_job job)) (\<lambda>a.
           and_then (query_row ErrNoRows (get_deployment (job_deployment j))) (\<lambda>d.
           seq (ensure (snap_status d \<noteq> StatusActivating) ErrAgentJobActivating) (
           seq (update_job job (\<lambda>_. True) (\<lambda>r. r\<lparr>job_cancel_requested := Some now, job_updated := now\<rparr>)) (
           seq (update_attempt (att_id a) (\<lambda>_. True) (\<lambda>r. r\<lparr>att_cancel_deadline := Some (now + cancellationGrace),
                  att_lease_expires := min (att_lease_expires r) (now + cancellationGrace),
                  att_authority_expires := min (att_authority_expires r) (now + cancellationGrace)\<rparr>))
               (appendAgentJobEvent job (Some (att_id a)) EvCancelRequested)))))
     | _ \<Rightarrow>
         seq (update_job job (\<lambda>_. True) (\<lambda>r. r\<lparr>job_state := JobCancelled, job_cancel_requested := Some now,
                job_updated := now\<rparr>)) (
         seq (transitionDeployment (job_deployment j) StatusCancelled now)
             (appendAgentJobEvent job None EvCancelled))) (\<lambda>_. occupied_properly) s"
    using ok by (cases "job_state j") (auto simp: wp_simps intro!: rules)
qed

text \<open>Revoking a server closes its leases one after the other; each keeps its identity meanwhile.\<close>

definition still_listed :: "attempt_row list \<Rightarrow> db \<Rightarrow> bool" where
  "still_listed cs s \<longleftrightarrow> (\<forall>c \<in> set cs. \<exists>a. get_attempt (att_id c) s = Some a \<and> same_attempt_identity c a)"

lemma still_listed_evolves:
  assumes "still_listed cs s" and "evolves s t"
  shows "still_listed cs t"
  unfolding still_listed_def
proof
  fix c assume "c \<in> set cs"
  with assms(1) obtain a where a: "get_attempt (att_id c) s = Some a" "same_attempt_identity c a"
    by (auto simp: still_listed_def)
  from assms(2) have "rows_follow get_attempt attempt_follows s t" by (simp add: evolves_defs)
  from rows_followD [OF this a(1)] obtain b where "get_attempt (att_id c) t = Some b" "attempt_follows a b"
    by blast
  with a(2) show "\<exists>b. get_attempt (att_id c) t = Some b \<and> same_attempt_identity c b"
    by (auto simp: attempt_follows_def same_attempt_identity_def)
qed

lemma revokeInFlightLeases_wp:
  assumes "occupied_properly s" and "keyed s"
  shows "wp (revokeInFlightLeases draws srv now) (\<lambda>_. occupied_properly) s"
proof -
  define cs where "cs = in_flight srv s"
  have "still_listed cs s"
    using keyed_get(1) [OF assms(2)] by (auto simp: cs_def still_listed_def in_flight_def same_attempt_identity_def)
  moreover have "wp (revoke_one draws now c) (\<lambda>_ t. occupied_properly t \<and> still_listed cs t) t"
    if "c \<in> set cs" "occupied_properly t \<and> still_listed cs t" for c t
  proof (rule wpI)
    fix x u assume run: "revoke_one draws now c t = Inr (x, u)"
    from that obtain a where a: "get_attempt (att_id c) t = Some a" "same_attempt_identity c a"
      by (auto simp: still_listed_def)
    have "history.keeps (revoke_one draws now c)"
      unfolding revoke_one_def by (intro history.keeps_intros history.closeExpired_kept)
    from history.keepsD [OF this run] have "still_listed cs u" using still_listed_evolves that by blast
    moreover have "occupied_properly u"
      using wpD [OF revoke_one_occupancy run] a that(2) by (auto simp: same_attempt_identity_def)
    ultimately show "occupied_properly u \<and> still_listed cs u" by simp
  qed
  ultimately have "wp (for_each (revoke_one draws now) cs) (\<lambda>_ t. occupied_properly t \<and> still_listed cs t) s"
    using assms(1) by (intro wp_for_each) auto
  then show ?thesis
    unfolding revokeInFlightLeases_def by (auto simp: wp_simps cs_def elim!: wp_mono)
qed

section \<open>Activation\<close>

lemma view_prefix:
  assumes "view.keeps m" and "\<And>x t. same_occupancy s t \<Longrightarrow> Q x t"
  shows "wp m Q s"
  using view.keepsD [OF assms(1)] assms(2) unfolding wp_def by blast

lemmas activation_neutral = activation_frame [THEN frame_neutral]
lemmas activate_neutral = activate_frame [THEN frame_neutral]
lemmas switch_route_neutral = switch_route_frame [THEN frame_neutral]
lemmas answer_closed_neutral = answer_closed_frame [THEN frame_neutral]

lemma fresh_block_neutral: "view.keeps (fresh_block_tx sha srv k fence op ev rep now)"
  unfolding fresh_block_tx_def by (intro view.keeps_intros activation_neutral block_neutral)

lemma complete_activated_wp:
  assumes "occupied_properly s" and "att_of s (fi_attempt i) = Some v" "av_leased v"
    and "av_environment v = fi_environment i" "av_job v = fi_job i"
  shows "wp (complete_activated i) (\<lambda>_. occupied_properly) s"
  unfolding complete_activated_def wp_compound wp_basic
  by (rule closing_checked_wp [OF assms]) (auto intro!: view_steps)

lemma finalize_wp:
  assumes "occupied_properly s" and "get_attempt (fi_attempt i) s = Some a" "att_state a = AttemptLeased"
    and "att_environment a = fi_environment i" "att_job a = fi_job i"
  shows "wp (finalizeActivationSucceeded i) (\<lambda>_. occupied_properly) s"
proof -
  note v = locked_view [OF assms(2,3), unfolded assms(4,5)]
  have "wp (complete_activated i) (\<lambda>_. occupied_properly) t" if "same_occupancy s t" for t
    using complete_activated_wp [OF same_occupancy_proper [OF that assms(1)] _ v(2-4)] that v(1)
    by (simp add: same_occupancy_def)
  then show ?thesis
    unfolding finalizeActivationSucceeded_def
    by (auto simp: wp_simps intro!: view_prefix [OF transitionDeployment_neutral] view_prefix [OF switch_route_neutral]
        intro: view.trans)
qed

lemma resolveNotActivated_wp:
  assumes ok: "occupied_properly s" and a: "get_attempt k s = Some a" "att_state a = AttemptLeased"
  shows "wp (resolveNotActivated (att_job a) k op (att_environment a) dep fl sm now) (\<lambda>_. occupied_properly) s"
proof -
  note v = locked_view [OF a]
  have m: "view.keeps (if fl
          then and_then (update_head (att_environment a) rh_reconciling
                 (\<lambda>r. r\<lparr>rh_reconciling := False, rh_updated := max (rh_updated r) now\<rparr>)) (\<lambda>n.
               ensure (n = 1) ErrAgentLeaseCorruptState)
          else ret () :: unit dbtx)"
    by (intro view.keeps_intros view_statements)
  have closing: "wp (update_attempt k p f) (\<lambda>n s1. n = 1 \<longrightarrow> wp (update_slot (att_environment a) q g)
           (\<lambda>x s2. x = 1 \<longrightarrow> wp (update_job (att_job a) (\<lambda>j. job_state j = JobLeased) h)
             (\<lambda>l t. l = 1 \<longrightarrow> Q t) s2) s1) t"
    if "same_occupancy s t" "\<And>a. att_state (f a) \<noteq> AttemptLeased" "\<And>r. slot_current (g r) = None"
      "\<And>j. job_state (h j) \<noteq> JobLeased" "\<And>t. occupied_properly t \<Longrightarrow> Q t" for t p f q g h Q
    by (rule closing_checked_wp [OF same_occupancy_proper [OF that(1) ok] _ v(2-4) that(2-5)])
      (use that(1) v(1) in \<open>simp_all add: same_occupancy_def\<close>)
  show ?thesis
    unfolding resolveNotActivated_def wp_compound wp_basic
    by (rule view_prefix [OF transitionDeployment_neutral], rule view_prefix [OF m],
        rule view_prefix [OF other_updates_neutral(1)], rule impI, rule closing)
      (auto intro: view.trans intro!: view_steps)
qed

lemma refuse_if_wp [wp_simps]: "wp (refuse_if e) Q = (\<lambda>s. e = None \<longrightarrow> Q () s)"
  by (cases e) (auto simp: refuse_if_def wp_simps)

lemma resolveDeclared_wp:
  assumes ok: "occupied_properly s" and a: "get_attempt (dr_attempt d) s = Some a" "dr_job d = att_job a"
    and quiet: "view.keeps (dr_clear_plain d)" "view.keeps (dr_audit d)"
  shows "wp (resolveDeclared d now) (\<lambda>_. occupied_properly) s"
proof -
  have closes: "wp (resolve_operation d j p now) (\<lambda>_. occupied_properly) s" if shape: "blocked_shape d j a p" for j p
  proof -
    from shape have l: "att_state a = AttemptLeased" "att_environment a = dr_environment d"
      by (simp_all add: blocked_shape_def)
    note na = resolveNotActivated_wp [OF ok a(1) l(1), unfolded l(2), THEN wp_mono]
    show ?thesis
      unfolding resolve_operation_def Let_def
      using ok by (auto simp: wp_simps l a intro!: na wp_mono [OF finalize_wp] view_wp [OF quiet(2)] view_steps)
  qed
  show ?thesis
    unfolding resolveDeclared_def
    using ok a(1) closes by (auto simp: wp_simps intro!: view_wp [OF quiet(1)])
qed

lemmas agree_neutral = replays_neutral(3)

lemma resolve_activation_occupancy: "occupancy.keeps (resolve_activation_tx p env outc reason now)"
  unfolding occupancy_wp resolve_activation_tx_def confirmResolvedOutcome_def
  by (auto simp: wp_simps operator_resolution_def reconcile_neutral view_statements
      intro!: view_wp [OF agree_neutral] resolveDeclared_wp)

lemma reconcile_activation_occupancy:
  "occupancy.keeps (reconcile_activation_tx srv d env k fence outc dg now)"
proof -
  have quiet: "view.keeps (seq (update_slot env (\<lambda>_. True) (\<lambda>r. r\<lparr>slot_reconciling := False, slot_pending := None,
       slot_updated := now\<rparr>)) (appendAgentJobEvent job att kind))" for job att kind
    by (intro view.keeps_intros view_statements) simp_all
  show ?thesis
    unfolding occupancy_wp reconcile_activation_tx_def
    by (auto simp: wp_simps agent_resolution_def quiet view.keeps_reads
        intro!: view_wp [OF agree_neutral] resolveDeclared_wp)
qed

section \<open>Granting a lease\<close>

lemma advance_fence_view:
  assumes "advance_fence now e s = Inr (f, t)" and "get_slot e s = Some r"
  shows "f = slot_fence r + 1"
    and "slot_of t = (slot_of s)(e \<mapsto> \<lparr>sv_fence = slot_fence r + 1, sv_current = slot_current r\<rparr>)"
    and "att_of t = att_of s" "job_of t = job_of s" "next_attempt t = next_attempt s" "get_job i t = get_job i s"
proof -
  from assms(1) obtain n where u: "update_slot e (\<lambda>_. True)
      (\<lambda>r. r\<lparr>slot_fence := slot_fence r + 1, slot_updated := now\<rparr>) s = Inr (n, t)"
    and f: "map_option slot_fence (get_slot e t) = Some f"
    by (auto simp: advance_fence_def tx_simps)
  from u assms(2) show "get_job i t = get_job i s"
    by (auto simp: update_slot_def tx_simps)
  show "f = slot_fence r + 1" "att_of t = att_of s" "job_of t = job_of s" "next_attempt t = next_attempt s"
    "slot_of t = (slot_of s)(e \<mapsto> \<lparr>sv_fence = slot_fence r + 1, sv_current = slot_current r\<rparr>)"
    using u assms(2) f by (cases rule: update_slot_view; simp add: view_slot_def)+
qed

lemma lease_job_view:
  assumes "lease_job now i st s = Inr (x, t)" and "get_job i s = Some j" "job_state j = st"
    and "x \<noteq> JobLeaseRefused"
  shows "x = JobLeasedAs (job_attempt_count j + 1)"
    and "job_of t = (job_of s)(i \<mapsto> \<lparr>jv_leased = True, jv_environment = job_environment j,
           jv_count = job_attempt_count j + 1\<rparr>)"
    and "att_of t = att_of s" "slot_of t = slot_of s" "next_attempt t = next_attempt s"
proof -
  from assms obtain n where u: "update_job i (\<lambda>j. job_state j = st)
      (\<lambda>j. j\<lparr>job_state := JobLeased, job_attempt_count := job_attempt_count j + 1, job_updated := now\<rparr>) s = Inr (n, t)"
    and x: "x = (case get_job i t of None \<Rightarrow> JobNotLeased
       | Some j \<Rightarrow> if n = 0 then JobNotLeased else JobLeasedAs (job_attempt_count j))"
    by (auto simp: lease_job_def split: sum.splits option.splits if_splits)
  show "x = JobLeasedAs (job_attempt_count j + 1)" "att_of t = att_of s" "slot_of t = slot_of s"
    "next_attempt t = next_attempt s"
    "job_of t = (job_of s)(i \<mapsto> \<lparr>jv_leased = True, jv_environment = job_environment j,
           jv_count = job_attempt_count j + 1\<rparr>)"
    using u assms(2,3) x by (cases rule: update_job_view; simp add: view_job_def)+
qed

lemma insert_attempt_view:
  assumes "insert_attempt mk s = Inr (k, t)" and "att_of s (next_attempt s) = None"
  shows "k = next_attempt s" and "next_attempt t = next_attempt s + 1"
    and "att_of t = (att_of s)(k \<mapsto> view_attempt (mk (next_attempt s)))"
    and "slot_of t = slot_of s" "job_of t = job_of s"
proof -
  let ?a = "(mk (next_attempt s))\<lparr>att_id := next_attempt s\<rparr>"
  from assms(1) have t: "k = next_attempt s"
    "t = s\<lparr>attempts := attempts s @ [?a], next_attempt := next_attempt s + 1\<rparr>"
    by (auto simp: insert_attempt_def Let_def split: option.splits)
  show "k = next_attempt s" "next_attempt t = next_attempt s + 1" using t by simp_all
  show "slot_of t = slot_of s" "job_of t = job_of s"
    using t by (simp_all add: view_defs get_slot_def get_job_def fun_eq_iff)
  have "view_attempt ?a = view_attempt (mk (next_attempt s))" by (simp add: view_attempt_def)
  with assms(2) t show "att_of t = (att_of s)(k \<mapsto> view_attempt (mk (next_attempt s)))"
    by (auto simp: att_of_def get_attempt_def fun_eq_iff select_row_append split: option.splits)
qed

lemmas freeze_neutral = freeze_frame [THEN frame_neutral]
lemmas ensureRelease_neutral = ensureRelease_frame [THEN frame_neutral]

lemma occupy_slot_view:
  assumes "update_slot e (\<lambda>_. True) (\<lambda>r. r\<lparr>slot_current := Some k, slot_updated := now\<rparr>) s = Inr (m, t)"
    and "slot_of s e = Some q"
  shows "slot_of t = (slot_of s)(e \<mapsto> q\<lparr>sv_current := Some k\<rparr>)" and "att_of t = att_of s"
    and "job_of t = job_of s" and "next_attempt t = next_attempt s"
proof -
  obtain r where r: "get_slot e s = Some r" "view_slot r = q" using assms(2) by (auto simp: slot_of_def)
  show "slot_of t = (slot_of s)(e \<mapsto> q\<lparr>sv_current := Some k\<rparr>)" "att_of t = att_of s" "job_of t = job_of s"
    "next_attempt t = next_attempt s"
    using assms(1) r by (cases rule: update_slot_view; auto simp: view_slot_def)+
qed

text \<open>
  From a free slot whose fence was just advanced and a job just leased, recording the claim
  completes the grant.
\<close>

lemma record_claim_wp:
  assumes ok: "occupied_properly s" and r: "get_slot e s = Some r" "slot_current r = None"
    and j: "get_job (job_id j) s = Some j" "job_state j \<noteq> JobLeased" "job_environment j = e"
    and u: "slot_of u = (slot_of s)(e \<mapsto> \<lparr>sv_fence = slot_fence r + 1, sv_current = None\<rparr>)"
      "job_of u = (job_of s)(job_id j \<mapsto> \<lparr>jv_leased = True, jv_environment = e, jv_count = n\<rparr>)"
      "att_of u = att_of s" "next_attempt u = next_attempt s"
  shows "wp (record_claim sha srv j e now expires cfg plan (slot_fence r + 1) n) (\<lambda>_. occupied_properly) u"
proof -
  note inv = ok [unfolded occupied_properly_def]
  have fresh: "att_of u (next_attempt u) = None"
    using occ_bound [OF inv, of "next_attempt s"] u(3,4) by (cases "att_of s (next_attempt s)") auto
  have grant: "occupied_properly y"
    if "insert_attempt (new_attempt srv (job_id j) e n (slot_fence r + 1) expires) u = Inr (k, x)"
      "update_slot e (\<lambda>_. True) (\<lambda>r. r\<lparr>slot_current := Some k, slot_updated := now\<rparr>) x = Inr (m, y)" for k m x y
  proof -
    note i = insert_attempt_view [OF that(1) fresh]
    have "slot_of x e = Some \<lparr>sv_fence = slot_fence r + 1, sv_current = None\<rparr>" using i(4) u(1) by simp
    note y = occupy_slot_view [OF that(2) this]
    have "slot_of s e = Some (view_slot r)" "job_of s (job_id j) = Some (view_job j)"
      using r(1) j(1) by (simp_all add: slot_of_def job_of_def)
    from grant_move [OF inv this(1) _ this(2) _ _ HOL.refl, of n] r(2) j(2,3)
    show ?thesis
      unfolding occupied_properly_def y i u
      by (simp add: view_slot_def view_job_def view_attempt_def new_attempt_def)
  qed
  show ?thesis
    unfolding record_claim_def wp_compound
    by (rule wpI, rule wpI, drule (1) grant)
      (auto simp: wp_simps intro!: view_steps view_wp [OF freeze_neutral] view_wp [OF ensureRelease_neutral])
qed

lemma plan_freeze_reads: "plan_freeze e j s = Inr (x, t) \<Longrightarrow> t = s"
  by (auto simp: plan_freeze_def Let_def split: option.splits if_splits)

lemma tryClaim_wp:
  assumes ok: "occupied_properly s"
  shows "wp (tryClaim sha sl jl srv i e now expires)
           (\<lambda>x t. x \<noteq> CandidateSkippedAborted \<longrightarrow> occupied_properly t) s"
proof -
  have claim: "wp (advance_fence now e) (\<lambda>f. wp (lease_job now i (job_state j)) (\<lambda>l. wp (case l of
       JobNotLeased \<Rightarrow> ret CandidateSkipped
     | JobLeaseRefused \<Rightarrow> ret CandidateSkippedAborted
     | JobLeasedAs n \<Rightarrow> and_then (record_claim sha srv j e now expires cfg plan f n)
           (\<lambda>lease. ret (CandidateClaimed lease))) (\<lambda>x t. x \<noteq> CandidateSkippedAborted \<longrightarrow> occupied_properly t))) s"
    if cs: "claimable_slot sl e s = Some cfg" and cj: "claimable_job jl srv i e now s = Some j" for cfg j plan
  proof (rule wpI, rule wpI)
    fix f u l v assume f: "advance_fence now e s = Inr (f, u)"
      and l: "lease_job now i (job_state j) u = Inr (l, v)"
    from cs obtain r where r: "get_slot e s = Some r" "slot_current r = None"
      by (auto simp: claimable_slot_def split: option.splits if_splits)
    from cj have j: "get_job i s = Some j" "job_environment j = e" "job_state j \<noteq> JobLeased"
      by (auto simp: claimable_job_def split: option.splits if_splits)
    from job_tbl.get_key [OF j(1)] have i: "job_id j = i" .
    note av = advance_fence_view [OF f r(1)]
    show "wp (case l of JobNotLeased \<Rightarrow> ret CandidateSkipped | JobLeaseRefused \<Rightarrow> ret CandidateSkippedAborted
     | JobLeasedAs n \<Rightarrow> and_then (record_claim sha srv j e now expires cfg plan f n)
           (\<lambda>lease. ret (CandidateClaimed lease))) (\<lambda>x t. x \<noteq> CandidateSkippedAborted \<longrightarrow> occupied_properly t) v"
    proof (cases "l = JobLeaseRefused")
      case False
      note lv = lease_job_view [OF l av(6) [of i, unfolded j(1)] HOL.refl False]
      have "wp (record_claim sha srv j e now expires cfg plan (slot_fence r + 1) (job_attempt_count j + 1))
          (\<lambda>_. occupied_properly) v"
        by (rule record_claim_wp [OF ok r]) (use i j r av lv in simp_all)
      with lv(1) av(1) show ?thesis by (auto simp: wp_simps elim!: wp_mono)
    qed (simp add: wp_simps)
  qed
  show ?thesis
    unfolding tryClaim_def
    by (auto simp: wp_simps ok intro!: wpI [of "plan_freeze e _"] dest!: plan_freeze_reads intro: claim)
qed

lemma claim_loop_occupancy: "occupancy.keeps (claim_loop sha sl jl srv now limit cs claimed)"
proof (induction cs arbitrary: claimed)
  case (Cons c cs)
  have "wp (case x of CandidateSkipped \<Rightarrow> claim_loop sha sl jl srv now limit cs claimed
        | CandidateSkippedAborted \<Rightarrow> fail (PgError ''25P02'' ''current transaction is aborted'')
        | CandidateClaimed lease \<Rightarrow> claim_loop sha sl jl srv now limit cs (claimed @ [lease]))
       (\<lambda>_. occupied_properly) t" if "x \<noteq> CandidateSkippedAborted \<longrightarrow> occupied_properly t" for x t
    using that Cons.IH by (cases x) (auto simp: wp_simps occupancy_wp)
  then show ?case
    by (cases c) (auto simp: occupancy_wp wp_simps intro!: wp_mono [OF tryClaim_wp])
qed (simp add: occupancy.keeps_reads)

section \<open>Every step keeps the occupancy\<close>

interpretation occupancy: reports_kept "\<lambda>s t. occupied_properly s \<longrightarrow> occupied_properly t"
  by unfold_locales (intro view_keeps block_neutral fresh_block_neutral answer_closed_neutral)+

lemma insert_slot_occupancy: "occupancy.keeps (insert_slot now e)"
proof (rule occupancy.keepsI, rule impI)
  fix s u t assume i: "insert_slot now e s = Inr (u, t)" and ok: "occupied_properly s"
  show "occupied_properly t"
  proof (cases "get_slot e s")
    case None
    with i have t: "att_of t = att_of s" "job_of t = job_of s" "next_attempt t = next_attempt s"
      "slot_of t = (slot_of s)(e \<mapsto> \<lparr>sv_fence = 0, sv_current = None\<rparr>)"
      by (auto simp: insert_slot_def view_defs get_attempt_def get_job_def get_slot_def view_slot_def fun_eq_iff
          select_row_append split: option.splits)
    have "slot_of s e = None" using None by (simp add: slot_of_def)
    with ok show ?thesis unfolding occupied_properly_def t by (rule empty_slot_move)
  next
    case (Some r)
    with i ok show ?thesis by (simp add: insert_slot_def)
  qed
qed

lemma ensure_slots_occupancy: "occupied_properly s \<Longrightarrow> occupied_properly (ensure_slots now envs s)"
  using occupancy.keepsD [OF occupancy.keeps_for_each [of "insert_slot now" envs, OF insert_slot_occupancy]]
  by (auto simp: ensure_slots_def split: sum.splits)

lemma answered_occupancy: "occupancy.keeps m \<Longrightarrow> occupancy.keeps (and_then m (\<lambda>u. ret (Inr u)))"
  by (intro occupancy.keeps_intros)

lemma run_tx_occupancy: "occupancy.keeps m \<Longrightarrow> occupied_properly s \<Longrightarrow> occupied_properly (snd (run_tx m s))"
  using occupancy.run_tx_kept by blast

lemma claim_tx_occupancy: "occupancy.keeps (claim_tx sha sl jl srv d now limit cs)"
  unfolding claim_tx_def
  by (intro occupancy.keeps_intros claim_loop_occupancy view_keeps [OF reads_neutral(1)])

lemma authorization_occupancy:
  "occupancy.keeps (authorize_materialization_tx srv d k fence now)"
  unfolding authorize_materialization_tx_def
  by (intro view_keeps view.keeps_intros authorize_neutral)

lemma report_occupancy:
  assumes ok: "occupied_properly s"
  shows "occupied_properly (snd (ReportActivationResult sha describe srv d k fence opid ok obs why now s))"
proof (rule occupancy.report_kept [THEN mp, OF _ ok], rule impI)
  fix a i u t
  assume a: "get_attempt k s = Some a" "att_state a = AttemptLeased" "fi_attempt i = k"
    "fi_environment i = att_environment a" "fi_job i = att_job a" "finalizeActivationSucceeded i s = Inr (u, t)"
  show "occupied_properly t"
    by (rule wpD [OF finalize_wp [OF ok _ a(2)] a(6)]) (use a in simp_all)
qed

lemma revoke_occupancy:
  assumes "occupied_properly s" and "keyed s"
  shows "occupied_properly (snd (run_tx (and_then (revokeInFlightLeases draws srv now) (\<lambda>u. ret (Inr u))) s))"
  using wpD [OF revokeInFlightLeases_wp [OF assms]] assms(1)
  by (auto simp: run_tx_def tx_simps split: sum.splits)

lemma step_occupancy: "lease_step s t \<Longrightarrow> keyed s \<Longrightarrow> occupied_properly s \<Longrightarrow> occupied_properly t"
proof (induction rule: lease_step.induct)
  case (report_step s)
  from report_step(2) show ?case by (rule report_occupancy)
next
  case (revoke_step s)
  then show ?case by (intro revoke_occupancy)
next
  case (fresh_block_step s)
  then show ?case using occupancy.recordBlock_kept by blast
qed (auto simp: Renew_def Complete_def RequestCancellation_def AcknowledgeCancellation_def expireOne_def
    Reconcile_def MarkReconciled_def AuthorizeMaterialization_def AuthorizeCheckout_def ReportProgress_def
    Activate_def ResolveActivation_def ReconcileActivation_def Let_def ensure_slots_occupancy
    intro!: run_tx_occupancy answered_occupancy claim_tx_occupancy view_keeps [OF renew_neutral]
    complete_tx_occupancy request_cancellation_occupancy acknowledge_tx_occupancy expire_one_tx_occupancy
    view_keeps [OF reconcile_neutral(1)] view_keeps [OF mark_reconciled_neutral] authorization_occupancy
    view_keeps [OF authorize_neutral(2)] view_keeps [OF activate_neutral] resolve_activation_occupancy
    reconcile_activation_occupancy occupancy.keeps_and_then view_keeps [OF authorize_neutral(1)]
    occupancy.keeps_prod occupancy.keeps_reads)

end
