(* ===== verification/Server_Identity.thy ===== *)
theory Server_Identity
  imports Activation_Text
begin

text \<open>
  The identity of a deployment server: its value type and name rules (\<^verbatim>\<open>server/server.go\<close>) and the
  text form and digests of its credential and enrollment tokens (\<^verbatim>\<open>server/token.go\<close>).  A source of
  randomness is the bytes it still has to give; SHA-256 is an argument.
\<close>

section \<open>Base64\<close>

text \<open>
  \<^verbatim>\<open>base64.RawURLEncoding\<close>: the URL alphabet without padding.  The decoder skips line breaks, refuses
  any other foreign byte and a single left-over character, and ignores the unused low bits of the
  last character.
\<close>

definition b64_char :: "nat \<Rightarrow> char" where
  "b64_char n = (if n < 26 then char_of (65 + n) else if n < 52 then char_of (71 + n)
     else if n < 62 then char_of (n - 4) else if n = 62 then CHR ''-'' else CHR ''_'')"

definition b64_value :: "char \<Rightarrow> nat option" where
  "b64_value c = (if in_range 65 90 c then Some (byte c - 65) else if in_range 97 122 c then Some (byte c - 71)
     else if in_range 48 57 c then Some (byte c + 4) else if c = CHR ''-'' then Some 62
     else if c = CHR ''_'' then Some 63 else None)"

fun b64_encode :: "string \<Rightarrow> string" where
  "b64_encode [] = []"
| "b64_encode [a] = [b64_char (byte a div 4), b64_char (byte a mod 4 * 16)]"
| "b64_encode [a, b] = [b64_char (byte a div 4), b64_char (byte a mod 4 * 16 + byte b div 16), b64_char (byte b mod 16 * 4)]"
| "b64_encode (a # b # c # rest) =
     b64_char (byte a div 4) # b64_char (byte a mod 4 * 16 + byte b div 16) #
     b64_char (byte b mod 16 * 4 + byte c div 64) # b64_char (byte c mod 64) # b64_encode rest"

fun b64_bytes :: "nat list \<Rightarrow> string option" where
  "b64_bytes [] = Some []"
| "b64_bytes [a] = None"
| "b64_bytes [a, b] = Some [char_of (a * 4 + b div 16)]"
| "b64_bytes [a, b, c] = Some [char_of (a * 4 + b div 16), char_of (b mod 16 * 16 + c div 4)]"
| "b64_bytes (a # b # c # d # rest) =
     map_option (\<lambda>r. char_of (a * 4 + b div 16) # char_of (b mod 16 * 16 + c div 4) # char_of (c mod 4 * 64 + d) # r)
       (b64_bytes rest)"

definition line_break :: "char \<Rightarrow> bool" where
  "line_break c \<longleftrightarrow> byte c = 10 \<or> byte c = 13"

definition b64_decode :: "string \<Rightarrow> string option" where
  "b64_decode s =
     (let vs = map b64_value (filter (\<lambda>c. \<not> line_break c) s)
      in if None \<in> set vs then None else b64_bytes (map the vs))"

lemma byte_char_small: "n < 256 \<Longrightarrow> byte (char_of n) = n"
  by (simp add: byte_def)

lemma b64_value_char: "n < 64 \<Longrightarrow> b64_value (b64_char n) = Some n"
  by (auto simp: b64_value_def b64_char_def in_range_def byte_char_small byte_def char_of_eq_iff)

lemma b64_char_no_break: "n < 64 \<Longrightarrow> \<not> line_break (b64_char n)"
  by (auto simp: line_break_def b64_char_def byte_def)

lemma char_of_byte_eq: "n = byte c \<Longrightarrow> char_of n = c"
  by (simp add: byte_def)

definition sextets :: "string \<Rightarrow> nat list" where
  "sextets s = map (\<lambda>c. the (b64_value c)) (b64_encode s)"

lemma byte_quotients [simp]:
  "byte c div 4 < 64" "byte c div 16 < 16" "byte c div 64 < 4"
  using byte_less [of c] by (simp_all add: less_mult_imp_div_less del: byte_less)

lemma sextet_small: "x < 4 \<Longrightarrow> y < 16 \<Longrightarrow> x * 16 + y < (64 :: nat)" "u < 16 \<Longrightarrow> v < 4 \<Longrightarrow> u * 4 + v < (64 :: nat)"
  by simp_all

lemma sextet_bounds:
  "byte a mod 4 * 16 + byte b div 16 < 64" "byte b mod 16 * 4 + byte c div 64 < 64"
  "byte a mod 4 * 16 < 64" "byte b mod 16 * 4 < 64" "byte c mod 64 < 64"
  using sextet_small(1) [of "byte a mod 4" 0] sextet_small(2) [of "byte b mod 16" 0] by (simp_all add: sextet_small)

lemma b64_encode_clean: "c \<in> set (b64_encode s) \<Longrightarrow> \<not> line_break c \<and> b64_value c \<noteq> None"
  by (induction s rule: b64_encode.induct) (auto simp: sextet_bounds b64_char_no_break b64_value_char)

lemma sextet_bytes:
  "byte b div 16 div 16 = 0" "byte b div 16 mod 16 = byte b div 16" "byte c div 64 div 4 = 0" "byte c div 64 mod 4 = byte c div 64"
  "char_of (byte a) = a"
  by (simp_all add: byte_def) (simp_all add: byte_def [symmetric])

lemma b64_bytes_encode: "b64_bytes (map (\<lambda>c. the (b64_value c)) (b64_encode s)) = Some s"
  by (induction s rule: b64_encode.induct) (simp_all add: sextet_bounds b64_value_char sextet_bytes)

lemma b64_decode_encode: "b64_decode (b64_encode s) = Some s"
proof -
  have "filter (\<lambda>c. \<not> line_break c) (b64_encode s) = b64_encode s"
    using b64_encode_clean by (simp add: filter_id_conv)
  moreover have "None \<notin> set (map b64_value (b64_encode s))" using b64_encode_clean by force
  ultimately show ?thesis by (simp add: b64_decode_def Let_def b64_bytes_encode comp_def)
qed

lemma b64_encode_length: "length (b64_encode s) = (4 * length s + 2) div 3"
  by (induction s rule: b64_encode.induct) auto

section \<open>Tokens (token.go)\<close>

datatype token_error = ErrInvalidToken | ErrRandomness string

definition credentialTokenPrefix :: string where
  "credentialTokenPrefix = ''srv.v1.''"

definition enrollmentTokenPrefix :: string where
  "enrollmentTokenPrefix = ''enr.v1.''"

definition tokenRawBytes :: nat where
  "tokenRawBytes = 32"

definition tokenEncodedBytes :: nat where
  "tokenEncodedBytes = 43"

text \<open>\<^verbatim>\<open>io.ReadFull\<close>: the first bytes of the source, or an error when it runs dry.\<close>

definition newTokenBytes :: "string \<Rightarrow> token_error + string" where
  "newTokenBytes randomness =
     (if length randomness < tokenRawBytes then Inl (ErrRandomness ''unexpected EOF'') else Inr (take tokenRawBytes randomness))"

definition NewCredentialToken :: "string \<Rightarrow> token_error + string" where
  "NewCredentialToken randomness = (case newTokenBytes randomness of
       Inl e \<Rightarrow> Inl (ErrRandomness ''generate server credential token'')
     | Inr raw \<Rightarrow> Inr (credentialTokenPrefix @ b64_encode raw))"

definition NewEnrollmentToken :: "string \<Rightarrow> token_error + string" where
  "NewEnrollmentToken randomness = (case newTokenBytes randomness of
       Inl e \<Rightarrow> Inl (ErrRandomness ''generate server enrollment token'')
     | Inr raw \<Rightarrow> Inr (enrollmentTokenPrefix @ b64_encode raw))"

definition decodeToken :: "string \<Rightarrow> string \<Rightarrow> token_error + string" where
  "decodeToken value prefix =
     (if length value \<noteq> length prefix + tokenEncodedBytes \<or> \<not> HasPrefix value prefix then Inl ErrInvalidToken
      else let encoded = drop (length prefix) value in
        (case b64_decode encoded of
           None \<Rightarrow> Inl ErrInvalidToken
         | Some raw \<Rightarrow> if length raw \<noteq> tokenRawBytes \<or> b64_encode raw \<noteq> encoded then Inl ErrInvalidToken else Inr raw))"

definition ParseCredentialToken :: "string \<Rightarrow> token_error + string" where
  "ParseCredentialToken value = (case decodeToken value credentialTokenPrefix of Inl e \<Rightarrow> Inl e | Inr _ \<Rightarrow> Inr value)"

definition ParseEnrollmentToken :: "string \<Rightarrow> token_error + string" where
  "ParseEnrollmentToken value = (case decodeToken value enrollmentTokenPrefix of Inl e \<Rightarrow> Inl e | Inr _ \<Rightarrow> Inr value)"

definition domainDigest :: "(string \<Rightarrow> string) \<Rightarrow> string \<Rightarrow> string \<Rightarrow> string" where
  "domainDigest sha256 domain raw = sha256 (domain @ [CHR 0x00] @ raw)"

definition CredentialTokenDigest :: "(string \<Rightarrow> string) \<Rightarrow> string \<Rightarrow> token_error + string" where
  "CredentialTokenDigest sha256 t = (case decodeToken t credentialTokenPrefix of
       Inl e \<Rightarrow> Inl e
     | Inr raw \<Rightarrow> Inr (domainDigest sha256 ''autodeploy/server-credential-token/v1'' raw))"

definition EnrollmentTokenDigest :: "(string \<Rightarrow> string) \<Rightarrow> string \<Rightarrow> token_error + string" where
  "EnrollmentTokenDigest sha256 t = (case decodeToken t enrollmentTokenPrefix of
       Inl e \<Rightarrow> Inl e
     | Inr raw \<Rightarrow> Inr (domainDigest sha256 ''autodeploy/server-enrollment-token/v1'' raw))"

text \<open>\<^verbatim>\<open>subtle.ConstantTimeCompare\<close> of two arrays of one length.\<close>

definition ConstantTimeEqualDigest :: "string \<Rightarrow> string \<Rightarrow> bool" where
  "ConstantTimeEqualDigest a b \<longleftrightarrow> a = b"

section \<open>Servers (server.go)\<close>

definition ProtocolVersion :: int where
  "ProtocolVersion = 1"

definition maxNameBytes :: nat where
  "maxNameBytes = 128"

text \<open>A server value; a zero time is the absent one.  The status is text, as callers pass it.\<close>

record server_value =
  server_ID :: string
  server_OwnerID :: string
  server_Name :: string
  server_ProtocolVersion :: int
  server_Status :: string
  server_CreatedAt :: int
  server_RevokedAt :: int
  server_LastHeartbeatAt :: int

text \<open>
  \<^verbatim>\<open>strings.TrimSpace\<close> trims whole runes; on a valid string the comparison with the original says that
  neither the first nor the last rune is white space.  The rejected control runes are single bytes.
\<close>

definition ValidName :: "string \<Rightarrow> bool" where
  "ValidName name \<longleftrightarrow>
     \<not> (length name = 0 \<or> length name > maxNameBytes \<or> \<not> ValidString name) \<and>
     concat (trim_space (runes name)) = name \<and>
     list_all (\<lambda>c. \<not> (byte c < 32 \<or> byte c = 127)) name"

definition Server_Validate :: "server_value \<Rightarrow> bool" where
  "Server_Validate v \<longleftrightarrow>
     \<not> (\<not> ValidOpaqueID (server_ID v) \<or> \<not> ValidOpaqueID (server_OwnerID v) \<or> \<not> ValidName (server_Name v) \<or>
        server_ProtocolVersion v \<noteq> ProtocolVersion) \<and>
     \<not> (server_Status v \<noteq> ''active'' \<and> server_Status v \<noteq> ''revoked'') \<and>
     \<not> server_CreatedAt v = 0 \<and>
     \<not> ((server_Status v = ''revoked'') \<noteq> (server_RevokedAt v \<noteq> 0)) \<and>
     \<not> (server_RevokedAt v \<noteq> 0 \<and> server_RevokedAt v < server_CreatedAt v) \<and>
     \<not> (server_LastHeartbeatAt v \<noteq> 0 \<and> server_LastHeartbeatAt v < server_CreatedAt v)"

definition idPrefix :: string where
  "idPrefix = ''server_''"

definition NewID :: "string \<Rightarrow> token_error + string" where
  "NewID randomness = (if length randomness < 16 then Inl (ErrRandomness ''generate server id'')
     else Inr (idPrefix @ hex_encode (take 16 randomness)))"

section \<open>Token texts\<close>

lemma decodeToken_iff:
  "decodeToken value prefix = Inr raw \<longleftrightarrow> length raw = 32 \<and> value = prefix @ b64_encode raw"
proof
  assume "decodeToken value prefix = Inr raw"
  then show "length raw = 32 \<and> value = prefix @ b64_encode raw"
    by (auto simp: decodeToken_def Let_def HasPrefix_iff tokenRawBytes_def split: if_splits option.splits)
next
  assume "length raw = 32 \<and> value = prefix @ b64_encode raw"
  then show "decodeToken value prefix = Inr raw"
    by (simp add: decodeToken_def HasPrefix_iff tokenRawBytes_def tokenEncodedBytes_def b64_encode_length b64_decode_encode)
qed

text \<open>
  C38: A token has exactly one text.  A text is accepted as a credential token exactly when it is what
  the generator writes for some thirty-two bytes, and its digest is then the digest of those bytes;
  so no second spelling of a token authenticates, and what was generated is always accepted.
\<close>

theorem credential_token_roundtrip:
  "(ParseCredentialToken text = Inr text \<longleftrightarrow> (\<exists>raw. length raw = 32 \<and> NewCredentialToken raw = Inr text)) \<and>
   (CredentialTokenDigest sha256 text = Inr d \<longleftrightarrow>
     (\<exists>raw. length raw = 32 \<and> NewCredentialToken raw = Inr text \<and>
        d = sha256 (''autodeploy/server-credential-token/v1'' @ [CHR 0x00] @ raw)))"
proof -
  have new: "NewCredentialToken raw = Inr text \<longleftrightarrow> decodeToken text credentialTokenPrefix = Inr raw" if "length raw = 32" for raw
    using that by (auto simp: NewCredentialToken_def newTokenBytes_def tokenRawBytes_def decodeToken_iff)
  have "length raw = 32" if "decodeToken text credentialTokenPrefix = Inr raw" for raw
    using that by (simp add: decodeToken_iff)
  with new show ?thesis
    by (auto simp: ParseCredentialToken_def CredentialTokenDigest_def domainDigest_def split: sum.splits)
qed

end
