(* ===== verification/Server_Repository.thy ===== *)
theory Server_Repository
  imports Lease_Finish Server_Identity
begin

text \<open>
  The server repository (\<^verbatim>\<open>store/postgres/server_repository.go\<close>) with the tables of migration 000012:
  registration, enrollment, credential rotation, revocation, authentication and heartbeats.  The
  readings of \<^verbatim>\<open>clock_timestamp()\<close> in one call are the values of the argument \<open>clock\<close> at 0, 1, 2, ...
  The owner of a live session exists, since sessions and users refer to it, so the foreign key of
  \<^verbatim>\<open>servers.owner_id\<close> is never violated here.
\<close>

section \<open>The tables\<close>

definition get_server :: "string \<Rightarrow> db \<Rightarrow> server_row option" where
  "get_server k s = select_row srv_id k (servers s)"
definition put_server :: "server_row \<Rightarrow> db \<Rightarrow> db" where
  "put_server r s = s\<lparr>servers := replace_row srv_id r (servers s)\<rparr>"

definition get_token :: "string \<Rightarrow> db \<Rightarrow> enrollment_row option" where
  "get_token k s = select_row tok_server k (enrollment_tokens s)"
definition put_token :: "enrollment_row \<Rightarrow> db \<Rightarrow> db" where
  "put_token r s = s\<lparr>enrollment_tokens := replace_row tok_server r (enrollment_tokens s)\<rparr>"

interpretation server_tbl: table_store servers get_server put_server srv_id
  by unfold_locales (simp_all add: get_server_def put_server_def)

interpretation token_tbl: table_store enrollment_tokens get_token put_token tok_server
  by unfold_locales (simp_all add: get_token_def put_token_def)

text \<open>The CHECKs of \<^verbatim>\<open>servers\<close>; \<^verbatim>\<open>btrim\<close> removes spaces only.\<close>

definition server_checks :: "server_row \<Rightarrow> bool" where
  "server_checks r \<longleftrightarrow>
     1 \<le> length (srv_id r) \<and> length (srv_id r) \<le> 128 \<and>
     1 \<le> length (srv_name r) \<and> length (srv_name r) \<le> 128 \<and>
     hd (srv_name r) \<noteq> CHR '' '' \<and> last (srv_name r) \<noteq> CHR '' '' \<and> \<not> list_ex control_byte (srv_name r) \<and>
     srv_protocol r = 1 \<and>
     (\<not> srv_active r \<longleftrightarrow> srv_revoked r \<noteq> None) \<and>
     (case srv_revoked r of None \<Rightarrow> True | Some t \<Rightarrow> srv_created r \<le> t) \<and>
     (case srv_heartbeat r of None \<Rightarrow> True | Some t \<Rightarrow> srv_created r \<le> t)"

definition validate_server_update :: "db \<Rightarrow> server_row \<Rightarrow> server_row \<Rightarrow> lease_error option" where
  "validate_server_update s old new =
     (if srv_id new \<noteq> srv_id old \<or> srv_owner new \<noteq> srv_owner old \<or> srv_name new \<noteq> srv_name old \<or>
         srv_protocol new \<noteq> srv_protocol old \<or> srv_created new \<noteq> srv_created old
      then raise_exception ''server identity is immutable''
      else if (case (srv_heartbeat old, srv_heartbeat new) of
                 (Some a, Some b) \<Rightarrow> b < a | (Some a, None) \<Rightarrow> True | _ \<Rightarrow> False)
      then raise_exception ''server heartbeat must be monotonic''
      else if srv_active new = srv_active old \<and> (\<not> srv_active new \<or> srv_revoked new \<noteq> None)
      then raise_exception ''invalid server transition''
      else if srv_active new \<noteq> srv_active old \<and> \<not> (srv_active old \<and> \<not> srv_active new \<and> srv_revoked new \<noteq> None)
      then raise_exception ''invalid server transition''
      else if \<not> server_checks new then check_violation ''servers_check''
      else None)"

definition update_server :: "string \<Rightarrow> (server_row \<Rightarrow> bool) \<Rightarrow> (server_row \<Rightarrow> server_row) \<Rightarrow> nat dbtx" where
  "update_server = update_row get_server put_server validate_server_update"

definition insert_server :: "server_row \<Rightarrow> unit dbtx" where
  "insert_server r s =
     (if \<not> server_checks r then Inl (PgError ''23514'' ''servers_check'')
      else if get_server (srv_id r) s \<noteq> None then Inl (unique_violation ''servers_pkey'')
      else Inr ((), s\<lparr>servers := servers s @ [r]\<rparr>))"

definition token_checks :: "enrollment_row \<Rightarrow> bool" where
  "token_checks r \<longleftrightarrow> length (tok_digest r) = 32 \<and> tok_issued r < tok_expires r \<and>
     (case tok_consumed r of None \<Rightarrow> True | Some t \<Rightarrow> tok_issued r \<le> t \<and> t \<le> tok_expires r)"

definition validate_server_enrollment_token_update :: "db \<Rightarrow> enrollment_row \<Rightarrow> enrollment_row \<Rightarrow> lease_error option" where
  "validate_server_enrollment_token_update s old new =
     (if tok_server new \<noteq> tok_server old then raise_exception ''enrollment token server is immutable''
      else if tok_consumed old \<noteq> None then raise_exception ''consumed enrollment token cannot change''
      else if tok_consumed new \<noteq> None \<and>
              (tok_digest new \<noteq> tok_digest old \<or> tok_issued new \<noteq> tok_issued old \<or> tok_expires new \<noteq> tok_expires old)
      then raise_exception ''enrollment token consumption must not alter issuance''
      else if \<not> token_checks new then check_violation ''server_enrollment_tokens_check''
      else None)"

definition update_token :: "string \<Rightarrow> (enrollment_row \<Rightarrow> bool) \<Rightarrow> (enrollment_row \<Rightarrow> enrollment_row) \<Rightarrow> nat dbtx" where
  "update_token = update_row get_token put_token validate_server_enrollment_token_update"

definition insert_token :: "enrollment_row \<Rightarrow> unit dbtx" where
  "insert_token r s =
     (if \<not> token_checks r then Inl (PgError ''23514'' ''server_enrollment_tokens_check'')
      else if get_token (tok_server r) s \<noteq> None then Inl (unique_violation ''server_enrollment_tokens_pkey'')
      else if get_server (tok_server r) s = None then Inl (PgError ''23503'' ''server_enrollment_tokens_server_id_fkey'')
      else Inr ((), s\<lparr>enrollment_tokens := enrollment_tokens s @ [r]\<rparr>))"

definition credential_checks :: "credential_row \<Rightarrow> bool" where
  "credential_checks c \<longleftrightarrow> 0 < cred_version c \<and> length (cred_digest c) = 32 \<and>
     (\<not> cred_active c \<longleftrightarrow> cred_revoked c \<noteq> None) \<and>
     (case cred_revoked c of None \<Rightarrow> True | Some t \<Rightarrow> cred_issued c \<le> t)"

definition validate_server_credential_update :: "credential_row \<Rightarrow> credential_row \<Rightarrow> lease_error option" where
  "validate_server_credential_update old new =
     (if cred_server new \<noteq> cred_server old \<or> cred_version new \<noteq> cred_version old \<or> cred_digest new \<noteq> cred_digest old \<or>
         cred_issued new \<noteq> cred_issued old
      then raise_exception ''server credential identity is immutable''
      else if \<not> cred_active old \<or> cred_active new \<or> cred_revoked new = None
      then raise_exception ''invalid server credential transition''
      else if \<not> credential_checks new then check_violation ''server_credentials_check''
      else None)"

text \<open>
  \<^verbatim>\<open>UPDATE server_credentials ... WHERE\<close>: every matching row, or none when one is refused.  A row is
  named by server and version, which \<^verbatim>\<open>UNIQUE (server_id, version)\<close> makes a key like its \<^verbatim>\<open>id\<close>.
\<close>

definition update_credentials :: "(credential_row \<Rightarrow> bool) \<Rightarrow> (credential_row \<Rightarrow> credential_row) \<Rightarrow> unit dbtx" where
  "update_credentials p f s =
     (case List.map_filter (\<lambda>c. if p c then validate_server_credential_update c (f c) else None) (credentials s) of
        e # _ \<Rightarrow> Inl e
      | [] \<Rightarrow> Inr ((), s\<lparr>credentials := map (\<lambda>c. if p c then f c else c) (credentials s)\<rparr>))"

lemma update_credentials_Inr [tx_simps]:
  "update_credentials p f s = Inr (x, t) \<longleftrightarrow>
     list_all (\<lambda>c. p c \<longrightarrow> validate_server_credential_update c (f c) = None) (credentials s) \<and>
     t = s\<lparr>credentials := map (\<lambda>c. if p c then f c else c) (credentials s)\<rparr>"
proof -
  have "List.map_filter (\<lambda>c. if p c then validate_server_credential_update c (f c) else None) cs = [] \<longleftrightarrow>
      list_all (\<lambda>c. p c \<longrightarrow> validate_server_credential_update c (f c) = None) cs" for cs
    by (induction cs) (auto split: option.splits)
  from this [of "credentials s"] show ?thesis unfolding update_credentials_def by (auto split: list.splits)
qed

definition insert_credential :: "credential_row \<Rightarrow> unit dbtx" where
  "insert_credential c s =
     (if \<not> credential_checks c then Inl (PgError ''23514'' ''server_credentials_check'')
      else if list_ex (\<lambda>d. cred_server d = cred_server c \<and> cred_version d = cred_version c) (credentials s)
      then Inl (unique_violation ''server_credentials_server_id_version_key'')
      else if cred_active c \<and> list_ex (\<lambda>d. cred_server d = cred_server c \<and> cred_active d) (credentials s)
      then Inl (unique_violation ''server_credentials_one_active_uq'')
      else if get_server (cred_server c) s = None then Inl (PgError ''23503'' ''server_credentials_server_id_fkey'')
      else Inr ((), s\<lparr>credentials := credentials s @ [c]\<rparr>))"

section \<open>Errors and audit rows\<close>

definition on_error :: "(lease_error \<Rightarrow> lease_error) \<Rightarrow> 'a dbtx \<Rightarrow> 'a dbtx" where
  "on_error h m s = (case m s of Inl e \<Rightarrow> Inl (h e) | Inr r \<Rightarrow> Inr r)"

definition isUniqueViolation :: "lease_error \<Rightarrow> bool" where
  "isUniqueViolation e = (case e of PgError code name \<Rightarrow> code = ''23505'' | _ \<Rightarrow> False)"

definition isForeignKeyViolation :: "lease_error \<Rightarrow> bool" where
  "isForeignKeyViolation e = (case e of PgError code name \<Rightarrow> code = ''23503'' | _ \<Rightarrow> False)"

record AuditActor =
  actor_type :: string
  actor_id :: string

definition AuditActor_valid :: "AuditActor \<Rightarrow> bool" where
  "AuditActor_valid a \<longleftrightarrow> \<not> length (actor_id a) > 128 \<and> actor_type a \<in> {''administrator'', ''agent'', ''system''}"

definition administratorActor :: "principal \<Rightarrow> AuditActor" where
  "administratorActor p = \<lparr>actor_type = ''administrator'', actor_id = pr_user p\<rparr>"

definition server_audit :: "AuditActor \<Rightarrow> string \<Rightarrow> string \<Rightarrow> int option \<Rightarrow> string \<Rightarrow> unit dbtx" where
  "server_audit actor action srv version reason =
     insertServerAuditEvent \<lparr>aud_actor_type = actor_type actor, aud_actor = actor_id actor, aud_action = action,
       aud_server = Some srv, aud_credential = version, aud_result = ''success'', aud_reason = reason\<rparr>"

definition lockActiveServer :: "string \<Rightarrow> string \<Rightarrow> unit dbtx" where
  "lockActiveServer srv owner =
     and_then (query (get_server srv)) (\<lambda>r. case r of
       None \<Rightarrow> fail ErrServerAuthorizationDenied
     | Some v \<Rightarrow> ensure (srv_owner v = owner \<and> srv_active v) ErrServerAuthorizationDenied)"

lemma lockActiveServer_Inr [tx_simps]:
  "lockActiveServer srv owner s = Inr (x, t) \<longleftrightarrow>
     t = s \<and> (\<exists>r. get_server srv s = Some r \<and> srv_owner r = owner \<and> srv_active r)"
  by (auto simp: lockActiveServer_def tx_simps split: option.splits)

section \<open>Registration and enrollment\<close>

record RegisterServerInput =
  in_ServerID :: string
  in_Name :: string
  in_ProtocolVersion :: int
  in_EnrollmentDigest :: digest
  in_EnrollmentTTLSeconds :: int

definition RegisterServerInput_valid :: "RegisterServerInput \<Rightarrow> string \<Rightarrow> bool" where
  "RegisterServerInput_valid i owner \<longleftrightarrow>
     Server_Validate \<lparr>server_ID = in_ServerID i, server_OwnerID = owner, server_Name = in_Name i,
       server_ProtocolVersion = in_ProtocolVersion i, server_Status = ''active'', server_CreatedAt = 10 ^ 9,
       server_RevokedAt = 0, server_LastHeartbeatAt = 0\<rparr> \<and>
     in_EnrollmentTTLSeconds i > 0 \<and> in_EnrollmentTTLSeconds i \<le> 3600"

definition seconds :: "int \<Rightarrow> int" where
  "seconds n = n * 10 ^ 9"

definition register_tx ::
  "principal \<Rightarrow> RegisterServerInput \<Rightarrow> (nat \<Rightarrow> int) \<Rightarrow> (lease_error + server_value \<times> int) dbtx" where
  "register_tx p i clock =
     seq (lockAdministratorSession (clock 0) p) (
     seq (on_error (\<lambda>e. if isUniqueViolation e \<or> isForeignKeyViolation e then ErrServerAuthorizationDenied else e)
        (insert_server \<lparr>srv_id = in_ServerID i, srv_owner = pr_owner p, srv_name = in_Name i,
           srv_protocol = in_ProtocolVersion i, srv_active = True, srv_created = clock 1, srv_revoked = None,
           srv_heartbeat = None\<rparr>)) (
     seq (insert_token \<lparr>tok_server = in_ServerID i, tok_digest = in_EnrollmentDigest i, tok_issued = clock 2,
           tok_expires = clock 3 + seconds (in_EnrollmentTTLSeconds i), tok_consumed = None\<rparr>) (
     seq (server_audit (administratorActor p) ''register'' (in_ServerID i) None [])
         (ret (Inr (\<lparr>server_ID = in_ServerID i, server_OwnerID = pr_owner p, server_Name = in_Name i,
            server_ProtocolVersion = in_ProtocolVersion i, server_Status = ''active'', server_CreatedAt = clock 1,
            server_RevokedAt = 0, server_LastHeartbeatAt = 0\<rparr>,
          clock 3 + seconds (in_EnrollmentTTLSeconds i)))))))"

definition RegisterServer ::
  "principal \<Rightarrow> RegisterServerInput \<Rightarrow> (nat \<Rightarrow> int) \<Rightarrow> db \<Rightarrow> (lease_error + server_value \<times> int) \<times> db" where
  "RegisterServer p i clock s =
     (if \<not> Principal_Validate p \<or> \<not> RegisterServerInput_valid i (pr_owner p) then (Inl ErrServerAuthorizationDenied, s)
      else run_tx (register_tx p i clock) s)"

definition issue_enrollment_tx ::
  "principal \<Rightarrow> string \<Rightarrow> digest \<Rightarrow> int \<Rightarrow> (nat \<Rightarrow> int) \<Rightarrow> (lease_error + int) dbtx" where
  "issue_enrollment_tx p srv d ttl clock =
     seq (lockAdministratorSession (clock 0) p) (
     seq (lockActiveServer srv (pr_owner p)) (
     and_then (query_row ErrServerAuthorizationDenied (get_token srv)) (\<lambda>tok.
     seq (ensure (tok_consumed tok = None) ErrServerAuthorizationDenied) (
     and_then (on_error (\<lambda>_. ErrServerAuthorizationDenied)
        (update_token srv (\<lambda>r. tok_consumed r = None)
          (\<lambda>r. r\<lparr>tok_digest := d, tok_issued := clock 1, tok_expires := clock 2 + seconds ttl\<rparr>))) (\<lambda>n.
     seq (ensure (n = 1) ErrServerAuthorizationDenied) (
     seq (server_audit (administratorActor p) ''enrollment_issued'' srv None [])
         (ret (Inr (clock 2 + seconds ttl)))))))))"

definition IssueEnrollment ::
  "principal \<Rightarrow> string \<Rightarrow> digest \<Rightarrow> int \<Rightarrow> (nat \<Rightarrow> int) \<Rightarrow> db \<Rightarrow> (lease_error + int) \<times> db" where
  "IssueEnrollment p srv d ttl clock s =
     (if \<not> Principal_Validate p \<or> \<not> ValidOpaqueID srv \<or> ttl \<le> 0 \<or> ttl > 3600 then (Inl ErrServerAuthorizationDenied, s)
      else run_tx (issue_enrollment_tx p srv d ttl clock) s)"

text \<open>
  The digest comparison also runs, against a fixed digest, when no server or token was found; the
  acceptance requires that both were, so only its timing depends on that digest.
\<close>

definition enroll_tx ::
  "string \<Rightarrow> digest \<Rightarrow> digest \<Rightarrow> (nat \<Rightarrow> int) \<Rightarrow> (lease_error + int) dbtx" where
  "enroll_tx srv enrollment credential clock =
     and_then (query (get_server srv)) (\<lambda>server.
     and_then (query (get_token srv)) (\<lambda>token.
     let foundServer = (case server of None \<Rightarrow> False | Some r \<Rightarrow> srv_active r);
         found = (if foundServer then token else None) in
     (case found of
        None \<Rightarrow> fail ErrServerAuthorizationDenied
      | Some tok \<Rightarrow>
          seq (ensure (tok_consumed tok = None \<and> clock 0 < tok_expires tok \<and>
                       ConstantTimeEqualDigest (tok_digest tok) enrollment) ErrServerAuthorizationDenied) (
          seq (update_token srv (\<lambda>r. tok_consumed r = None) (\<lambda>r. r\<lparr>tok_consumed := Some (clock 0)\<rparr>)) (
          seq (on_error (\<lambda>e. if isUniqueViolation e then ErrServerAuthorizationDenied else e)
             (insert_credential \<lparr>cred_server = srv, cred_version = 1, cred_digest = credential, cred_active = True,
                cred_issued = clock 1, cred_revoked = None\<rparr>)) (
          seq (server_audit \<lparr>actor_type = ''agent'', actor_id = srv\<rparr> ''enrolled'' srv (Some 1) [])
              (ret (Inr 1))))))))"

definition Enroll ::
  "string \<Rightarrow> digest \<Rightarrow> digest \<Rightarrow> (nat \<Rightarrow> int) \<Rightarrow> db \<Rightarrow> (lease_error + int) \<times> db" where
  "Enroll srv enrollment credential clock s =
     (if \<not> ValidOpaqueID srv then (Inl ErrServerAuthorizationDenied, s)
      else run_tx (enroll_tx srv enrollment credential clock) s)"

section \<open>Rotation and revocation\<close>

definition active_credential_row :: "string \<Rightarrow> db \<Rightarrow> credential_row option" where
  "active_credential_row srv s = find (\<lambda>c. cred_server c = srv \<and> cred_active c) (credentials s)"

definition revoked_credential :: "int \<Rightarrow> credential_row \<Rightarrow> credential_row" where
  "revoked_credential now c = c\<lparr>cred_active := False, cred_revoked := Some now\<rparr>"

definition revoked_server :: "int \<Rightarrow> server_row \<Rightarrow> server_row" where
  "revoked_server now r = r\<lparr>srv_active := False, srv_revoked := Some now\<rparr>"

definition rotate_tx :: "principal \<Rightarrow> string \<Rightarrow> digest \<Rightarrow> (nat \<Rightarrow> int) \<Rightarrow> (lease_error + int) dbtx" where
  "rotate_tx p srv d clock =
     seq (lockAdministratorSession (clock 0) p) (
     seq (lockActiveServer srv (pr_owner p)) (
     and_then (query_row ErrServerAuthorizationDenied (active_credential_row srv)) (\<lambda>active.
     seq (update_credentials (\<lambda>c. cred_server c = srv \<and> cred_version c = cred_version active) (revoked_credential (clock 1))) (
     seq (on_error (\<lambda>e. if isUniqueViolation e then ErrServerAuthorizationDenied else e)
        (insert_credential \<lparr>cred_server = srv, cred_version = cred_version active + 1, cred_digest = d,
           cred_active = True, cred_issued = clock 2, cred_revoked = None\<rparr>)) (
     seq (server_audit (administratorActor p) ''credential_rotated'' srv (Some (cred_version active + 1)) [])
         (ret (Inr (cred_version active + 1))))))))"

definition RotateCredential ::
  "principal \<Rightarrow> string \<Rightarrow> digest \<Rightarrow> (nat \<Rightarrow> int) \<Rightarrow> db \<Rightarrow> (lease_error + int) \<times> db" where
  "RotateCredential p srv d clock s =
     (if \<not> Principal_Validate p \<or> \<not> ValidOpaqueID srv then (Inl ErrServerAuthorizationDenied, s)
      else run_tx (rotate_tx p srv d clock) s)"

definition revoke_accounts_tx :: "principal \<Rightarrow> string \<Rightarrow> (nat \<Rightarrow> int) \<Rightarrow> unit dbtx" where
  "revoke_accounts_tx p srv clock =
     seq (lockAdministratorSession (clock 0) p) (
     seq (lockActiveServer srv (pr_owner p)) (
     and_then (update_server srv (\<lambda>r. srv_owner r = pr_owner p \<and> srv_active r)
        (revoked_server (clock 1))) (\<lambda>n.
     seq (ensure (n = 1) ErrServerAuthorizationDenied)
         (update_credentials (\<lambda>c. cred_server c = srv \<and> cred_active c) (revoked_credential (clock 2))))))"

definition revoke_server_tx ::
  "(int \<Rightarrow> nat) \<Rightarrow> principal \<Rightarrow> string \<Rightarrow> string \<Rightarrow> (nat \<Rightarrow> int) \<Rightarrow> (lease_error + unit) dbtx" where
  "revoke_server_tx draw p srv reason clock =
     seq (revoke_accounts_tx p srv clock) (
     seq (revokeInFlightLeases draw srv (clock 3)) (
     seq (server_audit (administratorActor p) ''server_revoked'' srv None reason)
         (ret (Inr ()))))"

definition RevokeServer ::
  "(int \<Rightarrow> nat) \<Rightarrow> principal \<Rightarrow> string \<Rightarrow> string \<Rightarrow> (nat \<Rightarrow> int) \<Rightarrow> db \<Rightarrow> (lease_error + unit) \<times> db" where
  "RevokeServer draw p srv reason clock s =
     (if \<not> Principal_Validate p \<or> \<not> ValidOpaqueID srv \<or> \<not> validReason reason then (Inl ErrServerAuthorizationDenied, s)
      else run_tx (revoke_server_tx draw p srv reason clock) s)"

section \<open>Authentication, heartbeats and the server list\<close>

record AuthenticatedServer =
  as_ServerID :: string
  as_OwnerID :: string
  as_CredentialVersion :: int

definition Authenticate :: "string \<Rightarrow> digest \<Rightarrow> db \<Rightarrow> (lease_error + AuthenticatedServer) \<times> db" where
  "Authenticate srv presented s =
     (if \<not> ValidOpaqueID srv then (Inl ErrServerAuthorizationDenied, s)
      else run_tx (
        and_then (query (get_server srv)) (\<lambda>server.
        and_then (query (active_credential_row srv)) (\<lambda>credential. case server of
          None \<Rightarrow> fail ErrServerAuthorizationDenied
        | Some r \<Rightarrow> if \<not> srv_active r then fail ErrServerAuthorizationDenied
            else (case credential of
              None \<Rightarrow> fail ErrServerAuthorizationDenied
            | Some c \<Rightarrow>
                seq (ensure (ConstantTimeEqualDigest (cred_digest c) presented) ErrServerAuthorizationDenied)
                  (ret (Inr \<lparr>as_ServerID = srv, as_OwnerID = srv_owner r, as_CredentialVersion = cred_version c\<rparr>)))))) s)"

definition heartbeat_tx :: "string \<Rightarrow> digest \<Rightarrow> (nat \<Rightarrow> int) \<Rightarrow> (lease_error + unit) dbtx" where
  "heartbeat_tx srv presented clock =
     and_then (query (get_server srv)) (\<lambda>server.
     and_then (query (active_credential_row srv)) (\<lambda>credential. case server of
       None \<Rightarrow> fail ErrServerAuthorizationDenied
     | Some r \<Rightarrow> if \<not> srv_active r then fail ErrServerAuthorizationDenied
         else (case credential of
           None \<Rightarrow> fail ErrServerAuthorizationDenied
         | Some c \<Rightarrow>
             seq (ensure (ConstantTimeEqualDigest (cred_digest c) presented) ErrServerAuthorizationDenied) (
             seq (update_server srv (\<lambda>_. True) (\<lambda>v. v\<lparr>srv_heartbeat :=
                    Some (max (case srv_heartbeat v of None \<Rightarrow> clock 0 | Some t \<Rightarrow> t) (clock 1))\<rparr>))
               (ret (Inr ()))))))"

definition Heartbeat :: "string \<Rightarrow> digest \<Rightarrow> (nat \<Rightarrow> int) \<Rightarrow> db \<Rightarrow> (lease_error + unit) \<times> db" where
  "Heartbeat srv presented clock s =
     (if \<not> ValidOpaqueID srv then (Inl ErrServerAuthorizationDenied, s)
      else run_tx (heartbeat_tx srv presented clock) s)"

datatype EnrollmentState = EnrollmentNone | EnrollmentPending | EnrollmentConsumed | EnrollmentExpired

record ServerSummary =
  sum_ID :: string
  sum_Name :: string
  sum_Active :: bool
  sum_CreatedAt :: int
  sum_LastHeartbeatAt :: int
  sum_ActiveCredentialVersion :: int
  sum_Enrollment :: EnrollmentState

definition enrollment_state :: "int \<Rightarrow> enrollment_row option \<Rightarrow> EnrollmentState" where
  "enrollment_state now tok = (case tok of
       None \<Rightarrow> EnrollmentNone
     | Some t \<Rightarrow> if tok_consumed t \<noteq> None then EnrollmentConsumed
         else if now < tok_expires t then EnrollmentPending else EnrollmentExpired)"

text \<open>A \<^verbatim>\<open>LEFT JOIN\<close>: the matching rows, or one absent row.\<close>

definition left_join :: "'a list \<Rightarrow> 'a option list" where
  "left_join xs = (if xs = [] then [None] else map Some xs)"

definition server_summaries :: "string \<Rightarrow> int \<Rightarrow> db \<Rightarrow> ServerSummary list" where
  "server_summaries owner now s =
     concat (map (\<lambda>r. concat (map (\<lambda>c. map (\<lambda>tok.
         \<lparr>sum_ID = srv_id r, sum_Name = srv_name r, sum_Active = srv_active r, sum_CreatedAt = srv_created r,
          sum_LastHeartbeatAt = (case srv_heartbeat r of None \<Rightarrow> 0 | Some t \<Rightarrow> t),
          sum_ActiveCredentialVersion = (case c of None \<Rightarrow> 0 | Some v \<Rightarrow> cred_version v),
          sum_Enrollment = enrollment_state now tok\<rparr>)
         (left_join (filter (\<lambda>t. tok_server t = srv_id r) (enrollment_tokens s))))
       (left_join (filter (\<lambda>c. cred_server c = srv_id r \<and> cred_active c) (credentials s)))))
     (sort_key (\<lambda>r. (- srv_created r, srv_id r)) (filter (\<lambda>r. srv_owner r = owner) (servers s))))"

definition ListServers :: "principal \<Rightarrow> (nat \<Rightarrow> int) \<Rightarrow> db \<Rightarrow> (lease_error + ServerSummary list) \<times> db" where
  "ListServers p clock s =
     (if \<not> Principal_Validate p then (Inl ErrServerAuthorizationDenied, s)
      else run_tx (seq (lockAdministratorSession (clock 0) p)
             (and_then (query (server_summaries (pr_owner p) (clock 1))) (\<lambda>xs. ret (Inr xs)))) s)"

end
