(* ===== verification/Server_Accounts.thy ===== *)
theory Server_Accounts
  imports Server_Repository
begin

text \<open>
  What every operation of the server repository keeps: the rows of the lease tables, the keys and
  indexes of the account tables, and the one-way life of servers, credentials and tokens.
\<close>

section \<open>Well-formed accounts and their history\<close>

definition accounts_ok :: "db \<Rightarrow> bool" where
  "accounts_ok s \<longleftrightarrow>
     distinct (map srv_id (servers s)) \<and> distinct (map tok_server (enrollment_tokens s)) \<and>
     distinct (map (\<lambda>c. (cred_server c, cred_version c)) (credentials s)) \<and>
     distinct (map cred_server (filter cred_active (credentials s))) \<and>
     list_all server_checks (servers s) \<and> list_all token_checks (enrollment_tokens s) \<and>
     list_all credential_checks (credentials s)"

definition server_follows :: "server_row \<Rightarrow> server_row \<Rightarrow> bool" where
  "server_follows r q \<longleftrightarrow> srv_id q = srv_id r \<and> srv_owner q = srv_owner r \<and> srv_name q = srv_name r \<and>
     srv_created q = srv_created r \<and> (\<not> srv_active r \<longrightarrow> q = r) \<and>
     (\<forall>t. srv_heartbeat r = Some t \<longrightarrow> (\<exists>u. srv_heartbeat q = Some u \<and> t \<le> u))"

definition token_follows :: "enrollment_row \<Rightarrow> enrollment_row \<Rightarrow> bool" where
  "token_follows r q \<longleftrightarrow> tok_server q = tok_server r \<and> (tok_consumed r \<noteq> None \<longrightarrow> q = r)"

definition credential_follows :: "credential_row \<Rightarrow> credential_row \<Rightarrow> bool" where
  "credential_follows c d \<longleftrightarrow> cred_server d = cred_server c \<and> cred_version d = cred_version c \<and>
     cred_digest d = cred_digest c \<and> (\<not> cred_active c \<longrightarrow> d = c)"

definition credentials_follow :: "db \<Rightarrow> db \<Rightarrow> bool" where
  "credentials_follow s t \<longleftrightarrow>
     (\<exists>old new. credentials t = old @ new \<and> list_all2 credential_follows (credentials s) old)"

definition accounts_follow :: "db \<Rightarrow> db \<Rightarrow> bool" where
  "accounts_follow s t \<longleftrightarrow> rows_follow get_server server_follows s t \<and> rows_follow get_token token_follows s t \<and>
     credentials_follow s t"

definition accounts_only :: "db \<Rightarrow> db \<Rightarrow> bool" where
  "accounts_only s t \<longleftrightarrow> (\<exists>srvs creds toks auds. t = s\<lparr>servers := srvs, credentials := creds,
     enrollment_tokens := toks, audits := audits s @ auds\<rparr>)"

definition accounts_step :: "db \<Rightarrow> db \<Rightarrow> bool" where
  "accounts_step s t \<longleftrightarrow> accounts_only s t \<and> accounts_follow s t \<and> (accounts_ok s \<longrightarrow> accounts_ok t)"

lemma account_follows_refl [simp]: "server_follows r r" "token_follows k k" "credential_follows c c"
  by (simp_all add: server_follows_def token_follows_def credential_follows_def)

lemma server_follows_trans: "server_follows p q \<Longrightarrow> server_follows q r \<Longrightarrow> server_follows p r"
  unfolding server_follows_def by (metis order_trans)

lemma token_follows_trans: "token_follows p q \<Longrightarrow> token_follows q r \<Longrightarrow> token_follows p r"
  unfolding token_follows_def by metis

lemma credential_follows_trans: "credential_follows p q \<Longrightarrow> credential_follows q r \<Longrightarrow> credential_follows p r"
  unfolding credential_follows_def by metis

lemma credentials_follow_trans:
  assumes "credentials_follow s t" "credentials_follow t u"
  shows "credentials_follow s u"
proof -
  from assms obtain old new old' new' where e: "credentials t = old @ new" "list_all2 credential_follows (credentials s) old"
    "credentials u = old' @ new'" "list_all2 credential_follows (old @ new) old'"
    unfolding credentials_follow_def by metis
  from e(4) obtain a b where ab: "old' = a @ b" "list_all2 credential_follows old a" by (auto simp: list_all2_append1)
  from credential_follows_trans e(2) ab(2) have "list_all2 credential_follows (credentials s) a" by (rule list_all2_trans)
  with e(3) ab(1) show ?thesis unfolding credentials_follow_def by auto
qed

lemma accounts_follow_refl: "accounts_follow s s"
proof -
  have "list_all2 credential_follows (credentials s) (credentials s)" by (simp add: list_all2_refl)
  then show ?thesis unfolding accounts_follow_def credentials_follow_def
    by (metis append_Nil2 account_follows_refl(1,2) rows_follow_refl)
qed

lemma accounts_follow_trans:
  assumes "accounts_follow s t" "accounts_follow t u"
  shows "accounts_follow s u"
proof -
  have "rows_follow get_server server_follows s u"
    using rows_follow_trans [of get_server server_follows s t u] server_follows_trans assms unfolding accounts_follow_def by blast
  moreover have "rows_follow get_token token_follows s u"
    using rows_follow_trans [of get_token token_follows s t u] token_follows_trans assms unfolding accounts_follow_def by blast
  ultimately show ?thesis using assms credentials_follow_trans unfolding accounts_follow_def by blast
qed

lemma accounts_only_refl: "accounts_only s s"
  unfolding accounts_only_def by (rule exI [of _ "servers s"], rule exI [of _ "credentials s"], rule exI [of _ "enrollment_tokens s"], rule exI [of _ "[]"]) simp

lemma accounts_only_trans: "accounts_only s t \<Longrightarrow> accounts_only t u \<Longrightarrow> accounts_only s u"
  unfolding accounts_only_def by fastforce

interpretation accounts: committed_relation accounts_step
proof unfold_locales
  show "accounts_step s s" for s by (simp add: accounts_step_def accounts_follow_refl accounts_only_refl)
  show "accounts_step s t \<Longrightarrow> accounts_step t u \<Longrightarrow> accounts_step s u" for s t u
    unfolding accounts_step_def using accounts_follow_trans accounts_only_trans by blast
qed

section \<open>Statements\<close>

lemma accounts_stepI:
  assumes "accounts_only s t" "rows_follow get_server server_follows s t" "rows_follow get_token token_follows s t"
    "credentials_follow s t" "accounts_ok s \<Longrightarrow> accounts_ok t"
  shows "accounts_step s t"
  using assms by (simp add: accounts_step_def accounts_follow_def)

lemma same_rows_follow:
  "servers t = servers s \<Longrightarrow> rows_follow get_server server_follows s t"
  "enrollment_tokens t = enrollment_tokens s \<Longrightarrow> rows_follow get_token token_follows s t"
  "credentials t = credentials s \<Longrightarrow> credentials_follow s t"
  using accounts_follow_refl [of s]
  by (auto simp: accounts_follow_def rows_follow_def get_server_def get_token_def credentials_follow_def)

lemma one_table_writes:
  "accounts_only s (s\<lparr>servers := srvs\<rparr>)" "accounts_only s (s\<lparr>credentials := creds\<rparr>)"
  "accounts_only s (s\<lparr>enrollment_tokens := toks\<rparr>)" "accounts_only s (s\<lparr>audits := audits s @ auds\<rparr>)"
proof -
  have "s\<lparr>servers := srvs\<rparr> = s\<lparr>servers := srvs, credentials := credentials s, enrollment_tokens := enrollment_tokens s, audits := audits s @ []\<rparr>"
    "s\<lparr>credentials := creds\<rparr> = s\<lparr>servers := servers s, credentials := creds, enrollment_tokens := enrollment_tokens s, audits := audits s @ []\<rparr>"
    "s\<lparr>enrollment_tokens := toks\<rparr> = s\<lparr>servers := servers s, credentials := credentials s, enrollment_tokens := toks, audits := audits s @ []\<rparr>"
    "s\<lparr>audits := audits s @ auds\<rparr> = s\<lparr>servers := servers s, credentials := credentials s, enrollment_tokens := enrollment_tokens s, audits := audits s @ auds\<rparr>"
    by simp_all
  then show "accounts_only s (s\<lparr>servers := srvs\<rparr>)" "accounts_only s (s\<lparr>credentials := creds\<rparr>)"
    "accounts_only s (s\<lparr>enrollment_tokens := toks\<rparr>)" "accounts_only s (s\<lparr>audits := audits s @ auds\<rparr>)"
    unfolding accounts_only_def by blast+
qed

lemma one_table_steps:
  "rows_follow get_server server_follows s (s\<lparr>servers := srvs\<rparr>) \<Longrightarrow> (accounts_ok s \<Longrightarrow> accounts_ok (s\<lparr>servers := srvs\<rparr>)) \<Longrightarrow>
     accounts_step s (s\<lparr>servers := srvs\<rparr>)"
  "rows_follow get_token token_follows s (s\<lparr>enrollment_tokens := toks\<rparr>) \<Longrightarrow>
     (accounts_ok s \<Longrightarrow> accounts_ok (s\<lparr>enrollment_tokens := toks\<rparr>)) \<Longrightarrow> accounts_step s (s\<lparr>enrollment_tokens := toks\<rparr>)"
  "credentials_follow s (s\<lparr>credentials := creds\<rparr>) \<Longrightarrow> (accounts_ok s \<Longrightarrow> accounts_ok (s\<lparr>credentials := creds\<rparr>)) \<Longrightarrow>
     accounts_step s (s\<lparr>credentials := creds\<rparr>)"
  "accounts_step s (s\<lparr>audits := audits s @ auds\<rparr>)"
  by (rule accounts_stepI; simp add: one_table_writes same_rows_follow accounts_ok_def)+

lemma update_server_accounts: "accounts.keeps (update_server k p f)"
proof (rule accounts.keepsI)
  fix s n t assume "update_server k p f s = Inr (n, t)"
  then consider "t = s" | r where "get_server k s = Some r" "validate_server_update s r (f r) = None" "t = put_server (f r) s"
    by (auto simp: update_server_def tx_simps split: option.splits if_splits)
  then show "accounts_step s t"
  proof cases
    case (2 r)
    from 2(2) have v: "srv_id (f r) = srv_id r" "server_follows r (f r)" "server_checks (f r)"
      by (auto simp: validate_server_update_def not_refused server_follows_def split: option.splits)
    have key: "srv_id r = k" using server_tbl.get_key [OF 2(1)] .
    show ?thesis unfolding 2(3) put_server_def
    proof (rule one_table_steps(1))
      show "rows_follow get_server server_follows s (s\<lparr>servers := replace_row srv_id (f r) (servers s)\<rparr>)"
        using server_tbl.put_follows [of server_follows "f r" s r] v key 2(1) by (simp add: put_server_def)
      show "accounts_ok s \<Longrightarrow> accounts_ok (s\<lparr>servers := replace_row srv_id (f r) (servers s)\<rparr>)"
        using v(3) by (auto simp: accounts_ok_def keys_replace_row list_all_iff dest!: set_replace_row)
    qed
  qed (simp add: accounts.refl)
qed

lemma update_token_accounts: "accounts.keeps (update_token k p f)"
proof (rule accounts.keepsI)
  fix s n t assume "update_token k p f s = Inr (n, t)"
  then consider "t = s" | r where "get_token k s = Some r" "validate_server_enrollment_token_update s r (f r) = None"
      "t = put_token (f r) s"
    by (auto simp: update_token_def tx_simps split: option.splits if_splits)
  then show "accounts_step s t"
  proof cases
    case (2 r)
    from 2(2) have v: "tok_server (f r) = tok_server r" "token_follows r (f r)" "token_checks (f r)"
      by (auto simp: validate_server_enrollment_token_update_def not_refused token_follows_def)
    have key: "tok_server r = k" using token_tbl.get_key [OF 2(1)] .
    show ?thesis unfolding 2(3) put_token_def
    proof (rule one_table_steps(2))
      show "rows_follow get_token token_follows s (s\<lparr>enrollment_tokens := replace_row tok_server (f r) (enrollment_tokens s)\<rparr>)"
        using token_tbl.put_follows [of token_follows "f r" s r] v key 2(1) by (simp add: put_token_def)
      show "accounts_ok s \<Longrightarrow> accounts_ok (s\<lparr>enrollment_tokens := replace_row tok_server (f r) (enrollment_tokens s)\<rparr>)"
        using v(3) by (auto simp: accounts_ok_def keys_replace_row list_all_iff dest!: set_replace_row)
    qed
  qed (simp add: accounts.refl)
qed

lemma inserts_accounts:
  "accounts.keeps (insert_server r)" "accounts.keeps (insert_token k)" "accounts.keeps (insertServerAuditEvent a)"
proof -
  show "accounts.keeps (insert_server r)"
    by (rule accounts.keepsI)
      (auto simp: insert_server_def accounts_ok_def get_server_def select_row_None split: if_splits
        intro!: one_table_steps(1) server_tbl.append_follows)
  show "accounts.keeps (insert_token k)"
    by (rule accounts.keepsI)
      (auto simp: insert_token_def accounts_ok_def get_token_def select_row_None split: if_splits
        intro!: one_table_steps(2) token_tbl.append_follows)
  show "accounts.keeps (insertServerAuditEvent a)"
    by (rule accounts.keepsI)
      (auto simp: insertServerAuditEvent_def intro: one_table_steps(4) split: if_splits)
qed

text \<open>Revoking credentials: every touched row was active and ends revoked, so no index can be violated.\<close>

lemma update_credentials_accounts: "accounts.keeps (update_credentials p f)"
proof (rule accounts.keepsI)
  fix s u t assume "update_credentials p f s = Inr (u, t)"
  then have acc: "\<And>c. c \<in> set (credentials s) \<Longrightarrow> p c \<Longrightarrow> validate_server_credential_update c (f c) = None"
    and t: "t = s\<lparr>credentials := map (\<lambda>c. if p c then f c else c) (credentials s)\<rparr>"
    by (simp_all add: tx_simps list_all_iff)
  from acc have v: "cred_server (f c) = cred_server c" "cred_version (f c) = cred_version c" "credential_follows c (f c)"
      "credential_checks (f c)" "\<not> cred_active (f c)" if "c \<in> set (credentials s)" "p c" for c
    using that by (auto simp: validate_server_credential_update_def not_refused credential_follows_def)
  let ?g = "\<lambda>c. if p c then f c else c"
  have "list_all2 credential_follows (credentials s) (map ?g (credentials s))"
    using v(3) by (auto simp: list_all2_conv_all_nth)
  then have follow: "credentials_follow s t"
    unfolding credentials_follow_def t by (intro exI [of _ "map ?g (credentials s)"] exI [of _ "[]"]) simp
  have keys: "map (\<lambda>c. (cred_server (?g c), cred_version (?g c))) (credentials s) = map (\<lambda>c. (cred_server c, cred_version c)) (credentials s)"
    using v by (auto intro: map_cong)
  then have key: "distinct (map (\<lambda>c. (cred_server c, cred_version c)) (map ?g (credentials s)))"
    if "distinct (map (\<lambda>c. (cred_server c, cred_version c)) (credentials s))"
    using that by (simp only: map_map comp_def)
  have active: "distinct (map cred_server (filter cred_active (map ?g cs)))"
    if "distinct (map cred_server (filter cred_active cs))" "set cs \<subseteq> set (credentials s)" for cs
    using that
  proof (induction cs)
    case (Cons c cs)
    have "cred_server ` set (filter cred_active (map ?g cs)) \<subseteq> cred_server ` set (filter cred_active cs)"
      using Cons.prems(2) v(5) by (auto split: if_splits)
    with Cons v(5) show ?case by (auto split: if_splits)
  qed simp
  show "accounts_step s t"
  proof (unfold t, rule one_table_steps(3))
    show "credentials_follow s (s\<lparr>credentials := map ?g (credentials s)\<rparr>)" using follow t by simp
    show "accounts_ok s \<Longrightarrow> accounts_ok (s\<lparr>credentials := map ?g (credentials s)\<rparr>)"
      using active [of "credentials s"] key v(4) by (auto simp: accounts_ok_def list_all_iff simp del: map_map)
  qed
qed

lemma insert_credential_accounts: "accounts.keeps (insert_credential c)"
proof (rule accounts.keepsI)
  fix s u t assume a: "insert_credential c s = Inr (u, t)"
  then have t: "t = s\<lparr>credentials := credentials s @ [c]\<rparr>"
    by (auto simp: insert_credential_def split: if_splits)
  have "credentials_follow s t"
    using accounts_follow_refl [of s] unfolding t by (auto simp: accounts_follow_def credentials_follow_def list_all2_refl)
  then show "accounts_step s t"
    unfolding t
  proof (rule one_table_steps(3))
    show "accounts_ok s \<Longrightarrow> accounts_ok (s\<lparr>credentials := credentials s @ [c]\<rparr>)"
      using a by (auto simp: insert_credential_def accounts_ok_def list_ex_iff split: if_splits)
  qed
qed

lemma on_error_kept: "accounts.keeps m \<Longrightarrow> accounts.keeps (on_error h m)"
  by (rule accounts.keepsI) (auto simp: on_error_def dest: accounts.keepsD split: sum.splits)

lemma account_reads:
  "accounts.keeps (lockAdministratorSession now p)" "accounts.keeps (lockActiveServer srv owner)"
proof -
  show "accounts.keeps (lockAdministratorSession now p)"
    by (rule accounts.keepsI) (simp add: tx_simps accounts.refl)
  show "accounts.keeps (lockActiveServer srv owner)"
    unfolding lockActiveServer_def by (intro accounts.keeps_intros)
qed

lemmas account_statements = update_server_accounts update_token_accounts inserts_accounts update_credentials_accounts
  insert_credential_accounts on_error_kept account_reads

section \<open>Operations\<close>

lemma operations_accounts:
  "accounts.keeps (register_tx p i clock)" "accounts.keeps (issue_enrollment_tx p srv d ttl clock)"
  "accounts.keeps (enroll_tx srv d e clock)" "accounts.keeps (rotate_tx p srv d clock)"
  "accounts.keeps (revoke_accounts_tx p srv clock)" "accounts.keeps (heartbeat_tx srv d clock)"
  unfolding register_tx_def issue_enrollment_tx_def enroll_tx_def rotate_tx_def revoke_accounts_tx_def heartbeat_tx_def
    server_audit_def
  by (intro accounts.keeps_intros account_statements)+

text \<open>
  The transactions of the repository that change the database, RevokeServer apart: it also writes the
  lease tables, and is split below into its account part, the closing of leases and its audit row.
\<close>

inductive server_step :: "db \<Rightarrow> db \<Rightarrow> bool" where
  register_step: "server_step s (snd (RegisterServer p i clock s))"
| issue_step: "server_step s (snd (IssueEnrollment p srv d ttl clock s))"
| enroll_step: "server_step s (snd (Enroll srv e d clock s))"
| rotate_step: "server_step s (snd (RotateCredential p srv d clock s))"
| heartbeat_step: "server_step s (snd (Heartbeat srv d clock s))"

lemma server_step_accounts: "server_step s t \<Longrightarrow> accounts_step s t"
  by (induction rule: server_step.induct)
    (auto simp: RegisterServer_def IssueEnrollment_def Enroll_def RotateCredential_def Heartbeat_def accounts.refl
      intro!: accounts.run_tx_kept operations_accounts)

text \<open>A revocation that commits, in its three parts.\<close>

lemma RevokeServer_parts:
  assumes "RevokeServer draw p srv reason clock s = (Inr (), t)"
  obtains u v where "revoke_accounts_tx p srv clock s = Inr ((), u)" "revokeInFlightLeases draw srv (clock 3) u = Inr ((), v)"
    "server_audit (administratorActor p) ''server_revoked'' srv None reason v = Inr ((), t)" "commit_checks t"
  using assms by (auto simp: RevokeServer_def revoke_server_tx_def run_tx_def tx_simps split: if_splits sum.splits prod.splits)

lemma RevokeServer_cases:
  "snd (RevokeServer draw p srv reason clock s) = s \<or> fst (RevokeServer draw p srv reason clock s) = Inr ()"
proof -
  have "r = Inr ()" if "revoke_server_tx draw p srv reason clock s = Inr (r, t)" for r t
    using that by (auto simp: revoke_server_tx_def tx_simps)
  then show ?thesis by (auto simp: RevokeServer_def run_tx_def split: if_splits sum.splits prod.splits)
qed

section \<open>Effects\<close>

lemma get_server_accounts: "accounts_follow s t \<Longrightarrow> get_server k s = Some r \<Longrightarrow> \<exists>q. get_server k t = Some q \<and> server_follows r q"
  unfolding accounts_follow_def by (blast dest: rows_followD)

text \<open>After the account part of a revocation the server is revoked and no credential of it is active.\<close>

lemma revoke_accounts_effect:
  assumes "revoke_accounts_tx p srv clock s = Inr ((), u)"
  shows "\<exists>r. get_server srv u = Some r \<and> \<not> srv_active r \<and> srv_owner r = pr_owner p \<and>
    list_all (\<lambda>c. cred_server c = srv \<longrightarrow> \<not> cred_active c) (credentials u)"
proof -
  let ?f = "revoked_server (clock 1)"
  from assms obtain v where v: "update_server srv (\<lambda>r. srv_owner r = pr_owner p \<and> srv_active r) ?f s = Inr (1, v)"
    and c: "update_credentials (\<lambda>c. cred_server c = srv \<and> cred_active c) (revoked_credential (clock 2)) v = Inr ((), u)"
    unfolding revoke_accounts_tx_def seq_Inr and_then_Inr ensure_Inr lockAdministratorSession_Inr lockActiveServer_Inr by blast
  obtain r where r: "get_server srv s = Some r" "srv_owner r = pr_owner p" "v = put_server (?f r) s"
    by (rule update_row_one [OF v [unfolded update_server_def] HOL.refl]) blast
  have v': "get_server srv v = Some (?f r)"
    using server_tbl.get_put_same [OF r(1), of "?f r"] server_tbl.get_key [OF r(1)] r(3) by (simp add: revoked_server_def)
  have "get_server srv u = get_server srv v" "credentials u =
      map (\<lambda>c. if cred_server c = srv \<and> cred_active c then revoked_credential (clock 2) c else c) (credentials v)"
    using c unfolding update_credentials_Inr by (simp_all add: get_server_def)
  moreover have "\<not> srv_active (?f r)" "srv_owner (?f r) = pr_owner p" using r(2) by (simp_all add: revoked_server_def)
  moreover have "list_all (\<lambda>c. cred_server c = srv \<longrightarrow> \<not> cred_active c)
      (map (\<lambda>c. if cred_server c = srv \<and> cred_active c then revoked_credential (clock 2) c else c) cs)" for cs
    by (induction cs) (simp_all add: revoked_credential_def)
  ultimately show ?thesis using v' by (intro exI [of _ "?f r"]) simp
qed

end
