(* ===== verification/Route_Heads.thy ===== *)
theory Route_Heads
  imports Server_Repository
begin

text \<open>
  The route-head repository (\<^verbatim>\<open>store/postgres/route_head_repository.go\<close>): reading an environment's
  route head and assigning its hostname, by compare and swap on the route revision.
\<close>

section \<open>Hostnames\<close>

text \<open>
  \<^verbatim>\<open>strings.ToLower\<close>.  On an ASCII string it lowers bytes; otherwise it maps \<^verbatim>\<open>unicode.ToLower\<close> over the
  runes and writes U+FFFD for an invalid byte.  Two runes outside ASCII have an ASCII letter as
  their lower case, U+0130 and U+212A; every other one stays outside ASCII, and is left as it is here, since
  no caller accepts a hostname with such a rune.
\<close>

definition lower_byte :: "char \<Rightarrow> char" where
  "lower_byte c = (if in_range 65 90 c then char_of (byte c + 32) else c)"

definition lower_rune :: "string \<Rightarrow> string" where
  "lower_rune r =
     (if \<not> valid_rune r then [char_of (239 :: nat), char_of (191 :: nat), char_of (189 :: nat)]
      else if map byte r = [196, 176] then ''i''
      else if map byte r = [226, 132, 170] then ''k''
      else map lower_byte r)"

definition ToLower :: "string \<Rightarrow> string" where
  "ToLower s = (if list_all (\<lambda>c. byte c < 128) s then map lower_byte s else concat (map lower_rune (runes s)))"

definition normalizeRouteHostname :: "string \<Rightarrow> string" where
  "normalizeRouteHostname hostname = ToLower hostname"

section \<open>Statements\<close>

record RouteHead =
  hd_EnvironmentID :: string
  hd_Hostname :: string
  hd_RouteRevision :: int
  hd_ActiveReleaseID :: string
  hd_ReconciliationRequired :: bool
  hd_CreatedAt :: int
  hd_UpdatedAt :: int

definition environmentOwnedBy :: "string \<Rightarrow> string \<Rightarrow> db \<Rightarrow> bool" where
  "environmentOwnedBy env owner s \<longleftrightarrow> list_ex (\<lambda>j. job_environment j = env \<and> job_owner j = owner) (jobs s)"

definition readRouteHead :: "string \<Rightarrow> db \<Rightarrow> RouteHead option" where
  "readRouteHead env s = map_option (\<lambda>h. \<lparr>hd_EnvironmentID = rh_environment h, hd_Hostname = rh_hostname h,
     hd_RouteRevision = rh_revision h, hd_ActiveReleaseID = (case rh_active h of None \<Rightarrow> [] | Some r \<Rightarrow> r),
     hd_ReconciliationRequired = rh_reconciling h, hd_CreatedAt = rh_created h, hd_UpdatedAt = rh_updated h\<rparr>) (get_head env s)"

definition insert_route_head :: "route_head_row \<Rightarrow> unit dbtx" where
  "insert_route_head h s =
     (if \<not> head_checks h then Inl (PgError ''23514'' ''route_heads_check'')
      else if get_head (rh_environment h) s \<noteq> None then Inl (unique_violation ''route_heads_pkey'')
      else if list_ex (\<lambda>g. rh_hostname g = rh_hostname h) (route_heads s) then Inl (unique_violation ''route_heads_hostname_key'')
      else Inr ((), s\<lparr>route_heads := route_heads s @ [h]\<rparr>))"

definition route_audit_checks :: "route_audit_row \<Rightarrow> bool" where
  "route_audit_checks a \<longleftrightarrow> ra_actor_type a = ''administrator'' \<and>
     1 \<le> length (ra_actor a) \<and> length (ra_actor a) \<le> 128 \<and> 1 \<le> length (ra_owner a) \<and> length (ra_owner a) \<le> 128 \<and>
     1 \<le> length (ra_environment a) \<and> length (ra_environment a) \<le> 128 \<and> ra_action a = ''hostname_assigned'' \<and>
     (case ra_hostname a of None \<Rightarrow> True | Some h \<Rightarrow> 1 \<le> length h \<and> length h \<le> 253) \<and>
     (case ra_revision a of None \<Rightarrow> True | Some n \<Rightarrow> 0 \<le> n) \<and>
     length (ra_reason a) \<le> 512 \<and> \<not> list_ex control_byte (ra_reason a) \<and>
     (ra_result a = ''success'' \<longleftrightarrow> ra_revision a \<noteq> None)"

definition insertRouteHeadAuditEvent :: "route_audit_row \<Rightarrow> unit dbtx" where
  "insertRouteHeadAuditEvent a s =
     (if \<not> route_audit_checks a then Inl (PgError ''23514'' ''route_head_audit_events_check'')
      else Inr ((), s\<lparr>route_audits := route_audits s @ [a]\<rparr>))"

definition assignment_audit :: "principal \<Rightarrow> string \<Rightarrow> string \<Rightarrow> int option \<Rightarrow> route_audit_row" where
  "assignment_audit p env hostname revision =
     \<lparr>ra_actor_type = actor_type (administratorActor p), ra_actor = actor_id (administratorActor p), ra_owner = pr_owner p,
      ra_environment = env, ra_action = ''hostname_assigned'', ra_hostname = Some hostname, ra_revision = revision,
      ra_result = (if revision = None then ''failure'' else ''success''), ra_reason = []\<rparr>"

section \<open>Operations\<close>

definition GetRouteHead :: "principal \<Rightarrow> string \<Rightarrow> (nat \<Rightarrow> int) \<Rightarrow> db \<Rightarrow> (lease_error + RouteHead option) \<times> db" where
  "GetRouteHead p env clock s =
     (if \<not> Principal_Validate p \<or> \<not> ValidOpaqueID env then (Inl ErrServerAuthorizationDenied, s)
      else run_tx (
        seq (lockAdministratorSession (clock 0) p) (
        and_then (query (environmentOwnedBy env (pr_owner p))) (\<lambda>owned.
        seq (ensure owned ErrServerAuthorizationDenied) (
        and_then (query (readRouteHead env)) (\<lambda>h. ret (Inr h)))))) s)"

definition createRouteHead :: "principal \<Rightarrow> string \<Rightarrow> string \<Rightarrow> (nat \<Rightarrow> int) \<Rightarrow> (lease_error + RouteHead) dbtx" where
  "createRouteHead p env hostname clock =
     seq (insert_route_head \<lparr>rh_environment = env, rh_hostname = hostname, rh_revision = 0, rh_active = None,
        rh_reconciling = False, rh_created = clock 1, rh_updated = clock 2\<rparr>) (
     seq (insertRouteHeadAuditEvent (assignment_audit p env hostname (Some 0))) (
     seq (insert_route_event \<lparr>rev_environment = env, rev_kind = RouteHostnameAssigned hostname, rev_revision = 0\<rparr>)
         (ret (Inr \<lparr>hd_EnvironmentID = env, hd_Hostname = hostname, hd_RouteRevision = 0, hd_ActiveReleaseID = [],
            hd_ReconciliationRequired = False, hd_CreatedAt = clock 1, hd_UpdatedAt = clock 2\<rparr>))))"

text \<open>A refusal decided from the locked row commits its audit row and answers with the error.\<close>

definition refuse_assignment :: "principal \<Rightarrow> string \<Rightarrow> string \<Rightarrow> lease_error \<Rightarrow> (lease_error + RouteHead) dbtx" where
  "refuse_assignment p env hostname e =
     seq (insertRouteHeadAuditEvent (assignment_audit p env hostname None)) (ret (Inl e))"

definition renamed_head :: "string \<Rightarrow> int \<Rightarrow> route_head_row \<Rightarrow> route_head_row" where
  "renamed_head hostname now h = h\<lparr>rh_hostname := hostname, rh_revision := rh_revision h + 1, rh_updated := now\<rparr>"

definition updateRouteHeadHostname ::
  "principal \<Rightarrow> string \<Rightarrow> string \<Rightarrow> int \<Rightarrow> (nat \<Rightarrow> int) \<Rightarrow> (lease_error + RouteHead) dbtx" where
  "updateRouteHeadHostname p env hostname expected clock =
     and_then (query (get_head env)) (\<lambda>found. case found of
       None \<Rightarrow> refuse_assignment p env hostname ErrRouteHeadNotFound
     | Some h \<Rightarrow>
         if rh_active h \<noteq> None \<and> rh_active h \<noteq> Some [] then refuse_assignment p env hostname ErrRouteHeadHostnameImmutable
         else if rh_revision h \<noteq> expected then refuse_assignment p env hostname ErrRouteHeadConflict
         else
           and_then (update_head env (\<lambda>_. True) (renamed_head hostname (clock 1))) (\<lambda>n.
           seq (ensure (n = 1) ErrNoRows) (
           seq (insertRouteHeadAuditEvent (assignment_audit p env hostname (Some (rh_revision h + 1)))) (
           seq (insert_route_event \<lparr>rev_environment = env, rev_kind = RouteHostnameAssigned hostname,
                  rev_revision = rh_revision h + 1\<rparr>)
               (ret (Inr \<lparr>hd_EnvironmentID = env, hd_Hostname = hostname, hd_RouteRevision = rh_revision h + 1,
                  hd_ActiveReleaseID = [], hd_ReconciliationRequired = False, hd_CreatedAt = rh_created h,
                  hd_UpdatedAt = clock 1\<rparr>))))))"

definition assign_tx ::
  "principal \<Rightarrow> string \<Rightarrow> string \<Rightarrow> int option \<Rightarrow> (nat \<Rightarrow> int) \<Rightarrow> (lease_error + RouteHead) dbtx" where
  "assign_tx p env hostname expected clock =
     seq (lockAdministratorSession (clock 0) p) (
     and_then (query (environmentOwnedBy env (pr_owner p))) (\<lambda>owned.
     seq (ensure owned ErrServerAuthorizationDenied)
       (case expected of
          None \<Rightarrow> createRouteHead p env hostname clock
        | Some n \<Rightarrow> updateRouteHeadHostname p env hostname n clock)))"

text \<open>
  A unique violation rolls back; then the failure is audited outside the transaction and the
  violation answered by name.
\<close>

definition violated_constraint :: "lease_error \<Rightarrow> lease_error" where
  "violated_constraint e = (if e = unique_violation ''route_heads_pkey'' then ErrRouteHeadAlreadyExists else ErrRouteHeadHostnameTaken)"

definition AssignRouteHostname ::
  "principal \<Rightarrow> string \<Rightarrow> string \<Rightarrow> int option \<Rightarrow> (nat \<Rightarrow> int) \<Rightarrow> db \<Rightarrow> (lease_error + RouteHead) \<times> db" where
  "AssignRouteHostname p env raw expected clock s =
     (let hostname = normalizeRouteHostname raw in
      if \<not> Principal_Validate p \<or> \<not> ValidOpaqueID env \<or> \<not> ValidRouteHostname hostname then (Inl ErrServerAuthorizationDenied, s)
      else if (case expected of None \<Rightarrow> False | Some n \<Rightarrow> n < 0) then (Inl ErrServerAuthorizationDenied, s)
      else (case run_tx (assign_tx p env hostname expected clock) s of
          (Inl e, t) \<Rightarrow> if isUniqueViolation e then run_tx (refuse_assignment p env hostname (violated_constraint e)) t
                       else (Inl e, t)
        | (Inr h, t) \<Rightarrow> (Inr h, t)))"

end
