(* ===== verification/Lease_System.thy ===== *)
theory Lease_System
  imports Lease_Occupancy Server_Accounts Route_Heads
begin

text \<open>
  The whole system: the steps of the lease repository interleaved with what the rest of the
  control plane does to the same tables, and what holds in every state reachable from an empty
  database.
\<close>

section \<open>Reachable states\<close>

text \<open>
  The surroundings: sessions, users, runtime configuration and secrets change at will; jobs are
  enqueued with their first event and deployments created; servers are registered, enrolled, rotated and revoked, and
  hostnames assigned, by the operations of their repositories.
\<close>

inductive outside_step :: "db \<Rightarrow> db \<Rightarrow> bool" where
  configure: "outside_step s (s\<lparr>sessions := sess, users := usrs, runtime_configs := cfgs, bindings := bs,
     secret_heads := shs, secret_versions := svs\<rparr>)"
| administer: "server_step s t \<Longrightarrow> outside_step s t"
| revoke: "outside_step s (snd (RevokeServer draw p srv reason clock s))"
| enqueue: "get_job (job_id j) s = None \<Longrightarrow> job_state j = JobQueued \<Longrightarrow> job_attempt_count j = 0 \<Longrightarrow>
     job_cancel_requested j = None \<Longrightarrow> outside_step s (s\<lparr>jobs := jobs s @ [j]\<rparr>)"
| enqueued: "outside_step s (s\<lparr>job_events := job_events s @
     [\<lparr>jev_job = k, jev_sequence = 1, jev_type = EvEnqueued, jev_attempt = None\<rparr>]\<rparr>)"
| create: "outside_step s (snd (Create d s))"
| assign: "outside_step s (snd (AssignRouteHostname p env raw expected clock s))"

definition system_step :: "db \<Rightarrow> db \<Rightarrow> bool" where
  "system_step s t \<longleftrightarrow> lease_step s t \<or> outside_step s t"

definition empty_db :: db where
  "empty_db = \<lparr>servers = [], credentials = [], enrollment_tokens = [], jobs = [], slots = [], attempts = [], next_attempt = 1,
     job_events = [], deployments = [], runtime_configs = [], bindings = [], secret_heads = [],
     secret_versions = [], executions = [], frozen_secrets = [], frozen_literals = [], releases = [],
     operations = [], next_operation = 1, route_heads = [], route_events = [], sessions = [], users = [],
     audits = [], route_audits = []\<rparr>"

inductive reachable :: "db \<Rightarrow> bool" where
  start: "reachable empty_db"
| step: "reachable s \<Longrightarrow> system_step s t \<Longrightarrow> reachable t"

inductive later :: "db \<Rightarrow> db \<Rightarrow> bool" where
  now: "later s s"
| after: "later s t \<Longrightarrow> system_step t u \<Longrightarrow> later s u"

lemma reachable_later: "later s t \<Longrightarrow> reachable s \<Longrightarrow> reachable t"
  by (induction rule: later.induct) (auto intro: reachable.step)

section \<open>Creating a deployment\<close>

lemma insert_deployment_grows: "insert_deployment d s = Inr (u, t) \<Longrightarrow> evolves s t"
  by (auto simp: insert_deployment_def evolves_defs follow_same intro!: deployment_tbl.append_follows split: if_splits)

lemma create_evolves: "history.keeps (createTx d)"
  unfolding createTx_def
  by (intro history.keeps_intros appendEvents_evolves history.keepsI) (rule insert_deployment_grows)

lemma create_keyed: "keys.keeps (createTx d)"
proof -
  have "keys.keeps (insert_deployment x)" for x
    by (rule keys.keepsI)
      (auto simp: insert_deployment_def keyed_def get_deployment_def select_row_None snap_id_def split: if_splits)
  then show ?thesis
    unfolding createTx_def appendEvents_def
    by (intro keys.keeps_intros insert_deployment_event_keyed)
qed

lemma create_neutral: "view.keeps (createTx d)"
proof -
  have "view.keeps (insert_deployment x)" for x
    by (rule view.keepsI) (auto simp: insert_deployment_def intro!: rows_view simp: same_lease_rows_def split: if_splits)
  then show ?thesis
    unfolding createTx_def appendEvents_def by (intro view.keeps_intros inserts_neutral(9))
qed

lemma create_indexed: "indexes.keeps (createTx d)"
proof -
  have "indexes.keeps (insert_deployment x)" for x
    by (rule indexes.keepsI) (auto simp: insert_deployment_def elim: indexed_same [rotated 2] split: if_splits)
  moreover have "indexes.keeps (insert_deployment_event k e)" for k e
    by (rule indexes.keepsI)
      (auto simp: insert_deployment_event_def indexed_def one_open_activation_def one_active_release_def split: option.splits)
  ultimately show ?thesis
    unfolding createTx_def appendEvents_def by (intro indexes.keeps_intros)
qed

lemma create_checked: "checks.keeps (createTx d)"
proof -
  have "checks.keeps (insert_deployment x)" for x
    by (rule checks.keepsI) (auto simp: insert_deployment_def elim: checked_same [rotated 2] split: if_splits)
  then show ?thesis
    unfolding createTx_def appendEvents_def by (intro checks.keeps_intros inserts_checked)
qed

lemma grows_refl: "grows s s"
  using history.refl [of s] by (simp add: evolves_def)

lemma grows_trans: "grows s t \<Longrightarrow> grows t u \<Longrightarrow> grows s u"
  unfolding grows_def
  by (elim conjE, intro conjI) (erule (1) rows_trans | erule (1) prefix_order.trans | simp)+

section \<open>Server accounts\<close>

text \<open>Writing only the account tables keeps whatever speaks of the other tables.\<close>

lemma accounts_only_keep:
  assumes "accounts_only s t"
  shows "grows s t" "keyed s \<Longrightarrow> keyed t" "indexed s \<Longrightarrow> indexed t" "checked s \<Longrightarrow> checked t"
    "occupied_properly s \<Longrightarrow> occupied_properly t" "commit_checks s = commit_checks t" "hosts_ok s \<Longrightarrow> hosts_ok t"
proof -
  from assms obtain srvs creds toks auds where t: "t = s\<lparr>servers := srvs, credentials := creds, enrollment_tokens := toks,
      audits := audits s @ auds\<rparr>" unfolding accounts_only_def by blast
  show "grows s t" by (auto simp: t grows_def follow_same)
  show "keyed s \<Longrightarrow> keyed t" by (simp add: t keyed_def)
  show "indexed s \<Longrightarrow> indexed t" by (erule indexed_same [rotated 2]) (simp_all add: t)
  show "checked s \<Longrightarrow> checked t" by (erule checked_same [rotated 2]) (simp_all add: t)
  show "occupied_properly s \<Longrightarrow> occupied_properly t"
    by (erule same_occupancy_proper [rotated]) (auto intro!: rows_view simp: same_lease_rows_def t)
  show "hosts_ok s \<Longrightarrow> hosts_ok t" by (simp add: t hosts_ok_def)
  have "get_release k t = get_release k s" for k by (simp add: t get_release_def)
  then show "commit_checks s = commit_checks t" by (simp add: commit_checks_def t cong: option.case_cong)
qed

text \<open>A server revocation is an account change, the closing of leases and an audit row.\<close>

lemma RevokeServer_path:
  "\<exists>u v. accounts_step s u \<and> lease_step u v \<and> accounts_step v (snd (RevokeServer draw p srv reason clock s))"
proof (cases "snd (RevokeServer draw p srv reason clock s) = s")
  case True
  have "lease_step s s" using ensure_slots_step [of s 0 "[]"] by (simp add: ensure_slots_def ret_def)
  with True accounts.refl show ?thesis by metis
next
  case False
  then have "RevokeServer draw p srv reason clock s = (Inr (), snd (RevokeServer draw p srv reason clock s))" (is "_ = (_, ?t)")
    using RevokeServer_cases [of draw p srv reason clock s] by (metis prod.collapse)
  then obtain u v where uv: "revoke_accounts_tx p srv clock s = Inr ((), u)" "revokeInFlightLeases draw srv (clock 3) u = Inr ((), v)"
    "server_audit (administratorActor p) ''server_revoked'' srv None reason v = Inr ((), ?t)" "commit_checks ?t"
    by (rule RevokeServer_parts)
  have "accounts_step s u" using accounts.keepsD [OF operations_accounts(5) uv(1)] .
  moreover have a: "accounts_step v ?t"
    using accounts.keepsD [OF inserts_accounts(3) uv(3) [unfolded server_audit_def]] .
  moreover have "commit_checks v" using uv(4) a accounts_only_keep(6) unfolding accounts_step_def by blast
  then have "lease_step u v"
    using revoke_step [of u draw srv "clock 3"] uv(2) by (simp add: run_tx_def and_then_def ret_def)
  ultimately show ?thesis by blast
qed

section \<open>Hostname assignment\<close>

text \<open>
  A relation kept by the statements of a hostname assignment is kept by the whole call, which may
  end in a second transaction.
\<close>

locale assignment_kept = committed_relation R for R :: "db \<Rightarrow> db \<Rightarrow> bool" +
  assumes insert_head_kept: "keeps (insert_route_head h)"
    and rename_kept: "keeps (update_head e p (renamed_head host now))"
    and route_event_kept: "keeps (insert_route_event ev)"
    and route_audit_kept: "keeps (insertRouteHeadAuditEvent a)"
begin

lemma session_kept: "keeps (lockAdministratorSession now p)"
  by (rule keepsI) (simp add: tx_simps refl)

lemma refuse_assignment_kept: "keeps (refuse_assignment p env h e)"
  unfolding refuse_assignment_def by (intro keeps_intros route_audit_kept)

lemma assign_tx_kept: "keeps (assign_tx p env h expected clock)"
  unfolding assign_tx_def createRouteHead_def updateRouteHeadHostname_def
  by (intro keeps_intros session_kept insert_head_kept rename_kept route_event_kept route_audit_kept refuse_assignment_kept)

lemma assign_kept: "R s (snd (AssignRouteHostname p env raw expected clock s))"
proof -
  have "R s (snd (run_tx (assign_tx p env h expected clock) s))" for h by (rule run_tx_kept [OF assign_tx_kept])
  then have "R s t" if "run_tx (assign_tx p env h expected clock) s = (x, t)" for h x t using that by (metis snd_conv)
  moreover have "R t (snd (run_tx (refuse_assignment p env h e) t))" for h e t by (rule run_tx_kept [OF refuse_assignment_kept])
  ultimately have "R s (snd (run_tx (refuse_assignment p env h e) t))"
      if "run_tx (assign_tx p env h expected clock) s = (x, t)" for h e x t using trans that by blast
  with \<open>\<And>h x t. run_tx (assign_tx p env h expected clock) s = (x, t) \<Longrightarrow> R s t\<close> show ?thesis
    by (auto simp: AssignRouteHostname_def Let_def refl split: prod.splits sum.splits)
qed

end

lemma head_inserts_keep:
  "history.keeps (insert_route_head h)" "history.keeps (insertRouteHeadAuditEvent a)"
  "keys.keeps (insert_route_head h)" "keys.keeps (insertRouteHeadAuditEvent a)"
  "indexes.keeps (insert_route_head h)" "indexes.keeps (insertRouteHeadAuditEvent a)"
  "checks.keeps (insert_route_head h)" "checks.keeps (insertRouteHeadAuditEvent a)"
  "view.keeps (insert_route_head h)" "view.keeps (insertRouteHeadAuditEvent a)"
proof -
  show "history.keeps (insert_route_head h)" "history.keeps (insertRouteHeadAuditEvent a)"
    by (rule history.keepsI; auto simp: insert_route_head_def insertRouteHeadAuditEvent_def evolves_defs follow_same
      intro!: head_tbl.append_follows split: if_splits)+
  show "keys.keeps (insert_route_head h)" "keys.keeps (insertRouteHeadAuditEvent a)"
    by (rule keys.keepsI; auto simp: insert_route_head_def insertRouteHeadAuditEvent_def keyed_def get_head_def select_row_None
      split: if_splits)+
  show "indexes.keeps (insert_route_head h)" "indexes.keeps (insertRouteHeadAuditEvent a)"
    by (rule indexes.keepsI; auto simp: insert_route_head_def insertRouteHeadAuditEvent_def elim: indexed_same [rotated 2]
      split: if_splits)+
  show "checks.keeps (insert_route_head h)" "checks.keeps (insertRouteHeadAuditEvent a)"
    by (rule checks.keepsI; auto simp: insert_route_head_def insertRouteHeadAuditEvent_def elim: checked_same [rotated 2]
      split: if_splits)+
  show "view.keeps (insert_route_head h)" "view.keeps (insertRouteHeadAuditEvent a)"
    by (rule view.keepsI; auto simp: insert_route_head_def insertRouteHeadAuditEvent_def same_lease_rows_def
      intro!: rows_view split: if_splits)+
qed

interpretation assign_history: assignment_kept evolves
  by unfold_locales (intro head_inserts_keep history.update_head_kept history.insert_route_event_kept)+

interpretation assign_keys: assignment_kept "\<lambda>s t. keyed s \<longrightarrow> keyed t"
  by unfold_locales (intro head_inserts_keep keys.update_head_kept keys.insert_route_event_kept)+

interpretation assign_indexes: assignment_kept "\<lambda>s t. indexed s \<longrightarrow> indexed t"
  by unfold_locales (intro head_inserts_keep indexes.update_head_kept indexes.insert_route_event_kept)+

interpretation assign_checks: assignment_kept "\<lambda>s t. checked s \<longrightarrow> checked t"
  by unfold_locales (intro head_inserts_keep checks.update_head_kept checks.insert_route_event_kept)+

interpretation assign_view: assignment_kept same_occupancy
  by unfold_locales (intro head_inserts_keep other_updates_neutral inserts_neutral)+

lemma insert_head_hosts: "hosts.keeps (insert_route_head h)" "hosts.keeps (insertRouteHeadAuditEvent a)"
proof -
  show "hosts.keeps (insertRouteHeadAuditEvent a)"
    by (rule hosts.keepsI) (auto simp: insertRouteHeadAuditEvent_def hosts_ok_def split: if_splits)
  show "hosts.keeps (insert_route_head h)"
  proof (rule hosts.keepsI, rule impI)
    fix s u t assume "insert_route_head h s = Inr (u, t)" "hosts_ok s"
    then have "head_checks h" "rh_environment h \<notin> rh_environment ` set (route_heads s)" "rh_hostname h \<notin> rh_hostname ` set (route_heads s)"
      "t = s\<lparr>route_heads := route_heads s @ [h]\<rparr>"
      by (force simp: insert_route_head_def get_head_def select_row_None list_ex_iff split: if_splits)+
    with \<open>hosts_ok s\<close> show "hosts_ok t" by (simp add: hosts_ok_def)
  qed
qed

interpretation assign_hosts: assignment_kept "\<lambda>s t. hosts_ok s \<longrightarrow> hosts_ok t"
  by unfold_locales (intro insert_head_hosts hosts.update_head_kept hosts.insert_route_event_kept)+

section \<open>What the surroundings keep\<close>

text \<open>
  What lease steps, account writes and assignments keep, every step from outside keeps; only job
  creation, the creation of deployments and changes of configuration remain to be looked at.
\<close>

lemma outside_grows: "outside_step s t \<Longrightarrow> grows s t"
proof (induction rule: outside_step.induct)
  case (create s d)
  have "evolves s (snd (Create d s))"
    unfolding Create_def by (intro history.run_tx_kept history.answered_kept create_evolves)
  then show ?case by (simp add: evolves_def)
next
  case (administer s t)
  then show ?case using server_step_accounts accounts_only_keep(1) unfolding accounts_step_def by blast
next
  case (revoke s draw p srv reason clock)
  from RevokeServer_path [of s draw p srv reason clock] obtain u v where "accounts_step s u" "lease_step u v"
    "accounts_step v (snd (RevokeServer draw p srv reason clock s))" by blast
  then show ?case
    using accounts_only_keep(1) history.step_kept grows_trans unfolding accounts_step_def evolves_def by meson
next
  case (assign s p env raw expected clock)
  then show ?case using assign_history.assign_kept unfolding evolves_def by blast
qed (auto simp: grows_def follow_same intro!: job_tbl.append_follows)

lemma outside_keyed: "outside_step s t \<Longrightarrow> keyed s \<Longrightarrow> keyed t"
proof (induction rule: outside_step.induct)
  case (create s d)
  then show ?case
    using keys.run_tx_kept [OF keys.answered_kept [OF create_keyed]] by (simp add: Create_def)
next
  case (administer s t)
  then show ?case using server_step_accounts accounts_only_keep(2) unfolding accounts_step_def by blast
next
  case (revoke s draw p srv reason clock)
  then show ?case using RevokeServer_path [of s draw p srv reason clock] keys.step_kept accounts_only_keep(2)
    unfolding accounts_step_def by blast
next
  case (assign s p env raw expected clock)
  then show ?case using assign_keys.assign_kept by blast
qed (auto simp: keyed_def get_job_def select_row_None)

lemma outside_indexed: "outside_step s t \<Longrightarrow> indexed s \<Longrightarrow> indexed t"
proof (induction rule: outside_step.induct)
  case (create s d)
  then show ?case
    using indexes.run_tx_kept [OF indexes.answered_kept [OF create_indexed]] by (simp add: Create_def)
next
  case (administer s t)
  then show ?case using server_step_accounts accounts_only_keep(3) unfolding accounts_step_def by blast
next
  case (revoke s draw p srv reason clock)
  then show ?case using RevokeServer_path [of s draw p srv reason clock] indexes.step_kept accounts_only_keep(3)
    unfolding accounts_step_def by blast
next
  case (assign s p env raw expected clock)
  then show ?case using assign_indexes.assign_kept by blast
qed (auto elim!: indexed_same [rotated 2])

lemma outside_checked: "outside_step s t \<Longrightarrow> checked s \<Longrightarrow> checked t"
proof (induction rule: outside_step.induct)
  case (create s d)
  then show ?case
    using checks.run_tx_kept [OF checks.answered_kept [OF create_checked]] by (simp add: Create_def)
next
  case (administer s t)
  then show ?case using server_step_accounts accounts_only_keep(4) unfolding accounts_step_def by blast
next
  case (revoke s draw p srv reason clock)
  then show ?case using RevokeServer_path [of s draw p srv reason clock] checks.step_kept accounts_only_keep(4)
    unfolding accounts_step_def by blast
next
  case (assign s p env raw expected clock)
  then show ?case using assign_checks.assign_kept by blast
qed (auto elim!: checked_same [rotated 2])

lemma fresh_job_move:
  assumes "occupancy_ok att slot job nxt" and "job i = None" and "\<not> jv_leased j"
  shows "occupancy_ok att slot (job(i \<mapsto> j)) nxt"
proof -
  have "av_job a \<noteq> i" if "att k = Some a" "av_leased a" for k a using occ_leased [OF assms(1) that] assms(2) by auto
  with assms show ?thesis unfolding occupancy_ok_def by (auto split: if_splits)
qed

lemma outside_occupancy: "outside_step s t \<Longrightarrow> keyed s \<Longrightarrow> occupied_properly s \<Longrightarrow> occupied_properly t"
proof (induction rule: outside_step.induct)
  case (administer s t)
  then show ?case using server_step_accounts accounts_only_keep(5) unfolding accounts_step_def by blast
next
  case (revoke s draw p srv reason clock)
  then show ?case using RevokeServer_path [of s draw p srv reason clock] step_occupancy accounts_only_keep(2,5)
    unfolding accounts_step_def by blast
next
  case (assign s p env raw expected clock)
  then show ?case using same_occupancy_proper assign_view.assign_kept by blast
next
  case (create s d)
  then show ?case
    using occupancy.run_tx_kept [OF answered_occupancy [OF view_keeps [OF create_neutral]]] by (simp add: Create_def)
next
  case (enqueue j s)
  have v: "att_of (s\<lparr>jobs := jobs s @ [j]\<rparr>) = att_of s" "slot_of (s\<lparr>jobs := jobs s @ [j]\<rparr>) = slot_of s"
    by (simp_all add: view_defs get_attempt_def get_slot_def fun_eq_iff)
  have j: "job_of (s\<lparr>jobs := jobs s @ [j]\<rparr>) = (job_of s)(job_id j \<mapsto> view_job j)"
    using enqueue(1) by (auto simp: job_of_def get_job_def fun_eq_iff select_row_append split: option.splits)
  show ?case
    unfolding occupied_properly_def v j
    using enqueue fresh_job_move [of "att_of s" "slot_of s" "job_of s" "next_attempt s" "job_id j" "view_job j"]
    by (simp add: occupied_properly_def job_of_def view_job_def)
qed (auto elim!: same_occupancy_proper [rotated] intro!: rows_view simp: same_lease_rows_def)

section \<open>Invariants of reachable states\<close>

lemma reachable_keyed: "reachable s \<Longrightarrow> keyed s"
proof (induction rule: reachable.induct)
  case (step s t)
  then show ?case using keys.step_kept outside_keyed by (auto simp: system_step_def)
qed (simp add: empty_db_def keyed_def)

lemma reachable_indexed: "reachable s \<Longrightarrow> indexed s"
proof (induction rule: reachable.induct)
  case (step s t)
  then show ?case using indexes.step_kept outside_indexed by (auto simp: system_step_def)
qed (simp add: empty_db_def indexed_def one_open_activation_def one_active_release_def indexed_by_def)

lemma reachable_checked: "reachable s \<Longrightarrow> checked s"
proof (induction rule: reachable.induct)
  case (step s t)
  then show ?case using checks.step_kept outside_checked by (auto simp: system_step_def)
qed (simp add: empty_db_def checked_def)

lemma outside_hosts: "outside_step s t \<Longrightarrow> hosts_ok s \<Longrightarrow> hosts_ok t"
proof (induction rule: outside_step.induct)
  case (create s d)
  have "heads.keeps (insert_deployment x)" for x
    by (rule heads.keepsI) (auto simp: insert_deployment_def split: if_splits)
  then have k: "heads.keeps (createTx d)" unfolding createTx_def appendEvents_def by (intro heads.keeps_intros inserts_heads)
  show ?case
    using create hosts.run_tx_kept [OF hosts.answered_kept [OF heads_hosts [OF k]]] by (simp add: Create_def)
next
  case (administer s t)
  then show ?case using server_step_accounts accounts_only_keep(7) unfolding accounts_step_def by blast
next
  case (revoke s draw p srv reason clock)
  then show ?case using RevokeServer_path [of s draw p srv reason clock] hosts.step_kept accounts_only_keep(7)
    unfolding accounts_step_def by blast
next
  case (assign s p env raw expected clock)
  then show ?case using assign_hosts.assign_kept by blast
qed (simp_all add: hosts_ok_def)

lemma reachable_hosts: "reachable s \<Longrightarrow> hosts_ok s"
proof (induction rule: reachable.induct)
  case (step s t)
  then show ?case using hosts.step_kept outside_hosts by (auto simp: system_step_def)
qed (simp add: empty_db_def hosts_ok_def)

lemma reachable_occupied: "reachable s \<Longrightarrow> occupied_properly s"
proof (induction rule: reachable.induct)
  case (step s t)
  then show ?case
    using step_occupancy reachable_keyed outside_occupancy by (auto simp: system_step_def)
qed (simp add: empty_db_def occupied_properly_def occupancy_ok_def view_defs get_job_def get_slot_def get_attempt_def)

text \<open>Accounts change only through the server repository.\<close>

lemma same_accounts_step:
  "servers t = servers s \<Longrightarrow> credentials t = credentials s \<Longrightarrow> enrollment_tokens t = enrollment_tokens s \<Longrightarrow>
   accounts_follow s t \<and> (accounts_ok s \<longrightarrow> accounts_ok t)"
  by (simp add: accounts_follow_def same_rows_follow accounts_ok_def)

lemma lease_step_accounts: "lease_step s t \<Longrightarrow> accounts_follow s t \<and> (accounts_ok s \<longrightarrow> accounts_ok t)"
  using history.step_kept [of s t] by (intro same_accounts_step) (auto simp: evolves_def same_inputs_def)

lemma system_step_accounts: "system_step s t \<Longrightarrow> accounts_follow s t \<and> (accounts_ok s \<longrightarrow> accounts_ok t)"
proof (unfold system_step_def, elim disjE)
  assume "outside_step s t"
  then show ?thesis
  proof (induction rule: outside_step.induct)
    case (create s d)
    have "evolves s (snd (Create d s))"
      unfolding Create_def by (intro history.run_tx_kept history.answered_kept create_evolves)
    then show ?case by (intro same_accounts_step) (simp_all add: evolves_def same_inputs_def)
  next
    case (administer s t)
    then show ?case using server_step_accounts unfolding accounts_step_def by blast
  next
    case (revoke s draw p srv reason clock)
    from RevokeServer_path [of s draw p srv reason clock] obtain u v where "accounts_step s u" "lease_step u v"
      "accounts_step v (snd (RevokeServer draw p srv reason clock s))" by blast
    with lease_step_accounts [of u v] show ?case unfolding accounts_step_def by (meson accounts_follow_trans)
  next
    case (assign s p env raw expected clock)
    have "evolves s (snd (AssignRouteHostname p env raw expected clock s))" by (rule assign_history.assign_kept)
    then show ?case by (intro same_accounts_step) (simp_all add: evolves_def same_inputs_def)
  qed (rule same_accounts_step; simp)+
qed (rule lease_step_accounts)

lemma reachable_accounts: "reachable s \<Longrightarrow> accounts_ok s"
proof (induction rule: reachable.induct)
  case (step s t)
  then show ?case using system_step_accounts by blast
qed (simp add: empty_db_def accounts_ok_def)

lemma later_accounts: "later s t \<Longrightarrow> accounts_follow s t"
  by (induction rule: later.induct) (use accounts_follow_refl accounts_follow_trans system_step_accounts in blast)+

lemma later_grows: "later s t \<Longrightarrow> grows s t"
proof (induction rule: later.induct)
  case (after s t u)
  then have "grows t u" using history.step_kept outside_grows by (auto simp: system_step_def evolves_def)
  with after show ?case by (blast intro: grows_trans)
qed (rule grows_refl)

lemma leased_row:
  assumes "reachable s" and "get_attempt k s = Some a" and "att_state a = AttemptLeased"
  shows "(\<exists>r. get_slot (att_environment a) s = Some r \<and> slot_fence r = att_fence a \<and> slot_current r = Some k) \<and>
    (\<exists>j. get_job (att_job a) s = Some j \<and> job_state j = JobLeased \<and> job_environment j = att_environment a \<and>
       job_attempt_count j = att_number a)"
  using occ_leased [OF reachable_occupied [OF assms(1), unfolded occupied_properly_def], of k "view_attempt a"]
    locked_view [OF assms(2,3)]
  by (auto simp: slot_of_def job_of_def view_slot_def view_job_def view_attempt_def)

lemma unsettled_unique:
  assumes "reachable s" and "p \<in> set (operations s)" "q \<in> set (operations s)"
    and "unresolved_operation p" "unresolved_operation q" "op_environment p = op_environment q"
  shows "p = q"
proof -
  have "op_id p = op_id q"
    using reachable_indexed [OF assms(1)] assms(2-6)
    unfolding indexed_def one_open_activation_def indexed_by_def by blast
  with keyed_get(2) [OF reachable_keyed [OF assms(1)]] assms(2,3) show ?thesis by (metis option.inject)
qed

section \<open>Routes point to active releases\<close>

text \<open>The deferred triggers hold in every reachable state, because every transaction ended with them.\<close>

lemma commit_checks_same: "commit_checks s \<Longrightarrow> route_heads t = route_heads s \<Longrightarrow> releases t = releases s \<Longrightarrow> commit_checks t"
  by (fastforce simp: commit_checks_def get_release_def split: option.splits)

lemma recordBlock_commits:
  "commit_checks s \<Longrightarrow> commit_checks (snd (recordBlockInFreshTransaction sha srv k fence op ev rep now s))"
  by (auto simp: recordBlockInFreshTransaction_def split: sum.splits prod.splits)

lemma report_commits:
  assumes "commit_checks s"
  shows "commit_checks (snd (ReportActivationResult sha describe srv d k fence opid ok obs why now s))"
proof -
  have rb: "commit_checks t" if "recordBlockInFreshTransaction sha srv k' f op ev rep now s = (r, t)" for k' f op ev rep r t
    using recordBlock_commits [OF assms, of sha srv k' f op ev rep now] that by simp
  have ab: "commit_checks (snd (blockAfterAbortedTransaction sha describe srv k' f op pre cause rep now s))"
    for k' f op pre cause rep
    by (auto simp: blockAfterAbortedTransaction_def dest: rb split: sum.splits prod.splits option.splits)
  have fin: "commit_checks (snd (blockAfterFinalizeFailure sha describe srv i k' f op env cause rep now s))"
    for i k' f op env cause rep
    by (auto simp: blockAfterFinalizeFailure_def assms ab split: sum.splits prod.splits)
  have ra: "commit_checks (snd (refuse_ambiguous sha srv i k' f op env ev refusal rep now s))"
    for i k' f op env ev refusal rep
    by (auto simp: refuse_ambiguous_def Let_def assms dest: rb split: sum.splits prod.splits option.splits)
  have rf: "commit_checks (snd (report_failure sha srv i k' f op env rep now s))" for i k' f op env rep
    using assms by (auto simp: report_failure_def dest: rb
        split: sum.splits prod.splits activationBlockOutcome.splits if_splits)
  have rs: "commit_checks (snd (report_success sha describe srv j a p rep now s))" for j a p rep
    by (auto simp: report_success_def Let_def ra fin ab split: sum.splits prod.splits option.splits)
  have "commit_checks (snd (reportActivationResult sha describe srv d k fence opid ok obs why now s))"
  proof (cases "ParseInt opid")
    case (Some parsed)
    then show ?thesis
      by (cases "locate_activation srv d k fence parsed s")
        (simp_all add: reportActivationResult_def Let_def case_prod_unfold assms rf rs run_tx_commits)
  qed (simp add: reportActivationResult_def assms)
  then show ?thesis by (simp add: ReportActivationResult_def case_prod_unfold split: sum.splits)
qed

interpretation commits: kept_relation "\<lambda>s t. commit_checks s \<longrightarrow> commit_checks t"
  by unfold_locales simp_all

lemma insert_slot_commits: "commits.keeps (insert_slot now e)"
  by (rule commits.keepsI) (auto simp: insert_slot_def elim: commit_checks_same split: if_splits)

lemma ensure_slots_commits: "commit_checks s \<Longrightarrow> commit_checks (ensure_slots now envs s)"
  using commits.keepsD [OF commits.keeps_for_each [of "insert_slot now" envs, OF insert_slot_commits]]
  by (auto simp: ensure_slots_def split: sum.splits)

lemma step_commits: "lease_step s t \<Longrightarrow> commit_checks s \<Longrightarrow> commit_checks t"
  by (induction rule: lease_step.induct)
    (simp_all add: ensure_slots_commits run_tx_commits report_commits recordBlock_commits
      Renew_def Complete_def RequestCancellation_def AcknowledgeCancellation_def expireOne_def
      Reconcile_def MarkReconciled_def AuthorizeMaterialization_def AuthorizeCheckout_def ReportProgress_def
      Activate_def ResolveActivation_def ReconcileActivation_def Let_def)

lemma outside_commits: "outside_step s t \<Longrightarrow> commit_checks s \<Longrightarrow> commit_checks t"
proof (induction rule: outside_step.induct)
  case (administer s t)
  then show ?case using server_step_accounts accounts_only_keep(6) unfolding accounts_step_def by blast
next
  case (assign s p env raw expected clock)
  then show ?case
    by (auto simp: AssignRouteHostname_def Let_def intro!: run_tx_commits split: prod.splits sum.splits)
      (metis run_tx_commits snd_conv)+
qed (auto simp: Create_def RevokeServer_def run_tx_commits elim: commit_checks_same)

lemma reachable_commits: "reachable s \<Longrightarrow> commit_checks s"
  by (induction rule: reachable.induct)
    (auto simp: system_step_def empty_db_def commit_checks_def dest: step_commits outside_commits)

end
