(* ===== verification/Lease_Example.thy ===== *)
theory Lease_Example
  imports Lease_System
begin

text \<open>
  A small run of the system: one server, one environment with a literal and a secret binding, one
  job.  The states of the run are the concrete inputs at which the properties are applied.
\<close>

section \<open>Before the claim\<close>

definition ex_config :: execution_row where
  "ex_config = \<lparr>ContainerPort = 80, ContainerScheme = ''http'', ReleaseStrategy = ''blue_green'',
     DrainSeconds = 30, HealthPolicyRevision = 1, CPUMillis = 5, MemoryBytes = 64, RestartPolicy = ''always'',
     HealthGatePath = ''/'', HealthGateHost = ''h'', ConfigRevision = 1\<rparr>"

definition ex_deployment :: deployment where
  "ex_deployment = \<lparr>dep_identity = \<lparr>id_deployment = ''d'', id_project = ''p'', id_environment = ''e'',
       id_server = ''s'', id_commit = ''c''\<rparr>,
     dep_status = StatusQueued, dep_created = 5000, dep_updated = 5000, dep_revision = 1,
     dep_events = [\<lparr>ev_from = no_status, ev_to = StatusQueued, ev_at = 5000\<rparr>]\<rparr>"

definition ex_job :: job_row where
  "ex_job = \<lparr>job_id = 1, job_owner = ''o'', job_project = ''p'', job_environment = ''e'', job_server = ''s'',
     job_deployment = ''d'', job_repository = 7, job_ref = ''refs/heads/main'', job_commit = ''c'',
     job_priority = 0, job_created = 5000, job_state = JobQueued, job_available = 5000, job_attempt_count = 0,
     job_cancel_requested = None, job_updated = 5000\<rparr>"

definition ex_head :: route_head_row where
  "ex_head = \<lparr>rh_environment = ''e'', rh_hostname = ''app.test'', rh_revision = 0, rh_active = None,
     rh_reconciling = False, rh_created = 5000, rh_updated = 5000\<rparr>"

definition ex_based :: db where
  "ex_based = empty_db\<lparr>
     sessions := [\<lparr>ses_id = ''q'', ses_user = ''u'', ses_owner = ''o'', ses_auth_revision = 1,
        ses_revoked = False, ses_idle_expires = 10 ^ 18, ses_absolute_expires = 10 ^ 18\<rparr>],
     users := [\<lparr>usr_id = ''u'', usr_owner = ''o'', usr_auth_revision = 1, usr_active = True\<rparr>],
     runtime_configs := [(''e'', ex_config)],
     bindings := [\<lparr>bind_environment = ''e'', bind_variable = ''MODE'', bind_scope = ''runtime'',
          bind_kind = BindLiteral (Some ''prod'')\<rparr>,
        \<lparr>bind_environment = ''e'', bind_variable = ''TOKEN'', bind_scope = ''runtime'',
          bind_kind = BindSecret ''h''\<rparr>],
     secret_heads := [\<lparr>sh_id = ''h'', sh_current = Some ''v'', sh_purpose = ''env'', sh_scope = ''runtime''\<rparr>],
     secret_versions := [\<lparr>sv_id = ''v'', sv_secret = ''h'', sv_owner = ''o'', sv_project = ''p'',
          sv_environment = ''e'', sv_state = VersionActive\<rparr>]\<rparr>"

definition ex_admin :: principal where
  "ex_admin = \<lparr>pr_user = ''u'', pr_owner = ''o'', pr_session = ''q'', pr_auth_revision = 1, pr_role = ''owner''\<rparr>"

definition ex_key :: digest where
  "ex_key = replicate 32 (CHR ''k'')"

definition ex_enrollment :: digest where
  "ex_enrollment = replicate 32 (CHR ''n'')"

definition ex_input :: RegisterServerInput where
  "ex_input = \<lparr>in_ServerID = ''s'', in_Name = ''web 1'', in_ProtocolVersion = 1, in_EnrollmentDigest = ex_enrollment,
     in_EnrollmentTTLSeconds = 600\<rparr>"

definition ex_server :: server_row where
  "ex_server = \<lparr>srv_id = ''s'', srv_owner = ''o'', srv_name = ''web 1'', srv_protocol = 1, srv_active = True,
     srv_created = 2000, srv_revoked = None, srv_heartbeat = None\<rparr>"

definition ex_credential :: credential_row where
  "ex_credential = \<lparr>cred_server = ''s'', cred_version = 1, cred_digest = ex_key, cred_active = True, cred_issued = 3000,
     cred_revoked = None\<rparr>"

definition ex_configured :: db where
  "ex_configured = ex_based\<lparr>servers := [ex_server], credentials := [ex_credential],
     enrollment_tokens := [\<lparr>tok_server = ''s'', tok_digest = ex_enrollment, tok_issued = 2000, tok_expires = 600000002000,
        tok_consumed = Some 3000\<rparr>],
     audits := [\<lparr>aud_actor_type = ''administrator'', aud_actor = ''u'', aud_action = ''register'', aud_server = Some ''s'',
          aud_credential = None, aud_result = ''success'', aud_reason = []\<rparr>,
        \<lparr>aud_actor_type = ''agent'', aud_actor = ''s'', aud_action = ''enrolled'', aud_server = Some ''s'',
          aud_credential = Some 1, aud_result = ''success'', aud_reason = []\<rparr>]\<rparr>"

definition ex_registered :: db where
  "ex_registered = snd (RegisterServer ex_admin ex_input (\<lambda>_. 2000) ex_based)"

lemma enroll_run: "Enroll ''s'' ex_enrollment ex_key (\<lambda>_. 3000) ex_registered = (Inr 1, ex_configured)"
  by code_simp

definition ex_snapshot :: snapshot where
  "ex_snapshot = \<lparr>snap_version = 1, snap_identity = dep_identity ex_deployment, snap_status = StatusQueued,
     snap_created = 5000, snap_updated = 5000, snap_revision = 1, snap_events = dep_events ex_deployment\<rparr>"

definition ex_slot :: slot_row where
  "ex_slot = \<lparr>slot_environment = ''e'', slot_fence = 0, slot_current = None, slot_reconciling = False,
     slot_pending = None, slot_updated = 9000\<rparr>"

definition ex_assigned :: route_event_row where
  "ex_assigned = \<lparr>rev_environment = ''e'', rev_kind = RouteHostnameAssigned ''app.test'', rev_revision = 0\<rparr>"

definition ex_ready :: db where
  "ex_ready = ex_configured\<lparr>deployments := [ex_snapshot], jobs := [ex_job], route_heads := [ex_head],
     route_events := [ex_assigned], route_audits := [assignment_audit ex_admin ''e'' ''app.test'' (Some 0)],
     slots := [ex_slot]\<rparr>"

definition ex_lock :: "'a \<Rightarrow> bool" where
  "ex_lock x = False"

section \<open>The claim\<close>

definition ex_attempt :: attempt_row where
  "ex_attempt = \<lparr>att_id = 1, att_job = 1, att_number = 1, att_server = ''s'', att_environment = ''e'',
     att_fence = 1, att_state = AttemptLeased, att_renewal = 0, att_lease_expires = 90000010000,
     att_authority_expires = 90000010000, att_cancel_deadline = None, att_failure = None,
     att_result_op = None, att_result_digest = None, att_closed = None\<rparr>"

definition ex_claimed :: db where
  "ex_claimed = ex_ready\<lparr>
     jobs := [ex_job\<lparr>job_state := JobLeased, job_attempt_count := 1, job_updated := 10000\<rparr>],
     slots := [ex_slot\<lparr>slot_fence := 1, slot_current := Some 1, slot_updated := 10000\<rparr>],
     attempts := [ex_attempt], next_attempt := 2,
     job_events := [\<lparr>jev_job = 1, jev_sequence = 1, jev_type = EvClaimed, jev_attempt = Some 1\<rparr>],
     deployments := [ex_snapshot\<lparr>snap_status := StatusAssigned, snap_updated := 10000, snap_revision := 2,
        snap_events := snap_events ex_snapshot @
          [\<lparr>ev_from = StatusQueued, ev_to = StatusAssigned, ev_at = 10000\<rparr>]\<rparr>],
     executions := [(1, ex_config)],
     frozen_secrets := [(1, \<lparr>fb_variable = ''TOKEN'', fb_scope = ''runtime'', fb_version = ''v''\<rparr>)],
     frozen_literals := [(1, \<lparr>fl_variable = ''MODE'', fl_scope = ''runtime'', fl_value = ''prod''\<rparr>)],
     releases := [\<lparr>rel_id = ''d'', rel_deployment = ''d'', rel_environment = ''e'', rel_image = None,
        rel_config = replicate 32 (CHR ''a''), rel_commit = ''c'', rel_strategy = ''blue_green'', rel_state = RelCandidate,
        rel_updated = 10000\<rparr>]\<rparr>"

lemma claim_run:
  "snd (run_tx (claim_tx ex_sha ex_lock ex_lock ''s'' ex_key 10000 1 [(1, ''e'')]) ex_ready) = ex_claimed"
  by code_simp

section \<open>The activation\<close>

definition ex_checked :: db where
  "ex_checked = ex_claimed\<lparr>deployments := [ex_snapshot\<lparr>snap_status := StatusHealthChecking,
     snap_updated := 14000, snap_revision := 6, snap_events := snap_events ex_snapshot @
       [\<lparr>ev_from = StatusQueued, ev_to = StatusAssigned, ev_at = 10000\<rparr>,
        \<lparr>ev_from = StatusAssigned, ev_to = StatusFetching, ev_at = 11000\<rparr>,
        \<lparr>ev_from = StatusFetching, ev_to = StatusBuilding, ev_at = 12000\<rparr>,
        \<lparr>ev_from = StatusBuilding, ev_to = StatusStarting, ev_at = 13000\<rparr>,
        \<lparr>ev_from = StatusStarting, ev_to = StatusHealthChecking, ev_at = 14000\<rparr>]\<rparr>]\<rparr>"

definition ex_progress :: "(status \<times> int) \<Rightarrow> db \<Rightarrow> db" where
  "ex_progress x s = snd (ReportProgress ''s'' ex_key 1 1 (fst x) (snd x) s)"

lemma progress_run:
  "ex_progress (StatusHealthChecking, 14000) (ex_progress (StatusStarting, 13000)
     (ex_progress (StatusBuilding, 12000) (ex_progress (StatusFetching, 11000) ex_claimed))) = ex_checked"
  by code_simp

definition ex_image :: digest where
  "ex_image = replicate 32 (CHR ''x'')"

definition ex_route_digest :: digest where
  "ex_route_digest = replicate 32 (CHR ''a'')"

definition ex_operation :: operation_row where
  "ex_operation = \<lparr>op_id = 1, op_release = ''d'', op_job = 1, op_attempt = 1, op_fence = 1, op_kind = OpActivate,
     op_digest = ex_image, op_state = OpSwitchAuthorized, op_summary = [], op_closed = None,
     op_environment = Some ''e'', op_expected_release = None, op_expected_revision = Some 0,
     op_route_digest = Some ex_route_digest\<rparr>"

definition ex_activating :: db where
  "ex_activating = ex_checked\<lparr>
     job_events := job_events ex_checked @
       [\<lparr>jev_job = 1, jev_sequence = 2, jev_type = EvActivationAuthorized, jev_attempt = Some 1\<rparr>],
     deployments := map (\<lambda>d. d\<lparr>snap_status := StatusActivating, snap_updated := 30000, snap_revision := 7,
        snap_events := snap_events d @ [\<lparr>ev_from = StatusHealthChecking, ev_to = StatusActivating, ev_at = 30000\<rparr>]\<rparr>)
        (deployments ex_checked),
     releases := map (\<lambda>r. r\<lparr>rel_image := Some ex_image, rel_state := RelReady, rel_updated := 30000\<rparr>)
        (releases ex_checked),
     operations := [ex_operation], next_operation := 2\<rparr>"

text \<open>With \<^const>\<open>ex_sha\<close> the digest of a route does not depend on the document, so only its validation is evaluated.\<close>

definition ex_render :: "environment_route \<Rightarrow> lease_error + string" where
  "ex_render r = (if validate_route r = None then Inr (''sha256:'' @ concat (replicate 32 ''61''))
     else Inl (ErrPlain ''render activation route document''))"

lemma route_digest_ex: "route_digest ex_sha = ex_render"
proof
  fix r
  have "Digest ex_sha d = ''sha256:'' @ concat (replicate 32 ''61'')" for d
    unfolding Digest_def ex_sha_def by code_simp
  then show "route_digest ex_sha r = ex_render r"
    using Render_valid [of r ex_sha] by (cases "validate_route r") (auto simp: route_digest_def ex_render_def Render_def)
qed

lemma activate_run: "snd (Activate ex_sha ''s'' ex_key 1 1 ex_image 30000 ex_checked) = ex_activating"
  unfolding Activate_def activate_tx_def authorize_switch_def route_digest_ex by code_simp

definition ex_live :: db where
  "ex_live = ex_activating\<lparr>
     jobs := map (\<lambda>j. j\<lparr>job_state := JobSucceeded, job_updated := 31000\<rparr>) (jobs ex_activating),
     slots := map (\<lambda>r. r\<lparr>slot_current := None, slot_updated := 31000\<rparr>) (slots ex_activating),
     attempts := [ex_attempt\<lparr>att_state := AttemptSucceeded, att_result_op := Some ''1'',
       att_result_digest := Some ex_route_digest, att_closed := Some 31000\<rparr>],
     job_events := job_events ex_activating @
       [\<lparr>jev_job = 1, jev_sequence = 3, jev_type = EvActivated, jev_attempt = Some 1\<rparr>,
        \<lparr>jev_job = 1, jev_sequence = 4, jev_type = EvSucceeded, jev_attempt = Some 1\<rparr>],
     deployments := map (\<lambda>d. d\<lparr>snap_status := StatusHealthy, snap_updated := 31000, snap_revision := 8,
        snap_events := snap_events d @ [\<lparr>ev_from = StatusActivating, ev_to = StatusHealthy, ev_at = 31000\<rparr>]\<rparr>)
        (deployments ex_activating),
     releases := map (\<lambda>r. r\<lparr>rel_state := RelActive, rel_updated := 31000\<rparr>) (releases ex_activating),
     operations := [ex_operation\<lparr>op_state := OpSucceeded, op_closed := Some 31000,
        op_summary := ''activated route_digest=sha256:'' @ concat (replicate 32 ''61'')\<rparr>],
     route_heads := [ex_head\<lparr>rh_revision := 1, rh_active := Some ''d'', rh_updated := 31000\<rparr>],
     route_events := [ex_assigned, \<lparr>rev_environment = ''e'', rev_kind = RouteActivated ''d'', rev_revision = 1\<rparr>]\<rparr>"

definition ex_describe :: "lease_error \<Rightarrow> string" where
  "ex_describe e = ''error''"

lemma report_run:
  "ReportActivationResult ex_sha ex_describe ''s'' ex_key 1 1 ''1'' True ex_route_digest [] 31000 ex_activating
   = (Inr (), ex_live)"
  by code_simp

definition ex_blocked :: db where
  "ex_blocked = ex_activating\<lparr>
     slots := map (\<lambda>r. r\<lparr>slot_reconciling := True, slot_pending := Some 1, slot_updated := 31000\<rparr>) (slots ex_activating),
     job_events := job_events ex_activating @
       [\<lparr>jev_job = 1, jev_sequence = 3, jev_type = EvActivationReconciliationRequired, jev_attempt = Some 1\<rparr>],
     operations := [ex_operation\<lparr>op_state := OpReconciliationRequired, op_closed := Some 31000, op_summary := ''boom''\<rparr>],
     route_heads := [ex_head\<lparr>rh_reconciling := True, rh_updated := 31000\<rparr>]\<rparr>"

lemma block_run:
  "ReportActivationResult ex_sha ex_describe ''s'' ex_key 1 1 ''1'' False [] ''boom'' 31000 ex_activating
   = (Inr (), ex_blocked)"
  by code_simp

section \<open>The states of the run are reachable\<close>

lemma outside_reach: "reachable s \<Longrightarrow> outside_step s t \<Longrightarrow> reachable t"
  using reachable.step by (auto simp: system_step_def)

lemma server_reach: "reachable s \<Longrightarrow> server_step s t \<Longrightarrow> reachable t"
  using outside_reach outside_step.administer by blast

lemma registered_reachable: "reachable ex_registered"
proof -
  have "reachable ex_based"
    using outside_reach [OF reachable.start outside_step.configure] unfolding ex_based_def by blast
  from server_reach [OF this register_step] show ?thesis unfolding ex_registered_def .
qed

lemma configured_reachable: "reachable ex_configured"
  using server_reach [OF registered_reachable enroll_step [of _ "''s''" ex_enrollment ex_key "\<lambda>_. 3000"]] by (simp add: enroll_run)

definition ex_enqueued :: db where
  "ex_enqueued = ex_configured\<lparr>deployments := [ex_snapshot], jobs := [ex_job]\<rparr>"

definition ex_routed :: db where
  "ex_routed = ex_enqueued\<lparr>route_heads := [ex_head], route_events := [ex_assigned],
     route_audits := [assignment_audit ex_admin ''e'' ''app.test'' (Some 0)]\<rparr>"

lemma ready_steps:
  "snd (Create ex_deployment ex_configured) = ex_configured\<lparr>deployments := [ex_snapshot]\<rparr>"
  "ensure_slots 9000 [''e''] ex_routed = ex_ready"
  by code_simp+

lemma assign_run:
  "snd (AssignRouteHostname ex_admin ''e'' ''App.Test'' None (\<lambda>_. 5000) ex_enqueued) = ex_routed"
  by code_simp

lemma ready_reachable: "reachable ex_ready"
proof -
  let ?a = "ex_configured\<lparr>deployments := [ex_snapshot]\<rparr>"
  have "reachable ?a"
    using outside_reach [OF configured_reachable outside_step.create [of _ ex_deployment]] unfolding ready_steps(1) .
  moreover have "outside_step ?a ex_enqueued"
    using outside_step.enqueue [of ex_job ?a]
    by (simp add: ex_enqueued_def ex_configured_def ex_based_def empty_db_def get_job_def ex_job_def)
  ultimately have "reachable ex_enqueued" by (rule outside_reach)
  then have "reachable ex_routed"
    using outside_reach [OF _ outside_step.assign] unfolding assign_run [symmetric] by blast
  from reachable.step [OF this] lease_step.ensure_slots_step [of ex_routed 9000 "[''e'']"] show ?thesis
    unfolding ready_steps(2) [symmetric] system_step_def by simp
qed

lemma lease_steps_reach: "reachable s \<Longrightarrow> lease_step s t \<Longrightarrow> reachable t"
  using reachable.step by (auto simp: system_step_def)

lemma claimed_reachable: "reachable ex_claimed"
  unfolding claim_run [symmetric] by (rule lease_steps_reach [OF ready_reachable lease_step.claim_step])

lemma checked_reachable: "reachable ex_checked"
proof -
  have "reachable s \<Longrightarrow> reachable (ex_progress x s)" for x s
    unfolding ex_progress_def by (rule lease_steps_reach [OF _ lease_step.progress_step])
  then show ?thesis unfolding progress_run [symmetric] using claimed_reachable by blast
qed

lemma activating_reachable: "reachable ex_activating"
  unfolding activate_run [symmetric] by (rule lease_steps_reach [OF checked_reachable lease_step.activate_step])

lemma reported_reachable: "reachable ex_live" "reachable ex_blocked"
  using lease_steps_reach [OF activating_reachable lease_step.report_step
      [of _ ex_sha ex_describe "''s''" ex_key 1 1 "''1''" True ex_route_digest "[]" 31000]]
    lease_steps_reach [OF activating_reachable lease_step.report_step
      [of _ ex_sha ex_describe "''s''" ex_key 1 1 "''1''" False "[]" "''boom''" 31000]]
  unfolding report_run block_run by simp_all

section \<open>Expiry and a second attempt\<close>

text \<open>Without the product when the draw is zero.\<close>

lemma FullJitterDelay_code [code]:
  "FullJitterDelay r n =
     (if r = 0 then 0 else int (round53 (r * nat (retry_backoff n)) div 2 ^ 53))"
  by (simp add: FullJitterDelay_def round53_def bit_size.simps [of 0])

definition ex_expired :: db where
  "ex_expired = ex_claimed\<lparr>
     jobs := [ex_job\<lparr>job_state := JobRetryWait, job_attempt_count := 1, job_available := 90000010000,
        job_updated := 90000010000\<rparr>],
     slots := [ex_slot\<lparr>slot_fence := 2, slot_reconciling := True, slot_pending := Some 1, slot_updated := 90000010000\<rparr>],
     attempts := [ex_attempt\<lparr>att_state := AttemptExpired, att_closed := Some 90000010000\<rparr>],
     job_events := job_events ex_claimed @
       [\<lparr>jev_job = 1, jev_sequence = 2, jev_type = EvExpired, jev_attempt = Some 1\<rparr>,
        \<lparr>jev_job = 1, jev_sequence = 3, jev_type = EvRetryScheduled, jev_attempt = Some 1\<rparr>]\<rparr>"

lemma expire_run: "expireOne ex_lock ex_lock ex_lock 0 90000010000 1 ex_claimed = (Inr True, ex_expired)"
  by code_simp

definition ex_cleared :: db where
  "ex_cleared = ex_expired\<lparr>slots := [ex_slot\<lparr>slot_fence := 2, slot_updated := 90000020000\<rparr>],
     job_events := job_events ex_expired @
       [\<lparr>jev_job = 1, jev_sequence = 4, jev_type = EvReconciled, jev_attempt = Some 1\<rparr>]\<rparr>"

lemma reconcile_run: "Reconcile ''s'' ex_key ''e'' 1 1 90000020000 ex_expired = (Inr (), ex_cleared)"
  by code_simp

definition ex_retried :: db where
  "ex_retried = snd (run_tx (claim_tx ex_sha ex_lock ex_lock ''s'' ex_key 90000030000 1 [(1, ''e'')]) ex_cleared)"

lemma retried_attempts:
  "attempts ex_retried = attempts ex_expired @ [ex_attempt\<lparr>att_id := 2, att_number := 2, att_fence := 3,
     att_lease_expires := 180000030000, att_authority_expires := 180000030000\<rparr>]"
  by code_simp


lemma retried_reachable: "reachable ex_expired" "reachable ex_cleared" "reachable ex_retried"
proof -
  show e: "reachable ex_expired"
    using lease_steps_reach [OF claimed_reachable lease_step.expire_step [of _ ex_lock ex_lock ex_lock 0 90000010000 1]]
    unfolding expire_run by simp
  show c: "reachable ex_cleared"
    using lease_steps_reach [OF e lease_step.reconcile_step [of _ "''s''" ex_key "''e''" 1 1 90000020000]]
    unfolding reconcile_run by simp
  show "reachable ex_retried"
    unfolding ex_retried_def by (rule lease_steps_reach [OF c lease_step.claim_step])
qed

end
