(* ===== verification/Claim_Properties.thy ===== *)
theory Claim_Properties
  imports Lease_Example "HOL-Library.Multiset"
begin

text \<open>
  What claiming and renewing promise: a claim takes a free environment and hands out the next
  fence, the configuration digest identifies the configuration, a batch never takes an environment
  twice, and a renewal is safe to repeat.
\<close>

section \<open>The anatomy of a successful claim\<close>

lemma claimable_slotD:
  assumes "claimable_slot sl e s = Some cfg"
  obtains r where "get_slot e s = Some r" "slot_current r = None" "\<not> slot_reconciling r"
    "lockEnvironmentRuntimeConfig e s = Some cfg"
  using assms by (auto simp: claimable_slot_def split: option.splits if_splits)

lemma claimable_jobD:
  assumes "claimable_job jl srv i e now s = Some j"
  shows "get_job i s = Some j" "job_id j = i" "job_environment j = e" "job_server j = srv"
    "job_state j = JobQueued \<or> job_state j = JobRetryWait" "job_available j \<le> now" "job_cancel_requested j = None"
  using assms job_tbl.get_key [of i s j] by (auto simp: claimable_job_def split: option.splits if_splits)

lemma tryClaim_claimed:
  assumes "tryClaim sha sl jl srv i e now expires s = Inr (CandidateClaimed l, t)"
  obtains cfg r j plan u v where
    "claimable_slot sl e s = Some cfg" "get_slot e s = Some r" "slot_current r = None" "\<not> slot_reconciling r"
    "claimable_job jl srv i e now s = Some j" "plan_freeze e j s = Inr (Some plan, s)"
    "advance_fence now e s = Inr (slot_fence r + 1, u)"
    "lease_job now i (job_state j) u = Inr (JobLeasedAs (job_attempt_count j + 1), v)"
    "record_claim sha srv j e now expires cfg plan (slot_fence r + 1) (job_attempt_count j + 1) v = Inr (l, t)"
proof -
  from assms obtain cfg j plan w f u x v where c:
    "claimable_slot sl e s = Some cfg" "claimable_job jl srv i e now s = Some j"
    "plan_freeze e j s = Inr (Some plan, w)" "advance_fence now e w = Inr (f, u)"
    "lease_job now i (job_state j) u = Inr (x, v)"
    "(case x of JobNotLeased \<Rightarrow> ret CandidateSkipped | JobLeaseRefused \<Rightarrow> ret CandidateSkippedAborted
      | JobLeasedAs n \<Rightarrow> and_then (record_claim sha srv j e now expires cfg plan f n)
          (\<lambda>lease. ret (CandidateClaimed lease))) v = Inr (CandidateClaimed l, t)"
    by (auto simp: tryClaim_def tx_simps split: option.splits)
  from c(3) have w: "w = s" by (rule plan_freeze_reads)
  from c(1) obtain r where r: "get_slot e s = Some r" "slot_current r = None" "\<not> slot_reconciling r"
    by (rule claimable_slotD)
  note av = advance_fence_view [OF c(4) [unfolded w] r(1)]
  have "x \<noteq> JobLeaseRefused" using c(6) by auto
  from lease_job_view(1) [OF c(5) av(6) [of i, unfolded claimable_jobD(1) [OF c(2)]] HOL.refl this]
  have "x = JobLeasedAs (job_attempt_count j + 1)" .
  with c(6) have "record_claim sha srv j e now expires cfg plan f (job_attempt_count j + 1) v = Inr (l, t)"
    by (auto simp: tx_simps)
  with that c w r av(1) \<open>x = _\<close> show thesis by blast
qed

text \<open>Recording a claim: the attempt and slot rows, then work that leaves the lease tables alone.\<close>

lemma record_claim_parts:
  assumes "record_claim sha srv j e now expires cfg plan f n s = Inr (l, t)"
  obtains k u m v w x where
    "insert_attempt (new_attempt srv (job_id j) e n f expires) s = Inr (k, u)"
    "update_slot e (\<lambda>_. True) (\<lambda>r. r\<lparr>slot_current := Some k, slot_updated := now\<rparr>) u = Inr (m, v)"
    "(if n = 1 then transitionDeployment (job_deployment j) StatusAssigned now else ret ()) v = Inr ((), w)"
    "freeze_attempt k cfg plan w = Inr ((cl_config l, cl_secrets l, cl_literals l), x)" "same_lease_rows v t"
    "executions t = executions x" "frozen_secrets t = frozen_secrets x" "frozen_literals t = frozen_literals x"
    "cl_job l = job_id j" "cl_attempt l = k" "cl_number l = n" "cl_fence l = f" "cl_environment l = e"
    "cl_deployment l = job_deployment j" "cl_lease_expires l = expires" "cl_authority_expires l = expires"
proof -
  from assms obtain k u m v w c bs ls x y z rel where p:
    "insert_attempt (new_attempt srv (job_id j) e n f expires) s = Inr (k, u)"
    "update_slot e (\<lambda>_. True) (\<lambda>r. r\<lparr>slot_current := Some k, slot_updated := now\<rparr>) u = Inr (m, v)"
    "(if n = 1 then transitionDeployment (job_deployment j) StatusAssigned now else ret ()) v = Inr ((), w)"
    "freeze_attempt k cfg plan w = Inr ((c, bs, ls), x)"
    "ensureRelease now (job_deployment j) e (job_commit j) (ReleaseStrategy c) (computeConfigDigest sha c bs ls) x
       = Inr (rel, y)"
    "appendAgentJobEvent (job_id j) (Some k) EvClaimed y = Inr ((), t)"
    "cl_job l = job_id j" "cl_attempt l = k" "cl_number l = n" "cl_fence l = f" "cl_environment l = e"
    "cl_deployment l = job_deployment j" "cl_lease_expires l = expires" "cl_authority_expires l = expires"
    "cl_config l = c" "cl_secrets l = bs" "cl_literals l = ls"
    unfolding record_claim_def by (fastforce simp: tx_simps)
  have "lease_rows.keeps (if n = 1 then transitionDeployment (job_deployment j) StatusAssigned now else ret ())"
    by (intro lease_rows.keeps_intros frame_statements)
  from lease_rows.keepsD [OF this p(3)] lease_rows.keepsD [OF freeze_frame p(4)]
    lease_rows.keepsD [OF ensureRelease_frame p(5)] lease_rows.keepsD [OF inserts_frame(4) p(6)]
  have "same_lease_rows v t" by (blast intro: lease_rows.trans)
  moreover from p(5,6) have "executions t = executions x" "frozen_secrets t = frozen_secrets x"
    "frozen_literals t = frozen_literals x"
    by (auto simp: ensureRelease_def insert_release_def appendAgentJobEvent_def tx_simps split: option.splits if_splits)
  ultimately show thesis using that p by blast
qed

lemma insert_attempt_row:
  assumes "insert_attempt mk s = Inr (k, t)" and "keyed s"
  shows "get_attempt k t = Some ((mk k)\<lparr>att_id := k\<rparr>)" and "k = next_attempt s" and "get_slot e t = get_slot e s"
    and "get_job i t = get_job i s" and "executions t = executions s" "frozen_secrets t = frozen_secrets s"
    "frozen_literals t = frozen_literals s"
proof -
  have "get_attempt (next_attempt s) s = None"
    using assms(2) attempt_tbl.get_mem attempt_tbl.get_key
    by (cases "get_attempt (next_attempt s) s") (fastforce simp: keyed_def)+
  with assms(1) show "get_attempt k t = Some ((mk k)\<lparr>att_id := k\<rparr>)"
    by (auto simp: insert_attempt_def Let_def get_attempt_def select_row_append split: option.splits)
  from assms(1) show "k = next_attempt s" "get_slot e t = get_slot e s" "get_job i t = get_job i s"
    "executions t = executions s" "frozen_secrets t = frozen_secrets s" "frozen_literals t = frozen_literals s"
    by (auto simp: insert_attempt_def Let_def get_slot_def get_job_def split: option.splits)
qed

lemma update_slot_row:
  assumes "update_slot e (\<lambda>_. True) f s = Inr (m, t)" and "get_slot e s = Some r"
  shows "get_slot e t = Some (f r)" and "\<And>x. x \<noteq> e \<Longrightarrow> get_slot x t = get_slot x s"
    and "get_attempt k t = get_attempt k s" "get_job i t = get_job i s" "executions t = executions s"
    "frozen_secrets t = frozen_secrets s" "frozen_literals t = frozen_literals s"
proof -
  from assms have a: "validate_environment_slot_update s r (f r) = None" "t = put_slot (f r) s"
    by (auto simp: update_slot_def tx_simps)
  from accepted_slot(2) [OF a(1)] slot_tbl.get_key [OF assms(2)] have e: "slot_environment (f r) = e" by simp
  with assms(2) a(2) show "get_slot e t = Some (f r)" "\<And>x. x \<noteq> e \<Longrightarrow> get_slot x t = get_slot x s"
    using slot_tbl.get_put [of "f r" s] by auto
  show "get_attempt k t = get_attempt k s" "get_job i t = get_job i s" "executions t = executions s"
    "frozen_secrets t = frozen_secrets s" "frozen_literals t = frozen_literals s"
    unfolding a(2) by (simp_all add: put_slot_def get_job_def get_attempt_def)
qed

lemma advance_fence_row:
  assumes "advance_fence now e s = Inr (f, t)" and "get_slot e s = Some r"
  shows "get_slot e t = Some (r\<lparr>slot_fence := slot_fence r + 1, slot_updated := now\<rparr>)"
    and "\<And>x. x \<noteq> e \<Longrightarrow> get_slot x t = get_slot x s"
    and "executions t = executions s" "frozen_secrets t = frozen_secrets s" "frozen_literals t = frozen_literals s"
  using assms update_slot_row [OF _ assms(2)] by (auto simp: advance_fence_def tx_simps)

lemma lease_job_row:
  assumes "lease_job now i st s = Inr (JobLeasedAs n, t)"
  shows "get_slot e t = get_slot e s" "executions t = executions s" "frozen_secrets t = frozen_secrets s"
    "frozen_literals t = frozen_literals s" and "\<exists>j. get_job i t = Some j \<and> job_state j = JobLeased \<and> job_attempt_count j = n"
proof -
  from assms obtain m where u: "update_job i (\<lambda>j. job_state j = st) (\<lambda>j. j\<lparr>job_state := JobLeased,
      job_attempt_count := job_attempt_count j + 1, job_updated := now\<rparr>) s = Inr (m, t)" "m \<noteq> 0"
    and j: "\<exists>j. get_job i t = Some j \<and> n = job_attempt_count j"
    by (auto simp: lease_job_def split: sum.splits option.splits if_splits)
  from u(1) show "get_slot e t = get_slot e s" "executions t = executions s" "frozen_secrets t = frozen_secrets s"
    "frozen_literals t = frozen_literals s"
    by (auto simp: update_job_def tx_simps put_job_def get_slot_def split: option.splits if_splits)
  from u j show "\<exists>j. get_job i t = Some j \<and> job_state j = JobLeased \<and> job_attempt_count j = n"
    by (cases rule: update_job_view) auto
qed

lemma claim_keyed:
  assumes "keyed s" and "advance_fence now e s = Inr (f, u)" and "lease_job now i st u = Inr (x, v)"
  shows "keyed v"
  using assms keys.keepsD [OF keys.advance_fence_kept assms(2)] keys.keepsD [OF keys.lease_job_kept assms(3)] by blast

lemma claim_facts:
  assumes "keyed s" and "tryClaim sha sl jl srv i e now expires s = Inr (CandidateClaimed l, t)"
  shows "\<exists>r j. get_slot e s = Some r \<and> slot_current r = None \<and> \<not> slot_reconciling r \<and>
    get_job i s = Some j \<and> job_server j = srv \<and> job_environment j = e \<and>
    (job_state j = JobQueued \<or> job_state j = JobRetryWait) \<and> job_available j \<le> now \<and> job_cancel_requested j = None \<and>
    cl_fence l = slot_fence r + 1 \<and> cl_number l = job_attempt_count j + 1 \<and>
    get_attempt (cl_attempt l) t = Some (new_attempt srv i e (cl_number l) (cl_fence l) expires (cl_attempt l)) \<and>
    (\<exists>q. get_slot e t = Some q \<and> slot_current q = Some (cl_attempt l) \<and> slot_fence q = cl_fence l) \<and>
    (\<exists>k. get_job i t = Some k \<and> job_state k = JobLeased \<and> job_attempt_count k = cl_number l)"
  using assms(2)
proof (cases rule: tryClaim_claimed)
  case (1 cfg r j plan u v)
  note j = claimable_jobD [OF 1(5)]
  note kv = claim_keyed [OF assms(1) 1(7,8)]
  from 1(9) show ?thesis
  proof (cases rule: record_claim_parts)
    case (1 k w m x y z)
    note i = insert_attempt_row [OF 1(1) kv]
    have "get_slot e w = Some (r\<lparr>slot_fence := slot_fence r + 1, slot_updated := now\<rparr>)"
      using i(3) [of e] lease_job_row(1) [OF \<open>lease_job now i (job_state j) u = _\<close>, of e]
        advance_fence_row(1) [OF \<open>advance_fence now e s = _\<close> \<open>get_slot e s = Some r\<close>] by simp
    note sl = update_slot_row [OF 1(2) this]
    note fr = same_lease_rows_get [OF 1(5)]
    have "get_job i t = get_job i v" using fr(1) [of i] sl(4) [of i] i(4) [of i] by simp
    with lease_job_row(5) [OF \<open>lease_job now i (job_state j) u = _\<close>]
    have "\<exists>q. get_job i t = Some q \<and> job_state q = JobLeased \<and> job_attempt_count q = cl_number l"
      using 1 by simp
    moreover have "get_attempt (cl_attempt l) t = Some (new_attempt srv i e (cl_number l) (cl_fence l) expires (cl_attempt l))"
      using 1 fr(3) [of k] sl(3) [of k] i(1) j(2) by (simp add: new_attempt_def)
    moreover have "\<exists>q. get_slot e t = Some q \<and> slot_current q = Some (cl_attempt l) \<and> slot_fence q = cl_fence l"
      using 1 fr(2) [of e] sl(1) by simp
    ultimately show ?thesis using j \<open>get_slot e s = Some r\<close> \<open>slot_current r = None\<close> \<open>\<not> slot_reconciling r\<close> 1 by blast
  qed
qed

text \<open>
  C20: A claim succeeds only on a free environment that is not waiting for reconciliation and on a
  job of this server and environment that is queued or waiting for a retry, due and not
  cancelled.  It hands out the environment's next fence, numbers the attempt after the ones
  before, gives it the requested lease, and leaves the attempt leased and named as the occupant.
\<close>

theorem claim_takes_a_free_environment:
  assumes "keyed s" and "tryClaim sha sl jl srv i e now expires s = Inr (CandidateClaimed l, t)"
  shows "\<exists>r j. get_slot e s = Some r \<and> slot_current r = None \<and> \<not> slot_reconciling r \<and>
    get_job i s = Some j \<and> job_server j = srv \<and> job_environment j = e \<and>
    (job_state j = JobQueued \<or> job_state j = JobRetryWait) \<and> job_available j \<le> now \<and> job_cancel_requested j = None \<and>
    cl_fence l = slot_fence r + 1 \<and> cl_number l = job_attempt_count j + 1 \<and>
    get_attempt (cl_attempt l) t = Some (new_attempt srv i e (cl_number l) (cl_fence l) expires (cl_attempt l)) \<and>
    (\<exists>q. get_slot e t = Some q \<and> slot_current q = Some (cl_attempt l) \<and> slot_fence q = cl_fence l) \<and>
    (\<exists>k. get_job i t = Some k \<and> job_state k = JobLeased \<and> job_attempt_count k = cl_number l)"
  using claim_facts [OF assms] .

definition ex_lease :: claimed_lease where
  "ex_lease = \<lparr>cl_job = 1, cl_attempt = 1, cl_number = 1, cl_fence = 1, cl_owner = ''o'', cl_project = ''p'',
     cl_environment = ''e'', cl_deployment = ''d'', cl_repository = 7, cl_ref = ''refs/heads/main'',
     cl_commit = ''c'', cl_config = ex_config, cl_release = ''d'',
     cl_secrets = [\<lparr>fb_variable = ''TOKEN'', fb_scope = ''runtime'', fb_version = ''v''\<rparr>],
     cl_literals = [\<lparr>fl_variable = ''MODE'', fl_scope = ''runtime'', fl_value = ''prod''\<rparr>],
     cl_lease_expires = 90000010000, cl_authority_expires = 90000010000\<rparr>"

lemma first_claim:
  "tryClaim ex_sha ex_lock ex_lock ''s'' 1 ''e'' 10000 90000010000 ex_ready = Inr (CandidateClaimed ex_lease, ex_claimed)"
  by code_simp

theorem claim_takes_a_free_environment_witness:
  "\<exists>r. get_slot ''e'' ex_ready = Some r \<and> cl_fence ex_lease = slot_fence r + 1 \<and>
     get_attempt (cl_attempt ex_lease) ex_claimed =
       Some (new_attempt ''s'' 1 ''e'' (cl_number ex_lease) (cl_fence ex_lease) 90000010000 (cl_attempt ex_lease))"
  using claim_takes_a_free_environment [OF reachable_keyed [OF ready_reachable] first_claim] by blast

section \<open>The configuration digest\<close>

lemma secret_parts_inject:
  "concat (map (\<lambda>b. [fb_variable b, fb_scope b, fb_version b]) bs) =
   concat (map (\<lambda>b. [fb_variable b, fb_scope b, fb_version b]) cs) \<Longrightarrow> bs = (cs :: frozen_binding list)"
  by (induction bs arbitrary: cs; case_tac cs) (auto intro: frozen_binding.equality)

lemma literal_parts_inject:
  "concat (map (\<lambda>b. [fl_variable b, fl_scope b, fl_value b]) bs) =
   concat (map (\<lambda>b. [fl_variable b, fl_scope b, fl_value b]) cs) \<Longrightarrow> bs = (cs :: frozen_literal list)"
  by (induction bs arbitrary: cs; case_tac cs) (auto intro: frozen_literal.equality)

lemma config_parts_inject:
  assumes "config_parts c bs ls = config_parts d bs' ls'"
  shows "c = d" and "sort_key fb_variable bs = sort_key fb_variable bs'"
    and "sort_key fl_variable ls = sort_key fl_variable ls'"
proof -
  have len: "length (concat (map (\<lambda>b. [fb_variable b, fb_scope b, fb_version b]) xs)) = 3 * length xs"
    for xs :: "frozen_binding list" by (induction xs) auto
  let ?b = "sort_key fb_variable bs" and ?b' = "sort_key fb_variable bs'"
  let ?l = "sort_key fl_variable ls" and ?l' = "sort_key fl_variable ls'"
  from assms have n: "length ?b = length ?b'" by (simp add: config_parts_def Let_def itoa_inject)
  from assms have tails: "concat (map (\<lambda>b. [fb_variable b, fb_scope b, fb_version b]) ?b)
      @ [itoa (int (length ?l))] @ concat (map (\<lambda>l. [fl_variable l, fl_scope l, fl_value l]) ?l)
    = concat (map (\<lambda>b. [fb_variable b, fb_scope b, fb_version b]) ?b')
      @ [itoa (int (length ?l'))] @ concat (map (\<lambda>l. [fl_variable l, fl_scope l, fl_value l]) ?l')"
    by (simp add: config_parts_def Let_def)
  then have parts: "concat (map (\<lambda>b. [fb_variable b, fb_scope b, fb_version b]) ?b)
      = concat (map (\<lambda>b. [fb_variable b, fb_scope b, fb_version b]) ?b')"
    "concat (map (\<lambda>l. [fl_variable l, fl_scope l, fl_value l]) ?l)
      = concat (map (\<lambda>l. [fl_variable l, fl_scope l, fl_value l]) ?l')"
    using n len by (simp_all add: append_eq_append_conv)
  show "?b = ?b'" by (rule secret_parts_inject [OF parts(1)])
  show "?l = ?l'" by (rule literal_parts_inject [OF parts(2)])
  show "c = d" using assms
    by (auto simp: config_parts_def Let_def itoa_inject intro!: execution_row.equality)
qed

text \<open>
  The configuration digest of a release identifies the configuration: if the hash does not
  collide on the two encodings, equal digests mean equal execution rows, equal secret versions
  and equal literal values (up to the order of the bindings, which the digest sorts away).
\<close>

lemma config_digest_identifies_configuration:
  assumes no_collision: "sha256 (encode_parts (config_parts c bs ls)) = sha256 (encode_parts (config_parts d bs' ls')) \<Longrightarrow>
      encode_parts (config_parts c bs ls) = encode_parts (config_parts d bs' ls')"
    and "computeConfigDigest sha256 c bs ls = computeConfigDigest sha256 d bs' ls'"
  shows "c = d \<and> mset bs = mset bs' \<and> mset ls = mset ls'"
proof -
  from assms have "config_parts c bs ls = config_parts d bs' ls'"
    by (simp add: computeConfigDigest_def encode_parts_inject)
  from config_parts_inject [OF this] show ?thesis by (metis mset_sort)
qed

section \<open>A batch of claims\<close>

lemma tryClaim_skipped:
  assumes "tryClaim sha sl jl srv i e now expires s = Inr (CandidateSkipped, t)"
  shows "t = s"
proof (rule ccontr)
  assume "t \<noteq> s"
  with assms obtain cfg j plan w f u x v where c:
    "claimable_slot sl e s = Some cfg" "claimable_job jl srv i e now s = Some j"
    "plan_freeze e j s = Inr (Some plan, w)" "advance_fence now e w = Inr (f, u)"
    "lease_job now i (job_state j) u = Inr (x, v)"
    "(case x of JobNotLeased \<Rightarrow> ret CandidateSkipped | JobLeaseRefused \<Rightarrow> ret CandidateSkippedAborted
      | JobLeasedAs n \<Rightarrow> and_then (record_claim sha srv j e now expires cfg plan f n)
          (\<lambda>lease. ret (CandidateClaimed lease))) v = Inr (CandidateSkipped, t)"
    by (auto simp: tryClaim_def tx_simps dest: plan_freeze_reads split: option.splits)
  then have x: "x = JobNotLeased" by (cases x) (auto simp: tx_simps)
  from c(3) have w: "w = s" by (rule plan_freeze_reads)
  from c(1) obtain r where r: "get_slot e s = Some r" by (rule claimable_slotD)
  note av = advance_fence_view(6) [OF c(4) [unfolded w] r, of i, unfolded claimable_jobD(1) [OF c(2)]]
  from lease_job_view(1) [OF c(5) av HOL.refl] x show False by simp
qed

text \<open>A claim occupies its environment and leaves the occupants of the others.\<close>

lemma claim_occupies:
  assumes "keyed s" and "tryClaim sha sl jl srv i e now expires s = Inr (CandidateClaimed l, t)"
  shows "cl_environment l = e" and "\<exists>r. get_slot e s = Some r \<and> slot_current r = None"
    and "\<exists>r. get_slot e t = Some r \<and> slot_current r \<noteq> None" and "\<And>x. x \<noteq> e \<Longrightarrow> get_slot x t = get_slot x s"
    and "keyed t"
proof -
  note c = claim_facts [OF assms]
  from c show "\<exists>r. get_slot e s = Some r \<and> slot_current r = None"
    and "\<exists>r. get_slot e t = Some r \<and> slot_current r \<noteq> None" by fastforce+
  show "keyed t" using keys.keepsD [OF keys.tryClaim_kept assms(2)] assms(1) by blast
  from assms(2) show env: "cl_environment l = e"
    by (auto elim!: tryClaim_claimed record_claim_parts)
  fix x assume x: "x \<noteq> e"
  from assms(2) show "get_slot x t = get_slot x s"
  proof (cases rule: tryClaim_claimed)
    case (1 cfg r j plan u v)
    note kv = claim_keyed [OF assms(1) 1(7,8)]
    note a = advance_fence_row(1,2) [OF 1(7,2)] lease_job_row(1) [OF 1(8)]
    from 1(9) show ?thesis
    proof (cases rule: record_claim_parts)
      case (1 k w m y z q)
      note i = insert_attempt_row(3) [OF 1(1) kv]
      have "get_slot e w = Some (r\<lparr>slot_fence := slot_fence r + 1, slot_updated := now\<rparr>)" using a i by simp
      from update_slot_row(2) [OF 1(2) this x] same_lease_rows_get(2) [OF 1(5)] a x i show ?thesis by simp
    qed
  qed
qed

definition claimed_distinctly :: "claimed_lease list \<Rightarrow> db \<Rightarrow> bool" where
  "claimed_distinctly ls s \<longleftrightarrow> keyed s \<and> distinct (map cl_environment ls) \<and>
     (\<forall>l \<in> set ls. \<exists>r. get_slot (cl_environment l) s = Some r \<and> slot_current r \<noteq> None)"

lemma claim_loop_distinct:
  assumes "claim_loop sha sl jl srv now limit cs claimed s = Inr (ls, t)"
    and "claimed_distinctly claimed s" and "int (length claimed) \<le> limit"
  shows "claimed_distinctly ls t \<and> int (length ls) \<le> limit"
  using assms
proof (induction cs arbitrary: claimed s)
  case (Cons c cs)
  obtain i e where c: "c = (i, e)" by (cases c)
  show ?case
  proof (cases "int (length claimed) \<ge> limit")
    case True
    with Cons.prems show ?thesis by (auto simp: c)
  next
    case False
    with Cons.prems(1) obtain x u where x: "tryClaim sha sl jl srv i e now (now + leaseDuration) s = Inr (x, u)"
      and rest: "(case x of CandidateSkipped \<Rightarrow> claim_loop sha sl jl srv now limit cs claimed
        | CandidateSkippedAborted \<Rightarrow> fail (PgError ''25P02'' ''current transaction is aborted'')
        | CandidateClaimed lease \<Rightarrow> claim_loop sha sl jl srv now limit cs (claimed @ [lease])) u = Inr (ls, t)"
      by (auto simp: c tx_simps)
    show ?thesis
    proof (cases x)
      case CandidateSkipped
      with x have "u = s" by (auto dest: tryClaim_skipped)
      with CandidateSkipped rest Cons.IH [of claimed s] Cons.prems show ?thesis by simp
    next
      case CandidateSkippedAborted
      with rest show ?thesis by simp
    next
      case (CandidateClaimed l)
      have k: "keyed s" using Cons.prems(2) by (simp add: claimed_distinctly_def)
      note o = claim_occupies [OF k x [unfolded CandidateClaimed]]
      have fresh: "cl_environment q \<noteq> e" if "q \<in> set claimed" for q
        using Cons.prems(2) o(2) that by (fastforce simp: claimed_distinctly_def)
      have "claimed_distinctly (claimed @ [l]) u"
        using Cons.prems(2) o fresh by (fastforce simp: claimed_distinctly_def)
      moreover have "int (length (claimed @ [l])) \<le> limit" using False by simp
      ultimately show ?thesis using rest Cons.IH [of "claimed @ [l]" u] CandidateClaimed by simp
    qed
  qed
qed auto

text \<open>
  C35: A successful \<^verbatim>\<open>Claim\<close> returns no more leases than asked for and never more than 50, and no two
  of them are for the same environment.
\<close>

theorem claim_batch_is_bounded_and_disjoint:
  assumes "keyed s" and "Claim sha sl jl srv presented limit now s = (Inr ls, t)"
  shows "length ls \<le> nat limit \<and> length ls \<le> 50 \<and> distinct (map cl_environment ls)"
proof (cases "limit \<le> 0")
  case True
  with assms(2) show ?thesis by (auto simp: Claim_def)
next
  case False
  let ?lim = "if limit > 50 then 50 else limit"
  let ?cs = "discover srv now (discovery_limit ?lim) s"
  let ?s = "ensure_slots now (sortedDistinctEnvironments ?cs) s"
  from assms(2) False have "run_tx (claim_tx sha sl jl srv presented now ?lim ?cs) ?s = (Inr ls, t)"
    by (auto simp: Claim_def Let_def split: if_splits)
  then have loop: "claim_loop sha sl jl srv now ?lim ?cs [] ?s = Inr (ls, t)"
    by (auto simp: run_tx_def claim_tx_def tx_simps split: sum.splits if_splits)
  have "keyed ?s" using keys.ensure_slots_kept [of s] assms(1) by blast
  then have "claimed_distinctly ls t \<and> int (length ls) \<le> ?lim"
    using False by (intro claim_loop_distinct [OF loop]) (simp_all add: claimed_distinctly_def)
  then show ?thesis by (auto simp: claimed_distinctly_def split: if_splits)
qed

lemma claim_run_whole: "Claim ex_sha ex_lock ex_lock ''s'' ex_key 3 10000 ex_ready = (Inr [ex_lease], ex_claimed)"
  by code_simp

theorem claim_batch_is_bounded_and_disjoint_witness:
  "length [ex_lease] \<le> 3 \<and> distinct (map cl_environment [ex_lease]) \<and>
   fst (Claim ex_sha ex_lock ex_lock ''s'' ex_key 3 10000 ex_ready) = Inr [ex_lease]"
  using claim_batch_is_bounded_and_disjoint [OF reachable_keyed [OF ready_reachable] claim_run_whole] claim_run_whole
  by simp

section \<open>Renewing\<close>

lemma renew_Inr:
  assumes "Renew srv d k fence sq now s = (Inr r, t)"
  obtains slot job a where "credential_accepted srv d s" "get_attempt k s = Some a" "att_server a = srv"
    "get_slot (att_environment a) s = Some slot" "get_job (att_job a) s = Some job"
    "att_state a = AttemptLeased" "att_fence a = fence" "slot_fence slot = fence" "slot_current slot = Some k"
    "now < att_authority_expires a" "rn_cancel_requested r = (job_cancel_requested job \<noteq> None)"
    "sq = att_renewal a \<and> t = s \<and> rn_lease_expires r = att_lease_expires a \<and>
       rn_authority_expires r = att_authority_expires a \<or>
     sq = att_renewal a + 1 \<and> rn_authority_expires r = rn_lease_expires r \<and>
       rn_lease_expires r = (case att_cancel_deadline a of None \<Rightarrow> now + leaseDuration
         | Some c \<Rightarrow> if c < now + leaseDuration then c else now + leaseDuration) \<and>
       validate_agent_job_attempt_update s a (a\<lparr>att_renewal := sq, att_lease_expires := rn_lease_expires r,
         att_authority_expires := rn_lease_expires r\<rparr>) = None \<and>
       t = put_attempt (a\<lparr>att_renewal := sq, att_lease_expires := rn_lease_expires r,
         att_authority_expires := rn_lease_expires r\<rparr>) s"
proof -
  from assms have "renew_tx srv d k fence sq now s = Inr (Inr r, t)"
    by (auto simp: Renew_def run_tx_def split: if_splits sum.splits)
  then show thesis
    using that unfolding renew_tx_def Let_def
    by (fastforce simp: tx_simps update_attempt_def split: if_splits)
qed

end
