(* ===== verification/Agent_Properties.thy ===== *)
theory Agent_Properties
  imports Claim_Properties
begin

text \<open>
  What an agent's calls promise: nothing without a valid credential, nothing for an agent whose
  lease is gone, and calls that are safe to repeat when an answer was lost.
\<close>

section \<open>Refusals\<close>

lemma authenticateServerCandidate_iff: "authenticateServerCandidate srv d s \<longleftrightarrow> credential_accepted srv d s"
  by (auto simp: authenticateServerCandidate_def credential_accepted_def matchServerCredential_def Let_def
      split: option.splits)

lemma unaccepted_refused:
  assumes "\<not> credential_accepted srv d s"
  shows "refused (Authenticate srv d s) s" "refused (Heartbeat srv d clock s) s"
  using assms
  by (auto simp: Authenticate_def Heartbeat_def heartbeat_tx_def refused_if credential_accepted_def active_credential_def
      active_credential_row_def get_server_def ConstantTimeEqualDigest_def wp_def tx_simps
      split: option.splits if_splits intro!: refused_run_tx)

text \<open>
  C29: A caller that does not present the active credential of an active server changes nothing and
  learns nothing.  Authenticating, sending a heartbeat and every call on leases and activations get
  an error and leave the database exactly as it was; claiming is refused, unless the caller asks for
  no job at all, which is answered with no job before the credential is looked at.
\<close>

theorem unauthenticated_agent_changes_nothing:
  assumes "\<not> credential_accepted srv d s"
  shows "refused (Authenticate srv d s) s \<and> refused (Heartbeat srv d clock s) s \<and>
    Claim sha sl jl srv d limit now s = (if limit \<le> 0 then Inr [] else Inl ErrServerAuthorizationDenied, s) \<and>
    refused (Renew srv d k fence sq now s) s \<and>
    refused (Complete draw srv d k fence outcome cls opid res now s) s \<and>
    refused (AcknowledgeCancellation srv d k fence opid res now s) s \<and>
    refused (Reconcile srv d env k fence now s) s \<and>
    refused (AuthorizeMaterialization srv d k fence now s) s \<and>
    refused (AuthorizeCheckout srv d k fence now s) s \<and>
    refused (ReportProgress srv d k fence phase now s) s \<and>
    refused (Activate sha srv d k fence img now s) s \<and>
    refused (ReportActivationResult sha describe srv d k fence opid ok obs why now s) s \<and>
    refused (ReconcileActivation srv d env k fence outc dg now s) s"
proof -
  have report: "refused (ReportActivationResult sha describe srv d k fence opid ok obs why now s) s"
    using assms
    by (auto simp: ReportActivationResult_def reportActivationResult_def locate_activation_def refused_def tx_simps
        split: sum.splits prod.splits option.splits if_splits)
  have claim: "Claim sha sl jl srv d limit now s = (if limit \<le> 0 then Inr [] else Inl ErrServerAuthorizationDenied, s)"
    using assms by (simp add: Claim_def authenticateServerCandidate_iff)
  have wps: "wp (renew_tx srv d k fence sq now) (\<lambda>_ _. False) s"
    "wp (complete_tx draw srv d k fence outcome cls opid res now) (\<lambda>_ _. False) s"
    "wp (acknowledge_tx srv d k fence opid res now) (\<lambda>_ _. False) s"
    "wp (reconcile_tx srv d env k fence now) (\<lambda>_ _. False) s"
    "wp (authorize_attempt srv d k fence now) (\<lambda>_ _. False) s"
    "wp (activate_tx sha srv d k fence img now) (\<lambda>_ _. False) s"
    "wp (reconcile_activation_tx srv d env k fence outc dg now) (\<lambda>_ _. False) s"
    using assms unfolding renew_tx_def complete_tx_def acknowledge_tx_def reconcile_tx_def authorize_attempt_def
      activate_tx_def reconcile_activation_tx_def by (simp_all add: wp_compound lockActiveServerCredential_wp)
  have any: "wp (and_then m f) Q s" if "wp m (\<lambda>_ _. False) s" for m :: "'a dbtx" and f :: "'a \<Rightarrow> 'b dbtx" and Q
    using that by (auto simp: wp_def tx_simps)
  show ?thesis
    by (intro conjI report claim unaccepted_refused [OF assms])
      (auto simp: Renew_def Complete_def AcknowledgeCancellation_def Reconcile_def AuthorizeMaterialization_def
        AuthorizeCheckout_def ReportProgress_def Activate_def ReconcileActivation_def refused_if
        authorize_materialization_tx_def report_progress_tx_def intro!: refused_run_tx any wps)
qed

theorem unauthenticated_agent_changes_nothing_witness:
  "refused (Heartbeat ''s'' ''stolen'' (\<lambda>_. 20000) ex_claimed) ex_claimed \<and>
   Claim ex_sha ex_lock ex_lock ''s'' ''stolen'' 0 20000 ex_claimed = (Inr [], ex_claimed) \<and>
   refused (Complete 0 ''s'' ''stolen'' 1 1 CompletionSucceeded (FailureClassOther []) ''x'' ''y'' 20000 ex_claimed) ex_claimed"
proof -
  have "\<not> credential_accepted ''s'' ''stolen'' ex_claimed"
    by (simp add: credential_accepted_def active_credential_def ex_claimed_def ex_ready_def ex_configured_def ex_based_def ex_server_def ex_credential_def ex_key_def numeral_eq_Suc)
  note none = unauthenticated_agent_changes_nothing [OF this, of "\<lambda>_. 20000" ex_sha ex_lock ex_lock 0 20000 1 1 _ 0 CompletionSucceeded
      "FailureClassOther []" "''x''" "''y''"]
  then show ?thesis by simp
qed

section \<open>A lease that is gone\<close>

text \<open>
  C21: An agent whose attempt is closed or whose authority has run out cannot act on the environment
  any more.  Renewing, activating, reporting progress, fetching secrets and checking out are
  refused; completing and acknowledging a cancellation write nothing (a closed attempt only gets
  its recorded result confirmed or contradicted).
\<close>

theorem lost_lease_is_powerless:
  assumes "get_attempt k s = Some a" and "att_state a \<noteq> AttemptLeased \<or> att_authority_expires a \<le> now"
  shows "refused (Renew srv d k fence sq now s) s \<and>
    refused (AuthorizeMaterialization srv d k fence now s) s \<and>
    refused (AuthorizeCheckout srv d k fence now s) s \<and>
    refused (ReportProgress srv d k fence phase now s) s \<and>
    refused (Activate sha srv d k fence img now s) s \<and>
    snd (Complete draw srv d k fence outcome cls opid res now s) = s \<and>
    snd (AcknowledgeCancellation srv d k fence opid res now s) = s"
proof -
  have wps: "wp (renew_tx srv d k fence sq now) (\<lambda>_ _. False) s"
    "wp (authorize_attempt srv d k fence now) (\<lambda>_ _. False) s"
    "wp (activate_tx sha srv d k fence img now) (\<lambda>_ _. False) s"
    using assms unfolding renew_tx_def authorize_attempt_def activate_tx_def Let_def
    by (auto simp only: wp_simps prod.case fst_conv snd_conv)
  have unchanged: "wp (complete_tx draw srv d k fence outcome cls opid res now) (\<lambda>_ t. t = s) s"
    "wp (acknowledge_tx srv d k fence opid res now) (\<lambda>_ t. t = s) s"
    using assms unfolding complete_tx_def acknowledge_tx_def replay_completion_def replay_cancellation_def Let_def
    by (auto simp: wp_simps)
  show ?thesis
    by (auto simp: Renew_def AuthorizeMaterialization_def AuthorizeCheckout_def ReportProgress_def Activate_def
        Complete_def AcknowledgeCancellation_def refused_if authorize_materialization_tx_def report_progress_tx_def
        wp_simps intro!: refused_run_tx run_tx_unchanged wp_mono [OF wps(2)] wps unchanged)
qed

theorem lost_lease_is_powerless_witness:
  "refused (Activate ex_sha ''s'' ex_key 1 1 ex_image 90000020000 ex_expired) ex_expired"
proof -
  have "get_attempt 1 ex_expired = Some (ex_attempt\<lparr>att_state := AttemptExpired, att_closed := Some 90000010000\<rparr>)"
    by (simp add: get_attempt_def ex_expired_def ex_attempt_def)
  from lost_lease_is_powerless [OF this, of 90000020000 "''s''" ex_key 1, THEN conjunct2, THEN conjunct2, THEN conjunct2,
      THEN conjunct2, THEN conjunct1]
  show ?thesis by simp
qed

section \<open>Renewing twice\<close>

text \<open>
  Renewing is safe to repeat.  When the answer to a renewal was lost, sending the same sequence
  number again before the authority ends gives the same answer and changes nothing.
\<close>

lemma renew_is_repeatable:
  assumes "Renew srv d k fence sq now s = (Inr r, t)" and "now' < rn_authority_expires r"
  shows "Renew srv d k fence sq now' t = (Inr r, t)"
  using assms(1)
proof (cases rule: renew_Inr)
  case (1 slot job a)
  have valid: "ValidOpaqueID srv" "\<not> k \<le> 0" "\<not> fence \<le> 0" "\<not> sq < 0" and checks: "commit_checks t"
    using assms(1) run_tx_committed by (auto simp: Renew_def split: if_splits)
  obtain b where b: "get_attempt k t = Some b" "att_server b = srv" "att_environment b = att_environment a"
    "att_job b = att_job a" "att_state b = AttemptLeased" "att_fence b = fence" "att_renewal b = sq"
    "att_lease_expires b = rn_lease_expires r" "att_authority_expires b = rn_authority_expires r"
  proof (cases "sq = att_renewal a \<and> t = s \<and> rn_lease_expires r = att_lease_expires a \<and>
       rn_authority_expires r = att_authority_expires a")
    case True
    with 1 that [of a] show ?thesis by simp
  next
    case False
    let ?b = "a\<lparr>att_renewal := sq, att_lease_expires := rn_lease_expires r, att_authority_expires := rn_lease_expires r\<rparr>"
    from False 1 have "t = put_attempt ?b s" "rn_authority_expires r = rn_lease_expires r" by blast+
    with 1 attempt_tbl.get_put_same [OF 1(2), of ?b] attempt_tbl.get_key [OF 1(2)] that [of ?b] show ?thesis by simp
  qed
  have rest: "get_slot e t = get_slot e s" "get_job i t = get_job i s" "servers t = servers s" "credentials t = credentials s" for e i
    using 1(12) by (auto simp: put_attempt_def get_slot_def get_job_def)
  have "credential_accepted srv d t" using 1(1) by (simp add: credential_accepted_def active_credential_def rest)
  then obtain x where x: "lockActiveServerCredential srv d t = Inr (x, t)"
    by (auto simp: tx_simps credential_accepted_def)
  have l: "lock_lease srv k t = Inr ((slot, job, b), t)" using 1 b by (simp add: tx_simps rest)
  have "renew_tx srv d k fence sq now' t = Inr (Inr r, t)"
    using 1 b assms(2) by (simp add: renew_tx_def seq_def and_then_def x l ensure_def Let_def)
  then show ?thesis using valid checks by (simp add: Renew_def run_tx_def)
qed

section \<open>Completing\<close>

definition closed_row :: "nat \<Rightarrow> int \<Rightarrow> int \<Rightarrow> job_state \<Rightarrow> job_row \<Rightarrow> job_row" where
  "closed_row draw now n st j =
     (if st = JobRetryWait then j\<lparr>job_state := JobRetryWait,
        job_available := canonicalTime (now + FullJitterDelay draw n), job_updated := now\<rparr>
      else j\<lparr>job_state := st, job_updated := now\<rparr>)"

definition completed_row :: "completion_outcome \<Rightarrow> failure_class \<Rightarrow> string \<Rightarrow> digest \<Rightarrow> int \<Rightarrow> attempt_row \<Rightarrow> attempt_row" where
  "completed_row outcome cls opid res now a =
     a\<lparr>att_state := completion_state outcome, att_closed := Some now, att_failure := completion_class outcome cls,
       att_result_op := Some opid, att_result_digest := Some res\<rparr>"

lemma completed_row_fold:
  "(\<lambda>a. a\<lparr>att_state := completion_state outcome, att_closed := Some now, att_failure := completion_class outcome cls,
     att_result_op := Some opid, att_result_digest := Some res\<rparr>) = completed_row outcome cls opid res now"
  by (simp add: fun_eq_iff completed_row_def)

text \<open>Of the statements that close a lease only \<open>appendAgentJobEvent\<close> writes to the event log.\<close>

interpretation job_log: kept_relation "\<lambda>s t. job_events t = job_events s"
  by unfold_locales simp_all

lemma transitionDeployment_log: "job_log.keeps (transitionDeployment k tgt at)"
proof -
  have "job_log.keeps (update_deployment e u v)" "job_log.keeps (insert_deployment_event dep ev)" "job_log.keeps (readSnapshot dep)"
    for e u v dep ev
    by (rule job_log.keepsI; auto simp: update_deployment_def insert_deployment_event_def readSnapshot_def put_deployment_def tx_simps
        split: option.splits if_splits)+
  then show ?thesis
    unfolding transitionDeployment_def saveTx_def appendEvents_def by (intro job_log.keeps_intros)
qed

definition logged_event :: "int \<Rightarrow> int option \<Rightarrow> job_event_type \<Rightarrow> db \<Rightarrow> job_event_row" where
  "logged_event job attempt kind s = \<lparr>jev_job = job, jev_sequence = next_sequence job s, jev_type = kind, jev_attempt = attempt\<rparr>"

lemma complete_tx_effect:
  assumes "complete_tx draw srv d k fence outcome cls opid res now s = Inr (u, t)"
    and "get_attempt k s = Some a" "att_state a = AttemptLeased"
  obtains r j where "credential_accepted srv d s" "att_server a = srv" "att_fence a = fence" "now < att_authority_expires a"
    "get_slot (att_environment a) s = Some r" "slot_fence r = fence" "slot_current r = Some k"
    "get_job (att_job a) s = Some j" "\<not> activation_open k fence s"
    "get_attempt k t = Some (completed_row outcome cls opid res now a)"
    "get_slot (att_environment a) t = Some (r\<lparr>slot_current := None, slot_updated := now\<rparr>)"
    "job_state j = JobLeased \<Longrightarrow>
       get_job (att_job a) t = Some (closed_row draw now (att_number a) (completed_job_state outcome cls (att_number a)) j)"
    "job_events t = job_events s @ [logged_event (att_job a) (Some k) (completion_event (completed_job_state outcome cls (att_number a))) s]"
proof -
  let ?st = "completed_job_state outcome cls (att_number a)"
  from assms obtain r j s1 s2 s3 n1 n2 n3 where
    o: "credential_accepted srv d s" "att_server a = srv" "att_fence a = fence" "now < att_authority_expires a"
      "get_slot (att_environment a) s = Some r" "slot_fence r = fence" "slot_current r = Some k"
      "get_job (att_job a) s = Some j" "\<not> activation_open k fence s"
    and w: "update_attempt k (\<lambda>_. True) (completed_row outcome cls opid res now) s = Inr (n1, s1)"
      "free_slot now (att_environment a) k s1 = Inr (n2, s2)" "close_job draw now (att_job a) (att_number a) ?st s2 = Inr (n3, s3)"
      "seq (if ?st = JobDead \<or> ?st = JobFailed then transitionDeployment (job_deployment j) StatusFailed now else ret ())
         (appendAgentJobEvent (att_job a) (Some k) (completion_event ?st)) s3 = Inr (u, t)"
    by (auto simp: complete_tx_def completed_row_fold Let_def tx_simps)
  note id = attempt_tbl.get_key [OF assms(2)] slot_tbl.get_key [OF o(5)] job_tbl.get_key [OF o(8)]
  have s1: "s1 = put_attempt (completed_row outcome cls opid res now a) s"
    using w(1) assms(2) by (simp add: update_attempt_def tx_simps)
  have s2: "s2 = put_slot (r\<lparr>slot_current := None, slot_updated := now\<rparr>) s1"
    using w(2) o by (simp add: free_slot_def update_slot_def tx_simps s1)
  have s3: "job_state j = JobLeased \<Longrightarrow> s3 = put_job (closed_row draw now (att_number a) ?st j) s2"
    "\<exists>x. s3 = put_job x s2 \<or> s3 = s2"
    using w(3) o by (auto simp: close_job_update update_job_def tx_simps s1 s2 closed_row_def split: if_splits)
  from w(4) obtain s4 where
    dep: "(if ?st = JobDead \<or> ?st = JobFailed then transitionDeployment (job_deployment j) StatusFailed now else ret ()) s3 = Inr ((), s4)"
    and log: "appendAgentJobEvent (att_job a) (Some k) (completion_event ?st) s4 = Inr (u, t)" by (auto simp: seq_Inr)
  have "job_log.keeps (if ?st = JobDead \<or> ?st = JobFailed then transitionDeployment (job_deployment j) StatusFailed now else ret ())"
    by (intro job_log.keeps_intros transitionDeployment_log)
  from job_log.keepsD [OF this dep] s3(2) have ev: "job_events s4 = job_events s"
    by (auto simp: s1 s2 put_job_def put_slot_def put_attempt_def)
  have "lease_rows.keeps (seq (if ?st = JobDead \<or> ?st = JobFailed then transitionDeployment (job_deployment j) StatusFailed now else ret ())
         (appendAgentJobEvent (att_job a) (Some k) (completion_event ?st)))"
    by (intro lease_rows.keeps_intros frame_statements)
  from same_lease_rows_get [OF lease_rows.keepsD [OF this w(4)]]
  have t: "get_attempt k t = get_attempt k s3" "get_slot (att_environment a) t = get_slot (att_environment a) s3"
    "get_job (att_job a) t = get_job (att_job a) s3" by blast+
  show ?thesis
  proof (rule that [OF o])
    show "get_attempt k t = Some (completed_row outcome cls opid res now a)"
      using s3(2) attempt_tbl.get_put_same [OF assms(2), of "completed_row outcome cls opid res now a"] id
      by (auto simp: t s1 s2 completed_row_def)
    show "get_slot (att_environment a) t = Some (r\<lparr>slot_current := None, slot_updated := now\<rparr>)"
      using s3(2) slot_tbl.get_put_same [of "att_environment a" s1 r "r\<lparr>slot_current := None, slot_updated := now\<rparr>"] id o
      by (auto simp: t s1 s2)
    show "job_events t = job_events s @ [logged_event (att_job a) (Some k) (completion_event ?st) s]"
      using log by (auto simp: appendAgentJobEvent_def ev logged_event_def next_sequence_def)
    assume "job_state j = JobLeased"
    from s3(1) [OF this] show "get_job (att_job a) t = Some (closed_row draw now (att_number a) ?st j)"
      using job_tbl.get_put_same [of "att_job a" s2 j "closed_row draw now (att_number a) ?st j"] id o
      by (simp add: t s1 s2 closed_row_def)
  qed
qed

lemma Complete_Inr:
  "Complete draw srv d k fence outcome cls opid res now s = (Inr u, t) \<longleftrightarrow>
     ValidOpaqueID srv \<and> 0 < k \<and> 0 < fence \<and> validOperationID opid \<and> valid_completion outcome cls \<and>
     complete_tx draw srv d k fence outcome cls opid res now s = Inr (u, t) \<and> commit_checks t"
  by (auto simp: Complete_def run_tx_def tx_simps and_then_def split: sum.splits prod.splits if_splits)

text \<open>
  C28: A completion that is accepted ends the lease.  Before, the attempt was the fenced occupant with
  time left and no activation in doubt; after, it is closed with the reported result, its slot is
  free at the same fence, and its job has succeeded, waits for a retry (a transient failure with
  attempts left), is dead (a transient failure of the fifth attempt) or has failed; and exactly one
  event was appended to the event log, with the next sequence number of the job and the type that
  belongs to its new state.
\<close>

theorem completion_ends_the_lease:
  assumes "reachable s" and "Complete draw srv d k fence outcome cls opid res now s = (Inr (), t)"
    and "get_attempt k s = Some a" "att_state a = AttemptLeased"
  shows "\<exists>r j. get_slot (att_environment a) s = Some r \<and> slot_current r = Some k \<and> slot_fence r = fence \<and>
    att_fence a = fence \<and> att_server a = srv \<and> now < att_authority_expires a \<and> \<not> activation_open k fence s \<and>
    get_attempt k t = Some (a\<lparr>att_state := (if outcome = CompletionSucceeded then AttemptSucceeded else AttemptFailed),
      att_closed := Some now, att_failure := (if outcome = CompletionSucceeded then None else Some cls),
      att_result_op := Some opid, att_result_digest := Some res\<rparr>) \<and>
    get_slot (att_environment a) t = Some (r\<lparr>slot_current := None, slot_updated := now\<rparr>) \<and>
    get_job (att_job a) t = Some j \<and>
    job_state j = (if outcome = CompletionSucceeded then JobSucceeded
                   else if cls \<noteq> FailureClassTransient then JobFailed
                   else if att_number a < 5 then JobRetryWait else JobDead) \<and>
    job_events t = job_events s @ [\<lparr>jev_job = att_job a, jev_sequence = next_sequence (att_job a) s,
      jev_type = (if outcome = CompletionSucceeded then EvSucceeded
                  else if cls \<noteq> FailureClassTransient then EvFailed
                  else if att_number a < 5 then EvRetryScheduled else EvDead), jev_attempt = Some k\<rparr>]"
proof -
  from assms(2) have c: "complete_tx draw srv d k fence outcome cls opid res now s = Inr ((), t)"
    and v: "valid_completion outcome cls" by (auto simp: Complete_Inr)
  from complete_tx_effect [OF c assms(3,4)] obtain r j where e:
    "att_server a = srv" "att_fence a = fence" "now < att_authority_expires a"
    "get_slot (att_environment a) s = Some r" "slot_fence r = fence" "slot_current r = Some k"
    "get_job (att_job a) s = Some j" "\<not> activation_open k fence s"
    "get_attempt k t = Some (completed_row outcome cls opid res now a)"
    "get_slot (att_environment a) t = Some (r\<lparr>slot_current := None, slot_updated := now\<rparr>)"
    "job_state j = JobLeased \<Longrightarrow>
       get_job (att_job a) t = Some (closed_row draw now (att_number a) (completed_job_state outcome cls (att_number a)) j)"
    "job_events t = job_events s @ [logged_event (att_job a) (Some k) (completion_event (completed_job_state outcome cls (att_number a))) s]"
    by blast
  have "job_state j = JobLeased"
    using leased_row [OF assms(1,3,4)] e(7) by auto
  from e(11) [OF this] e v show ?thesis
    by (cases outcome) (auto simp: completed_row_def closed_row_def completed_job_state_def completion_state_def
        completion_class_def valid_completion_def Retryable_def MaxAttempts_def logged_event_def completion_event_def)
qed

definition ex_completed :: db where
  "ex_completed =
     snd (Complete 0 ''s'' ex_key 1 1 CompletionFailed FailureClassTransient ''op'' ''result'' 20000 ex_claimed)"

lemma complete_run:
  "Complete 0 ''s'' ex_key 1 1 CompletionFailed FailureClassTransient ''op'' ''result'' 20000 ex_claimed = (Inr (), ex_completed)"
proof -
  have "fst (Complete 0 ''s'' ex_key 1 1 CompletionFailed FailureClassTransient ''op'' ''result'' 20000 ex_claimed) = Inr ()"
    by code_simp
  then show ?thesis unfolding ex_completed_def by (metis prod.collapse)
qed

lemma ex_completed_accounts: "servers ex_completed = servers ex_claimed" "credentials ex_completed = credentials ex_claimed"
  by code_simp+

lemma ex_claimed_attempt: "get_attempt 1 ex_claimed = Some ex_attempt" "att_state ex_attempt = AttemptLeased"
  "att_environment ex_attempt = ''e''" "att_job ex_attempt = 1" "att_number ex_attempt = 1"
  by (simp_all add: get_attempt_def ex_claimed_def ex_attempt_def)

theorem completion_ends_the_lease_witness:
  "\<exists>j. get_job 1 ex_completed = Some j \<and> job_state j = JobRetryWait"
  using completion_ends_the_lease [OF claimed_reachable complete_run ex_claimed_attempt(1,2)]
  by (auto simp: ex_claimed_attempt)

section \<open>A result is recorded once\<close>

definition recorded :: "completion_outcome \<Rightarrow> failure_class \<Rightarrow> string \<Rightarrow> digest \<Rightarrow> string \<Rightarrow> attempt_row \<Rightarrow> bool" where
  "recorded outcome cls opid res srv b \<longleftrightarrow> att_server b = srv \<and> att_state b = completion_state outcome \<and>
     att_failure b = completion_class outcome cls \<and> att_result_op b = Some opid \<and> att_result_digest b = Some res"

lemma completion_recorded:
  assumes "Complete draw srv d k fence outcome cls opid res now s = (Inr (), t)"
  shows "\<exists>b. get_attempt k t = Some b \<and> recorded outcome cls opid res srv b \<and>
    (\<exists>r. get_slot (att_environment b) t = Some r) \<and> (\<exists>j. get_job (att_job b) t = Some j)"
proof -
  from assms have c: "complete_tx draw srv d k fence outcome cls opid res now s = Inr ((), t)" by (simp add: Complete_Inr)
  from c obtain a r j where a: "get_attempt k s = Some a" "att_server a = srv" "get_slot (att_environment a) s = Some r"
    "get_job (att_job a) s = Some j" by (auto simp: complete_tx_def tx_simps)
  show ?thesis
  proof (cases "att_state a = AttemptLeased")
    case True
    have "evolves s t" using history.keepsD [OF history.complete_tx_kept c] .
    then have "\<exists>j. get_job (att_job a) t = Some j" using a(4) by (auto simp: evolves_defs dest: rows_followD)
    moreover from complete_tx_effect [OF c a(1) True] obtain q where
      "get_attempt k t = Some (completed_row outcome cls opid res now a)" "get_slot (att_environment a) t = Some q"
      by blast
    ultimately show ?thesis using a(2) by (simp add: recorded_def completed_row_def)
  next
    case False
    with c a have "t = s \<and> recorded outcome cls opid res srv a"
      by (auto simp: complete_tx_def replay_completion_def tx_simps recorded_def split: option.splits)
    with a show ?thesis by blast
  qed
qed

lemma replay_answer:
  assumes "get_attempt k u = Some b" "recorded outcome cls opid res srv b"
    and "get_slot (att_environment b) u = Some r" "get_job (att_job b) u = Some j"
    and "credential_accepted srv d u" "commit_checks u"
    and "ValidOpaqueID srv" "0 < k" "0 < fence" "validOperationID opid'" "valid_completion outcome' cls'"
    and "valid_completion outcome cls"
  shows "Complete draw srv d k fence outcome' cls' opid' res' now u =
    (if outcome' = outcome \<and> cls' = cls \<and> opid' = opid \<and> res' = res then Inr () else Inl ErrAgentLeaseIntegrityConflict, u)"
proof -
  obtain x where x: "lockActiveServerCredential srv d u = Inr (x, u)"
    using assms(5) by (auto simp: tx_simps credential_accepted_def)
  have l: "lock_lease srv k u = Inr ((r, j, b), u)" using assms(1-4) by (simp add: tx_simps recorded_def)
  have "att_state b \<noteq> AttemptLeased" using assms(2) by (simp add: recorded_def)
  moreover have "outcome' = outcome \<and> cls' = cls \<longleftrightarrow>
      completion_state outcome' = completion_state outcome \<and> completion_class outcome' cls' = completion_class outcome cls"
    using assms(11,12) by (cases outcome; cases outcome')
      (auto simp: valid_completion_def completion_state_def completion_class_def)
  ultimately show ?thesis
    using assms(2,6-11)
    by (auto simp: Complete_def run_tx_def complete_tx_def replay_completion_def seq_def and_then_def x l ensure_def recorded_def)
qed

text \<open>
  C27: An attempt's result is recorded once and for all.  After an accepted completion, at any later
  time and whatever happened in between, the same server repeating it is told that it succeeded,
  a completion that differs in the outcome, the failure class, the operation id or the result
  digest is refused as an integrity conflict, and neither changes anything.
\<close>

theorem completion_is_recorded_once:
  assumes "reachable s" and "Complete draw srv d k fence outcome cls opid res now s = (Inr (), t)" and "later t u"
    and "credential_accepted srv d u" and "0 < fence'" "validOperationID opid'" "valid_completion outcome' cls'"
  shows "Complete draw' srv d k fence' outcome' cls' opid' res' now' u =
    (if outcome' = outcome \<and> cls' = cls \<and> opid' = opid \<and> res' = res then Inr () else Inl ErrAgentLeaseIntegrityConflict, u)"
proof -
  have "reachable t" using assms(1,2) lease_steps_reach [OF assms(1) complete_step [of s draw srv d k fence outcome cls opid res now]] by simp
  then have u: "commit_checks u" using reachable_later [OF assms(3)] reachable_commits by blast
  from completion_recorded [OF assms(2)] obtain b r j where b: "get_attempt k t = Some b" "recorded outcome cls opid res srv b"
    "get_slot (att_environment b) t = Some r" "get_job (att_job b) t = Some j" by blast
  from later_grows [OF assms(3)] have "rows_follow get_attempt attempt_follows t u" "rows_follow get_slot slot_follows t u"
    "rows_follow get_job job_follows t u" by (simp_all add: grows_def)
  note f = this [THEN rows_followD]
  have "get_attempt k u = Some b" using f(1) [OF b(1)] b(2) by (auto simp: attempt_follows_def recorded_def)
  moreover obtain r' j' where "get_slot (att_environment b) u = Some r'" "get_job (att_job b) u = Some j'"
    using f(2) [OF b(3)] f(3) [OF b(4)] by blast
  moreover have "ValidOpaqueID srv" "0 < k" "valid_completion outcome cls" using assms(2) by (simp_all add: Complete_Inr)
  ultimately show ?thesis using b(2) u assms(4-7) by (intro replay_answer) auto
qed

theorem completion_is_recorded_once_witness:
  "Complete 0 ''s'' ex_key 1 1 CompletionFailed FailureClassTransient ''op'' ''result'' 50000 ex_completed = (Inr (), ex_completed) \<and>
   Complete 0 ''s'' ex_key 1 1 CompletionSucceeded (FailureClassOther []) ''op'' ''result'' 50000 ex_completed =
     (Inl ErrAgentLeaseIntegrityConflict, ex_completed)"
proof -
  have "credential_accepted ''s'' ex_key ex_completed"
    by (simp add: credential_accepted_def active_credential_def ex_completed_accounts ex_claimed_def ex_ready_def ex_configured_def ex_based_def ex_server_def ex_credential_def ex_key_def)
  from completion_is_recorded_once [OF claimed_reachable complete_run later.now this]
  show ?thesis by (simp add: validOperationID_def valid_completion_def)
qed

end
