(* ===== verification/Sweep_Properties.thy ===== *)
theory Sweep_Properties
  imports Agent_Properties
begin

text \<open>
  What becomes of a lease its agent does not finish: the sweeper reclaims it, leaves it alone while
  an activation is in doubt, and works in bounded batches; a cancellation request ends the agent's
  authority within the grace period.
\<close>

section \<open>Closing an expired attempt\<close>

definition swept_attempt :: "bool \<Rightarrow> int \<Rightarrow> attempt_row \<Rightarrow> attempt_row" where
  "swept_attempt cancel now a =
     a\<lparr>att_state := (if cancel then AttemptCancelled else AttemptExpired), att_closed := Some now\<rparr>"

definition swept_slot :: "int \<Rightarrow> int \<Rightarrow> slot_row \<Rightarrow> slot_row" where
  "swept_slot now k r = r\<lparr>slot_fence := slot_fence r + 1, slot_current := None, slot_reconciling := True,
     slot_pending := Some k, slot_updated := now\<rparr>"

lemma swept_attempt_accepted:
  assumes "attempt_checks a" "att_state a = AttemptLeased"
  shows "validate_agent_job_attempt_update s a (swept_attempt cancel now a) = None"
  using assms
  by (auto simp: validate_agent_job_attempt_update_def not_refused swept_attempt_def same_attempt_identity_def
      attempt_checks_def closure_shape_def split: option.splits)

lemma swept_slot_accepted:
  assumes "slot_updated r \<le> now"
  shows "validate_environment_slot_update s r (swept_slot now k r) = None"
  using assms by (auto simp: validate_environment_slot_update_def not_refused swept_slot_def)

lemma retried_job_accepted:
  assumes "job_state j = JobLeased" "job_updated j \<le> now" "job_available j < canonicalTime now" "r < 2 ^ 53"
    and "0 \<le> job_attempt_count j" "job_attempt_count j \<le> 5"
  shows "validate_agent_job_update s j (closed_row r now n JobRetryWait j) = None"
proof -
  have "canonicalTime now \<le> canonicalTime (now + FullJitterDelay r n)"
    using FullJitterDelay_bounds [OF assms(4), of n] by (simp add: canonicalTime_mono)
  with assms show ?thesis
    by (auto simp: validate_agent_job_update_def not_refused closed_row_def same_job_identity_def)
qed

lemma update_runs:
  "get_attempt k s = Some a \<Longrightarrow> p a \<Longrightarrow> validate_agent_job_attempt_update s a (f a) = None \<Longrightarrow>
     update_attempt k p f s = Inr (1, put_attempt (f a) s)"
  "get_slot e s = Some r \<Longrightarrow> q r \<Longrightarrow> validate_environment_slot_update s r (g r) = None \<Longrightarrow>
     update_slot e q g s = Inr (1, put_slot (g r) s)"
  "get_job i s = Some j \<Longrightarrow> b j \<Longrightarrow> validate_agent_job_update s j (h j) = None \<Longrightarrow>
     update_job i b h s = Inr (1, put_job (h j) s)"
  by (simp_all add: update_attempt_def update_slot_def update_job_def update_row_def)

lemma swept_folds:
  "(\<lambda>a. a\<lparr>att_state := (if cancel then AttemptCancelled else AttemptExpired), att_closed := Some now\<rparr>) = swept_attempt cancel now"
  "(\<lambda>r. r\<lparr>slot_fence := slot_fence r + 1, slot_current := None, slot_reconciling := True, slot_pending := Some k,
     slot_updated := now\<rparr>) = swept_slot now k"
  by (simp_all add: fun_eq_iff swept_attempt_def swept_slot_def)

lemma close_job_fold: "close_job draw now i n st = update_job i (\<lambda>j. job_state j = JobLeased) (closed_row draw now n st)"
  by (simp add: close_job_def closed_row_def [abs_def])

text \<open>The ordinary close of an attempt with tries left runs through.\<close>

lemma closeAttemptOrdinary_runs:
  assumes a: "get_attempt k s = Some a" "att_state a = AttemptLeased" "attempt_checks a"
    and r: "get_slot e s = Some r" "slot_updated r \<le> now"
    and j: "get_job i s = Some j" "job_state j = JobLeased" "job_updated j \<le> now" "job_available j < canonicalTime now"
      "0 \<le> job_attempt_count j" "job_attempt_count j \<le> 5"
    and d: "draw < 2 ^ 53" "n < 5"
  shows "\<exists>evs. closeAttemptOrdinary draw now i k e n dep False s =
    Inr ((), (put_job (closed_row draw now n JobRetryWait j) (put_slot (swept_slot now k r)
       (put_attempt (swept_attempt False now a) s)))\<lparr>job_events := evs\<rparr>)"
proof -
  have st: "closed_job_state False n = JobRetryWait" using d(2) by (simp add: closed_job_state_def MaxAttempts_def)
  let ?s1 = "put_attempt (swept_attempt False now a) s"
  let ?s2 = "put_slot (swept_slot now k r) ?s1"
  have u1: "update_attempt k (\<lambda>_. True) (swept_attempt False now) s = Inr (1, ?s1)"
    using a swept_attempt_accepted by (simp add: update_runs)
  have u2: "update_slot e (\<lambda>_. True) (swept_slot now k) ?s1 = Inr (1, ?s2)"
    using r swept_slot_accepted by (simp add: update_runs)
  have u3: "update_job i (\<lambda>j. job_state j = JobLeased) (closed_row draw now n JobRetryWait) ?s2 =
      Inr (1, put_job (closed_row draw now n JobRetryWait j) ?s2)"
    using j d retried_job_accepted by (simp add: update_runs)
  show ?thesis
    unfolding closeAttemptOrdinary_def Let_def swept_folds close_job_fold st
    by (simp add: seq_def and_then_def u1 u2 u3 appendAgentJobEvent_def)
      (rule exI, rule HOL.refl)
qed

text \<open>
  C22: A lease is not lost when its agent is.  Once the authority of an attempt has run out and no
  activation of it is in doubt, a sweep that finds its rows unlocked closes it: the attempt is
  expired, the environment's fence moves on and the environment is set aside for reconciliation,
  and the job is scheduled again, between now and the retry cap.  (The attempt has tries left, the
  job is not being cancelled, and the clock has passed the times stored in the rows.)
\<close>

theorem expired_lease_is_reclaimed:
  assumes "reachable s" and a: "get_attempt k s = Some a" "att_state a = AttemptLeased" "att_authority_expires a \<le> now"
    and n: "att_number a < 5" and settled: "unresolved_of_attempt k (att_environment a) s = None"
    and r: "get_slot (att_environment a) s = Some r" "slot_updated r \<le> now"
    and j: "get_job (att_job a) s = Some j" "job_cancel_requested j = None" "job_updated j \<le> now" "job_available j < canonicalTime now"
    and free: "\<not> sl (att_environment a)" "\<not> jl (att_job a)" "\<not> al k" and draw: "draw < 2 ^ 53"
  shows "\<exists>t delay. expireOne sl jl al draw now k s = (Inr True, t) \<and>
    get_attempt k t = Some (a\<lparr>att_state := AttemptExpired, att_closed := Some now\<rparr>) \<and>
    get_slot (att_environment a) t = Some (r\<lparr>slot_fence := slot_fence r + 1, slot_current := None, slot_reconciling := True,
      slot_pending := Some k, slot_updated := now\<rparr>) \<and>
    get_job (att_job a) t = Some (j\<lparr>job_state := JobRetryWait, job_available := canonicalTime (now + delay), job_updated := now\<rparr>) \<and>
    0 \<le> delay \<and> delay \<le> retryCapDelay"
proof -
  have checks: "attempt_checks a"
    using reachable_checked [OF assms(1)] attempt_tbl.get_mem [OF a(1)] by (simp add: checked_def)
  from leased_row [OF assms(1) a(1,2)] r j have l: "slot_current r = Some k" "job_state j = JobLeased" "job_attempt_count j = att_number a"
    by auto
  have count: "0 \<le> job_attempt_count j" "job_attempt_count j \<le> 5" using checks n l(3) by (auto simp: attempt_checks_def)
  obtain evs where run: "closeAttemptOrdinary draw now (att_job a) k (att_environment a) (att_number a) (job_deployment j) False s =
    Inr ((), (put_job (closed_row draw now (att_number a) JobRetryWait j) (put_slot (swept_slot now k r)
       (put_attempt (swept_attempt False now a) s)))\<lparr>job_events := evs\<rparr>)" (is "_ = Inr ((), ?t)")
    using closeAttemptOrdinary_runs [OF a(1,2) checks r j(1) l(2) j(3,4) count draw n] by blast
  have "closeExpiredOrRevokedAttempt draw now (att_job a) k (att_environment a) (att_number a) (job_deployment j) False s = Inr (False, ?t)"
    by (simp add: closeExpiredOrRevokedAttempt_def divertUnresolvedActivation_def seq_def and_then_def settled run)
  then have "expire_one_tx sl jl al draw now k s = Inr (True, ?t)"
    using a r j l free by (simp add: expire_one_tx_def and_then_def)
  moreover have "commit_checks ?t"
    by (rule commit_checks_same [OF reachable_commits [OF assms(1)]]) (simp_all add: put_job_def put_slot_def put_attempt_def)
  ultimately have x: "expireOne sl jl al draw now k s = (Inr True, ?t)" by (simp add: expireOne_def run_tx_def and_then_def)
  note id = attempt_tbl.get_key [OF a(1)] slot_tbl.get_key [OF r(1)] job_tbl.get_key [OF j(1)]
  have g: "get_attempt k ?t = Some (swept_attempt False now a)" "get_slot (att_environment a) ?t = Some (swept_slot now k r)"
    "get_job (att_job a) ?t = Some (closed_row draw now (att_number a) JobRetryWait j)"
    using attempt_tbl.get_put_same [OF a(1), of "swept_attempt False now a"]
      slot_tbl.get_put_same [of "att_environment a" "put_attempt (swept_attempt False now a) s" r "swept_slot now k r"]
      job_tbl.get_put_same [of "att_job a" "put_slot (swept_slot now k r) (put_attempt (swept_attempt False now a) s)" j
        "closed_row draw now (att_number a) JobRetryWait j"] id r(1) j(1)
    by (simp_all add: swept_attempt_def swept_slot_def closed_row_def)
  from x g FullJitterDelay_bounds [OF draw, of "att_number a"] retry_backoff_bounds [of "att_number a"] show ?thesis
    by (intro exI [of _ ?t] exI [of _ "FullJitterDelay draw (att_number a)"])
      (auto simp: swept_attempt_def swept_slot_def closed_row_def)
qed

lemma ex_claimed_rows:
  "get_slot ''e'' ex_claimed = Some (ex_slot\<lparr>slot_fence := 1, slot_current := Some 1, slot_updated := 10000\<rparr>)"
  "get_job 1 ex_claimed = Some (ex_job\<lparr>job_state := JobLeased, job_attempt_count := 1, job_updated := 10000\<rparr>)"
  by (simp_all add: get_slot_def get_job_def ex_claimed_def ex_slot_def ex_job_def)

theorem expired_lease_is_reclaimed_witness:
  "\<exists>t q. expireOne ex_lock ex_lock ex_lock 0 90000010000 1 ex_claimed = (Inr True, t) \<and>
     get_slot ''e'' t = Some q \<and> slot_fence q = 2 \<and> slot_pending q = Some 1"
proof -
  have "unresolved_of_attempt 1 (att_environment ex_attempt) ex_claimed = None"
    by (simp add: unresolved_of_attempt_def ex_claimed_def ex_ready_def ex_configured_def ex_based_def ex_server_def ex_credential_def ex_key_def empty_db_def)
  moreover have "att_authority_expires ex_attempt \<le> 90000010000" "att_number ex_attempt < 5" by (simp_all add: ex_attempt_def)
  ultimately show ?thesis
    using expired_lease_is_reclaimed [OF claimed_reachable ex_claimed_attempt(1,2), where now = 90000010000 and
        r = "ex_slot\<lparr>slot_fence := 1, slot_current := Some 1, slot_updated := 10000\<rparr>" and
        j = "ex_job\<lparr>job_state := JobLeased, job_attempt_count := 1, job_updated := 10000\<rparr>" and
        sl = ex_lock and jl = ex_lock and al = ex_lock and draw = 0] ex_claimed_rows
    by (auto simp: ex_claimed_attempt ex_job_def canonicalTime_def ex_lock_def)
qed

section \<open>While an activation is in doubt\<close>

definition blocked_row :: "int \<Rightarrow> string \<Rightarrow> operation_row \<Rightarrow> operation_row" where
  "blocked_row now summary p = p\<lparr>op_state := OpReconciliationRequired, op_closed := Some now, op_summary := summary\<rparr>"

lemma blocked_row_fold:
  "(\<lambda>p. p\<lparr>op_state := OpReconciliationRequired, op_closed := Some now, op_summary := summary\<rparr>) = blocked_row now summary"
  by (simp add: fun_eq_iff blocked_row_def)

definition blocked_state :: "int \<Rightarrow> int \<Rightarrow> int \<Rightarrow> string \<Rightarrow> string \<Rightarrow> db \<Rightarrow> db \<Rightarrow> bool" where
  "blocked_state now k q e summary s t \<longleftrightarrow> (\<exists>p r x evs.
     get_operation q s = Some p \<and> op_state p = OpSwitchAuthorized \<and> get_slot e s = Some r \<and>
     (x = put_operation (blocked_row now summary p) s \<or> (\<exists>h. x = put_head h (put_operation (blocked_row now summary p) s))) \<and>
     t = (put_slot (r\<lparr>slot_reconciling := True, slot_pending := Some k, slot_updated := now\<rparr>) x)\<lparr>job_events := evs\<rparr>)"

lemma block_effect: "wp (blockActivationForReconciliation now i k q e summary) (\<lambda>_. blocked_state now k q e summary s) s"
  unfolding blockActivationForReconciliation_def blocked_row_fold wp_compound wp_basic
proof (rule wpI, rule impI, rule wpI, rule wpI, rule impI, rule wpI)
  fix n s1 v x m y u t
  assume o: "update_operation q (\<lambda>p. op_state p = OpSwitchAuthorized) (blocked_row now summary) s = Inr (n, s1)" "n = 1"
    and h: "(case get_head e s of None \<Rightarrow> ret () | Some h \<Rightarrow> if rh_reconciling h then ret ()
       else and_then (update_head e (\<lambda>r. \<not> rh_reconciling r) (\<lambda>r. r\<lparr>rh_reconciling := True, rh_updated := max (rh_updated r) now\<rparr>))
         (\<lambda>m. ensure (m = 1) ErrAgentLeaseCorruptState)) s1 = Inr (v, x)"
    and w: "update_slot e (\<lambda>_. True) (\<lambda>r. r\<lparr>slot_reconciling := True, slot_pending := Some k, slot_updated := now\<rparr>) x = Inr (m, y)"
      "m = 1" "appendAgentJobEvent i (Some k) EvActivationReconciliationRequired y = Inr (u, t)"
  from o obtain p where p: "get_operation q s = Some p" "op_state p = OpSwitchAuthorized" "s1 = put_operation (blocked_row now summary p) s"
    unfolding update_operation_def by (rule update_row_one) blast
  from h have x: "x = s1 \<or> (\<exists>h. x = put_head h s1)"
    by (auto simp: update_head_def tx_simps split: option.splits if_splits)
  from w(2) obtain r where "get_slot e x = Some r" "y = put_slot (r\<lparr>slot_reconciling := True, slot_pending := Some k, slot_updated := now\<rparr>) x"
    unfolding update_slot_def by (rule update_row_one [OF w(1) [unfolded update_slot_def]]) blast
  moreover from this(1) x p have "get_slot e s = Some r" by auto
  ultimately show "blocked_state now k q e summary s t"
    unfolding blocked_state_def using p x w(3)
    by (intro exI [of _ p] exI [of _ r] exI [of _ x] exI [of _ "job_events t"]) (auto simp: appendAgentJobEvent_def)
qed

lemma blocked_stateD:
  assumes "blocked_state now k q e summary s t"
  shows "attempts t = attempts s" "jobs t = jobs s"
    "\<exists>p. get_operation q s = Some p \<and> op_state p = OpSwitchAuthorized \<and> get_operation q t = Some (blocked_row now summary p) \<and>
       operations t = replace_row op_id (blocked_row now summary p) (operations s)"
    "\<exists>r. get_slot e s = Some r \<and> get_slot e t = Some (r\<lparr>slot_reconciling := True, slot_pending := Some k, slot_updated := now\<rparr>)"
proof -
  from assms obtain p r x evs where b: "get_operation q s = Some p" "op_state p = OpSwitchAuthorized" "get_slot e s = Some r"
    "x = put_operation (blocked_row now summary p) s \<or> (\<exists>h. x = put_head h (put_operation (blocked_row now summary p) s))"
    "t = (put_slot (r\<lparr>slot_reconciling := True, slot_pending := Some k, slot_updated := now\<rparr>) x)\<lparr>job_events := evs\<rparr>"
    unfolding blocked_state_def by (elim exE conjE) (rule that)
  note id = operation_tbl.get_key [OF b(1)] slot_tbl.get_key [OF b(3)]
  show "attempts t = attempts s" "jobs t = jobs s"
    using b(4,5) by (auto simp: put_slot_def put_operation_def put_head_def)
  show "\<exists>p. get_operation q s = Some p \<and> op_state p = OpSwitchAuthorized \<and> get_operation q t = Some (blocked_row now summary p) \<and>
       operations t = replace_row op_id (blocked_row now summary p) (operations s)"
    using b operation_tbl.get_put_same [OF b(1), of "blocked_row now summary p"] id
    by (auto simp: get_operation_def put_slot_def put_operation_def put_head_def blocked_row_def)
  show "\<exists>r. get_slot e s = Some r \<and> get_slot e t = Some (r\<lparr>slot_reconciling := True, slot_pending := Some k, slot_updated := now\<rparr>)"
    using b slot_tbl.get_put_same [of e x r "r\<lparr>slot_reconciling := True, slot_pending := Some k, slot_updated := now\<rparr>"] id
    by (auto simp: b(5))
qed

lemma unresolved_of_attemptD:
  assumes "unresolved_of_attempt k e s = Some p"
  shows "p \<in> set (operations s)" "op_attempt p = k" "op_environment p = Some e" "unresolved_operation p"
  using assms by (auto simp: unresolved_of_attempt_def find_Some_iff in_set_conv_nth)

lemma unresolved_of_attempt_found:
  assumes "p \<in> set (operations s)" "op_attempt p = k" "op_environment p = Some e" "unresolved_operation p"
  shows "\<exists>q. unresolved_of_attempt k e s = Some q"
  using assms by (cases "unresolved_of_attempt k e s") (auto simp: unresolved_of_attempt_def find_None_iff)

lemma expire_one_wp:
  assumes "get_attempt k s = Some a"
    and "Q False s"
    and "\<And>r j. get_slot (att_environment a) s = Some r \<Longrightarrow> slot_current r = Some k \<Longrightarrow> get_job (att_job a) s = Some j \<Longrightarrow>
      job_state j = JobLeased \<Longrightarrow> att_state a = AttemptLeased \<Longrightarrow> att_authority_expires a \<le> now \<Longrightarrow>
      wp (closeExpiredOrRevokedAttempt draw now (att_job a) k (att_environment a) (att_number a) (job_deployment j)
        (job_cancel_requested j \<noteq> None)) (\<lambda>diverted. Q (\<not> diverted)) s"
  shows "wp (expire_one_tx sl jl al draw now k) Q s"
  using assms unfolding expire_one_tx_def by (auto simp: wp_simps)

lemma blocked_sweep_idles:
  assumes "get_attempt k t = Some a" and "unresolved_of_attempt k (att_environment a) t = Some q" "op_state q \<noteq> OpSwitchAuthorized"
  shows "snd (expireOne sl jl al draw now k t) = t"
  unfolding expireOne_def
proof (rule run_tx_unchanged)
  have "wp (closeExpiredOrRevokedAttempt draw now i k (att_environment a) n dep c) (\<lambda>_ u. u = t) t" for i n dep c
    using assms(2,3) by (simp add: closeExpiredOrRevokedAttempt_def divertUnresolvedActivation_def wp_simps)
  then show "wp (and_then (expire_one_tx sl jl al draw now k) (\<lambda>b. ret (Inr b))) (\<lambda>_ u. u = t) t"
    unfolding wp_compound wp_basic by (intro expire_one_wp [OF assms(1)]) simp_all
qed

text \<open>When the sweeper gets to an attempt, and what it does with one whose activation is in doubt.\<close>

definition sweepable :: "(string \<Rightarrow> bool) \<Rightarrow> (int \<Rightarrow> bool) \<Rightarrow> (int \<Rightarrow> bool) \<Rightarrow> int \<Rightarrow> attempt_row \<Rightarrow> bool" where
  "sweepable sl jl al now a \<longleftrightarrow> att_state a = AttemptLeased \<and> att_authority_expires a \<le> now \<and>
     \<not> sl (att_environment a) \<and> \<not> jl (att_job a) \<and> \<not> al (att_id a)"

lemma sweep_evaluated:
  assumes "reachable s" and a: "get_attempt k s = Some a"
  shows "expire_one_tx sl jl al draw now k s =
    (if sweepable sl jl al now a then
       (case get_job (att_job a) s of None \<Rightarrow> Inr (False, s)
        | Some j \<Rightarrow> and_then (closeExpiredOrRevokedAttempt draw now (att_job a) k (att_environment a) (att_number a) (job_deployment j)
            (job_cancel_requested j \<noteq> None)) (\<lambda>diverted. ret (\<not> diverted)) s)
     else Inr (False, s))"
  using leased_row [OF assms] attempt_tbl.get_key [OF a] a
  by (auto simp: expire_one_tx_def sweepable_def and_then_def ret_def split: option.splits)

lemma diverted_sweep:
  assumes "reachable s" and a: "get_attempt k s = Some a" and p: "unresolved_of_attempt k (att_environment a) s = Some p"
    and run: "expireOne sl jl al draw now k s = (Inr b, t)"
  shows "\<not> b" and "sweepable sl jl al now a \<and> op_state p = OpSwitchAuthorized \<Longrightarrow>
      blockActivationForReconciliation now (att_job a) k (op_id p) (att_environment a) activationBlockedByAuthorityEndSummary s = Inr ((), t)"
    and "\<not> (sweepable sl jl al now a \<and> op_state p = OpSwitchAuthorized) \<Longrightarrow> t = s"
proof -
  have tx: "expire_one_tx sl jl al draw now k s = Inr (b, t)"
    using run by (auto simp: expireOne_def run_tx_def tx_simps and_then_def split: sum.splits prod.splits if_splits)
  note e = tx [unfolded sweep_evaluated [OF assms(1) a]]
  show "\<not> b" "\<not> (sweepable sl jl al now a \<and> op_state p = OpSwitchAuthorized) \<Longrightarrow> t = s"
    using e by (auto simp: closeExpiredOrRevokedAttempt_def divertUnresolvedActivation_def p tx_simps ret_def split: if_splits option.splits)
  assume c: "sweepable sl jl al now a \<and> op_state p = OpSwitchAuthorized"
  obtain j where "get_job (att_job a) s = Some j" using leased_row [OF assms(1) a] c by (auto simp: sweepable_def)
  with e c show "blockActivationForReconciliation now (att_job a) k (op_id p) (att_environment a) activationBlockedByAuthorityEndSummary s = Inr ((), t)"
    by (auto simp: closeExpiredOrRevokedAttempt_def divertUnresolvedActivation_def p tx_simps ret_def)
qed

text \<open>A blocked attempt is left alone.\<close>

lemma blocked_stays:
  assumes "reachable s" and "reachable t" and a: "get_attempt k s = Some a" and p: "unresolved_of_attempt k (att_environment a) s = Some p"
    and b: "blocked_state now k (op_id p) (att_environment a) summary s t"
  shows "get_operation (op_id p) t = Some (blocked_row now summary p)" and "snd (expireOne sl jl al draw now' k t) = t"
proof -
  let ?e = "att_environment a" and ?p = "blocked_row now summary p"
  note d = unresolved_of_attemptD [OF p] and eff = blocked_stateD [OF b]
  have gp: "get_operation (op_id p) s = Some p" using keyed_get(2) [OF reachable_keyed [OF assms(1)] d(1)] .
  from eff(3) gp show q: "get_operation (op_id p) t = Some ?p" by auto
  have u: "op_attempt ?p = k" "op_environment ?p = Some ?e" "unresolved_operation ?p"
    using d by (simp_all add: blocked_row_def unresolved_operation_def unresolvedActivation_def activationTerminalStates_def)
  obtain x where x: "unresolved_of_attempt k ?e t = Some x"
    using unresolved_of_attempt_found [OF operation_tbl.get_mem [OF q] u] by blast
  have "x = ?p"
    using unsettled_unique [OF assms(2) unresolved_of_attemptD(1) [OF x] operation_tbl.get_mem [OF q] unresolved_of_attemptD(4) [OF x] u(3)]
      unresolved_of_attemptD(3) [OF x] u(2) by simp
  moreover have "get_attempt k t = Some a" using a eff(1) by (simp add: get_attempt_def)
  ultimately show "snd (expireOne sl jl al draw now' k t) = t" using blocked_sweep_idles [OF _ x] by (simp add: blocked_row_def)
qed

text \<open>
  C23: The sweeper never closes a lease whose activation is in doubt.  If the authority has run out,
  the rows are not locked and the switch is still authorized, it blocks the environment for the
  attempt and turns the operation over to reconciliation; the attempt stays leased and the occupant,
  the job stays as it is and the traffic where it is, and sweeping again changes nothing.  In every
  other case, the blocked activation included, it changes nothing at all.
\<close>

theorem sweep_spares_activation_in_doubt:
  assumes "reachable s" and "expireOne sl jl al draw now k s = (Inr b, t)"
    and "get_attempt k s = Some a" and "unresolved_of_attempt k (att_environment a) s = Some p"
  shows "\<not> b \<and> attempts t = attempts s \<and> jobs t = jobs s \<and> traffic t = traffic s \<and>
    (if sweepable sl jl al now a \<and> op_state p = OpSwitchAuthorized
     then get_operation (op_id p) t = Some (p\<lparr>op_state := OpReconciliationRequired, op_closed := Some now,
            op_summary := activationBlockedByAuthorityEndSummary\<rparr>) \<and>
          (\<exists>r. get_slot (att_environment a) t = Some r \<and> slot_reconciling r \<and> slot_pending r = Some k \<and> slot_current r = Some k) \<and>
          snd (expireOne sl' jl' al' draw' now' k t) = t
     else t = s)"
proof (cases "sweepable sl jl al now a \<and> op_state p = OpSwitchAuthorized")
  case True
  note d = diverted_sweep [OF assms(1,3,4,2)]
  note block = wpD [OF block_effect d(2) [OF True]]
  have "reachable t" using lease_steps_reach [OF assms(1) expire_step [of s sl jl al draw now k]] assms(2) by simp
  note stays = blocked_stays [OF assms(1) this assms(3,4) block]
  have "traffic t = traffic s" using traffic.keepsD [OF traffic.block_kept d(2) [OF True]] .
  moreover have "\<exists>r. get_slot (att_environment a) t = Some r \<and> slot_reconciling r \<and> slot_pending r = Some k \<and> slot_current r = Some k"
    using blocked_stateD(4) [OF block] leased_row [OF assms(1,3)] True by (auto simp: sweepable_def)
  ultimately show ?thesis
    using True d(1) blocked_stateD(1,2) [OF block] stays(1) stays(2) [of sl' jl' al' draw' now'] by (simp add: blocked_row_def)
next
  case False
  from diverted_sweep(1) [OF assms(1,3,4,2)] diverted_sweep(3) [OF assms(1,3,4,2) False] False show ?thesis by auto
qed

theorem sweep_spares_activation_in_doubt_witness:
  "\<exists>t r. expireOne ex_lock ex_lock ex_lock 0 90000010000 1 ex_activating = (Inr False, t) \<and>
     attempts t = attempts ex_activating \<and> get_slot ''e'' t = Some r \<and> slot_reconciling r \<and> slot_current r = Some 1"
proof -
  obtain b t where t: "expireOne ex_lock ex_lock ex_lock 0 90000010000 1 ex_activating = (b, t)" by fastforce
  have "fst (expireOne ex_lock ex_lock ex_lock 0 90000010000 1 ex_activating) = Inr False" by code_simp
  with t have b: "expireOne ex_lock ex_lock ex_lock 0 90000010000 1 ex_activating = (Inr False, t)" by simp
  have "get_attempt 1 ex_activating = Some ex_attempt"
    by (simp add: get_attempt_def ex_activating_def ex_checked_def ex_claimed_def ex_attempt_def)
  note spared = sweep_spares_activation_in_doubt [OF activating_reachable b this, where p = ex_operation and sl' = ex_lock and jl' = ex_lock
      and al' = ex_lock and draw' = 0 and now' = 0]
  have "unresolved_of_attempt 1 (att_environment ex_attempt) ex_activating = Some ex_operation"
    "sweepable ex_lock ex_lock ex_lock 90000010000 ex_attempt" "op_state ex_operation = OpSwitchAuthorized"
    "att_environment ex_attempt = ''e''" by code_simp+
  with spared b show ?thesis by auto
qed

section \<open>Batches\<close>

lemma expire_all_bound:
  "expire_all one ks n s = ((m, e), t) \<Longrightarrow> n \<le> m \<and> m \<le> n + int (length ks)"
  by (induction ks arbitrary: n s) (fastforce split: prod.splits sum.splits if_splits)+

text \<open>
  The number of attempts a call of the sweeper reports as closed is never negative, never more
  than asked for, never more than a hundred, and never more than there are leased attempts whose
  authority has run out and that are not blocked already; an error comes with the count so far.
\<close>

theorem expire_batch_is_bounded:
  "case ExpireBatch sl jl al draw now limit s of ((n, e), t) \<Rightarrow>
     0 \<le> n \<and> n \<le> max 0 limit \<and> n \<le> 100 \<and> n \<le> int (length (filter (expirable now s) (attempts s)))"
proof -
  obtain n e t where r: "ExpireBatch sl jl al draw now limit s = ((n, e), t)" by (metis prod.exhaust)
  show ?thesis
  proof (cases "limit \<le> 0")
    case False
    define l where "l = (if limit > expireBatchMaxLimit then expireBatchMaxLimit else limit)"
    from r False have "expire_all (\<lambda>k. expireOne sl jl al (draw k) now k) (discover_expired now l s) 0 s = ((n, e), t)"
      by (simp add: ExpireBatch_def l_def Let_def)
    from expire_all_bound [OF this] have "0 \<le> n" "n \<le> int (length (discover_expired now l s))" by auto
    moreover have "length (discover_expired now l s) \<le> nat l"
      "length (discover_expired now l s) \<le> length (filter (expirable now s) (attempts s))" by (simp_all add: discover_expired_def)
    ultimately show ?thesis using r False by (auto simp: l_def expireBatchMaxLimit_def split: if_splits)
  qed (use r in \<open>auto simp: ExpireBatch_def\<close>)
qed

section \<open>Cancelling\<close>

lemma leased_attempt_of_job_unique:
  assumes "reachable s" and "get_attempt k s = Some a" "att_state a = AttemptLeased" "att_job a = i"
  shows "leased_attempt_of_job i s = Some a"
proof -
  note key = reachable_keyed [OF assms(1)] and occ = reachable_occupied [OF assms(1), unfolded occupied_properly_def]
  obtain b where b: "leased_attempt_of_job i s = Some b"
    using attempt_tbl.get_mem [OF assms(2)] assms(3,4)
    by (cases "leased_attempt_of_job i s") (auto simp: leased_attempt_of_job_def find_None_iff)
  then have m: "b \<in> set (attempts s)" "att_job b = i" "att_state b = AttemptLeased"
    by (auto simp: leased_attempt_of_job_def find_Some_iff in_set_conv_nth)
  note g = keyed_get(1) [OF key m(1)]
  have "att_id b = k"
    by (rule occ_unique [OF occ locked_view(1) [OF g m(3)] locked_view(1) [OF assms(2,3)]])
      (use m assms(3,4) in \<open>simp_all add: view_attempt_def\<close>)
  with g assms(2) have "b = a" by (metis option.inject)
  with b show ?thesis by simp
qed

lemma request_cancellation_effect:
  assumes "request_cancellation_tx p i now s = Inr (u, t)" and "get_job i s = Some j" "job_state j = JobLeased"
    "job_cancel_requested j = None" and "leased_attempt_of_job i s = Some a" "get_attempt (att_id a) s = Some a"
  shows "get_job i t = Some (j\<lparr>job_cancel_requested := Some now, job_updated := now\<rparr>)"
    and "get_attempt (att_id a) t = Some (a\<lparr>att_cancel_deadline := Some (now + cancellationGrace),
       att_lease_expires := min (att_lease_expires a) (now + cancellationGrace),
       att_authority_expires := min (att_authority_expires a) (now + cancellationGrace)\<rparr>)"
    and "job_owner j = pr_owner p" "Principal_Validate p" "sessions t = sessions s" "users t = users s"
proof -
  let ?d = "now + cancellationGrace"
  from assms obtain n m s1 s2 where w:
    "update_job i (\<lambda>_. True) (\<lambda>r. r\<lparr>job_cancel_requested := Some now, job_updated := now\<rparr>) s = Inr (n, s1)"
    "update_attempt (att_id a) (\<lambda>_. True) (\<lambda>r. r\<lparr>att_cancel_deadline := Some ?d,
       att_lease_expires := min (att_lease_expires r) ?d, att_authority_expires := min (att_authority_expires r) ?d\<rparr>) s1 = Inr (m, s2)"
    "appendAgentJobEvent i (Some (att_id a)) EvCancelRequested s2 = Inr (u, t)"
    and "job_owner j = pr_owner p" "Principal_Validate p"
    by (auto simp: request_cancellation_tx_def Let_def tx_simps)
  then show "job_owner j = pr_owner p" "Principal_Validate p" by blast+
  have s1: "s1 = put_job (j\<lparr>job_cancel_requested := Some now, job_updated := now\<rparr>) s"
    using w(1) assms(2) by (simp add: update_job_def tx_simps)
  have s2: "s2 = put_attempt (a\<lparr>att_cancel_deadline := Some ?d,
       att_lease_expires := min (att_lease_expires a) ?d, att_authority_expires := min (att_authority_expires a) ?d\<rparr>) s1"
    using w(2) assms(6) by (simp add: update_attempt_def tx_simps s1)
  have t: "t = s2\<lparr>job_events := job_events t\<rparr>" using w(3) by (auto simp: appendAgentJobEvent_def)
  show "get_job i t = Some (j\<lparr>job_cancel_requested := Some now, job_updated := now\<rparr>)"
    using job_tbl.get_put_same [OF assms(2), of "j\<lparr>job_cancel_requested := Some now, job_updated := now\<rparr>"] job_tbl.get_key [OF assms(2)]
    by (subst t) (simp add: s1 s2)
  show "get_attempt (att_id a) t = Some (a\<lparr>att_cancel_deadline := Some ?d,
       att_lease_expires := min (att_lease_expires a) ?d, att_authority_expires := min (att_authority_expires a) ?d\<rparr>)"
    using attempt_tbl.get_put_same [of "att_id a" s1 a "a\<lparr>att_cancel_deadline := Some ?d,
       att_lease_expires := min (att_lease_expires a) ?d, att_authority_expires := min (att_authority_expires a) ?d\<rparr>"] assms(6)
    by (subst t) (simp add: s1 s2)
  show "sessions t = sessions s" "users t = users s" by (subst t, simp add: s1 s2 put_job_def put_attempt_def)+
qed

text \<open>
  C30: A cancellation request ends the agent's authority.  Once it is accepted for a job whose attempt
  is leased, that attempt never again has authority beyond the grace period of sixty seconds,
  whatever renewals follow; and asking again is answered with success and changes nothing.
\<close>

theorem cancellation_ends_authority:
  assumes "reachable s" and "RequestCancellation p i now s = (Inr (), t)"
    and "get_job i s = Some j" "job_state j = JobLeased" "job_cancel_requested j = None"
    and "get_attempt k s = Some a" "att_state a = AttemptLeased" "att_job a = i"
  shows "(later t u \<longrightarrow> (\<exists>b. get_attempt k u = Some b \<and> att_authority_expires b \<le> now + cancellationGrace)) \<and>
    (live_session now' p t \<longrightarrow> RequestCancellation p i now' t = (Inr (), t))"
proof -
  have id: "att_id a = k" using attempt_tbl.get_key [OF assms(6)] .
  have run: "request_cancellation_tx p i now s = Inr ((), t)" and checks: "commit_checks t" and i: "\<not> i \<le> 0"
    using assms(2) by (auto simp: RequestCancellation_def run_tx_def and_then_def split: sum.splits prod.splits if_splits)
  note eff = request_cancellation_effect [OF run assms(3-5) leased_attempt_of_job_unique [OF assms(1,6,7,8)], unfolded id, OF assms(6)]
  have reach: "reachable t" using lease_steps_reach [OF assms(1) request_cancellation_step [of s p i now]] assms(2) by simp
  have "\<exists>b. get_attempt k u = Some b \<and> att_authority_expires b \<le> now + cancellationGrace" if "later t u"
  proof -
    from later_grows [OF that] have "rows_follow get_attempt attempt_follows t u" by (simp add: grows_def)
    from rows_followD [OF this eff(2)] obtain b where b: "get_attempt k u = Some b" "att_cancel_deadline b = Some (now + cancellationGrace)"
      by (auto simp: attempt_follows_def)
    moreover have "attempt_checks b"
      using reachable_checked [OF reachable_later [OF that reach]] attempt_tbl.get_mem [OF b(1)] by (simp add: checked_def)
    ultimately show ?thesis by (auto simp: attempt_checks_def)
  qed
  moreover have "RequestCancellation p i now' t = (Inr (), t)" if "live_session now' p t"
    using that i eff(1,3,4) assms(4) checks
    by (simp add: RequestCancellation_def run_tx_def request_cancellation_tx_def seq_def and_then_def lockAdministratorSession_def
        query_row_def ensure_def)
  ultimately show ?thesis by blast
qed

definition ex_cancelled :: db where
  "ex_cancelled = snd (RequestCancellation ex_admin 1 20000 ex_claimed)"

theorem cancellation_ends_authority_witness:
  "(\<exists>b. get_attempt 1 ex_cancelled = Some b \<and> att_authority_expires b \<le> 60000020000) \<and>
   RequestCancellation ex_admin 1 30000 ex_cancelled = (Inr (), ex_cancelled)"
proof -
  have "fst (RequestCancellation ex_admin 1 20000 ex_claimed) = Inr ()" by code_simp
  then have run: "RequestCancellation ex_admin 1 20000 ex_claimed = (Inr (), ex_cancelled)"
    unfolding ex_cancelled_def by (metis prod.collapse)
  have live: "live_session 30000 ex_admin ex_cancelled" by code_simp
  from cancellation_ends_authority [OF claimed_reachable run ex_claimed_rows(2) _ _ ex_claimed_attempt(1,2,4), of ex_cancelled 30000]
    live later.now show ?thesis by (simp add: ex_job_def cancellationGrace_def)
qed

end
