(* ===== verification/Activation_Properties.thy ===== *)
theory Activation_Properties
  imports Sweep_Properties
begin

text \<open>
  What an activation promises: a confirmed switch moves the environment's route to the new release
  and ends the lease, and nothing but a confirmation changes the release a route serves.
\<close>

section \<open>The rows a confirmed switch leaves\<close>

definition retained_release :: "int \<Rightarrow> release_row \<Rightarrow> release_row" where
  "retained_release now r = r\<lparr>rel_state := RelRetained, rel_updated := now\<rparr>"

definition activated_release :: "int \<Rightarrow> release_row \<Rightarrow> release_row" where
  "activated_release now r = r\<lparr>rel_state := RelActive, rel_updated := now\<rparr>"

definition switched_head :: "string \<Rightarrow> int \<Rightarrow> route_head_row \<Rightarrow> route_head_row" where
  "switched_head candidate now r = r\<lparr>rh_active := Some candidate, rh_revision := rh_revision r + 1, rh_reconciling := False,
     rh_updated := max (rh_updated r) now\<rparr>"

definition confirmed_operation :: "int \<Rightarrow> string \<Rightarrow> operation_row \<Rightarrow> operation_row" where
  "confirmed_operation now summary p = p\<lparr>op_state := OpSucceeded,
     op_closed := (case op_closed p of None \<Rightarrow> Some now | Some t \<Rightarrow> Some t), op_summary := summary\<rparr>"

definition succeeded_attempt :: "int \<Rightarrow> int \<Rightarrow> digest \<Rightarrow> attempt_row \<Rightarrow> attempt_row" where
  "succeeded_attempt now operation d a = a\<lparr>att_state := AttemptSucceeded, att_closed := Some now, att_failure := None,
     att_result_op := Some (itoa operation), att_result_digest := Some d\<rparr>"

definition vacated_slot :: "int \<Rightarrow> slot_row \<Rightarrow> slot_row" where
  "vacated_slot now r = r\<lparr>slot_current := None, slot_reconciling := False, slot_pending := None, slot_updated := now\<rparr>"

definition succeeded_job :: "int \<Rightarrow> job_row \<Rightarrow> job_row" where
  "succeeded_job now j = j\<lparr>job_state := JobSucceeded, job_updated := now\<rparr>"

lemmas switch_rows = retained_release_def activated_release_def switched_head_def confirmed_operation_def
  succeeded_attempt_def vacated_slot_def succeeded_job_def

lemma switch_folds:
  "(\<lambda>r. r\<lparr>rel_state := RelRetained, rel_updated := now\<rparr>) = retained_release now"
  "(\<lambda>r. r\<lparr>rel_state := RelActive, rel_updated := now\<rparr>) = activated_release now"
  "(\<lambda>r. r\<lparr>rh_active := Some candidate, rh_revision := rh_revision r + 1, rh_reconciling := False,
     rh_updated := max (rh_updated r) now\<rparr>) = switched_head candidate now"
  "(\<lambda>p. p\<lparr>op_state := OpSucceeded, op_closed := (case op_closed p of None \<Rightarrow> Some now | Some t \<Rightarrow> Some t),
     op_summary := summary\<rparr>) = confirmed_operation now summary"
  "(\<lambda>a. a\<lparr>att_state := AttemptSucceeded, att_closed := Some now, att_failure := None, att_result_op := Some (itoa operation),
     att_result_digest := Some d\<rparr>) = succeeded_attempt now operation d"
  "(\<lambda>r. r\<lparr>slot_current := None, slot_reconciling := False, slot_pending := None, slot_updated := now\<rparr>) = vacated_slot now"
  "(\<lambda>j. j\<lparr>job_state := JobSucceeded, job_updated := now\<rparr>) = succeeded_job now"
  by (simp_all add: fun_eq_iff switch_rows)

text \<open>An UPDATE that must match one row, seen from the state before.\<close>

lemma wp_update_one:
  assumes "\<And>r. get k s = Some r \<Longrightarrow> p r \<Longrightarrow> chk s r (f r) = None \<Longrightarrow> Q (put (f r) s)"
  shows "wp (update_row get put chk k p f) (\<lambda>n t. n = 1 \<longrightarrow> Q t) s"
  using assms by (auto simp: wp_def elim!: update_row_one)

lemma wp_update_found:
  assumes "get k s = Some r" "p r" "Q (put (f r) s)"
  shows "wp (update_row get put chk k p f) (\<lambda>_. Q) s"
  using assms by (auto simp: wp_def update_row_def split: if_splits option.splits)

definition completed :: "activationFinalizeInput \<Rightarrow> db \<Rightarrow> bool" where
  "completed i t \<longleftrightarrow>
     (\<exists>b. get_attempt (fi_attempt i) t = Some b \<and> att_state b = AttemptSucceeded) \<and>
     (\<exists>r. get_slot (fi_environment i) t = Some r \<and> slot_current r = None \<and> \<not> slot_reconciling r) \<and>
     (\<exists>j. get_job (fi_job i) t = Some j \<and> job_state j = JobSucceeded)"

definition switched :: "activationFinalizeInput \<Rightarrow> db \<Rightarrow> bool" where
  "switched i t \<longleftrightarrow>
     (\<exists>h. get_head (fi_environment i) t = Some h \<and> rh_active h = Some (fi_candidate i) \<and>
        rh_revision h = fi_expected_revision i + 1 \<and> \<not> rh_reconciling h) \<and>
     (\<exists>q. get_release (fi_candidate i) t = Some q \<and> rel_state q = RelActive) \<and>
     (\<forall>k. fi_expected_release i = Some k \<longrightarrow> (\<exists>q. get_release k t = Some q \<and> rel_state q = RelRetained)) \<and>
     (\<exists>q. get_operation (fi_operation i) t = Some q \<and> op_state q = OpSucceeded)"

text \<open>Rewriting a row in place.\<close>

lemma rewritten:
  "get_attempt k s = Some a \<Longrightarrow> att_id b = att_id a \<Longrightarrow> get_attempt k (put_attempt b s) = Some b"
  "get_slot e s = Some r \<Longrightarrow> slot_environment q = slot_environment r \<Longrightarrow> get_slot e (put_slot q s) = Some q"
  "get_job i s = Some j \<Longrightarrow> job_id l = job_id j \<Longrightarrow> get_job i (put_job l s) = Some l"
  "get_head e s = Some h \<Longrightarrow> rh_environment g = rh_environment h \<Longrightarrow> get_head e (put_head g s) = Some g"
  "get_release n s = Some w \<Longrightarrow> rel_id x = rel_id w \<Longrightarrow> get_release n (put_release x s) = Some x"
  "get_operation m s = Some p \<Longrightarrow> op_id o' = op_id p \<Longrightarrow> get_operation m (put_operation o' s) = Some o'"
  using attempt_tbl.get_put_same [of k s a b] attempt_tbl.get_key [of k s a] slot_tbl.get_put_same [of e s r q]
    slot_tbl.get_key [of e s r] job_tbl.get_put_same [of i s j l] job_tbl.get_key [of i s j]
    head_tbl.get_put_same [of e s h g] head_tbl.get_key [of e s h] release_tbl.get_put_same [of n s w x]
    release_tbl.get_key [of n s w] operation_tbl.get_put_same [of m s p o'] operation_tbl.get_key [of m s p]
  by simp_all

lemma other_release: "get_release k s = Some r \<Longrightarrow> rel_id q = k \<Longrightarrow> n \<noteq> k \<Longrightarrow> get_release n (put_release q s) = get_release n s"
  using release_tbl.get_put_other [of q s r n] by simp

lemma wp_event: "(\<And>evs. Q (s\<lparr>job_events := evs\<rparr>)) \<Longrightarrow> wp (appendAgentJobEvent job a e) (\<lambda>_. Q) s"
  by (auto simp: wp_def appendAgentJobEvent_def)

lemma switched_frame:
  assumes "route_heads t = route_heads s" "releases t = releases s" "operations t = operations s" and "switched i s"
  shows "switched i t"
  using assms by (simp add: switched_def get_head_def get_release_def get_operation_def)

lemma complete_activated_effect:
  assumes "switched i s"
  shows "wp (complete_activated i) (\<lambda>_ t. switched i t \<and> completed i t) s"
  unfolding complete_activated_def switch_folds wp_compound wp_basic update_attempt_def update_slot_def update_job_def
proof (rule wp_update_one, rule wp_update_one, rule wp_update_one, rule wp_event, rule wp_event, rule conjI)
  fix a r j evs evs'
  assume "get_attempt (fi_attempt i) s = Some a" 
      and "get_slot (fi_environment i) (put_attempt (succeeded_attempt (fi_now i) (fi_operation i) (fi_result i) a) s) = Some r"
      and "get_job (fi_job i) (put_slot (vacated_slot (fi_now i) r) (put_attempt (succeeded_attempt (fi_now i) (fi_operation i) (fi_result i) a) s)) = Some j"
  then show "completed i (put_job (succeeded_job (fi_now i) j) (put_slot (vacated_slot (fi_now i) r)
        (put_attempt (succeeded_attempt (fi_now i) (fi_operation i) (fi_result i) a) s))\<lparr>job_events := evs\<rparr>\<lparr>job_events := evs'\<rparr>)"
    by (simp add: completed_def rewritten switch_rows)
qed (rule switched_frame [OF _ _ _ assms]; simp add: put_job_def put_slot_def put_attempt_def)

lemma retain_effect:
  assumes "get_release (fi_candidate i) s = Some w" "rel_state w = RelReady"
  shows "wp (retain_predecessor i) (\<lambda>_ t. get_release (fi_candidate i) t = Some w \<and>
    (\<forall>k. fi_expected_release i = Some k \<longrightarrow> k \<noteq> fi_candidate i \<and> (\<exists>q. get_release k t = Some q \<and> rel_state q = RelRetained))) s"
proof (cases "fi_expected_release i")
  case (Some k)
  have "wp (update_release k (\<lambda>r. rel_state r = RelActive) (retained_release (fi_now i)))
      (\<lambda>_ t. get_release (fi_candidate i) t = Some w \<and> k \<noteq> fi_candidate i \<and> (\<exists>q. get_release k t = Some q \<and> rel_state q = RelRetained)) s"
    if "release_state_of k s = Some RelActive"
  proof -
    from that obtain r where r: "get_release k s = Some r" "rel_state r = RelActive" by (auto simp: release_state_of_def)
    with assms have "k \<noteq> fi_candidate i" by auto
    with r assms release_tbl.get_key [OF r(1)] show ?thesis unfolding update_release_def
      by (intro wp_update_found [of get_release k s r, OF r(1)]) (simp_all add: rewritten other_release switch_rows)
  qed
  with Some show ?thesis unfolding retain_predecessor_def switch_folds by (auto simp: wp_simps elim!: wp_mono)
qed (use assms in \<open>simp add: retain_predecessor_def wp_simps\<close>)

lemma switch_route_effect: "wp (switch_route i) (\<lambda>_. switched i) s"
proof -
  let ?ready = "\<lambda>t. (\<exists>w. get_release (fi_candidate i) t = Some w \<and> rel_state w = RelReady) \<and>
    (\<forall>k. fi_expected_release i = Some k \<longrightarrow> k \<noteq> fi_candidate i \<and> (\<exists>q. get_release k t = Some q \<and> rel_state q = RelRetained))"
  let ?moved = "\<lambda>t. (\<exists>q. get_release (fi_candidate i) t = Some q \<and> rel_state q = RelActive) \<and>
    (\<forall>k. fi_expected_release i = Some k \<longrightarrow> (\<exists>q. get_release k t = Some q \<and> rel_state q = RelRetained))"
  have retain: "wp (retain_predecessor i) (\<lambda>_. ?ready) s" if "release_state_of (fi_candidate i) s = Some RelReady"
    using that retain_effect by (fastforce simp: release_state_of_def elim: wp_mono)
  have candidate: "wp (update_release (fi_candidate i) (\<lambda>r. rel_state r = RelReady) (activated_release (fi_now i))) (\<lambda>_. ?moved) t"
    if "?ready t" for t
  proof -
    from that obtain w where w: "get_release (fi_candidate i) t = Some w" "rel_state w = RelReady" by blast
    with that release_tbl.get_key [OF w(1)] show ?thesis unfolding update_release_def
      by (intro wp_update_found [of get_release "fi_candidate i" t w, OF w(1)]) (auto simp: rewritten other_release switch_rows)
  qed
  have head: "wp (update_head (fi_environment i) (\<lambda>r. rh_revision r = fi_expected_revision i) (switched_head (fi_candidate i) (fi_now i)))
     (\<lambda>n t. n = 1 \<longrightarrow> ?moved t \<and> (\<exists>h. get_head (fi_environment i) t = Some h \<and> rh_active h = Some (fi_candidate i) \<and>
        rh_revision h = fi_expected_revision i + 1 \<and> \<not> rh_reconciling h)) t" if "?moved t" for t
    using that unfolding update_head_def by (intro wp_update_one) (auto simp: rewritten switch_rows)
  have operation: "wp (update_operation (fi_operation i) (\<lambda>p. op_state p = fi_from i) (confirmed_operation (fi_now i) (fi_summary i)))
     (\<lambda>n t. n = 1 \<longrightarrow> switched i t) t" if "?moved t" "\<exists>h. get_head (fi_environment i) t = Some h \<and> rh_active h = Some (fi_candidate i) \<and>
        rh_revision h = fi_expected_revision i + 1 \<and> \<not> rh_reconciling h" for t
    using that unfolding update_operation_def by (intro wp_update_one) (auto simp: rewritten switch_rows switched_def)
  have event: "get_head e (t\<lparr>route_events := evs\<rparr>) = get_head e t" "get_release k (t\<lparr>route_events := evs\<rparr>) = get_release k t" for e k evs t
    by (simp_all add: get_head_def get_release_def)
  have log: "wp (insert_route_event e) (\<lambda>_. Q) t" if "\<And>evs. Q (t\<lparr>route_events := evs\<rparr>)" for e Q t
    using that by (simp add: wp_def insert_route_event_def)
  show ?thesis
    unfolding switch_route_def switch_folds wp_compound wp_basic
    by (intro allI impI wp_mono [OF retain] wp_mono [OF candidate] wp_mono [OF head] log wp_mono [OF operation])
      (simp_all add: event)
qed

lemma finalize_effect: "wp (finalizeActivationSucceeded i) (\<lambda>_ t. switched i t \<and> completed i t) s"
  unfolding finalizeActivationSucceeded_def
  by (auto simp: wp_compound wp_basic intro!: wpI split: option.splits)
    (auto dest: wpD [OF switch_route_effect] wpD [OF complete_activated_effect])

section \<open>A confirmed switch\<close>

lemma refusals_are_errors: "fst (refuse_ambiguous sha srv job k fence q e evidence refusal rep now s) \<noteq> Inr ()"
  by (auto simp: refuse_ambiguous_def Let_def split: sum.splits prod.splits option.splits)

lemma open_operation_blocks:
  assumes "get_operation q s = Some p" and "op_state p = OpSwitchAuthorized"
  shows "fst (blockAfterAbortedTransaction sha describe srv k fence q what cause rep now s) \<noteq> Inr ()"
    "fst (blockAfterFinalizeFailure sha describe srv job k fence q e cause rep now s) \<noteq> Inr ()"
proof -
  have fresh: "fst (recordBlockInFreshTransaction sha srv k fence q evidence rep now s) \<noteq> Inr activationBlockNoopSucceeded" for evidence
  proof -
    have "wp (fresh_block_tx sha srv k fence q evidence rep now) (\<lambda>r _. fst r \<noteq> activationBlockNoopSucceeded) s"
      using assms unfolding fresh_block_tx_def by (auto simp: wp_simps wp_def)
    then have "outcome \<noteq> activationBlockNoopSucceeded"
      if "fresh_block_tx sha srv k fence q evidence rep now s = Inr ((outcome, commits), t)" for outcome commits t
      using wpD that by fastforce
    then show ?thesis by (auto simp: recordBlockInFreshTransaction_def split: sum.splits)
  qed
  show aborted: "fst (blockAfterAbortedTransaction sha describe srv k fence q what cause rep now s) \<noteq> Inr ()" for what
    using fresh [of "sanitizeOutcomeSummary (what @ describe cause)"]
    by (auto simp: blockAfterAbortedTransaction_def split: sum.splits prod.splits option.splits)
  show "fst (blockAfterFinalizeFailure sha describe srv job k fence q e cause rep now s) \<noteq> Inr ()"
    using aborted by (auto simp: blockAfterFinalizeFailure_def split: sum.splits prod.splits)
qed

lemma report_success_effect:
  assumes "report_success sha describe srv job a p rep now s = (Inr (), t)"
    and "get_operation (op_id p) s = Some p" and "op_state p = OpSwitchAuthorized"
  obtains i where "rp_digest_matches rep" "switched i t" "completed i t" "fi_job i = att_job a" "fi_attempt i = att_id a"
    "fi_operation i = op_id p" "fi_environment i = att_environment a" "fi_candidate i = op_release p"
    "op_expected_revision p = Some (fi_expected_revision i)" "fi_expected_release i = op_expected_release p"
proof -
  have matches: "rp_digest_matches rep"
    using assms(1) refusals_are_errors by (auto simp: report_success_def Let_def split: if_splits) (metis fst_conv)
  obtain h where h: "get_head (att_environment a) s = Some h" "rh_active h = op_expected_release p"
    "op_expected_revision p = Some (rh_revision h)"
    using assms(1) matches refusals_are_errors by (auto simp: report_success_def Let_def split: if_splits option.splits) (metis fst_conv)+
  let ?i = "\<lparr>fi_job = att_job a, fi_attempt = att_id a, fi_operation = op_id p, fi_environment = att_environment a,
      fi_deployment = job_deployment job, fi_candidate = op_release p, fi_expected_revision = the (op_expected_revision p),
      fi_expected_release = op_expected_release p, fi_result = rp_observed rep,
      fi_summary = ''activated route_digest=sha256:'' @ hex_encode (rp_observed rep), fi_now = now, fi_from = OpSwitchAuthorized\<rparr>"
  have "finalizeActivationSucceeded ?i s = Inr ((), t)"
    using assms(1) matches h open_operation_blocks [OF assms(2,3)]
    by (auto simp: report_success_def Let_def split: if_splits sum.splits) (metis fst_conv)+
  from wpD [OF finalize_effect this] have "switched ?i t" "completed ?i t" by simp_all
  with that [of ?i] matches h show thesis by simp
qed

lemma report_of_open_operation:
  assumes "reachable s" and "activation_of k fence s = Some p" and "op_state p = OpSwitchAuthorized"
    and "ReportActivationResult sha describe srv d k fence opid ok obs why now s = (Inr (), t)"
  obtains job a rep where "get_attempt k s = Some a" "att_state a = AttemptLeased" "get_operation (op_id p) s = Some p"
    "rp_digest_matches rep \<longleftrightarrow> op_route_digest p = Some obs"
    "(if ok then report_success sha describe srv job a p rep now s
      else report_failure sha srv (att_job a) k fence (op_id p) (att_environment a) rep now s) = (Inr (), t)"
proof -
  let ?rep = "\<lparr>rp_succeeded = ok, rp_digest_matches = (op_route_digest p = Some obs), rp_observed = obs, rp_failure = failureOutcomeSummary why\<rparr>"
  have p: "p \<in> set (operations s)"
    using assms(2) by (auto simp: activation_of_def find_Some_iff in_set_conv_nth)
  then have g: "get_operation (op_id p) s = Some p" using keyed_get(2) [OF reachable_keyed [OF assms(1)]] by blast
  from assms(4) obtain b where "reportActivationResult sha describe srv d k fence opid ok obs why now s = ((b, Inr ()), t)"
    by (auto simp: ReportActivationResult_def split: prod.splits sum.splits)
  then obtain parsed slot job a where l: "locate_activation srv d k fence parsed s = Inr ((slot, job, a, p), s)"
    and occ: "leasedOccupant a slot fence"
    and r: "(if \<not> ok then report_failure sha srv (att_job a) k fence (op_id p) (att_environment a) ?rep now s
      else report_success sha describe srv job a p ?rep now s) = (Inr (), t)"
    using assms(2,3) unfolding reportActivationResult_def locate_activation_def
    by (auto simp: tx_simps Let_def split: if_splits option.splits sum.splits prod.splits)
  from l have "get_attempt k s = Some a" by (auto simp: locate_activation_def tx_simps split: prod.splits)
  with that [of a ?rep job] g occ r show thesis by (auto simp: leasedOccupant_def split: if_splits)
qed

text \<open>
  C5: A confirmed switch moves the route.  When an agent's report that it switched an open
  activation is accepted, the digest it observed is the authorized one; the environment's route
  head points to the activated release at the next revision, that release is active and its
  predecessor retained; the operation and the attempt succeeded, the job is done and the
  environment is free for the next claim.
\<close>

theorem confirmed_switch_moves_the_route:
  assumes "reachable s" and "activation_of k fence s = Some p" and "op_state p = OpSwitchAuthorized"
    and "ReportActivationResult sha describe srv d k fence opid True obs why now s = (Inr (), t)"
  shows "op_route_digest p = Some obs \<and> (\<exists>a. get_attempt k s = Some a \<and>
    (\<exists>h. get_head (att_environment a) t = Some h \<and> rh_active h = Some (op_release p) \<and>
       op_expected_revision p = Some (rh_revision h - 1) \<and> \<not> rh_reconciling h) \<and>
    (\<exists>q. get_release (op_release p) t = Some q \<and> rel_state q = RelActive) \<and>
    (\<forall>n. op_expected_release p = Some n \<longrightarrow> (\<exists>q. get_release n t = Some q \<and> rel_state q = RelRetained)) \<and>
    (\<exists>q. get_operation (op_id p) t = Some q \<and> op_state q = OpSucceeded) \<and>
    (\<exists>b. get_attempt k t = Some b \<and> att_state b = AttemptSucceeded) \<and>
    (\<exists>r. get_slot (att_environment a) t = Some r \<and> slot_current r = None \<and> \<not> slot_reconciling r) \<and>
    (\<exists>j. get_job (att_job a) t = Some j \<and> job_state j = JobSucceeded))"
proof -
  from assms obtain job a rep where r: "get_attempt k s = Some a" "get_operation (op_id p) s = Some p"
    "rp_digest_matches rep \<longleftrightarrow> op_route_digest p = Some obs" "report_success sha describe srv job a p rep now s = (Inr (), t)"
    by (rule report_of_open_operation) auto
  from r(4,2) assms(3) obtain i where i: "rp_digest_matches rep" "switched i t" "completed i t" "fi_job i = att_job a"
    "fi_attempt i = att_id a" "fi_operation i = op_id p" "fi_environment i = att_environment a" "fi_candidate i = op_release p"
    "op_expected_revision p = Some (fi_expected_revision i)" "fi_expected_release i = op_expected_release p"
    by (rule report_success_effect)
  from i(2,3) r(1,3) i(1,4-10) attempt_tbl.get_key [OF r(1)] show ?thesis unfolding switched_def completed_def by auto
qed

lemma activating_operation:
  "activation_of 1 1 ex_activating = Some ex_operation" "op_state ex_operation = OpSwitchAuthorized"
  "op_release ex_operation = ''d''" "op_id ex_operation = 1"
  by (simp_all add: activation_of_def ex_activating_def ex_operation_def)

theorem confirmed_switch_moves_the_route_witness:
  "\<exists>h. get_head ''e'' ex_live = Some h \<and> rh_active h = Some ''d'' \<and> \<not> rh_reconciling h"
proof -
  have "get_attempt 1 ex_activating = Some a \<Longrightarrow> att_environment a = ''e''" for a
    by (auto simp: get_attempt_def ex_activating_def ex_checked_def ex_claimed_def ex_attempt_def)
  with confirmed_switch_moves_the_route [OF activating_reachable activating_operation(1,2) report_run]
  show ?thesis unfolding activating_operation(3) by auto
qed

lemma report_failure_effect:
  assumes "report_failure sha srv job k fence q e rep now s = (Inr (), t)"
    and "get_operation q s = Some p" "op_state p = OpSwitchAuthorized" and "get_attempt k s = Some a" "e = att_environment a"
  shows "blocked_state now k q e (rp_failure rep) s t"
proof -
  have "wp (fresh_block_tx sha srv k fence q (rp_failure rep) rep now)
      (\<lambda>r u. fst r = activationBlockRecorded \<longrightarrow> snd r \<and> blocked_state now k q e (rp_failure rep) s u) s"
    using assms(2-5) unfolding fresh_block_tx_def by (auto simp: wp_simps intro!: wp_mono [OF block_effect])
  then have fresh: "commits \<and> blocked_state now k q e (rp_failure rep) s u"
    if "fresh_block_tx sha srv k fence q (rp_failure rep) rep now s = Inr ((activationBlockRecorded, commits), u)" for commits u
    using wpD that by fastforce
  show ?thesis
    using assms(1) wpD [OF block_effect] fresh
    by (auto simp: report_failure_def recordBlockInFreshTransaction_def split: sum.splits prod.splits if_splits activationBlockOutcome.splits)
qed

text \<open>
  C24: A failed switch blocks the environment.  When an agent's report that an open activation
  failed is accepted, the operation waits for reconciliation, the environment is set aside and
  cannot be claimed, and traffic, jobs and leases stay as they were.
\<close>

theorem failed_switch_blocks_the_environment:
  assumes "reachable s" and "activation_of k fence s = Some p" and "op_state p = OpSwitchAuthorized"
    and "ReportActivationResult sha describe srv d k fence opid False obs why now s = (Inr (), t)"
  shows "\<exists>a q r. get_attempt k s = Some a \<and> get_operation (op_id p) t = Some q \<and> op_state q = OpReconciliationRequired \<and>
    get_slot (att_environment a) t = Some r \<and> slot_reconciling r \<and> slot_pending r = Some k \<and>
    claimable_slot locked (att_environment a) t = None \<and> traffic t = traffic s \<and> attempts t = attempts s \<and> jobs t = jobs s"
proof -
  from assms obtain job a rep where r: "get_attempt k s = Some a" "get_operation (op_id p) s = Some p"
    "report_failure sha srv (att_job a) k fence (op_id p) (att_environment a) rep now s = (Inr (), t)"
    by (rule report_of_open_operation) auto
  from report_failure_effect [OF r(3,2) assms(3) r(1) HOL.refl]
  have b: "blocked_state now k (op_id p) (att_environment a) (rp_failure rep) s t" .
  have "traffic t = traffic s"
    using traffic.unconfirmed_report_kept [of False k fence s obs sha describe srv d opid why now] assms(4) by simp
  with blocked_stateD [OF b] r(1) show ?thesis
    by (auto simp: blocked_row_def claimable_slot_def split: option.splits)
qed

theorem failed_switch_blocks_the_environment_witness:
  "traffic ex_blocked = traffic ex_activating \<and> claimable_slot ex_lock ''e'' ex_blocked = None"
proof -
  have "get_attempt 1 ex_activating = Some a \<Longrightarrow> att_environment a = ''e''" for a
    by (auto simp: get_attempt_def ex_activating_def ex_checked_def ex_claimed_def ex_attempt_def)
  with failed_switch_blocks_the_environment [OF activating_reachable activating_operation(1,2) block_run, of ex_lock]
  show ?thesis by auto
qed

section \<open>The release a route serves\<close>

definition serving_kept :: "db \<Rightarrow> db \<Rightarrow> bool" where
  "serving_kept s t \<longleftrightarrow> rows_follow get_head (\<lambda>h g. rh_active g = rh_active h) s t"

lemma same_heads_serving: "route_heads t = route_heads s \<Longrightarrow> serving_kept s t"
  by (simp add: serving_kept_def rows_follow_def get_head_def)

lemma same_traffic_serving:
  assumes "traffic t = traffic s"
  shows "serving_kept s t"
proof -
  have "\<exists>g. get_head e t = Some g \<and> rh_active g = rh_active h" if "get_head e s = Some h" for e h
    using fun_cong [OF assms, of e] that by (cases "get_head e t") (auto simp: traffic_def)
  then show ?thesis unfolding serving_kept_def rows_follow_def by blast
qed

interpretation serving: committed_relation serving_kept
proof unfold_locales
  show "serving_kept s s" for s by (simp add: same_heads_serving)
  show "serving_kept s t \<Longrightarrow> serving_kept t u \<Longrightarrow> serving_kept s u" for s t u
    unfolding serving_kept_def by (rule rows_follow_trans) auto
qed

lemma assignment_serving:
  "serving.keeps (insert_route_head h)" "serving.keeps (update_head e p (renamed_head host now))"
  "serving.keeps (insert_route_event ev)" "serving.keeps (insertRouteHeadAuditEvent a)"
proof -
  show "serving.keeps (insert_route_head h)"
    by (rule serving.keepsI)
      (auto simp: insert_route_head_def serving_kept_def split: if_splits intro!: head_tbl.append_follows)
  show "serving.keeps (insert_route_event ev)" "serving.keeps (insertRouteHeadAuditEvent a)"
    by (rule serving.keepsI; auto simp: insert_route_event_def insertRouteHeadAuditEvent_def
      intro!: same_heads_serving split: if_splits)+
  show "serving.keeps (update_head e p (renamed_head host now))"
  proof (rule serving.keepsI)
    fix s n t assume "update_head e p (renamed_head host now) s = Inr (n, t)"
    then consider "t = s" | r where "get_head e s = Some r" "t = put_head (renamed_head host now r) s"
      by (auto simp: update_head_def tx_simps split: option.splits if_splits)
    then show "serving_kept s t"
    proof cases
      case (2 r)
      then have "get_head (rh_environment (renamed_head host now r)) s = Some r"
        using head_tbl.get_key [OF 2(1)] by (simp add: renamed_head_def)
      then show ?thesis unfolding 2(2) serving_kept_def by (rule head_tbl.put_follows [rotated]) (simp_all add: renamed_head_def)
    qed (simp add: serving.refl)
  qed
qed

interpretation serving_assignment: assignment_kept serving_kept
  by unfold_locales (rule assignment_serving)+

lemma revocation_serving: "serving_kept s (snd (RevokeServer draw p srv reason clock s))"
proof (cases "snd (RevokeServer draw p srv reason clock s) = s")
  case False
  then have "RevokeServer draw p srv reason clock s = (Inr (), snd (RevokeServer draw p srv reason clock s))" (is "_ = (_, ?t)")
    using RevokeServer_cases [of draw p srv reason clock s] by (metis prod.collapse)
  then obtain u v where uv: "revoke_accounts_tx p srv clock s = Inr ((), u)" "revokeInFlightLeases draw srv (clock 3) u = Inr ((), v)"
    "server_audit (administratorActor p) ''server_revoked'' srv None reason v = Inr ((), ?t)"
    by (rule RevokeServer_parts)
  have "accounts_only s u" using accounts.keepsD [OF operations_accounts(5) uv(1)] by (simp add: accounts_step_def)
  then have "serving_kept s u" by (intro same_heads_serving) (auto simp: accounts_only_def)
  moreover have "serving_kept u v" using traffic.keepsD [OF traffic.revokeInFlightLeases_kept uv(2)] by (rule same_traffic_serving)
  moreover have "serving_kept v ?t"
    using heads.keepsD [OF inserts_heads(7) uv(3) [unfolded server_audit_def]] by (rule same_heads_serving)
  ultimately show ?thesis using serving.trans by blast
qed (simp add: serving.refl)

lemma outside_serving: "outside_step s t \<Longrightarrow> serving_kept s t"
proof (induction rule: outside_step.induct)
  case (administer s t)
  from server_step_accounts [OF this] show ?case by (intro same_heads_serving) (auto simp: accounts_step_def accounts_only_def)
next
  case (create s d)
  have "heads.keeps (insert_deployment x)" for x
    by (rule heads.keepsI) (auto simp: insert_deployment_def split: if_splits)
  then have "heads.keeps (createTx d)"
    unfolding createTx_def appendEvents_def by (intro heads.keeps_intros inserts_heads)
  then show ?case
    by (intro same_heads_serving) (auto simp: Create_def run_tx_def tx_simps dest: heads.keepsD split: sum.splits prod.splits)
next
  case (assign s p env raw expected clock)
  show ?case by (rule serving_assignment.assign_kept)
qed (simp_all add: revocation_serving same_heads_serving)

text \<open>
  C6: Only a confirmation changes what a route serves.  If a step of the system changes the active
  release of a route head, the step is an agent's report that it observed exactly the authorized
  route, or a declaration by an administrator or by the agent that the switch happened; no claim,
  sweep, cancellation, revocation, hostname assignment or failure report does.
\<close>

theorem served_release_changes_only_on_confirmation:
  assumes "system_step s t" and "get_head e s = Some h" "get_head e t = Some g" and "rh_active g \<noteq> rh_active h"
  shows "confirming_step s t"
proof (rule ccontr)
  assume "\<not> confirming_step s t"
  then have "serving_kept s t"
    using assms(1) traffic.step_quiet same_traffic_serving outside_serving unfolding system_step_def by blast
  with assms(2-4) show False by (auto simp: serving_kept_def dest: rows_followD)
qed

theorem served_release_changes_only_on_confirmation_witness: "confirming_step ex_activating ex_live"
proof -
  have "lease_step ex_activating ex_live"
    using lease_step.report_step [of ex_activating ex_sha ex_describe "''s''" ex_key 1 1 "''1''" True ex_route_digest "[]" 31000]
    unfolding report_run by simp
  moreover have "get_head ''e'' ex_activating = Some ex_head"
    "get_head ''e'' ex_live = Some (ex_head\<lparr>rh_revision := 1, rh_active := Some ''d'', rh_updated := 31000\<rparr>)"
    by (simp_all add: get_head_def ex_live_def ex_activating_def ex_checked_def ex_claimed_def ex_ready_def ex_head_def)
  ultimately show ?thesis
    using served_release_changes_only_on_confirmation [of ex_activating ex_live "''e''"] by (simp add: system_step_def ex_head_def)
qed

end
