(* ===== verification/Server_Properties.thy ===== *)
theory Server_Properties
  imports Sweep_Properties
begin

text \<open>
  What the account operations promise: a revoked server is locked out for good, an enrollment token
  works once, a rotation replaces the credential, and hostnames are well formed and unique.
\<close>

section \<open>Revocation\<close>





text \<open>
  The leases of a revoked server: closing one leaves every activation that is in doubt in doubt.
\<close>

definition in_doubt :: "int \<Rightarrow> db \<Rightarrow> bool" where
  "in_doubt k s \<longleftrightarrow> list_ex (\<lambda>p. op_attempt p = k \<and> unresolved_operation p) (operations s)"

definition let_go :: "int \<Rightarrow> db \<Rightarrow> bool" where
  "let_go k s \<longleftrightarrow> (\<exists>a. get_attempt k s = Some a \<and> (att_state a \<noteq> AttemptLeased \<or> in_doubt k s))"

interpretation ops: kept_relation "\<lambda>s t. operations t = operations s"
  by unfold_locales simp_all

lemma close_keeps_operations: "ops.keeps (closeAttemptOrdinary draw now i k e n dep c)"
proof -
  have w: "ops.keeps (update_attempt k p f)" "ops.keeps (update_slot e q g)" "ops.keeps (update_job i w h)"
    "ops.keeps (update_deployment dep u v)" "ops.keeps (appendAgentJobEvent i m ev)" "ops.keeps (insert_deployment_event dep x)"
    for dep p f q g w h u v m ev x
    by (rule ops.keepsI; auto simp: update_attempt_def update_slot_def update_job_def update_deployment_def put_attempt_def
      put_slot_def put_job_def put_deployment_def appendAgentJobEvent_def insert_deployment_event_def tx_simps Let_def
      split: option.splits if_splits)+
  show ?thesis
    unfolding closeAttemptOrdinary_def close_job_def transitionDeployment_def saveTx_def readSnapshot_def appendEvents_def
    by (intro ops.keeps_intros w)
qed

lemma wp_then_evolves:
  assumes "wp m P s" and "history.keeps n" and "\<And>x u y t. P x u \<Longrightarrow> evolves u t \<Longrightarrow> Q y t"
  shows "wp (seq m n) Q s"
  using assms(1,3) history.keepsD [OF assms(2)] unfolding wp_def seq_Inr by blast

lemma closed_stays:
  assumes "get_attempt k s = Some a" "att_state a \<noteq> AttemptLeased" and "evolves s t"
  shows "let_go k t"
proof -
  from assms(3) have "rows_follow get_attempt attempt_follows s t" by (simp add: evolves_defs)
  from rows_followD [OF this assms(1)] assms(2) show ?thesis by (auto simp: let_go_def attempt_follows_def)
qed

lemma close_lets_go:
  assumes "get_attempt k s = Some a"
  shows "wp (closeAttemptOrdinary draw now i k e n dep c) (\<lambda>_. let_go k) s"
  unfolding closeAttemptOrdinary_def Let_def swept_folds
proof (rule wp_then_evolves)
  show "wp (update_attempt k (\<lambda>_. True) (swept_attempt c now)) (\<lambda>_ t. get_attempt k t = Some (swept_attempt c now a)) s"
    using assms attempt_tbl.get_put_same [OF assms, of "swept_attempt c now a"] attempt_tbl.get_key [OF assms]
    by (auto simp: wp_def update_attempt_def update_row_def swept_attempt_def split: if_splits option.splits)
  show "let_go k t" if "get_attempt k u = Some (swept_attempt c now a)" "evolves u t" for x :: nat and u and y :: unit and t
    using closed_stays [OF that(1) _ that(2)] by (simp add: swept_attempt_def)
qed (intro history.keeps_intros history.statements history.close_job_kept)

lemma block_doubts:
  assumes "keyed s" and "blocked_state now k q e summary s t" and "in_doubt l s"
  shows "in_doubt l t"
proof -
  from blocked_stateD(3) [OF assms(2)] obtain p where p: "get_operation q s = Some p"
    "operations t = replace_row op_id (blocked_row now summary p) (operations s)" "get_operation q t = Some (blocked_row now summary p)" by blast
  from assms(3) obtain x where x: "x \<in> set (operations s)" "op_attempt x = l" "unresolved_operation x"
    by (auto simp: in_doubt_def list_ex_iff)
  show ?thesis
  proof (cases "op_id x = q")
    case True
    with keyed_get(2) [OF assms(1) x(1)] p(1) have "x = p" by simp
    with x(2,3) have "op_attempt (blocked_row now summary p) = l" "unresolved_operation (blocked_row now summary p)"
      by (simp_all add: blocked_row_def unresolved_operation_def unresolvedActivation_def activationTerminalStates_def)
    with operation_tbl.get_mem [OF p(3)] show ?thesis by (auto simp: in_doubt_def list_ex_iff)
  next
    case False
    then have "x \<in> set (operations t)"
      using operation_tbl.get_key [OF p(1)] x(1) unfolding p(2) by (intro replace_row_other) (simp_all add: blocked_row_def)
    with x(2,3) show ?thesis by (auto simp: in_doubt_def list_ex_iff)
  qed
qed

lemma revoke_one_lets_go:
  assumes "keyed s" "occupied_properly s" and a: "get_attempt (att_id c) s = Some a" "same_attempt_identity c a"
  shows "wp (revoke_one draw now c) (\<lambda>_ t. (\<forall>k. in_doubt k s \<longrightarrow> in_doubt k t) \<and> let_go (att_id c) t) s"
proof -
  let ?P = "\<lambda>t. (\<forall>k. in_doubt k s \<longrightarrow> in_doubt k t) \<and> let_go (att_id c) t"
  have free: "let_go (att_id c) s" if "att_state a \<noteq> AttemptLeased"
    using that a(1) by (auto simp: let_go_def)
  have close: "wp (closeExpiredOrRevokedAttempt draw' now (att_job c) (att_id c) (att_environment c) n dep x) (\<lambda>_. ?P) s"
    for draw' n dep x
  proof (cases "unresolved_of_attempt (att_id c) (att_environment c) s")
    case None
    have "wp (closeAttemptOrdinary draw' now (att_job c) (att_id c) (att_environment c) n dep x) (\<lambda>_. ?P) s"
    proof (rule wpI)
      fix u t assume run: "closeAttemptOrdinary draw' now (att_job c) (att_id c) (att_environment c) n dep x s = Inr (u, t)"
      from wpD [OF close_lets_go [OF a(1)] this] ops.keepsD [OF close_keeps_operations run] show "?P t" by (simp add: in_doubt_def)
    qed
    with None show ?thesis
      by (simp add: closeExpiredOrRevokedAttempt_def divertUnresolvedActivation_def wp_simps)
  next
    case (Some p)
    have d: "in_doubt (att_id c) s" using unresolved_of_attemptD [OF Some] by (auto simp: in_doubt_def list_ex_iff)
    then have "?P s" using a(1) by (simp add: let_go_def)
    moreover have "?P t" if "blocked_state now (att_id c) q e summary s t" for q e summary t
      using block_doubts [OF assms(1) that] blocked_stateD(1) [OF that] d a(1) by (auto simp: let_go_def get_attempt_def)
    ultimately show ?thesis using Some
      by (auto simp: closeExpiredOrRevokedAttempt_def divertUnresolvedActivation_def wp_simps intro!: wp_mono [OF block_effect])
  qed
  show ?thesis
  proof (cases "att_state a = AttemptLeased")
    case True
    then have "(\<exists>r. get_slot (att_environment c) s = Some r \<and> slot_current r = Some (att_id c)) \<and>
        (\<exists>j. get_job (att_job c) s = Some j \<and> job_state j = JobLeased)"
      using occ_leased [OF assms(2) [unfolded occupied_properly_def], of "att_id c" "view_attempt a"] locked_view [OF a(1) True] a(2)
      by (auto simp: slot_of_def job_of_def view_slot_def view_job_def view_attempt_def same_attempt_identity_def)
    with True close a(1) show ?thesis unfolding revoke_one_def by (auto simp: wp_simps)
  next
    case False
    with free a(1) show ?thesis unfolding revoke_one_def by (auto simp: wp_simps)
  qed
qed

text \<open>The whole loop: what was let go stays let go, whatever the later rounds do.\<close>

lemma wp_for_each_done:
  assumes "\<And>x s. x \<in> set xs \<Longrightarrow> I s \<Longrightarrow> wp (f x) (\<lambda>_ t. I t \<and> P x t \<and> (\<forall>y. P y s \<longrightarrow> P y t)) s" and "I s"
  shows "wp (for_each f xs) (\<lambda>_ t. I t \<and> (\<forall>x \<in> set xs. P x t) \<and> (\<forall>y. P y s \<longrightarrow> P y t)) s"
  using assms
proof (induction xs arbitrary: s)
  case (Cons x xs)
  have "wp (f x) (\<lambda>_ t. I t \<and> P x t \<and> (\<forall>y. P y s \<longrightarrow> P y t)) s" using Cons.prems by simp
  then have "wp (f x) (\<lambda>_ t. wp (for_each f xs) (\<lambda>_ u. I u \<and> (\<forall>x \<in> set xs. P x u) \<and> (\<forall>y. P y t \<longrightarrow> P y u)) t \<and>
      P x t \<and> (\<forall>y. P y s \<longrightarrow> P y t)) s"
    by (rule wp_mono) (use Cons.prems in \<open>auto intro: Cons.IH\<close>)
  then have "wp (f x) (\<lambda>_. wp (for_each f xs) (\<lambda>_ u. I u \<and> (\<forall>x \<in> set (x # xs). P x u) \<and> (\<forall>y. P y s \<longrightarrow> P y u))) s"
    by (rule wp_mono) (auto elim: wp_mono)
  then show ?case by (simp add: wp_simps)
qed (simp add: wp_simps)

lemma revoke_round:
  assumes "keyed s" "occupied_properly s" "still_listed cs s" "c \<in> set cs"
  shows "wp (revoke_one draw now c) (\<lambda>_ t. (keyed t \<and> occupied_properly t \<and> still_listed cs t) \<and> let_go (att_id c) t \<and>
    (\<forall>y :: attempt_row. let_go (att_id y) s \<longrightarrow> let_go (att_id y) t)) s"
proof (rule wpI)
  fix x t assume run: "revoke_one draw now c s = Inr (x, t)"
  from assms(3,4) obtain a where a: "get_attempt (att_id c) s = Some a" "same_attempt_identity c a"
    by (auto simp: still_listed_def)
  have "history.keeps (revoke_one draw now c)"
    unfolding revoke_one_def by (intro history.keeps_intros history.closeExpired_kept)
  moreover have "keys.keeps (revoke_one draw now c)"
    unfolding revoke_one_def by (intro keys.keeps_intros keys.closeExpired_kept)
  ultimately have ev: "evolves s t" and "keyed t" using run assms(1) history.keepsD [of "revoke_one draw now c"] keys.keepsD [of "revoke_one draw now c"] by blast+
  moreover have "occupied_properly t"
    using wpD [OF revoke_one_occupancy run] a assms(2) by (auto simp: same_attempt_identity_def)
  moreover have d: "in_doubt k s \<Longrightarrow> in_doubt k t" "let_go (att_id c) t" for k
    using wpD [OF revoke_one_lets_go [OF assms(1,2) a] run] by blast+
  moreover have "let_go k t" if go: "let_go k s" for k
  proof -
    from go obtain b where b: "get_attempt k s = Some b" "att_state b \<noteq> AttemptLeased \<or> in_doubt k s" by (auto simp: let_go_def)
    from ev have "rows_follow get_attempt attempt_follows s t" by (simp add: evolves_defs)
    from rows_followD [OF this b(1)] b(2) d(1) show ?thesis by (auto simp: let_go_def attempt_follows_def)
  qed
  ultimately show "(keyed t \<and> occupied_properly t \<and> still_listed cs t) \<and> let_go (att_id c) t \<and>
      (\<forall>y :: attempt_row. let_go (att_id y) s \<longrightarrow> let_go (att_id y) t)"
    using still_listed_evolves [OF assms(3)] by blast
qed

lemma revocation_lets_go:
  assumes "keyed s" "occupied_properly s" and run: "revokeInFlightLeases draw srv now s = Inr (u, t)"
    and a: "get_attempt k s = Some a" "att_server a = srv"
  shows "let_go k t"
proof (cases "att_state a = AttemptLeased")
  case True
  define cs where "cs = in_flight srv s"
  have "still_listed cs s"
    using keyed_get(1) [OF assms(1)] by (auto simp: cs_def still_listed_def in_flight_def same_attempt_identity_def)
  with assms(1,2) have "wp (for_each (revoke_one draw now) cs) (\<lambda>_ t. (keyed t \<and> occupied_properly t \<and> still_listed cs t) \<and>
      (\<forall>c \<in> set cs. let_go (att_id c) t) \<and> (\<forall>y :: attempt_row. let_go (att_id y) s \<longrightarrow> let_go (att_id y) t)) s"
    by (intro wp_for_each_done [where I = "\<lambda>t. keyed t \<and> occupied_properly t \<and> still_listed cs t" and P = "\<lambda>c. let_go (att_id c)"])
      (blast intro: revoke_round)+
  moreover have "for_each (revoke_one draw now) cs s = Inr (u, t)"
    using run by (auto simp: revokeInFlightLeases_def tx_simps cs_def)
  moreover have "a \<in> set cs" using attempt_tbl.get_mem [OF a(1)] a(2) True by (simp add: cs_def in_flight_def)
  ultimately show ?thesis using attempt_tbl.get_key [OF a(1)] by (auto dest!: wpD)
next
  case False
  from closed_stays [OF a(1) this history.keepsD [OF history.revokeInFlightLeases_kept run]] show ?thesis .
qed

text \<open>
  C7: Revoking a server ends its leases.  When the revocation commits, every attempt the server held
  is closed, except one whose activation is in doubt, which stays leased until that is settled.
  No credential of the server is active.
\<close>

theorem revocation_ends_leases:
  assumes "reachable s" and "RevokeServer draw p srv reason clock s = (Inr (), t)"
    and "get_attempt k s = Some a" and "att_server a = srv"
  shows "\<exists>b. get_attempt k t = Some b \<and> (att_state b \<noteq> AttemptLeased \<or>
      (\<exists>q \<in> set (operations t). op_attempt q = k \<and> unresolved_operation q)) \<and>
    (\<forall>c \<in> set (credentials t). cred_server c = srv \<longrightarrow> \<not> cred_active c)"
proof -
  from assms(2) obtain u v where uv: "revoke_accounts_tx p srv clock s = Inr ((), u)"
    "revokeInFlightLeases draw srv (clock 3) u = Inr ((), v)"
    "server_audit (administratorActor p) ''server_revoked'' srv None reason v = Inr ((), t)"
    by (rule RevokeServer_parts)
  have "accounts_only s u" using accounts.keepsD [OF operations_accounts(5) uv(1)] by (simp add: accounts_step_def)
  note u = accounts_only_keep [OF this]
  from this have "attempts u = attempts s" using \<open>accounts_only s u\<close> by (auto simp: accounts_only_def)
  with assms(3) have a: "get_attempt k u = Some a" by (simp add: get_attempt_def)
  from revocation_lets_go [OF u(2) [OF reachable_keyed [OF assms(1)]] u(5) [OF reachable_occupied [OF assms(1)]] uv(2) a assms(4)]
  have go: "let_go k v" .
  have "credentials v = credentials u"
    using history.keepsD [OF history.revokeInFlightLeases_kept uv(2)] by (simp add: evolves_def same_inputs_def)
  moreover have "attempts t = attempts v" "operations t = operations v" "credentials t = credentials v"
    using uv(3) by (auto simp: server_audit_def insertServerAuditEvent_def split: if_splits)
  ultimately show ?thesis
    using go revoke_accounts_effect [OF uv(1)] by (auto simp: let_go_def in_doubt_def list_ex_iff list_all_iff get_attempt_def)
qed

definition ex_revoked :: db where
  "ex_revoked = snd (RevokeServer (\<lambda>_. 0) ex_admin ''s'' ''lost'' (\<lambda>_. 20000) ex_claimed)"

lemma revoke_run: "RevokeServer (\<lambda>_. 0) ex_admin ''s'' ''lost'' (\<lambda>_. 20000) ex_claimed = (Inr (), ex_revoked)"
proof -
  have "fst (RevokeServer (\<lambda>_. 0) ex_admin ''s'' ''lost'' (\<lambda>_. 20000) ex_claimed) = Inr ()" by code_simp
  then show ?thesis by (metis ex_revoked_def prod.collapse)
qed

theorem revocation_ends_leases_witness:
  "\<exists>b. get_attempt 1 ex_revoked = Some b \<and> att_state b \<noteq> AttemptLeased"
proof -
  have "operations ex_revoked = []" by code_simp
  with revocation_ends_leases [OF claimed_reachable revoke_run ex_claimed_attempt(1)] show ?thesis
    by (auto simp: ex_attempt_def)
qed



section \<open>Enrollment and rotation\<close>

lemma inserted_credential:
  assumes "insert_credential c s = Inr (u, t)" and "cred_active c"
  shows "active_credential_row (cred_server c) t = Some c" "active_credential (cred_server c) t = Some (cred_digest c)"
    "servers t = servers s" "enrollment_tokens t = enrollment_tokens s"
proof -
  have none: "list_all (\<lambda>d. \<not> (cred_server d = cred_server c \<and> cred_active d)) (credentials s)"
    and t: "t = s\<lparr>credentials := credentials s @ [c]\<rparr>"
    using assms by (auto simp: insert_credential_def list_ex_iff list_all_iff split: if_splits)
  have "find (\<lambda>d. cred_server d = cred_server c \<and> cred_active d) (cs @ [c]) = Some c"
    if "list_all (\<lambda>d. \<not> (cred_server d = cred_server c \<and> cred_active d)) cs" for cs
    using that assms(2) by (induction cs) auto
  from this [OF none] show "active_credential_row (cred_server c) t = Some c"
    "active_credential (cred_server c) t = Some (cred_digest c)"
    by (simp_all add: active_credential_row_def active_credential_def t)
qed (use assms in \<open>auto simp: insert_credential_def split: if_splits\<close>)

lemma server_audit_frame:
  assumes "server_audit actor action srv version reason s = Inr (u, t)"
  shows "servers t = servers s" "credentials t = credentials s" "enrollment_tokens t = enrollment_tokens s"
  using assms by (auto simp: server_audit_def insertServerAuditEvent_def split: if_splits)

lemma on_error_Inr [tx_simps]: "on_error h m s = Inr r \<longleftrightarrow> m s = Inr r"
  by (simp add: on_error_def split: sum.splits)

definition consumed_token :: "int \<Rightarrow> enrollment_row \<Rightarrow> enrollment_row" where
  "consumed_token now r = r\<lparr>tok_consumed := Some now\<rparr>"

lemma enroll_effect:
  assumes "Enroll srv e d clock s = (Inr v, t)"
  obtains tok where "v = 1" "credential_accepted srv d t" "get_token srv s = Some tok" "tok_consumed tok = None"
    "tok_digest tok = e" "clock 0 < tok_expires tok" "get_token srv t = Some (consumed_token (clock 0) tok)"
proof -
  let ?c = "\<lparr>cred_server = srv, cred_version = 1, cred_digest = d, cred_active = True, cred_issued = clock 1, cred_revoked = None\<rparr>"
  have fold: "(\<lambda>r. r\<lparr>tok_consumed := Some (clock 0)\<rparr>) = consumed_token (clock 0)" by (simp add: fun_eq_iff consumed_token_def)
  have "enroll_tx srv e d clock s = Inr (Inr v, t)"
    using assms by (auto simp: Enroll_def run_tx_def split: if_splits sum.splits prod.splits)
  then obtain r tok n x y where r: "get_server srv s = Some r" "srv_active r"
    and tok: "get_token srv s = Some tok" "tok_consumed tok = None" "clock 0 < tok_expires tok" "tok_digest tok = e"
    and u: "update_token srv (\<lambda>r. tok_consumed r = None) (consumed_token (clock 0)) s = Inr (n, x)"
    and i: "insert_credential ?c x = Inr ((), y)"
    and a: "server_audit \<lparr>actor_type = ''agent'', actor_id = srv\<rparr> ''enrolled'' srv (Some 1) [] y = Inr ((), t)" and v: "v = 1"
    unfolding enroll_tx_def fold
    by (auto simp: tx_simps Let_def ConstantTimeEqualDigest_def split: option.splits if_splits)
  have x: "x = put_token (consumed_token (clock 0) tok) s"
    using u tok by (auto simp: update_token_def update_row_def split: option.splits if_splits)
  have "get_token srv x = Some (consumed_token (clock 0) tok)"
    using token_tbl.get_put_same [OF tok(1), of "consumed_token (clock 0) tok"] token_tbl.get_key [OF tok(1)] x
    by (simp add: consumed_token_def)
  moreover have "get_token srv t = get_token srv x" "get_server srv t = get_server srv s" "active_credential srv t = active_credential srv y"
    using inserted_credential(3,4) [OF i] server_audit_frame [OF a] x
    by (simp_all add: get_token_def get_server_def active_credential_def put_token_def)
  moreover have "active_credential srv y = Some d" using inserted_credential(2) [OF i] by simp
  ultimately show thesis using that [OF v _ tok(1,2,4,3)] r by (auto simp: credential_accepted_def get_server_def)
qed

text \<open>
  C32: An enrollment token works once.  A server that enrolls presented the digest stored for it, in
  time, and gets version 1 of its credential, which is accepted from then on.  Afterwards no
  enrollment of that server succeeds, with that token or another, and no new token can be issued.
\<close>

theorem enrollment_is_single_use:
  assumes "Enroll srv e d clock s = (Inr v, t)" and "later t u"
  shows "v = 1 \<and> credential_accepted srv d t \<and>
    (\<exists>tok. get_token srv s = Some tok \<and> tok_digest tok = e \<and> clock 0 < tok_expires tok) \<and>
    refused (Enroll srv e' d' clock' u) u \<and> refused (IssueEnrollment p srv d' ttl clock' u) u"
proof -
  from assms(1) obtain tok where tok: "v = 1" "credential_accepted srv d t" "get_token srv s = Some tok" "tok_digest tok = e"
    "clock 0 < tok_expires tok" "get_token srv t = Some (consumed_token (clock 0) tok)" by (rule enroll_effect)
  from later_accounts [OF assms(2)] have "rows_follow get_token token_follows t u" by (simp add: accounts_follow_def)
  from rows_followD [OF this tok(6)] obtain k where k: "get_token srv u = Some k" "tok_consumed k \<noteq> None"
    by (auto simp: token_follows_def consumed_token_def)
  then have "refused (Enroll srv e' d' clock' u) u" "refused (IssueEnrollment p srv d' ttl clock' u) u"
    by (auto simp: Enroll_def IssueEnrollment_def refused_if enroll_tx_def issue_enrollment_tx_def wp_def tx_simps Let_def
      intro!: refused_run_tx split: option.splits if_splits)
  with tok show ?thesis by blast
qed

theorem enrollment_is_single_use_witness:
  "refused (Enroll ''s'' ex_enrollment ex_key (\<lambda>_. 4000) ex_configured) ex_configured"
  using enrollment_is_single_use [OF enroll_run later.now] by blast

lemma rotated_rows:
  assumes "RotateCredential p srv d clock s = (Inr v, t)"
  obtains c where "active_credential_row srv s = Some c" "v = cred_version c + 1"
    "map_option cred_version (active_credential_row srv t) = Some v" "\<forall>x. credential_accepted srv x t \<longleftrightarrow> x = d"
    "revoked_credential (clock 1) c \<in> set (credentials t)"
    "jobs t = jobs s \<and> attempts t = attempts s \<and> slots t = slots s \<and> operations t = operations s"
proof -
  let ?c = "\<lambda>n. \<lparr>cred_server = srv, cred_version = n, cred_digest = d, cred_active = True, cred_issued = clock 2, cred_revoked = None\<rparr>"
  have run: "rotate_tx p srv d clock s = Inr (Inr v, t)"
    using assms by (auto simp: RotateCredential_def run_tx_def split: if_splits sum.splits prod.splits)
  then obtain c x y r where c: "active_credential_row srv s = Some c" and r: "get_server srv s = Some r" "srv_active r"
    and u: "update_credentials (\<lambda>q. cred_server q = srv \<and> cred_version q = cred_version c) (revoked_credential (clock 1)) s = Inr ((), x)"
    and i: "insert_credential (?c (cred_version c + 1)) x = Inr ((), y)"
    and a: "server_audit (administratorActor p) ''credential_rotated'' srv (Some (cred_version c + 1)) [] y = Inr ((), t)"
    and v: "v = cred_version c + 1"
    unfolding rotate_tx_def by (auto simp: tx_simps)
  have "active_credential_row srv y = Some (?c v)" "active_credential srv y = Some d" using inserted_credential(1,2) [OF i] v by simp_all
  moreover have "servers t = servers s" "credentials t = credentials y"
    using inserted_credential(3) [OF i] server_audit_frame [OF a] u by (simp_all add: update_credentials_Inr)
  moreover have "accounts_only s t"
    using accounts.keepsD [OF operations_accounts(4) run] by (simp add: accounts_step_def)
  then have "jobs t = jobs s" "attempts t = attempts s" "slots t = slots s" "operations t = operations s"
    by (auto simp: accounts_only_def)
  moreover have "c \<in> set (credentials s)" "cred_server c = srv"
    using c unfolding active_credential_row_def by (metis (mono_tags, lifting) find_Some_iff nth_mem)+
  then have "revoked_credential (clock 1) c \<in> set (credentials y)"
    using u i by (auto simp: update_credentials_Inr insert_credential_def image_iff split: if_splits intro!: bexI [of _ c])
  ultimately show ?thesis using c v r
    by (intro that) (auto simp: active_credential_row_def active_credential_def credential_accepted_def get_server_def)
qed

lemma revoked_credential_stays:
  assumes "credentials_follow t u" and "c \<in> set (credentials t)" and "\<not> cred_active c"
  shows "c \<in> set (credentials u)"
proof -
  from assms(1) obtain old new where u: "credentials u = old @ new" and f: "list_all2 credential_follows (credentials t) old"
    unfolding credentials_follow_def by blast
  from f assms(2) obtain d where "d \<in> set old" "credential_follows c d" by (induction rule: list_all2_induct) auto
  with assms(3) u show ?thesis by (simp add: credential_follows_def)
qed

text \<open>
  C33: Rotating a credential replaces it.  The version goes up by one, the server is accepted with the
  new digest and with no other, and the credential that was replaced is never active again; neither
  jobs, attempts, slots nor operations are touched, so a lease goes on under the new credential.
\<close>

theorem rotation_replaces_the_credential:
  assumes "reachable s" and "RotateCredential p srv d clock s = (Inr v, t)" and "later t u"
  shows "(credential_accepted srv d' t \<longleftrightarrow> d' = d) \<and>
    jobs t = jobs s \<and> attempts t = attempts s \<and> slots t = slots s \<and> operations t = operations s \<and>
    (\<exists>c. active_credential_row srv s = Some c \<and> v = cred_version c + 1 \<and> map_option cred_version (active_credential_row srv t) = Some v \<and>
       list_all (\<lambda>q. \<not> (cred_server q = srv \<and> cred_version q = cred_version c \<and> cred_active q)) (credentials u))"
proof -
  obtain c where c: "active_credential_row srv s = Some c" "v = cred_version c + 1"
    "map_option cred_version (active_credential_row srv t) = Some v" "\<forall>x. credential_accepted srv x t \<longleftrightarrow> x = d"
    "revoked_credential (clock 1) c \<in> set (credentials t)"
    "jobs t = jobs s \<and> attempts t = attempts s \<and> slots t = slots s \<and> operations t = operations s"
    by (rule rotated_rows [OF assms(2)])
  have t: "reachable t"
    using reachable.step [OF assms(1)] outside_step.administer [OF rotate_step [of s p srv d clock]] assms(2)
    by (simp add: system_step_def)
  have "credentials_follow t u" using later_accounts [OF assms(3)] by (simp add: accounts_follow_def)
  then have "revoked_credential (clock 1) c \<in> set (credentials u)"
    by (rule revoked_credential_stays [OF _ c(5)]) (simp add: revoked_credential_def)
  moreover have "distinct (map (\<lambda>c. (cred_server c, cred_version c)) (credentials u))"
    using reachable_accounts [OF reachable_later [OF assms(3) t]] by (simp add: accounts_ok_def)
  moreover have "cred_server c = srv"
    using c(1) unfolding active_credential_row_def by (metis (mono_tags, lifting) find_Some_iff)
  ultimately have "\<not> cred_active q" if "q \<in> set (credentials u)" "cred_server q = srv" "cred_version q = cred_version c" for q
    using that by (auto simp: distinct_map inj_on_def revoked_credential_def)
  with c show ?thesis by (auto simp: list_all_iff)
qed

definition ex_rotated :: db where
  "ex_rotated = snd (RotateCredential ex_admin ''s'' ex_enrollment (\<lambda>_. 20000) ex_claimed)"

theorem rotation_replaces_the_credential_witness:
  "credential_accepted ''s'' ex_enrollment ex_rotated \<and> \<not> credential_accepted ''s'' ex_key ex_rotated \<and> attempts ex_rotated = attempts ex_claimed"
proof -
  have "fst (RotateCredential ex_admin ''s'' ex_enrollment (\<lambda>_. 20000) ex_claimed) = Inr 2" by code_simp
  then have run: "RotateCredential ex_admin ''s'' ex_enrollment (\<lambda>_. 20000) ex_claimed = (Inr 2, ex_rotated)"
    by (simp add: ex_rotated_def prod_eq_iff)
  have "ex_key \<noteq> ex_enrollment" by (simp add: ex_key_def ex_enrollment_def numeral_eq_Suc)
  with rotation_replaces_the_credential [OF claimed_reachable run later.now] show ?thesis by blast
qed

section \<open>Credentials\<close>

text \<open>
  One credential at a time.  In every reachable database a server has at most one active
  credential, so the digest it is accepted with is unique, and a version number names one credential.
\<close>

lemma one_active_credential_per_server:
  assumes "reachable s" and "c \<in> set (credentials s)" "d \<in> set (credentials s)" and "cred_server c = cred_server d"
    and "cred_active c \<and> cred_active d \<or> cred_version c = cred_version d"
  shows "c = d"
proof -
  from reachable_accounts [OF assms(1)] have "inj_on (\<lambda>c. (cred_server c, cred_version c)) (set (credentials s))"
    "inj_on cred_server (set (filter cred_active (credentials s)))"
    by (simp_all add: accounts_ok_def distinct_map)
  with assms(2-5) show ?thesis by (auto dest: inj_onD)
qed

section \<open>Hostnames\<close>

text \<open>
  No two environments have one hostname, and every hostname a reachable database holds is a
  valid one.
\<close>

lemma hostnames_are_unique:
  assumes "reachable s" and "h \<in> set (route_heads s)"
  shows "ValidRouteHostname (rh_hostname h) \<and> (\<forall>g \<in> set (route_heads s). rh_hostname g = rh_hostname h \<longrightarrow> g = h)"
  using reachable_hosts [OF assms(1)] assms(2)
  by (auto simp: hosts_ok_def head_checks_def list_all_iff distinct_map dest: inj_onD)

lemma assignment_logs:
  "insertRouteHeadAuditEvent a s = Inr (u, t) \<Longrightarrow> route_heads t = route_heads s"
  "insert_route_event e s = Inr (u, t) \<Longrightarrow> route_heads t = route_heads s"
  by (auto simp: insertRouteHeadAuditEvent_def insert_route_event_def split: if_splits)

lemma refusal_keeps_heads: "wp (refuse_assignment p env h e) (\<lambda>r t. r = Inl e \<and> route_heads t = route_heads s) s"
  by (auto simp: refuse_assignment_def wp_def tx_simps dest: assignment_logs)

definition assigned :: "string \<Rightarrow> string \<Rightarrow> int option \<Rightarrow> db \<Rightarrow> lease_error + RouteHead \<Rightarrow> db \<Rightarrow> bool" where
  "assigned env hostname expected s r t \<longleftrightarrow> (case r of
       Inl e \<Rightarrow> route_heads t = route_heads s
     | Inr h \<Rightarrow> map_option (\<lambda>g. g\<lparr>hd_ReconciliationRequired := False\<rparr>) (readRouteHead env t) = Some h \<and>
         hd_Hostname h = hostname \<and> hd_ActiveReleaseID h = [] \<and>
         (case expected of
            None \<Rightarrow> get_head env s = None \<and> hd_RouteRevision h = 0
          | Some n \<Rightarrow> (\<exists>g. get_head env s = Some g \<and> rh_revision g = n \<and> hd_RouteRevision h = n + 1 \<and>
              (rh_active g = None \<or> rh_active g = Some []))))"

lemma create_assigns: "wp (createRouteHead p env hostname clock) (assigned env hostname None s) s"
proof -
  let ?h = "\<lparr>rh_environment = env, rh_hostname = hostname, rh_revision = 0, rh_active = None,
        rh_reconciling = False, rh_created = clock 1, rh_updated = clock 2\<rparr>"
  have "get_head env s = None \<and> get_head env t = Some ?h" if "insert_route_head ?h s = Inr (u, t)" for u t
    using that by (auto simp: insert_route_head_def get_head_def select_row_append split: if_splits)
  then show ?thesis
    unfolding createRouteHead_def
    by (auto simp: wp_def tx_simps assigned_def readRouteHead_def get_head_def dest!: assignment_logs)
qed

lemma update_assigns: "wp (updateRouteHeadHostname p env hostname n clock) (assigned env hostname (Some n) s) s"
proof -
  have run: "assigned env hostname (Some (rh_revision h)) s (Inr \<lparr>hd_EnvironmentID = env, hd_Hostname = hostname,
        hd_RouteRevision = rh_revision h + 1, hd_ActiveReleaseID = [], hd_ReconciliationRequired = False,
        hd_CreatedAt = rh_created h, hd_UpdatedAt = clock 1\<rparr>) t"
    if h: "get_head env s = Some h" "rh_active h = None \<or> rh_active h = Some []"
      and u: "update_head env (\<lambda>_. True) (renamed_head hostname (clock 1)) s = Inr (m, v)" "m = 1" and t: "route_heads t = route_heads v"
    for h m v t
  proof -
    from u(2) obtain r where r: "get_head env s = Some r" "v = put_head (renamed_head hostname (clock 1) r) s"
      by (rule update_row_one [OF u(1) [unfolded update_head_def]]) blast
    then have "get_head env t = Some (renamed_head hostname (clock 1) h)"
      using head_tbl.get_put_same [OF r(1), of "renamed_head hostname (clock 1) r"] head_tbl.get_key [OF r(1)] h(1) t
      by (simp add: renamed_head_def get_head_def)
    moreover have "rh_environment h = env" using head_tbl.get_key [OF h(1)] .
    ultimately show ?thesis using h by (auto simp: assigned_def readRouteHead_def renamed_head_def)
  qed
  have refuse: "wp (refuse_assignment p env hostname e) (assigned env hostname (Some n) s) s" for e
    by (rule wp_mono [OF refusal_keeps_heads]) (auto simp: assigned_def)
  show ?thesis
    unfolding updateRouteHeadHostname_def
    by (auto simp: wp_compound wp_basic refuse simp del: One_nat_def split: option.splits intro!: wpI run dest!: assignment_logs)
qed

text \<open>
  C34: Assigning a hostname is a compare and swap on the route revision.  A successful assignment
  found no route head (when creating one) or one at exactly the expected revision without an
  active release, and leaves the head with the normalized hostname and the next revision, which is
  what it answers (with the reconciliation flag left out); a refused one leaves every route head
  as it was.
\<close>

theorem assignment_is_compare_and_swap:
  "assigned env (normalizeRouteHostname raw) expected s (fst (AssignRouteHostname p env raw expected clock s))
     (snd (AssignRouteHostname p env raw expected clock s))"
proof -
  let ?h = "normalizeRouteHostname raw"
  have "wp (assign_tx p env ?h expected clock) (assigned env ?h expected s) s"
    unfolding assign_tx_def
    by (cases expected) (auto simp: wp_compound wp_basic create_assigns update_assigns wp_def tx_simps lockAdministratorSession_Inr
      dest: wpD [OF create_assigns] wpD [OF update_assigns])
  then have tx: "assigned env ?h expected s r t" if "run_tx (assign_tx p env ?h expected clock) s = (r, t)" for r t
    using that by (auto simp: run_tx_def wp_def assigned_def split: sum.splits prod.splits if_splits)
  have refuse: "(\<exists>e. x = Inl e) \<and> route_heads u = route_heads t" if "run_tx (refuse_assignment p env ?h e) t = (x, u)" for e x t u
    using that wpD [OF refusal_keeps_heads] by (fastforce simp: run_tx_def split: sum.splits prod.splits if_splits)
  have same: "assigned env ?h expected s (Inl e) s" for e by (simp add: assigned_def)
  obtain r t where rt: "run_tx (assign_tx p env ?h expected clock) s = (r, t)" by fastforce
  show ?thesis
  proof (cases "\<exists>e. r = Inl e \<and> isUniqueViolation e")
    case True
    then obtain e where e: "r = Inl e" "isUniqueViolation e" by blast
    obtain x u where xu: "run_tx (refuse_assignment p env ?h (violated_constraint e)) t = (x, u)" by fastforce
    from tx [OF rt] e(1) refuse [OF xu] have "assigned env ?h expected s x u" by (auto simp: assigned_def)
    with rt e xu same show ?thesis by (simp add: AssignRouteHostname_def Let_def)
  next
    case False
    with rt tx [OF rt] same show ?thesis by (cases r) (simp_all add: AssignRouteHostname_def Let_def)
  qed
qed

text \<open>
  The answer of a renaming says that the route needs no reconciliation even when the row says it
  does: a first activation in doubt leaves such a head, without an active release.
\<close>

lemma renaming_hides_reconciliation:
  "case AssignRouteHostname ex_admin ''e'' ''new.test'' (Some 0) (\<lambda>_. 50000) ex_blocked of
     (Inl e, t) \<Rightarrow> False
   | (Inr h, t) \<Rightarrow> \<not> hd_ReconciliationRequired h \<and> map_option hd_ReconciliationRequired (readRouteHead ''e'' t) = Some True"
  by code_simp

text \<open>
  Lower-casing is Unicode-aware: the rune U+212A (KELVIN SIGN) followed by \<^verbatim>\<open>.test\<close> is accepted, as
  the hostname \<^verbatim>\<open>k.test\<close>.
\<close>

lemma normalization_folds_non_ascii:
  "let raw = map char_of [226, 132, 170 :: nat] @ ''.test'' in
     \<not> ValidRouteHostname raw \<and> normalizeRouteHostname raw = ''k.test'' \<and> ValidRouteHostname (normalizeRouteHostname raw)"
  by code_simp

end
