(* ===== verification/Freeze_Properties.thy ===== *)
theory Freeze_Properties
  imports Claim_Properties
begin

text \<open>
  The configuration of a job is frozen once: the rows frozen for an attempt never change, and every
  retry copies them, so all attempts of a job run with what the first of them froze.
\<close>

section \<open>Work leaves attempts and frozen rows alone\<close>

text \<open>Everything but a claim keeps the frozen rows and adds no attempt.\<close>

definition attempt_name :: "attempt_row \<Rightarrow> int \<times> int \<times> int" where
  "attempt_name a = (att_id a, att_job a, att_number a)"

definition same_freeze :: "db \<Rightarrow> db \<Rightarrow> bool" where
  "same_freeze s t \<longleftrightarrow> executions t = executions s \<and> frozen_secrets t = frozen_secrets s \<and> frozen_literals t = frozen_literals s \<and>
     next_attempt t = next_attempt s \<and> attempt_name ` set (attempts t) \<subseteq> attempt_name ` set (attempts s)"

interpretation freezing: kept_relation same_freeze
proof unfold_locales
  show "same_freeze s s" for s by (simp add: same_freeze_def)
  show "same_freeze s t \<Longrightarrow> same_freeze t u \<Longrightarrow> same_freeze s u" for s t u unfolding same_freeze_def by (metis subset_trans)
qed

lemma update_row_freeze:
  assumes "\<And>r s. same_freeze s (put r s)"
  shows "freezing.keeps (update_row get put chk k p f)"
  using assms by (intro freezing.keepsI) (auto simp: tx_simps freezing.refl split: option.splits if_splits)

lemma updates_freeze:
  "freezing.keeps (update_job i a b)" "freezing.keeps (update_slot e c d)" "freezing.keeps (update_operation i h k)"
  "freezing.keeps (update_release e l m)" "freezing.keeps (update_head e n q)" "freezing.keeps (update_deployment e u v)"
  unfolding update_job_def update_slot_def update_operation_def update_release_def update_head_def update_deployment_def
  by (rule update_row_freeze; simp add: same_freeze_def put_job_def put_slot_def put_operation_def put_release_def put_head_def
      put_deployment_def)+

lemma update_attempt_freeze: "freezing.keeps (update_attempt k p f)"
proof (rule freezing.keepsI)
  fix s n t assume "update_attempt k p f s = Inr (n, t)"
  then consider "t = s" | r where "get_attempt k s = Some r" "validate_agent_job_attempt_update s r (f r) = None" "t = put_attempt (f r) s"
    by (auto simp: update_attempt_def tx_simps split: option.splits if_splits)
  then show "same_freeze s t"
  proof cases
    case (2 r)
    from 2(2) have "attempt_name (f r) = attempt_name r"
      unfolding validate_agent_job_attempt_update_def not_refused by (auto simp: same_attempt_identity_def attempt_name_def)
    with attempt_tbl.get_mem [OF 2(1)] have "attempt_name (f r) \<in> attempt_name ` set (attempts s)" by simp
    then show ?thesis by (auto simp: 2(3) same_freeze_def put_attempt_def replace_row_def)
  qed (simp add: freezing.refl)
qed

lemma inserts_freeze:
  "freezing.keeps (insert_slot now env)" "freezing.keeps (insert_operation mk)" "freezing.keeps (insert_release r)"
  "freezing.keeps (insert_route_event e)" "freezing.keeps (appendAgentJobEvent job att kind)" "freezing.keeps (insertServerAuditEvent a)"
  "freezing.keeps (insert_deployment_event dep ev)" "freezing.keeps (insert_deployment x)" "freezing.keeps (insert_route_head h)"
  "freezing.keeps (insertRouteHeadAuditEvent b)"
  by (rule freezing.keepsI; auto simp: insert_slot_def insert_operation_def insert_release_def insert_route_event_def
      appendAgentJobEvent_def insertServerAuditEvent_def insert_deployment_event_def insert_deployment_def insert_route_head_def
      insertRouteHeadAuditEvent_def put_deployment_def Let_def same_freeze_def split: if_splits option.splits)+

lemma deployments_freeze: "freezing.keeps (saveTx d)" "freezing.keeps (createTx d)"
  unfolding saveTx_def createTx_def readSnapshot_def appendEvents_def
  by (intro freezing.keeps_intros updates_freeze inserts_freeze)+

interpretation freezing: work_statements_kept same_freeze
  by unfold_locales (intro updates_freeze update_attempt_freeze inserts_freeze deployments_freeze)+

interpretation assign_freeze: assignment_kept same_freeze
  by unfold_locales (intro updates_freeze inserts_freeze)+

lemma accounts_freeze: "accounts_step s t \<Longrightarrow> same_freeze s t"
  by (auto simp: accounts_step_def accounts_only_def same_freeze_def)

lemma work_freeze: "lease_step s t \<Longrightarrow> \<not> claiming_step s t \<Longrightarrow> same_freeze s t"
  using freezing.work_step freezing.confirming_kept freezing.finalize_given [OF updates_freeze(5)] by blast

lemma outside_freeze: "outside_step s t \<Longrightarrow> same_freeze s t"
proof (induction rule: outside_step.induct)
  case (administer s t)
  then show ?case using server_step_accounts accounts_freeze by blast
next
  case (revoke s draw p srv reason clock)
  show ?case
  proof (cases "snd (RevokeServer draw p srv reason clock s) = s")
    case False
    then have "RevokeServer draw p srv reason clock s = (Inr (), snd (RevokeServer draw p srv reason clock s))" (is "_ = (_, ?t)")
      using RevokeServer_cases [of draw p srv reason clock s] by (metis prod.collapse)
    then obtain u v where uv: "revoke_accounts_tx p srv clock s = Inr ((), u)" "revokeInFlightLeases draw srv (clock 3) u = Inr ((), v)"
      "server_audit (administratorActor p) ''server_revoked'' srv None reason v = Inr ((), ?t)" by (rule RevokeServer_parts)
    from accounts_freeze [OF accounts.keepsD [OF operations_accounts(5) uv(1)]]
      freezing.keepsD [OF freezing.revokeInFlightLeases_kept uv(2)] freezing.keepsD [OF inserts_freeze(6) uv(3) [unfolded server_audit_def]]
    show ?thesis by (blast intro: freezing.trans)
  qed (simp add: freezing.refl)
next
  case (create s d)
  then show ?case using freezing.run_tx_kept [OF freezing.answered_kept [OF deployments_freeze(2)]] by (simp add: Create_def)
next
  case (assign s p env raw expected clock)
  then show ?case by (rule assign_freeze.assign_kept)
qed (simp_all add: same_freeze_def)

section \<open>What a claim freezes\<close>

lemma for_each_frozen_secrets:
  "for_each (insert_frozen_secret k) bs s = Inr (u, t) \<Longrightarrow>
   frozen_secrets t = frozen_secrets s @ map (\<lambda>b. (k, b)) bs \<and> executions t = executions s \<and>
   frozen_literals t = frozen_literals s"
  by (induction bs arbitrary: s) (fastforce simp: insert_frozen_secret_def tx_simps split: if_splits)+

lemma for_each_frozen_literals:
  "for_each (insert_frozen_literal k) ls s = Inr (u, t) \<Longrightarrow>
   frozen_literals t = frozen_literals s @ map (\<lambda>b. (k, b)) ls \<and> executions t = executions s \<and>
   frozen_secrets t = frozen_secrets s"
  by (induction ls arbitrary: s) (fastforce simp: insert_frozen_literal_def tx_simps split: if_splits)+

lemmas freeze_loops = for_each_frozen_secrets for_each_frozen_literals

definition freezes :: "int \<Rightarrow> execution_row \<Rightarrow> frozen_binding list \<Rightarrow> frozen_literal list \<Rightarrow> db \<Rightarrow> db \<Rightarrow> bool" where
  "freezes k c bs ls s t \<longleftrightarrow> executions t = executions s @ [(k, c)] \<and> frozen_secrets t = frozen_secrets s @ map (\<lambda>b. (k, b)) bs \<and>
     frozen_literals t = frozen_literals s @ map (\<lambda>b. (k, b)) ls"

definition frozen_of :: "int \<Rightarrow> db \<Rightarrow> execution_row option \<times> frozen_binding list \<times> frozen_literal list" where
  "frozen_of k s = (execution_of k s, frozen_secrets_of k s, frozen_literals_of k s)"

lemma fresh_freeze: "freeze_attempt k cfg (FreshFreeze bs' ls') s = Inr ((c, bs, ls), t) \<Longrightarrow> freezes k c bs ls s t"
  by (auto simp: freeze_attempt_def freezes_def insertAttemptExecution_def insertFrozenSecretVersions_def insertFrozenLiteralValues_def
      tx_simps ret_def dest!: freeze_loops split: if_splits)

lemma copy_freeze:
  assumes "freeze_attempt k cfg (CopyFreeze prev) s = Inr ((c, bs, ls), t)"
  shows "frozen_of prev s = (Some c, bs, ls)" "freezes k c bs ls s t"
proof -
  from assms obtain s1 s2 where c: "copyPreviousAttemptExecution k prev s = Inr (c, s1)"
    and b: "copyPreviousFrozenSecretVersions k prev s1 = Inr (bs, s2)"
    and l: "copyPreviousFrozenLiteralValues k prev s2 = Inr (ls, t)"
    by (auto simp: freeze_attempt_def tx_simps)
  from c have c': "execution_of prev s = Some c" "s1 = s\<lparr>executions := executions s @ [(k, c)]\<rparr>"
    by (auto simp: copyPreviousAttemptExecution_def insertAttemptExecution_def tx_simps split: if_splits)
  from b have b': "bs = frozen_secrets_of prev s1" "frozen_secrets s2 = frozen_secrets s1 @ map (\<lambda>b. (k, b)) bs"
    "executions s2 = executions s1" "frozen_literals s2 = frozen_literals s1"
    by (auto simp: copyPreviousFrozenSecretVersions_def insertFrozenSecretVersions_def tx_simps dest!: freeze_loops)
  from l have l': "ls = frozen_literals_of prev s2" "frozen_literals t = frozen_literals s2 @ map (\<lambda>b. (k, b)) ls"
    "executions t = executions s2" "frozen_secrets t = frozen_secrets s2"
    by (auto simp: copyPreviousFrozenLiteralValues_def insertFrozenLiteralValues_def tx_simps dest!: freeze_loops)
  from c' b' l' show "frozen_of prev s = (Some c, bs, ls)" "freezes k c bs ls s t"
    by (simp_all add: frozen_of_def freezes_def frozen_secrets_of_def frozen_literals_of_def)
qed

text \<open>The rows of another attempt do not change, and copied rows read like the originals.\<close>

lemma freezes_others:
  "freezes k c bs ls s t \<Longrightarrow> q \<noteq> k \<Longrightarrow> frozen_of q t = frozen_of q s"
  by (auto simp: freezes_def frozen_of_def execution_of_def frozen_secrets_of_def frozen_literals_of_def select_row_append filter_map
      comp_def case_prod_unfold split: option.splits)

definition unfrozen :: "int \<Rightarrow> db \<Rightarrow> bool" where
  "unfrozen k s \<longleftrightarrow> k \<notin> fst ` set (executions s) \<and> k \<notin> fst ` set (frozen_secrets s) \<and> k \<notin> fst ` set (frozen_literals s)"

lemma freezes_own:
  assumes "freezes k c bs ls s t" and "unfrozen k s"
  shows "frozen_of k t = (Some c, sort_key fb_variable bs, sort_key fl_variable ls)"
proof -
  have "filter (\<lambda>p. fst p = k) (frozen_secrets s) = []" "filter (\<lambda>p. fst p = k) (frozen_literals s) = []"
    using assms(2) by (force simp: unfrozen_def filter_empty_conv)+
  moreover have "select_row fst k (executions s) = None" using assms(2) by (force simp: unfrozen_def select_row_None)
  ultimately show ?thesis
    using assms(1) by (simp add: freezes_def frozen_of_def execution_of_def frozen_secrets_of_def frozen_literals_of_def select_row_append
        filter_map comp_def case_prod_unfold)
qed

lemma frozen_sorted:
  "sort_key fb_variable (frozen_secrets_of k s) = frozen_secrets_of k s" "sort_key fl_variable (frozen_literals_of k s) = frozen_literals_of k s"
  by (simp_all add: frozen_secrets_of_def frozen_literals_of_def sort_key_id_if_sorted)

text \<open>Everything a successful claim writes that concerns attempts and their frozen rows.\<close>

lemma claim_freezes:
  assumes "keyed s" and "tryClaim sha sl jl srv i e now expires s = Inr (CandidateClaimed l, t)"
  obtains j where "get_job i s = Some j" "cl_job l = i" "cl_attempt l = next_attempt s" "next_attempt t = next_attempt s + 1"
    "attempts t = attempts s @ [new_attempt srv i e (job_attempt_count j + 1) (cl_fence l) expires (next_attempt s)]"
    "freezes (next_attempt s) (cl_config l) (cl_secrets l) (cl_literals l) s t"
    "\<exists>k. get_job i t = Some k \<and> job_attempt_count k = job_attempt_count j + 1"
    "job_attempt_count j \<noteq> 0 \<longrightarrow> (\<exists>prev. attempt_of_job i (job_attempt_count j) s = Some prev \<and>
       frozen_of (att_id prev) s = (Some (cl_config l), cl_secrets l, cl_literals l))"
  using assms(2)
proof (cases rule: tryClaim_claimed)
  case (1 cfg r j plan u v)
  note j = claimable_jobD(1,2) [OF 1(5)] and kv = claim_keyed [OF assms(1) 1(7,8)]
  have n: "\<exists>k. get_job i t = Some k \<and> job_attempt_count k = job_attempt_count j + 1"
    using claim_facts [OF assms] j(1) by force
  have "attempts u = attempts s \<and> next_attempt u = next_attempt s \<and> executions u = executions s \<and>
      frozen_secrets u = frozen_secrets s \<and> frozen_literals u = frozen_literals s"
    using 1(7) by (auto simp: advance_fence_def update_slot_def tx_simps put_slot_def 1(2))
  moreover have "attempts v = attempts u \<and> next_attempt v = next_attempt u \<and> executions v = executions u \<and>
      frozen_secrets v = frozen_secrets u \<and> frozen_literals v = frozen_literals u"
    using 1(8) by (auto simp: lease_job_def update_job_def tx_simps put_job_def split: sum.splits option.splits if_splits)
  ultimately have uv: "attempts v = attempts s" "next_attempt v = next_attempt s" "executions v = executions s"
    "frozen_secrets v = frozen_secrets s" "frozen_literals v = frozen_literals s" by simp_all
  from 1(9) show ?thesis
  proof (cases rule: record_claim_parts)
    case (1 k w m x y z)
    have w: "k = next_attempt v" "attempts w = attempts v @ [(new_attempt srv (job_id j) e (job_attempt_count j + 1) (slot_fence r + 1) expires k)]"
      "next_attempt w = next_attempt v + 1" "executions w = executions v" "frozen_secrets w = frozen_secrets v" "frozen_literals w = frozen_literals v"
      using 1(1) by (auto simp: insert_attempt_def Let_def new_attempt_def split: option.splits)
    have x: "attempts x = attempts w" "next_attempt x = next_attempt w" "executions x = executions w" "frozen_secrets x = frozen_secrets w"
      "frozen_literals x = frozen_literals w"
      using 1(2) by (auto simp: update_slot_def tx_simps put_slot_def split: option.splits if_splits)
    have "same_freeze x y" if "(if job_attempt_count j + 1 = 1 then transitionDeployment (job_deployment j) StatusAssigned now else ret ()) x = Inr ((), y)"
      using that freezing.keepsD [OF freezing.transitionDeployment_kept] by (auto simp: ret_def freezing.refl split: if_splits)
    from this [OF 1(3)] x w uv have y: "executions y = executions s" "frozen_secrets y = frozen_secrets s" "frozen_literals y = frozen_literals s"
      by (simp_all add: same_freeze_def)
    have t: "attempts t = attempts x" "next_attempt t = next_attempt x" using 1(5) by (simp_all add: same_lease_rows_def)
    have same: "freezes k c bs ls y z = freezes k c bs ls s t" "frozen_of q y = frozen_of q s" for k c bs ls q
      using y 1(6-8) by (simp_all add: freezes_def frozen_of_def execution_of_def frozen_secrets_of_def frozen_literals_of_def)
    show ?thesis
    proof (rule that [OF j(1)])
      show "freezes (next_attempt s) (cl_config l) (cl_secrets l) (cl_literals l) s t"
        unfolding same(1) [symmetric] uv(2) [symmetric] w(1) [symmetric]
        using 1(4) by (cases plan) (simp_all add: fresh_freeze copy_freeze(2))
      show "job_attempt_count j \<noteq> 0 \<longrightarrow> (\<exists>prev. attempt_of_job i (job_attempt_count j) s = Some prev \<and>
          frozen_of (att_id prev) s = (Some (cl_config l), cl_secrets l, cl_literals l))"
      proof
        assume "job_attempt_count j \<noteq> 0"
        with \<open>plan_freeze e j s = _\<close> j(2) obtain prev where "attempt_of_job i (job_attempt_count j) s = Some prev" "plan = CopyFreeze (att_id prev)"
          by (auto simp: plan_freeze_def Let_def split: option.splits)
        with 1(4) copy_freeze(1) same(2) show "\<exists>prev. attempt_of_job i (job_attempt_count j) s = Some prev \<and>
          frozen_of (att_id prev) s = (Some (cl_config l), cl_secrets l, cl_literals l)" by metis
      qed
    qed (use 1(9,10,12) j w x t uv n in simp_all)
  qed
qed

section \<open>All attempts of a job have the same frozen rows\<close>

definition freeze_ok :: "db \<Rightarrow> bool" where
  "freeze_ok s \<longleftrightarrow> (\<forall>k. next_attempt s \<le> k \<longrightarrow> unfrozen k s) \<and>
     (\<forall>a \<in> set (attempts s). \<exists>j. get_job (att_job a) s = Some j \<and> att_number a \<le> job_attempt_count j) \<and>
     (\<forall>a \<in> set (attempts s). \<forall>b \<in> set (attempts s). att_job a = att_job b \<longrightarrow> frozen_of (att_id a) s = frozen_of (att_id b) s)"

definition frozen_stay :: "db \<Rightarrow> db \<Rightarrow> bool" where
  "frozen_stay s t \<longleftrightarrow> next_attempt s \<le> next_attempt t \<and> (\<forall>k < next_attempt s. frozen_of k t = frozen_of k s)"

definition freeze_inv :: "db \<Rightarrow> bool" where
  "freeze_inv s \<longleftrightarrow> keyed s \<and> checked s \<and> freeze_ok s"

lemma freeze_okI:
  assumes "\<And>k. next_attempt s \<le> k \<Longrightarrow> unfrozen k s"
    and "\<And>a. a \<in> set (attempts s) \<Longrightarrow> \<exists>j. get_job (att_job a) s = Some j \<and> att_number a \<le> job_attempt_count j"
    and "\<And>a b. a \<in> set (attempts s) \<Longrightarrow> b \<in> set (attempts s) \<Longrightarrow> att_job a = att_job b \<Longrightarrow> frozen_of (att_id a) s = frozen_of (att_id b) s"
  shows "freeze_ok s"
  unfolding freeze_ok_def using assms by blast

lemma freeze_okD:
  assumes "freeze_ok s"
  shows "next_attempt s \<le> k \<Longrightarrow> unfrozen k s"
    and "a \<in> set (attempts s) \<Longrightarrow> \<exists>j. get_job (att_job a) s = Some j \<and> att_number a \<le> job_attempt_count j"
    and "a \<in> set (attempts s) \<Longrightarrow> b \<in> set (attempts s) \<Longrightarrow> att_job a = att_job b \<Longrightarrow> frozen_of (att_id a) s = frozen_of (att_id b) s"
  using assms unfolding freeze_ok_def by blast+

lemma freeze_invD:
  assumes "freeze_inv s"
  shows "keyed s" "checked s" "freeze_ok s"
  using assms by (simp_all add: freeze_inv_def)

lemma job_counts_grow:
  assumes "grows s t" and "get_job i s = Some j" and "n \<le> job_attempt_count j"
  shows "\<exists>k. get_job i t = Some k \<and> n \<le> job_attempt_count k"
  using assms unfolding grows_def by (metis job_follows_def order_trans rows_followD)

lemma same_freeze_ok:
  assumes "freeze_ok s" and same: "same_freeze s t" and "grows s t"
  shows "freeze_ok t \<and> frozen_stay s t"
proof -
  have f: "frozen_of k t = frozen_of k s" "unfrozen k t = unfrozen k s" for k
    using same by (simp_all add: same_freeze_def frozen_of_def execution_of_def frozen_secrets_of_def frozen_literals_of_def unfrozen_def)
  have a: "\<exists>b \<in> set (attempts s). att_id b = att_id a \<and> att_job b = att_job a \<and> att_number b = att_number a"
    if "a \<in> set (attempts t)" for a
  proof -
    from that same have "attempt_name a \<in> attempt_name ` set (attempts s)" by (auto simp: same_freeze_def)
    then show ?thesis by (force simp: attempt_name_def)
  qed
  have n: "next_attempt t = next_attempt s" using same by (simp add: same_freeze_def)
  have "freeze_ok t"
  proof (rule freeze_okI)
    show "unfrozen k t" if "next_attempt t \<le> k" for k using freeze_okD(1) [OF assms(1)] that by (simp add: f n)
  next
    fix q assume "q \<in> set (attempts t)"
    from a [OF this] freeze_okD(2) [OF assms(1)] job_counts_grow [OF assms(3)]
    show "\<exists>j. get_job (att_job q) t = Some j \<and> att_number q \<le> job_attempt_count j" by metis
  next
    fix p q assume "p \<in> set (attempts t)" "q \<in> set (attempts t)" "att_job p = att_job q"
    with a obtain p' q' where "p' \<in> set (attempts s)" "q' \<in> set (attempts s)" "att_id p' = att_id p" "att_id q' = att_id q"
      "att_job p' = att_job q'" by metis
    with freeze_okD(3) [OF assms(1)] show "frozen_of (att_id p) t = frozen_of (att_id q) t" unfolding f by metis
  qed
  then show ?thesis by (simp add: frozen_stay_def f n)
qed

lemma earlier_attempt_frozen:
  assumes inv: "freeze_inv s" and "tryClaim sha sl jl srv i e now expires s = Inr (CandidateClaimed l, t)"
    and "a \<in> set (attempts s)" "att_job a = cl_job l"
  shows "frozen_of (att_id a) s = (Some (cl_config l), cl_secrets l, cl_literals l)"
proof -
  have k: "keyed s" using inv by (simp add: freeze_inv_def)
  obtain j where j: "get_job i s = Some j" "cl_job l = i"
    "job_attempt_count j \<noteq> 0 \<longrightarrow> (\<exists>prev. attempt_of_job i (job_attempt_count j) s = Some prev \<and>
       frozen_of (att_id prev) s = (Some (cl_config l), cl_secrets l, cl_literals l))"
    by (rule claim_freezes [OF k assms(2)])
  have "1 \<le> att_number a" using inv assms(3) by (auto simp: freeze_inv_def checked_def attempt_checks_def)
  moreover have "att_number a \<le> job_attempt_count j" using freeze_okD(2) [OF freeze_invD(3) [OF inv] assms(3)] assms(4) j(1,2) by simp
  ultimately obtain prev where p: "attempt_of_job i (job_attempt_count j) s = Some prev"
    "frozen_of (att_id prev) s = (Some (cl_config l), cl_secrets l, cl_literals l)" using j(3) by fastforce
  then have "prev \<in> set (attempts s)" "att_job prev = i"
    unfolding attempt_of_job_def by (metis (mono_tags, lifting) find_Some_iff nth_mem)+
  with freeze_okD(3) [OF freeze_invD(3) [OF inv] assms(3)] assms(4) j(2) have "frozen_of (att_id a) s = frozen_of (att_id prev) s" by simp
  with p(2) show ?thesis by simp
qed

lemma claim_keeps_freeze:
  assumes inv: "freeze_inv s" and c: "tryClaim sha sl jl srv i e now expires s = Inr (CandidateClaimed l, t)"
  shows "freeze_inv t \<and> frozen_stay s t \<and> set (attempts s) \<subseteq> set (attempts t) \<and> cl_attempt l < next_attempt t \<and>
    (\<forall>a \<in> set (attempts s). att_job a = cl_job l \<longrightarrow> frozen_of (cl_attempt l) t = frozen_of (att_id a) t)"
proof -
  have k: "keyed s" using inv by (simp add: freeze_inv_def)
  let ?n = "next_attempt s"
  obtain j where j: "get_job i s = Some j" "cl_job l = i" "cl_attempt l = ?n" "next_attempt t = ?n + 1"
    "attempts t = attempts s @ [new_attempt srv i e (job_attempt_count j + 1) (cl_fence l) expires ?n]"
    "freezes ?n (cl_config l) (cl_secrets l) (cl_literals l) s t" "\<exists>k. get_job i t = Some k \<and> job_attempt_count k = job_attempt_count j + 1"
    by (rule claim_freezes [OF k c])
  have ids: "att_id a < ?n" if "a \<in> set (attempts s)" for a using k that by (simp add: keyed_def)
  note ok = freeze_okD [OF freeze_invD(3) [OF inv]]
  have new: "unfrozen ?n s" using ok(1) by simp
  have old: "frozen_of q t = frozen_of q s" if "q < ?n" for q using freezes_others [OF j(6)] that by simp
  have fresh: "frozen_of ?n t = frozen_of (att_id a) s" if "a \<in> set (attempts s)" "att_job a = i" for a
    using earlier_attempt_frozen [OF inv c that(1)] that(2) freezes_own [OF j(6) new] j(2) frozen_sorted [of "att_id a" s]
    by (auto simp: frozen_of_def)
  have "evolves s t" using history.keepsD [OF history.tryClaim_kept c] .
  have "freeze_ok t"
  proof (rule freeze_okI)
    fix q assume "next_attempt t \<le> q"
    then have "unfrozen q s" "q \<noteq> ?n" using ok(1) j(4) by auto
    then show "unfrozen q t" using j(6) by (auto simp: unfrozen_def freezes_def)
  next
    fix a assume "a \<in> set (attempts t)"
    then consider "a \<in> set (attempts s)" | "att_job a = i" "att_number a = job_attempt_count j + 1"
      by (auto simp: j(5) new_attempt_def)
    then show "\<exists>q. get_job (att_job a) t = Some q \<and> att_number a \<le> job_attempt_count q"
    proof cases
      case 1
      with ok(2) obtain q where "get_job (att_job a) s = Some q" "att_number a \<le> job_attempt_count q" by blast
      with \<open>evolves s t\<close> show ?thesis by (intro job_counts_grow) (auto simp: evolves_def)
    qed (use j(7) in auto)
  next
    fix a b assume ab: "a \<in> set (attempts t)" "b \<in> set (attempts t)" "att_job a = att_job b"
    have new: "a \<in> set (attempts s) \<or> att_id a = ?n \<and> att_job a = i" if "a \<in> set (attempts t)" for a
      using that by (auto simp: j(5) new_attempt_def)
    have both: "frozen_of (att_id a) s = frozen_of (att_id b) s" if "a \<in> set (attempts s)" "b \<in> set (attempts s)"
      by (rule ok(3) [OF that ab(3)])
    from new [OF ab(1)] new [OF ab(2)] show "frozen_of (att_id a) t = frozen_of (att_id b) t"
    proof (elim disjE conjE)
      assume "a \<in> set (attempts s)" "b \<in> set (attempts s)"
      then show ?thesis using both old [OF ids] by simp
    next
      assume a: "a \<in> set (attempts s)" and "att_id b = ?n" "att_job b = i"
      then show ?thesis using fresh [OF a] ab(3) old [OF ids [OF a]] by simp
    next
      assume b: "b \<in> set (attempts s)" and "att_id a = ?n" "att_job a = i"
      then show ?thesis using fresh [OF b] ab(3) old [OF ids [OF b]] by simp
    qed simp
  qed
  moreover have "keyed t" "checked t"
    using keys.keepsD [OF keys.tryClaim_kept c] checks.keepsD [OF checks.tryClaim_kept c] inv by (auto simp: freeze_inv_def)
  ultimately show ?thesis using old fresh ids j by (auto simp: freeze_inv_def frozen_stay_def)
qed

section \<open>The claim of a batch\<close>

lemma frozen_stay_refl: "frozen_stay s s"
  by (simp add: frozen_stay_def)

lemma frozen_stay_trans: "frozen_stay s t \<Longrightarrow> frozen_stay t u \<Longrightarrow> frozen_stay s u"
  by (simp add: frozen_stay_def)

text \<open>What a batch hands out for a job that was tried before, and where it is stored.\<close>

definition retried_as :: "attempt_row \<Rightarrow> claimed_lease \<Rightarrow> db \<Rightarrow> db \<Rightarrow> bool" where
  "retried_as a l s t \<longleftrightarrow> cl_attempt l < next_attempt t \<and> frozen_of (att_id a) s = (Some (cl_config l), cl_secrets l, cl_literals l) \<and>
     frozen_of (cl_attempt l) t = frozen_of (att_id a) s"

definition retries_as_frozen :: "claimed_lease list \<Rightarrow> db \<Rightarrow> db \<Rightarrow> bool" where
  "retries_as_frozen ls s t \<longleftrightarrow> (\<forall>l \<in> set ls. \<forall>a \<in> set (attempts s). att_job a = cl_job l \<longrightarrow> retried_as a l s t)"

lemma claim_loop_frozen:
  assumes "claim_loop sha sl jl srv now limit cs claimed s = Inr (ls, t)" and "freeze_inv s"
  shows "freeze_inv t \<and> frozen_stay s t \<and> (\<exists>new. ls = claimed @ new \<and> retries_as_frozen new s t)"
  using assms
proof (induction cs arbitrary: claimed s)
  case Nil
  then show ?case by (simp add: ret_def frozen_stay_refl retries_as_frozen_def)
next
  case (Cons c cs)
  obtain i e where c: "c = (i, e)" by fastforce
  show ?case
  proof (cases "int (length claimed) \<ge> limit")
    case True
    with Cons.prems show ?thesis by (simp add: c ret_def frozen_stay_refl retries_as_frozen_def)
  next
    case False
    with Cons.prems(1) obtain r u where tried: "tryClaim sha sl jl srv i e now (now + leaseDuration) s = Inr (r, u)"
      and rest: "(case r of CandidateSkipped \<Rightarrow> claim_loop sha sl jl srv now limit cs claimed
        | CandidateSkippedAborted \<Rightarrow> fail (PgError ''25P02'' ''current transaction is aborted'')
        | CandidateClaimed lease \<Rightarrow> claim_loop sha sl jl srv now limit cs (claimed @ [lease])) u = Inr (ls, t)"
      by (auto simp: c and_then_Inr)
    show ?thesis
    proof (cases r)
      case CandidateSkipped
      with tried tryClaim_skipped have "u = s" by blast
      with CandidateSkipped rest Cons show ?thesis by simp
    next
      case (CandidateClaimed l)
      note now = claim_keeps_freeze [OF Cons.prems(2) tried [unfolded CandidateClaimed]]
      from CandidateClaimed rest have "claim_loop sha sl jl srv now limit cs (claimed @ [l]) u = Inr (ls, t)" by simp
      from Cons.IH [OF this] now obtain new where new: "freeze_inv t" "frozen_stay u t" "ls = (claimed @ [l]) @ new" "retries_as_frozen new u t"
        by blast
      have ids: "att_id a < next_attempt s" if "a \<in> set (attempts s)" for a
        using freeze_invD(1) [OF Cons.prems(2)] that by (simp add: keyed_def)
      have su: "frozen_of (att_id a) u = frozen_of (att_id a) s" if "a \<in> set (attempts s)" for a
        using now ids [OF that] by (simp add: frozen_stay_def)
      have "retried_as a l s t" if a: "a \<in> set (attempts s)" "att_job a = cl_job l" for a
        using earlier_attempt_frozen [OF Cons.prems(2) tried [unfolded CandidateClaimed] a] now su [OF a(1)] new(2) a
        by (auto simp: retried_as_def frozen_stay_def)
      moreover have "retried_as a m s t" if "m \<in> set new" "a \<in> set (attempts s)" "att_job a = cl_job m" for a m
        using new(4) now that su [OF that(2)] unfolding retries_as_frozen_def retried_as_def by fastforce
      ultimately have "retries_as_frozen (l # new) s t" by (auto simp: retries_as_frozen_def)
      with new now show ?thesis by (auto intro: frozen_stay_trans)
    qed (use rest in \<open>simp add: fail_def\<close>)
  qed
qed

lemma claiming_freeze:
  assumes "claiming_step s t" and "freeze_inv s"
  shows "freeze_inv t \<and> frozen_stay s t"
  using assms
proof (induction rule: claiming_step.induct)
  case (claimed s sha sl jl srv d now limit cs)
  obtain r t where r: "run_tx (claim_tx sha sl jl srv d now limit cs) s = (r, t)" by fastforce
  have "t = s \<or> (\<exists>ls. claim_loop sha sl jl srv now limit cs [] s = Inr (ls, t))"
    using r by (auto simp: run_tx_def claim_tx_def tx_simps ret_def split: sum.splits if_splits)
  then have "freeze_inv t \<and> frozen_stay s t"
    using claim_loop_frozen claimed frozen_stay_refl by blast
  with r show ?case by simp
qed

lemma system_step_freeze:
  assumes "system_step s t" and "reachable s" and "freeze_ok s"
  shows "freeze_ok t \<and> frozen_stay s t"
proof -
  have g: "grows s t" using later_grows [OF later.after [OF later.now assms(1)]] .
  have "freeze_inv s" using reachable_keyed reachable_checked assms(2,3) by (simp add: freeze_inv_def)
  then show ?thesis
    using assms(1) claiming_freeze freeze_invD(3) work_freeze outside_freeze same_freeze_ok [OF assms(3) _ g]
    unfolding system_step_def by blast
qed

lemma reachable_freeze: "reachable s \<Longrightarrow> freeze_ok s"
proof (induction rule: reachable.induct)
  case (step s t)
  then show ?case using system_step_freeze by blast
qed (simp add: empty_db_def freeze_ok_def unfrozen_def)

lemma later_freeze: "later s t \<Longrightarrow> reachable s \<Longrightarrow> frozen_stay s t"
proof (induction rule: later.induct)
  case (after s t u)
  then have "reachable t" using reachable_later by blast
  with after show ?case using system_step_freeze reachable_freeze frozen_stay_trans by blast
qed (rule frozen_stay_refl)

lemma Claim_run:
  assumes "Claim sha sl jl srv d limit now s = (Inr ls, t)" and "l \<in> set ls"
  obtains u cs n where "lease_step s u" "same_freeze s u" "attempts u = attempts s" "lease_step u t"
    "claim_loop sha sl jl srv now n cs [] u = Inr (ls, t)"
proof -
  let ?n = "if limit > 50 then 50 else limit"
  let ?cs = "discover srv now (discovery_limit ?n) s"
  let ?u = "ensure_slots now (sortedDistinctEnvironments ?cs) s"
  have run: "run_tx (claim_tx sha sl jl srv d now ?n ?cs) ?u = (Inr ls, t)"
    using assms by (auto simp: Claim_def Let_def split: if_splits)
  show ?thesis
  proof (rule that)
    show "lease_step s ?u" by (rule ensure_slots_step)
    show "same_freeze s ?u" by (rule freezing.ensure_slots_kept)
    show "lease_step ?u t" using claim_step [of ?u sha sl jl srv d now ?n ?cs] run by simp
    show "claim_loop sha sl jl srv now ?n ?cs [] ?u = Inr (ls, t)"
      using run by (auto simp: run_tx_def claim_tx_def tx_simps ret_def split: sum.splits if_splits)
    have "attempts v = attempts u" if "for_each (insert_slot now) es u = Inr (x, v)" for es u v x
      using that by (induction es arbitrary: u) (fastforce simp: insert_slot_def tx_simps split: if_splits option.splits)+
    then show "attempts ?u = attempts s" by (auto simp: ensure_slots_def split: sum.splits prod.splits)
  qed
qed

text \<open>
  C26: A retry runs with the configuration the first attempt froze, whatever was configured since.
  When a batch leases a job that was tried before, the lease carries exactly the execution row, the
  secret versions and the literal values stored for each earlier attempt of the job, the first one
  included; they are stored again for the new attempt, and in every later state the rows of both are
  still the same.
\<close>

theorem retry_reuses_the_frozen_configuration:
  assumes "reachable s" and "Claim sha sl jl srv d limit now s = (Inr ls, t)" and "l \<in> set ls"
    and "a \<in> set (attempts s)" and "att_job a = cl_job l" and "later t u"
  shows "frozen_of (att_id a) s = (Some (cl_config l), cl_secrets l, cl_literals l) \<and>
    frozen_of (att_id a) u = frozen_of (att_id a) s \<and> frozen_of (cl_attempt l) u = frozen_of (att_id a) s"
proof -
  obtain v cs n where v: "lease_step s v" "same_freeze s v" "attempts v = attempts s" "lease_step v t"
    "claim_loop sha sl jl srv now n cs [] v = Inr (ls, t)"
    by (rule Claim_run [OF assms(2,3)])
  have rv: "reachable v" "reachable t" using assms(1) v(1,4) reachable.step unfolding system_step_def by blast+
  have inv: "freeze_inv v" using reachable_keyed reachable_checked reachable_freeze rv(1) by (simp add: freeze_inv_def)
  from claim_loop_frozen [OF v(5) inv] have "retries_as_frozen ls v t" "frozen_stay v t" by auto
  then have r: "retried_as a l v t" using assms(3-5) v(3) by (simp add: retries_as_frozen_def)
  have sv: "frozen_of k v = frozen_of k s" for k
    using v(2) by (simp add: same_freeze_def frozen_of_def execution_of_def frozen_secrets_of_def frozen_literals_of_def)
  have "att_id a < next_attempt v" using freeze_invD(1) [OF inv] assms(4) v(3) by (simp add: keyed_def)
  with frozen_stay_trans [OF \<open>frozen_stay v t\<close> later_freeze [OF assms(6) rv(2)]] later_freeze [OF assms(6) rv(2)] r sv
  show ?thesis by (auto simp: retried_as_def frozen_stay_def)
qed

text \<open>The environment was reconfigured between the attempts.\<close>

definition ex_reconfigured :: db where
  "ex_reconfigured = ex_cleared\<lparr>runtime_configs := [(''e'', ex_config\<lparr>ContainerPort := 90, ConfigRevision := 2\<rparr>)],
     bindings := []\<rparr>"

definition ex_second_lease :: claimed_lease where
  "ex_second_lease = ex_lease\<lparr>cl_attempt := 2, cl_number := 2, cl_fence := 3, cl_lease_expires := 180000030000,
     cl_authority_expires := 180000030000\<rparr>"

definition ex_reclaimed :: db where
  "ex_reclaimed = snd (Claim ex_sha ex_lock ex_lock ''s'' ex_key 1 90000030000 ex_reconfigured)"

lemma second_claim: "Claim ex_sha ex_lock ex_lock ''s'' ex_key 1 90000030000 ex_reconfigured = (Inr [ex_second_lease], ex_reclaimed)"
proof -
  have "fst (Claim ex_sha ex_lock ex_lock ''s'' ex_key 1 90000030000 ex_reconfigured) = Inr [ex_second_lease]" by code_simp
  then show ?thesis by (simp add: ex_reclaimed_def prod_eq_iff)
qed

theorem retry_reuses_the_frozen_configuration_witness:
  "lockEnvironmentRuntimeConfig ''e'' ex_reconfigured \<noteq> Some (cl_config ex_second_lease) \<and>
   frozen_of 1 ex_reconfigured = (Some (cl_config ex_second_lease), cl_secrets ex_second_lease, cl_literals ex_second_lease) \<and>
   frozen_of 2 ex_reclaimed = frozen_of 1 ex_reconfigured"
proof -
  have r: "reachable ex_reconfigured"
    using reachable.step [OF retried_reachable(2)] outside_step.configure [where s = ex_cleared
      and sess = "sessions ex_cleared"
      and usrs = "users ex_cleared" and cfgs = "[(''e'', ex_config\<lparr>ContainerPort := 90, ConfigRevision := 2\<rparr>)]"
      and bs = "[]" and shs = "secret_heads ex_cleared" and svs = "secret_versions ex_cleared"]
    by (simp add: system_step_def ex_reconfigured_def)
  have a: "ex_attempt\<lparr>att_state := AttemptExpired, att_closed := Some 90000010000\<rparr> \<in> set (attempts ex_reconfigured)"
    by (simp add: ex_reconfigured_def ex_cleared_def ex_expired_def)
  have "lockEnvironmentRuntimeConfig ''e'' ex_reconfigured \<noteq> Some (cl_config ex_second_lease)" by code_simp
  with retry_reuses_the_frozen_configuration [OF r second_claim _ a _ later.now, of ex_second_lease] show ?thesis
    by (simp add: ex_attempt_def ex_second_lease_def ex_lease_def)
qed

end
