(* ===== verification/Redaction_Matcher.thy ===== *)
theory Redaction_Matcher
  imports Go_Strings "HOL-Library.Sublist"
begin

text \<open>
  The pattern matcher of \<^verbatim>\<open>internal/crypto/redactor.go\<close>: an Aho-Corasick automaton over a slice of
  nodes whose edges are slices sorted by byte.  \<^verbatim>\<open>newMatcher\<close> inserts the patterns into a trie and
  then walks it breadth first to set the failure and output links.  Node numbers are indices of the
  slice; the root is node 0.  The two loops that follow failure links and the breadth-first loop
  carry fuel, and running out of it is the outcome \<open>Diverges\<close>, which no matcher reaches.
\<close>

section \<open>Data\<close>

datatype redaction_error = ErrRedaction | ErrSink | ErrShortWrite | Diverges

record acEdge =
  edge_byte :: char
  edge_node :: nat

record acNode =
  node_edges :: "acEdge list"
  node_fail :: nat
  node_outputLink :: nat
  node_terminal :: nat
  node_output :: nat

definition zero_node :: acNode where
  "zero_node = \<lparr>node_edges = [], node_fail = 0, node_outputLink = 0, node_terminal = 0, node_output = 0\<rparr>"

record redactionMatcher =
  m_nodes :: "acNode list"
  m_maxPattern :: nat

definition MaxRedactionNodes :: int where
  "MaxRedactionNodes = 65536"

section \<open>Edges\<close>

text \<open>\<^verbatim>\<open>sort.Search\<close>: the smallest index at which a monotone predicate holds, by bisection.\<close>

function sort_search :: "(nat \<Rightarrow> bool) \<Rightarrow> nat \<Rightarrow> nat \<Rightarrow> nat" where
  "sort_search f i j =
     (if i < j then
        (let h = (i + j) div 2
         in if f h then sort_search f i h else sort_search f (h + 1) j)
      else i)"
  by pat_completeness auto

termination
  by (relation "measure (\<lambda>(f, i, j). j - i)") auto

declare sort_search.simps [simp del]

definition edge_index :: "acEdge list \<Rightarrow> char \<Rightarrow> nat" where
  "edge_index es b = sort_search (\<lambda>i. byte b \<le> byte (edge_byte (es ! i))) 0 (length es)"

definition node_edge :: "acNode \<Rightarrow> char \<Rightarrow> nat option" where
  "node_edge nd b =
     (let es = node_edges nd; i = edge_index es b
      in if i < length es \<and> edge_byte (es ! i) = b then Some (edge_node (es ! i)) else None)"

definition edge :: "redactionMatcher \<Rightarrow> nat \<Rightarrow> char \<Rightarrow> nat option" where
  "edge m state b = node_edge (m_nodes m ! state) b"

fun advance_loop :: "nat \<Rightarrow> redactionMatcher \<Rightarrow> nat \<Rightarrow> char \<Rightarrow> nat option" where
  "advance_loop 0 m state b = None"
| "advance_loop (Suc fuel) m state b =
     (if state \<noteq> 0 then
        (case edge m state b of
           Some nxt \<Rightarrow> Some nxt
         | None \<Rightarrow> advance_loop fuel m (node_fail (m_nodes m ! state)) b)
      else
        (case edge m 0 b of Some nxt \<Rightarrow> Some nxt | None \<Rightarrow> Some 0))"

definition advance :: "redactionMatcher \<Rightarrow> nat \<Rightarrow> char \<Rightarrow> nat option" where
  "advance m state b = advance_loop (length (m_nodes m)) m state b"

section \<open>Inserting the patterns\<close>

definition update_node :: "nat \<Rightarrow> (acNode \<Rightarrow> acNode) \<Rightarrow> redactionMatcher \<Rightarrow> redactionMatcher" where
  "update_node i g m = m\<lparr>m_nodes := (m_nodes m)[i := g (m_nodes m ! i)]\<rparr>"

definition insert_edge :: "acEdge \<Rightarrow> acEdge list \<Rightarrow> acEdge list" where
  "insert_edge e es = (let i = edge_index es (edge_byte e) in take i es @ e # drop i es)"

definition insert_byte :: "redactionMatcher \<Rightarrow> nat \<Rightarrow> char \<Rightarrow> (redactionMatcher \<times> nat) option" where
  "insert_byte m state b =
     (case edge m state b of
        Some nxt \<Rightarrow> Some (m, nxt)
      | None \<Rightarrow>
          if MaxRedactionNodes \<le> int (length (m_nodes m)) then None
          else
            (let nxt = length (m_nodes m);
                 m1 = m\<lparr>m_nodes := m_nodes m @ [zero_node]\<rparr>
             in Some (update_node state
                        (\<lambda>nd. nd\<lparr>node_edges := insert_edge \<lparr>edge_byte = b, edge_node = nxt\<rparr> (node_edges nd)\<rparr>) m1,
                      nxt)))"

fun insert_bytes :: "redactionMatcher \<Rightarrow> nat \<Rightarrow> string \<Rightarrow> (redactionMatcher \<times> nat) option" where
  "insert_bytes m state [] = Some (m, state)"
| "insert_bytes m state (b # bs) =
     (case insert_byte m state b of None \<Rightarrow> None | Some (m1, nxt) \<Rightarrow> insert_bytes m1 nxt bs)"

definition mark_terminal :: "nat \<Rightarrow> nat \<Rightarrow> redactionMatcher \<Rightarrow> redactionMatcher" where
  "mark_terminal state len m =
     (if node_terminal (m_nodes m ! state) < len
      then update_node state (\<lambda>nd. nd\<lparr>node_terminal := len, node_output := len\<rparr>) m
      else m)"

definition insert_pattern :: "redactionMatcher \<Rightarrow> string \<Rightarrow> redactionMatcher option" where
  "insert_pattern m p =
     (let m0 = (if m_maxPattern m < length p then m\<lparr>m_maxPattern := length p\<rparr> else m)
      in case insert_bytes m0 0 p of
           None \<Rightarrow> None
         | Some (m1, state) \<Rightarrow> Some (mark_terminal state (length p) m1))"

fun insert_patterns :: "redactionMatcher \<Rightarrow> string list \<Rightarrow> redactionMatcher option" where
  "insert_patterns m [] = Some m"
| "insert_patterns m (p # ps) =
     (case insert_pattern m p of None \<Rightarrow> None | Some m1 \<Rightarrow> insert_patterns m1 ps)"

section \<open>Failure and output links\<close>

fun failure_loop :: "nat \<Rightarrow> redactionMatcher \<Rightarrow> nat \<Rightarrow> char \<Rightarrow> nat option" where
  "failure_loop 0 m failure b = None"
| "failure_loop (Suc fuel) m failure b =
     (if failure \<noteq> 0 then
        (case edge m failure b of
           Some nxt \<Rightarrow> Some nxt
         | None \<Rightarrow> failure_loop fuel m (node_fail (m_nodes m ! failure)) b)
      else Some 0)"

definition set_links :: "nat \<Rightarrow> nat \<Rightarrow> redactionMatcher \<Rightarrow> redactionMatcher" where
  "set_links t failure m =
     (let m1 = update_node t (\<lambda>nd. nd\<lparr>node_fail := failure\<rparr>) m;
          m2 = update_node t (\<lambda>nd. nd\<lparr>node_outputLink :=
                 (if 0 < node_terminal (m_nodes m1 ! failure) then failure
                  else node_outputLink (m_nodes m1 ! failure))\<rparr>) m1
      in if node_output (m_nodes m2 ! t) < node_output (m_nodes m2 ! failure)
         then update_node t (\<lambda>nd. nd\<lparr>node_output := node_output (m_nodes m2 ! failure)\<rparr>) m2
         else m2)"

definition link_edge :: "redactionMatcher \<Rightarrow> nat \<Rightarrow> acEdge \<Rightarrow> redactionMatcher option" where
  "link_edge m state e =
     (case failure_loop (length (m_nodes m)) m (node_fail (m_nodes m ! state)) (edge_byte e) of
        None \<Rightarrow> None
      | Some found \<Rightarrow>
          let failure =
                (if found = 0 then
                   (case edge m 0 (edge_byte e) of
                      Some nxt \<Rightarrow> (if nxt \<noteq> edge_node e then nxt else found)
                    | None \<Rightarrow> found)
                 else found)
          in Some (set_links (edge_node e) failure m))"

fun link_edges :: "redactionMatcher \<Rightarrow> nat \<Rightarrow> acEdge list \<Rightarrow> nat list \<Rightarrow> (redactionMatcher \<times> nat list) option" where
  "link_edges m state [] queue = Some (m, queue)"
| "link_edges m state (e # es) queue =
     (case link_edge m state e of
        None \<Rightarrow> None
      | Some m1 \<Rightarrow> link_edges m1 state es (queue @ [edge_node e]))"

fun link_nodes :: "nat \<Rightarrow> redactionMatcher \<Rightarrow> nat list \<Rightarrow> redactionMatcher option" where
  "link_nodes fuel m [] = Some m"
| "link_nodes 0 m (state # queue) = None"
| "link_nodes (Suc fuel) m (state # queue) =
     (case link_edges m state (node_edges (m_nodes m ! state)) queue of
        None \<Rightarrow> None
      | Some (m1, queue1) \<Rightarrow> link_nodes fuel m1 queue1)"

definition newMatcher :: "string list \<Rightarrow> redaction_error + redactionMatcher" where
  "newMatcher patterns =
     (case insert_patterns \<lparr>m_nodes = [zero_node], m_maxPattern = 0\<rparr> patterns of
        None \<Rightarrow> Inl ErrRedaction
      | Some m \<Rightarrow>
          (case link_nodes (length (m_nodes m)) m (map edge_node (node_edges (m_nodes m ! 0))) of
             None \<Rightarrow> Inl Diverges
           | Some m1 \<Rightarrow> Inr m1))"

end
