(* ===== verification/Redaction_Trie.thy ===== *)
theory Redaction_Trie
  imports Redaction_Matcher
begin

text \<open>
  The trie \<^verbatim>\<open>newMatcher\<close> builds.  A list of words, one per node, says what each node stands for:
  the words are distinct and closed under prefixes, and a node has an edge for a byte exactly when
  its word extended by that byte is a word.  Inserting patterns keeps this relation and marks the
  nodes of the patterns.
\<close>

section \<open>Bisection\<close>

lemma sort_search_spec:
  assumes "\<forall>k l. i \<le> k \<and> k \<le> l \<and> l < j \<and> f k \<longrightarrow> f l" and "i \<le> j"
  shows "i \<le> sort_search f i j \<and> sort_search f i j \<le> j
    \<and> (\<forall>k. i \<le> k \<and> k < sort_search f i j \<longrightarrow> \<not> f k) \<and> (\<forall>k. sort_search f i j \<le> k \<and> k < j \<longrightarrow> f k)"
  using assms
proof (induction f i j rule: sort_search.induct)
  case (1 f i j)
  show ?case
  proof (cases "i < j")
    case True
    define h where "h = (i + j) div 2"
    have h: "i \<le> h" "h < j" using True by (auto simp: h_def)
    show ?thesis
    proof (cases "f h")
      case True
      have r: "sort_search f i j = sort_search f i h" (is "_ = ?r")
        using True \<open>i < j\<close> by (subst sort_search.simps) (simp add: h_def Let_def)
      have "\<forall>k l. i \<le> k \<and> k \<le> l \<and> l < h \<and> f k \<longrightarrow> f l" using 1(3) h by (meson less_trans)
      from 1(1) [OF \<open>i < j\<close> h_def True this h(1)]
      have "i \<le> ?r" "?r \<le> h" "\<forall>k. i \<le> k \<and> k < ?r \<longrightarrow> \<not> f k" "\<forall>k. ?r \<le> k \<and> k < h \<longrightarrow> f k" by blast+
      moreover have "f l" if "h \<le> l" "l < j" for l using 1(3) h True that by blast
      ultimately show ?thesis using h unfolding r by (metis le_trans less_imp_le not_le)
    next
      case False
      have r: "sort_search f i j = sort_search f (h + 1) j" (is "_ = ?r")
        using False \<open>i < j\<close> by (subst sort_search.simps) (simp add: h_def Let_def)
      have "\<forall>k l. h + 1 \<le> k \<and> k \<le> l \<and> l < j \<and> f k \<longrightarrow> f l" using 1(3) h by (meson add_leD1 le_trans)
      from 1(2) [OF \<open>i < j\<close> h_def False this]
      have "h < ?r" "?r \<le> j" "\<forall>k. h < k \<and> k < ?r \<longrightarrow> \<not> f k" "\<forall>k. ?r \<le> k \<and> k < j \<longrightarrow> f k" using h by auto
      moreover have "\<not> f k" if "i \<le> k" "k \<le> h" for k using 1(3) h False that by blast
      ultimately show ?thesis using h unfolding r by (metis le_trans less_imp_le not_le)
    qed
  next
    case False
    then have "sort_search f i j = i" by (subst sort_search.simps) simp
    then show ?thesis using False 1(4) by auto
  qed
qed

definition edges_sorted :: "acEdge list \<Rightarrow> bool" where
  "edges_sorted es \<longleftrightarrow> sorted_wrt (<) (map (\<lambda>e. byte (edge_byte e)) es)"

lemma byte_eq_iff [simp]: "byte a = byte b \<longleftrightarrow> a = b"
  by (simp add: byte_def)

lemma edges_sorted_nth:
  "edges_sorted es \<Longrightarrow> i < j \<Longrightarrow> j < length es \<Longrightarrow> byte (edge_byte (es ! i)) < byte (edge_byte (es ! j))"
  by (simp add: edges_sorted_def sorted_wrt_iff_nth_less)

lemma edge_index_spec:
  assumes "edges_sorted es"
  shows "edge_index es b \<le> length es" "\<And>k. k < edge_index es b \<Longrightarrow> byte (edge_byte (es ! k)) < byte b"
    "\<And>k. edge_index es b \<le> k \<Longrightarrow> k < length es \<Longrightarrow> byte b \<le> byte (edge_byte (es ! k))"
proof -
  have "byte b \<le> byte (edge_byte (es ! k)) \<Longrightarrow> byte b \<le> byte (edge_byte (es ! l))" if "k \<le> l" "l < length es" for k l
    using edges_sorted_nth [OF assms, of k l] that by (cases "k = l") auto
  then have "\<forall>k l. 0 \<le> k \<and> k \<le> l \<and> l < length es \<and> byte b \<le> byte (edge_byte (es ! k)) \<longrightarrow> byte b \<le> byte (edge_byte (es ! l))"
    by blast
  note search = sort_search_spec [of 0 "length es" "\<lambda>i. byte b \<le> byte (edge_byte (es ! i))", folded edge_index_def, OF this]
  show "edge_index es b \<le> length es" using search by simp
  show "byte (edge_byte (es ! k)) < byte b" if "k < edge_index es b" for k using search that by (simp add: not_le)
  show "byte b \<le> byte (edge_byte (es ! k))" if "edge_index es b \<le> k" "k < length es" for k using search that by simp
qed

lemma acEdge_eq: "e = \<lparr>edge_byte = b, edge_node = t\<rparr> \<longleftrightarrow> edge_byte e = b \<and> edge_node e = t"
  by (cases e) simp

lemma node_edge_iff:
  assumes "edges_sorted (node_edges nd)"
  shows "node_edge nd b = Some t \<longleftrightarrow> \<lparr>edge_byte = b, edge_node = t\<rparr> \<in> set (node_edges nd)"
proof -
  let ?es = "node_edges nd" and ?i = "edge_index (node_edges nd) b"
  note spec = edge_index_spec [OF assms, where b = b]
  have "j = ?i" if "j < length ?es" "edge_byte (?es ! j) = b" for j
  proof (rule ccontr)
    assume "j \<noteq> ?i"
    then consider "j < ?i" | "?i < j" by linarith
    then show False
    proof cases
      case 2
      then show False using edges_sorted_nth [OF assms 2 that(1)] spec(3) [of ?i] that by simp
    qed (use spec(2) that in fastforce)
  qed
  then have "\<lparr>edge_byte = b, edge_node = t\<rparr> \<in> set ?es \<longleftrightarrow> ?i < length ?es \<and> edge_byte (?es ! ?i) = b \<and> edge_node (?es ! ?i) = t"
    by (auto simp: in_set_conv_nth acEdge_eq)
  then show ?thesis by (auto simp: node_edge_def Let_def)
qed

lemma insert_edge_sorted:
  assumes "edges_sorted es" and "node_edge nd (edge_byte e) = None" "node_edges nd = es"
  shows "edges_sorted (insert_edge e es)"
proof -
  let ?i = "edge_index es (edge_byte e)"
  note spec = edge_index_spec [OF assms(1), where b = "edge_byte e"]
  have "byte (edge_byte (es ! k)) \<noteq> byte (edge_byte e)" if "k < length es" for k
    using assms(2,3) node_edge_iff [of nd "edge_byte e" "edge_node (es ! k)"] assms(1) that
    by (metis acEdge_eq byte_eq_iff nth_mem option.distinct(1))
  with spec(3) have "byte (edge_byte e) < byte (edge_byte (es ! k))" if "?i \<le> k" "k < length es" for k
    using that by (metis nat_less_le)
  then have "\<forall>x \<in> set (drop ?i es). byte (edge_byte e) < byte (edge_byte x)"
    by (auto simp: in_set_conv_nth)
  moreover have "\<forall>x \<in> set (take ?i es). byte (edge_byte x) < byte (edge_byte e)"
    using spec(2) by (auto simp: in_set_conv_nth)
  moreover have "sorted_wrt (<) (map (\<lambda>e. byte (edge_byte e)) (take ?i es @ drop ?i es))"
    using assms(1) by (simp add: edges_sorted_def)
  ultimately show ?thesis
    by (simp only: edges_sorted_def insert_edge_def Let_def map_append sorted_wrt_append list.map sorted_wrt.simps)
      (fastforce dest: order_less_trans)
qed

lemma insert_edge_set: "set (insert_edge e es) = insert e (set es)"
  by (metis Un_insert_right append_take_drop_id insert_edge_def list.simps(15) set_append)

section \<open>The words of the nodes\<close>

definition trie :: "acNode list \<Rightarrow> string list \<Rightarrow> bool" where
  "trie ns ws \<longleftrightarrow>
     length ws = length ns \<and> ns \<noteq> [] \<and> ws ! 0 = [] \<and> distinct ws
     \<and> (\<forall>s < length ns. edges_sorted (node_edges (ns ! s)))
     \<and> (\<forall>s < length ns. \<forall>b t. \<lparr>edge_byte = b, edge_node = t\<rparr> \<in> set (node_edges (ns ! s))
            \<longleftrightarrow> t < length ns \<and> ws ! t = ws ! s @ [b])
     \<and> (\<forall>w b. w @ [b] \<in> set ws \<longrightarrow> w \<in> set ws)"

lemma trie_edges_cong: "map node_edges ns = map node_edges ns' \<Longrightarrow> trie ns ws \<longleftrightarrow> trie ns' ws"
proof -
  assume eq: "map node_edges ns = map node_edges ns'"
  then have "length ns = length ns'" by (metis length_map)
  moreover from this eq have "node_edges (ns ! s) = node_edges (ns' ! s)" if "s < length ns'" for s
    using that by (metis nth_map)
  ultimately show ?thesis unfolding trie_def by (auto simp flip: length_greater_0_conv)
qed

lemma trieD:
  assumes "trie ns ws"
  shows "length ws = length ns" "0 < length ns" "ws ! 0 = []" "distinct ws"
    "\<And>w b. w @ [b] \<in> set ws \<Longrightarrow> w \<in> set ws"
    "\<And>s. s < length ns \<Longrightarrow> edges_sorted (node_edges (ns ! s))"
    "\<And>s b t. s < length ns \<Longrightarrow> \<lparr>edge_byte = b, edge_node = t\<rparr> \<in> set (node_edges (ns ! s))
       \<longleftrightarrow> t < length ns \<and> ws ! t = ws ! s @ [b]"
  using assms unfolding trie_def by auto

lemma trie_edge:
  "trie (m_nodes m) ws \<Longrightarrow> s < length ws \<Longrightarrow> edge m s b = Some t \<longleftrightarrow> t < length ws \<and> ws ! t = ws ! s @ [b]"
  unfolding edge_def by (simp add: node_edge_iff trieD)

lemma trie_edge_None:
  "trie (m_nodes m) ws \<Longrightarrow> s < length ws \<Longrightarrow> edge m s b = None \<longleftrightarrow> ws ! s @ [b] \<notin> set ws"
  using trie_edge [of m ws s b] by (metis in_set_conv_nth not_None_eq)

lemma trie_child:
  assumes "trie ns ws" and "s < length ws" and "e \<in> set (node_edges (ns ! s))"
  shows "edge_node e < length ws \<and> ws ! edge_node e = ws ! s @ [edge_byte e]"
  using assms trieD(1) [OF assms(1)] trieD(7) [OF assms(1), of s "edge_byte e" "edge_node e"] acEdge_eq by metis

lemma trie_children:
  assumes "trie ns ws" and "s < length ws"
  shows "k \<in> set (map edge_node (node_edges (ns ! s))) \<longleftrightarrow> k < length ws \<and> (\<exists>b. ws ! k = ws ! s @ [b])"
proof
  assume "k < length ws \<and> (\<exists>b. ws ! k = ws ! s @ [b])"
  then obtain b where "\<lparr>edge_byte = b, edge_node = k\<rparr> \<in> set (node_edges (ns ! s))" using assms trieD(1,7) by metis
  then show "k \<in> set (map edge_node (node_edges (ns ! s)))" by force
qed (use trie_child [OF assms] in auto)

lemma trie_children_distinct:
  assumes "trie ns ws" and "s < length ws"
  shows "distinct (map edge_node (node_edges (ns ! s)))"
proof -
  let ?es = "node_edges (ns ! s)"
  have "distinct (map (\<lambda>e. byte (edge_byte e)) ?es)"
    using trieD(1,6) [OF assms(1)] assms(2) by (simp add: edges_sorted_def strict_sorted_iff)
  moreover have "e = e'" if "e \<in> set ?es" "e' \<in> set ?es" "edge_node e = edge_node e'" for e e'
    using trie_child [OF assms that(1)] trie_child [OF assms that(2)] that(3) acEdge_eq by (metis last_snoc)
  ultimately show ?thesis by (auto simp: distinct_map inj_on_def)
qed

lemma trie_root: "trie ns ws \<Longrightarrow> s < length ws \<Longrightarrow> ws ! s = [] \<longleftrightarrow> s = 0"
  by (metis nth_eq_iff_index_eq trieD(1-4))

lemma trie_prefix:
  assumes "trie ns ws" and "w \<in> set ws" and "prefix v w"
  shows "v \<in> set ws"
  using assms(2,3)
proof (induction w rule: rev_induct)
  case (snoc b w)
  then show ?case using trieD(5) [OF assms(1)] by (metis prefix_snoc)
qed simp

lemma trie_empty: "trie [zero_node] [[]]"
  by (auto simp: trie_def zero_node_def edges_sorted_def)

lemma update_node_nodes [simp]:
  "m_nodes (update_node i g m) = (m_nodes m)[i := g (m_nodes m ! i)]" "m_maxPattern (update_node i g m) = m_maxPattern m"
  by (simp_all add: update_node_def)

section \<open>Insertion\<close>

text \<open>The links and marks of the nodes, apart from their edges.\<close>

definition marks :: "acNode \<Rightarrow> nat \<times> nat \<times> nat \<times> nat" where
  "marks nd = (node_fail nd, node_outputLink nd, node_terminal nd, node_output nd)"

lemma trie_insert:
  assumes "trie ns ws" and "s < length ns" and "ws ! s @ [b] \<notin> set ws"
  shows "trie ((ns @ [zero_node])[s := (ns ! s)\<lparr>node_edges :=
           insert_edge \<lparr>edge_byte = b, edge_node = length ns\<rparr> (node_edges (ns ! s))\<rparr>]) (ws @ [ws ! s @ [b]])"
    (is "trie ?ns ?ws")
proof -
  note t = trieD [OF assms(1)]
  have none: "node_edge (ns ! s) b = None"
    using assms t node_edge_iff [OF t(6) [OF assms(2)], of b] by (metis in_set_conv_nth not_None_eq)
  have sorted: "edges_sorted (node_edges (?ns ! k))" if "k < length ?ns" for k
    using that assms(2) t(6) none insert_edge_sorted [OF t(6) [OF assms(2)], where e = "\<lparr>edge_byte = b, edge_node = length ns\<rparr>"]
    by (auto simp: nth_list_update nth_append zero_node_def edges_sorted_def less_Suc_eq)
  have word: "ws ! k \<noteq> (ws ! s @ [b]) @ [c]" if "k < length ns" for k c
    using that assms(3) t(1,5) by (metis nth_mem)
  have self: "ws ! s @ [b] \<noteq> (ws ! s @ [b]) @ [c]" for c by simp
  have link: "\<lparr>edge_byte = c, edge_node = k\<rparr> \<in> set (node_edges (?ns ! j))
      \<longleftrightarrow> k < length ?ns \<and> ?ws ! k = ?ws ! j @ [c]" if "j < length ?ns" for j k c
  proof -
    consider "j = s" | "j \<noteq> s" "j < length ns" | "j = length ns" "j \<noteq> s" using \<open>j < length ?ns\<close> by fastforce
    then show ?thesis
    proof cases
      case 1
      then show ?thesis using assms(2) t(1,7) by (auto simp: insert_edge_set nth_append less_Suc_eq)
    next
      case 2
      then have "ws ! s @ [b] = ws ! j @ [c] \<Longrightarrow> False" using assms(2) t(1,4) by (simp add: nth_eq_iff_index_eq)
      then show ?thesis using 2 assms(2) t(1,7) by (auto simp: nth_append less_Suc_eq)
    next
      case 3
      then show ?thesis using assms(2) t(1) word self by (auto simp: nth_append less_Suc_eq zero_node_def)
    qed
  qed
  have closed: "w @ [c] \<in> set ?ws \<Longrightarrow> w \<in> set ?ws" for w c
    using t(1,5) assms(2) by auto
  show ?thesis
    unfolding trie_def using t(1-4) assms(2,3) sorted link closed by (simp add: nth_append)
qed

lemma insert_byte_trie:
  assumes "trie (m_nodes m) ws" and "s < length ws" and "insert_byte m s b = Some (m', s')"
  shows "\<exists>ws'. trie (m_nodes m') (ws @ ws') \<and> s' < length (ws @ ws') \<and> (ws @ ws') ! s' = ws ! s @ [b]
    \<and> set ws' \<subseteq> {ws ! s @ [b]} \<and> map marks (m_nodes m') = map marks (m_nodes m) @ map (\<lambda>_. (0, 0, 0, 0)) ws'
    \<and> m_maxPattern m' = m_maxPattern m"
proof (cases "edge m s b")
  case None
  note t = trieD [OF assms(1)]
  have "ws ! s @ [b] \<notin> set ws" using trie_edge_None [OF assms(1,2)] None by simp
  from trie_insert [OF assms(1) _ this] None assms t(1) show ?thesis
    by (intro exI [of _ "[ws ! s @ [b]]"])
      (auto simp: insert_byte_def Let_def nth_append map_update marks_def zero_node_def list_update_append
         intro!: nth_equalityI split: if_splits simp: nth_list_update)
next
  case (Some t)
  with assms(3) have "m' = m" "s' = t" by (simp_all add: insert_byte_def)
  then show ?thesis using assms(1) Some trie_edge [OF assms(1,2)] by (intro exI [of _ "[]"]) simp
qed

lemma insert_bytes_trie:
  assumes "trie (m_nodes m) ws" and "s < length ws" and "insert_bytes m s bs = Some (m', s')"
  shows "\<exists>ws'. trie (m_nodes m') (ws @ ws') \<and> s' < length (ws @ ws') \<and> (ws @ ws') ! s' = ws ! s @ bs
    \<and> (\<forall>w \<in> set ws'. prefix w (ws ! s @ bs)) \<and> map marks (m_nodes m') = map marks (m_nodes m) @ map (\<lambda>_. (0, 0, 0, 0)) ws'
    \<and> m_maxPattern m' = m_maxPattern m"
  using assms
proof (induction bs arbitrary: m s ws)
  case (Cons b bs)
  from Cons.prems(3) obtain m1 s1 where 1: "insert_byte m s b = Some (m1, s1)" "insert_bytes m1 s1 bs = Some (m', s')"
    by (auto split: option.splits)
  from insert_byte_trie [OF Cons.prems(1,2) 1(1)] obtain us where
    us: "trie (m_nodes m1) (ws @ us)" "s1 < length (ws @ us)" "(ws @ us) ! s1 = ws ! s @ [b]" "set us \<subseteq> {ws ! s @ [b]}"
      "map marks (m_nodes m1) = map marks (m_nodes m) @ map (\<lambda>_. (0, 0, 0, 0)) us" "m_maxPattern m1 = m_maxPattern m"
    by blast
  from Cons.IH [OF us(1,2) 1(2)] obtain vs where
    vs: "trie (m_nodes m') ((ws @ us) @ vs)" "s' < length ((ws @ us) @ vs)" "((ws @ us) @ vs) ! s' = (ws @ us) ! s1 @ bs"
      "\<forall>w \<in> set vs. prefix w ((ws @ us) ! s1 @ bs)"
      "map marks (m_nodes m') = map marks (m_nodes m1) @ map (\<lambda>_. (0, 0, 0, 0)) vs" "m_maxPattern m' = m_maxPattern m1"
    by blast
  have "\<forall>w \<in> set (us @ vs). prefix w (ws ! s @ b # bs)" using us(3,4) vs(4) by auto
  with us vs show ?case by (intro exI [of _ "us @ vs"]) simp
qed simp

text \<open>
  After some patterns were inserted: the words are their prefixes, a node is terminal when its word
  is one of them, nothing is linked, and the longest length is known.
\<close>

definition planted :: "string set \<Rightarrow> redactionMatcher \<Rightarrow> string list \<Rightarrow> bool" where
  "planted P m ws \<longleftrightarrow>
     trie (m_nodes m) ws \<and> P \<subseteq> set ws
     \<and> (\<forall>w \<in> set ws. w = [] \<or> (\<exists>p \<in> P. prefix w p))
     \<and> (\<forall>s < length ws. marks (m_nodes m ! s) =
          (0, 0, if ws ! s \<in> P then length (ws ! s) else 0, if ws ! s \<in> P then length (ws ! s) else 0))
     \<and> (\<forall>p \<in> P. length p \<le> m_maxPattern m) \<and> (m_maxPattern m = 0 \<or> (\<exists>p \<in> P. length p = m_maxPattern m))"

lemma insert_pattern_planted:
  assumes "planted P m ws" and "insert_pattern m p = Some m'"
  shows "\<exists>ws'. planted (insert p P) m' ws'"
proof -
  define m0 where "m0 = (if m_maxPattern m < length p then m\<lparr>m_maxPattern := length p\<rparr> else m)"
  from assms(2) obtain m1 s where 1: "insert_bytes m0 0 p = Some (m1, s)" and m': "m' = mark_terminal s (length p) m1"
    by (auto simp: insert_pattern_def m0_def [symmetric] Let_def split: option.splits)
  note pl = assms(1) [unfolded planted_def]
  have m0: "m_nodes m0 = m_nodes m" "m_maxPattern m0 = max (m_maxPattern m) (length p)" by (auto simp: m0_def)
  have t: "trie (m_nodes m) ws" using pl by simp
  note tt = trieD [OF t]
  from insert_bytes_trie [OF _ _ 1, of ws] t m0(1) tt(1-3) obtain us where
    us: "trie (m_nodes m1) (ws @ us)" "s < length (ws @ us)" "(ws @ us) ! s = p" "\<forall>w \<in> set us. prefix w p"
      "map marks (m_nodes m1) = map marks (m_nodes m) @ map (\<lambda>_. (0, 0, 0, 0)) us" "m_maxPattern m1 = m_maxPattern m0"
    by auto
  note t1 = trieD [OF us(1)]
  have old: "marks (m_nodes m1 ! k) = (let l = if (ws @ us) ! k \<in> P then length ((ws @ us) ! k) else 0 in (0, 0, l, l))"
    if "k < length (ws @ us)" for k
  proof (cases "k < length ws")
    case True
    then have "marks (m_nodes m1 ! k) = marks (m_nodes m ! k)" using us(5) t1(1) tt(1) that by (metis length_map nth_append nth_map)
    then show ?thesis using pl True by (simp add: nth_append Let_def)
  next
    case False
    then have "marks (m_nodes m1 ! k) = (0, 0, 0, 0)"
      using us(5) t1(1) tt(1) that by (metis (mono_tags, lifting) add_diff_inverse_nat length_append length_map nat_add_left_cancel_less nth_append nth_map)
    moreover have "(ws @ us) ! k \<notin> P"
      using pl t1(4) False that by (auto simp: nth_append dest!: nth_mem [of "k - length ws" us])
    ultimately show ?thesis by simp
  qed
  have mark: "marks (m_nodes m' ! k) =
      (let l = if (ws @ us) ! k \<in> insert p P then length ((ws @ us) ! k) else 0 in (0, 0, l, l))" if "k < length (ws @ us)" for k
  proof (cases "k = s")
    case True
    then show ?thesis using old [of s] us(2,3) t1(1)
      by (auto simp: m' mark_terminal_def marks_def Let_def split: if_splits)
  next
    case False
    then have "(ws @ us) ! k \<noteq> p" using us(2,3) t1(4) that by (metis nth_eq_iff_index_eq)
    then show ?thesis using old [OF that] False t1(1) that by (simp add: m' mark_terminal_def)
  qed
  have "map node_edges (m_nodes m') = map node_edges (m_nodes m1)"
    using us(2) t1(1) by (auto simp: m' mark_terminal_def map_update intro!: nth_equalityI simp: nth_list_update)
  then have "trie (m_nodes m') (ws @ us)" using us(1) trie_edges_cong by blast
  moreover have "insert p P \<subseteq> set (ws @ us)" using pl us(2,3) by (metis insert_subset le_supI1 nth_mem set_append)
  moreover have "m_maxPattern m' = max (m_maxPattern m) (length p)" using us(6) m0(2) by (simp add: m' mark_terminal_def)
  ultimately have "planted (insert p P) m' (ws @ us)"
    using pl us(4) mark by (auto simp: planted_def Let_def max_def)
  then show ?thesis ..
qed

lemma insert_patterns_planted:
  "planted P m ws \<Longrightarrow> insert_patterns m ps = Some m' \<Longrightarrow> \<exists>ws'. planted (P \<union> set ps) m' ws'"
proof (induction ps arbitrary: P m ws)
  case (Cons p ps)
  from Cons.prems(2) obtain m1 where 1: "insert_pattern m p = Some m1" "insert_patterns m1 ps = Some m'"
    by (auto split: option.splits)
  from insert_pattern_planted [OF Cons.prems(1) 1(1)] obtain us where "planted (insert p P) m1 us" ..
  from Cons.IH [OF this 1(2)] show ?case by simp
qed auto

lemma planted_root: "planted {} \<lparr>m_nodes = [zero_node], m_maxPattern = 0\<rparr> [[]]"
  by (simp add: planted_def trie_empty) (simp add: marks_def zero_node_def)

end
