(* ===== verification/Redaction_Automaton.thy ===== *)
theory Redaction_Automaton
  imports Redaction_Trie
begin

text \<open>
  The links of the automaton.  A failure link leads to the longest proper suffix of the node's word
  that is a word itself; the breadth-first walk of \<^verbatim>\<open>newMatcher\<close> sets it right for every node,
  because the links it reads belong to nodes nearer to the root.  Hence scanning a text keeps the
  matcher at the longest suffix of the text that begins a pattern.
\<close>

section \<open>What the links mean\<close>

definition tracks :: "string list \<Rightarrow> nat \<Rightarrow> string \<Rightarrow> bool" where
  "tracks ws s x \<longleftrightarrow> s < length ws \<and> suffix (ws ! s) x \<and> (\<forall>w \<in> set ws. suffix w x \<longrightarrow> length w \<le> length (ws ! s))"

definition fails_to :: "string list \<Rightarrow> nat \<Rightarrow> nat \<Rightarrow> bool" where
  "fails_to ws s f \<longleftrightarrow> f < length ws \<and> strict_suffix (ws ! f) (ws ! s)
     \<and> (\<forall>w \<in> set ws. strict_suffix w (ws ! s) \<longrightarrow> length w \<le> length (ws ! f))"

definition output_of :: "string set \<Rightarrow> string \<Rightarrow> nat \<Rightarrow> bool" where
  "output_of P w n \<longleftrightarrow> (\<forall>p \<in> P. suffix p w \<longrightarrow> length p \<le> n) \<and> (n = 0 \<or> (\<exists>p \<in> P. suffix p w \<and> length p = n))"

definition links_to :: "string set \<Rightarrow> string list \<Rightarrow> nat \<Rightarrow> nat \<Rightarrow> bool" where
  "links_to P ws s t \<longleftrightarrow> t < length ws \<and> (\<forall>p \<in> P. strict_suffix p (ws ! s) \<longrightarrow> length p \<le> length (ws ! t))
     \<and> (t = 0 \<or> ws ! t \<in> P \<and> strict_suffix (ws ! t) (ws ! s))"

lemma tracksD:
  assumes "tracks ws s x"
  shows "s < length ws" "suffix (ws ! s) x" "\<And>w. w \<in> set ws \<Longrightarrow> suffix w x \<Longrightarrow> length w \<le> length (ws ! s)"
  using assms unfolding tracks_def by blast+

lemma suffix_shorter: "suffix v x \<Longrightarrow> suffix w x \<Longrightarrow> length v \<le> length w \<Longrightarrow> suffix v w"
  by (metis suffix_length_suffix)

lemma suffix_snocE:
  assumes "suffix w (x @ [b])"
  obtains "w = []" | v where "w = v @ [b]" "suffix v x"
  using assms by (auto simp: suffix_snoc)

lemma trie_depth:
  assumes "trie ns ws" and "s < length ws"
  shows "length (ws ! s) < length ws"
proof -
  have "set (prefixes (ws ! s)) \<subseteq> set ws"
    using trie_prefix [OF assms(1) nth_mem [OF assms(2)]] by auto
  then have "card (set (prefixes (ws ! s))) \<le> card (set ws)" by (intro card_mono) simp_all
  moreover have "card (set (prefixes (ws ! s))) = length (ws ! s) + 1"
    by (simp add: distinct_card)
  ultimately show ?thesis using trieD(4) [OF assms(1)] by (simp add: distinct_card)
qed

section \<open>Following failure links\<close>

text \<open>From a node whose shallower nodes have their links, the loop finds the longest suffix.\<close>

lemma advance_loop_tracks:
  assumes "trie (m_nodes m) ws" and "r < length ws" and "length (ws ! r) < fuel"
    and "\<forall>u < length ws. u \<noteq> 0 \<and> length (ws ! u) \<le> length (ws ! r) \<longrightarrow> fails_to ws u (node_fail (m_nodes m ! u))"
  shows "\<exists>f. advance_loop fuel m r b = Some f \<and> tracks ws f (ws ! r @ [b])"
  using assms(2-)
proof (induction fuel arbitrary: r)
  case (Suc fuel)
  note t = trieD [OF assms(1)] and edge = trie_edge [OF assms(1)]
  show ?case
  proof (cases "edge m r b")
    case (Some f)
    then have "tracks ws f (ws ! r @ [b])" using edge [OF Suc.prems(1)] by (auto simp: tracks_def dest: suffix_length_le)
    then show ?thesis using Some by (cases "r = 0") auto
  next
    case None
    then have no: "ws ! r @ [b] \<notin> set ws" using trie_edge_None [OF assms(1) Suc.prems(1)] by simp
    show ?thesis
    proof (cases "r = 0")
      case True
      have "tracks ws 0 (ws ! r @ [b])"
        using True no t(1-3,5) by (auto simp: tracks_def suffix_Cons)
      then show ?thesis using True None by simp
    next
      case False
      let ?q = "node_fail (m_nodes m ! r)"
      have q: "fails_to ws r ?q" using Suc.prems(1,3) False by simp
      then have shorter: "length (ws ! ?q) < length (ws ! r)" "?q < length ws"
        by (auto simp: fails_to_def strict_suffix_def dest: suffix_length_le intro: le_neq_implies_less simp: suffix_def)
      have "\<forall>u < length ws. u \<noteq> 0 \<and> length (ws ! u) \<le> length (ws ! ?q) \<longrightarrow> fails_to ws u (node_fail (m_nodes m ! u))"
        using Suc.prems(3) shorter by simp
      from Suc.IH [OF shorter(2) _ this] Suc.prems(2) shorter obtain f where
        f: "advance_loop fuel m ?q b = Some f" "tracks ws f (ws ! ?q @ [b])" by auto
      have "length w \<le> length (ws ! f)" if "w \<in> set ws" "suffix w (ws ! r @ [b])" for w
        using that(2)
      proof (cases rule: suffix_snocE)
        case (2 v)
        have "strict_suffix v (ws ! r)" using 2 no that(1) by (auto simp: strict_suffix_def)
        moreover have "v \<in> set ws" using 2 that(1) t(5) by blast
        ultimately have "suffix v (ws ! ?q)" using q 2 by (auto simp: fails_to_def strict_suffix_def intro: suffix_shorter)
        then have "suffix w (ws ! ?q @ [b])" using 2 by (auto simp: suffix_def)
        then show ?thesis using tracksD(3) [OF f(2) that(1)] by blast
      qed simp
      moreover have "suffix (ws ! f) (ws ! r @ [b])"
        using f(2) q by (auto simp: tracks_def fails_to_def strict_suffix_def suffix_def)
      ultimately have "tracks ws f (ws ! r @ [b])" using f(2) by (simp add: tracks_def)
      then show ?thesis using f(1) None False by simp
    qed
  qed
qed simp

text \<open>The loop of \<^verbatim>\<open>newMatcher\<close> with the root case after it is the loop of \<^verbatim>\<open>advance\<close>.\<close>

lemma failure_loop_advance:
  assumes "trie (m_nodes m) ws" and "\<forall>u < length ws. u \<noteq> 0 \<longrightarrow> node_fail (m_nodes m ! u) < length ws" and "r < length ws"
  shows "advance_loop fuel m r b =
    map_option (\<lambda>f. if f = 0 then (case edge m 0 b of Some nxt \<Rightarrow> nxt | None \<Rightarrow> 0) else f) (failure_loop fuel m r b)"
  using assms(3)
proof (induction fuel arbitrary: r)
  case (Suc fuel)
  have "edge m r b \<noteq> Some 0" using trie_edge [OF assms(1) Suc.prems, of b 0] trieD(3) [OF assms(1)] by simp
  then show ?case using Suc assms(2) by (auto split: option.splits)
qed simp

section \<open>The breadth-first walk\<close>

definition linked :: "string set \<Rightarrow> string list \<Rightarrow> acNode list \<Rightarrow> nat set \<Rightarrow> bool" where
  "linked P ws ns A \<longleftrightarrow> (\<forall>s \<in> A. (s \<noteq> 0 \<longrightarrow> fails_to ws s (node_fail (ns ! s)))
     \<and> output_of P (ws ! s) (node_output (ns ! s)) \<and> links_to P ws s (node_outputLink (ns ! s)))"

definition terminals :: "string set \<Rightarrow> string list \<Rightarrow> acNode list \<Rightarrow> bool" where
  "terminals P ws ns \<longleftrightarrow> (\<forall>s < length ws. node_terminal (ns ! s) = (if ws ! s \<in> P then length (ws ! s) else 0))"

text \<open>Extending a node by a byte, on the level of words.\<close>

lemma fails_to_snoc:
  assumes "trie ns ws" and "fails_to ws s r" and "tracks ws f (ws ! r @ [b])" and "ws ! t = ws ! s @ [b]"
  shows "fails_to ws t f"
proof -
  have r: "suffix (ws ! r) (ws ! s)" "length (ws ! r) < length (ws ! s)"
    using assms(2) by (auto simp: fails_to_def strict_suffix_def suffix_def)
  have f: "suffix (ws ! f) (ws ! r @ [b])" using assms(3) by (simp add: tracks_def)
  then have "suffix (ws ! f) (ws ! t)" using r(1) assms(4) by (auto simp: suffix_def)
  moreover have "length (ws ! f) < length (ws ! t)" using suffix_length_le [OF f] r(2) assms(4) by simp
  moreover have "length w \<le> length (ws ! f)" if "w \<in> set ws" "strict_suffix w (ws ! t)" for w
  proof -
    from that(2) have "suffix w (ws ! s @ [b])" by (simp add: strict_suffix_def assms(4))
    then show ?thesis
    proof (cases rule: suffix_snocE)
      case (2 v)
      then have "strict_suffix v (ws ! s)" using that(2) by (auto simp: strict_suffix_def assms(4))
      moreover have "v \<in> set ws" using 2 that(1) trieD(5) [OF assms(1)] by blast
      ultimately have "suffix v (ws ! r)" using assms(2) by (auto simp: fails_to_def strict_suffix_def intro: suffix_shorter)
      then have "suffix w (ws ! r @ [b])" using 2 by (auto simp: suffix_def)
      then show ?thesis using tracksD(3) [OF assms(3) that(1)] by blast
    qed simp
  qed
  ultimately show ?thesis using assms(3) by (auto simp: fails_to_def tracks_def strict_suffix_def)
qed

lemma fails_to_suffix:
  assumes "fails_to ws t f" and "w \<in> set ws" and "strict_suffix w (ws ! t)"
  shows "suffix w (ws ! f)"
  using assms by (auto simp: fails_to_def strict_suffix_def intro: suffix_shorter)

lemma output_of_step:
  assumes "fails_to ws t f" and "P \<subseteq> set ws" and "output_of P (ws ! f) n"
  shows "output_of P (ws ! t) (max (if ws ! t \<in> P then length (ws ! t) else 0) n)"
proof -
  have up: "suffix p (ws ! t)" if "suffix p (ws ! f)" for p
    using that assms(1) by (auto simp: fails_to_def strict_suffix_def dest: suffix_order.trans)
  have "p = ws ! t \<or> length p \<le> n" if "p \<in> P" "suffix p (ws ! t)" for p
    using that assms fails_to_suffix [OF assms(1), of p] by (auto simp: output_of_def strict_suffix_def)
  then show ?thesis using assms(3) up by (auto simp: output_of_def max_def dest: suffix_length_le)
qed

lemma links_to_step:
  assumes "fails_to ws t f" and "P \<subseteq> set ws" and "links_to P ws f l" and "ws ! 0 = []"
  shows "links_to P ws t (if ws ! f \<in> P \<and> ws ! f \<noteq> [] then f else l)"
proof -
  have p: "suffix p (ws ! f)" if "p \<in> P" "strict_suffix p (ws ! t)" for p
    using that assms(2) fails_to_suffix [OF assms(1)] by blast
  show ?thesis
  proof (cases "ws ! f \<in> P \<and> ws ! f \<noteq> []")
    case True
    then show ?thesis using p assms(1) by (auto simp: links_to_def fails_to_def dest: suffix_length_le)
  next
    case False
    then have "length p \<le> length (ws ! l)" if "p \<in> P" "strict_suffix p (ws ! t)" for p
      using p [OF that] that(1) assms(3) by (cases "p = ws ! f") (auto simp: links_to_def strict_suffix_def)
    moreover have "l = 0 \<or> strict_suffix (ws ! l) (ws ! t)"
      using assms(1,3) by (auto simp: links_to_def fails_to_def intro: suffix_order.less_trans)
    ultimately show ?thesis using assms(3) False by (auto simp: links_to_def)
  qed
qed

text \<open>
  During the walk: \<open>A\<close> are the nodes that have their links, \<open>q\<close> the rest of the queue, \<open>ts\<close> the
  children of the node being visited that are still to come, all of depth \<open>d + 1\<close>.
\<close>

definition walking :: "string set \<Rightarrow> string list \<Rightarrow> redactionMatcher \<Rightarrow> nat set \<Rightarrow> nat list \<Rightarrow> nat list \<Rightarrow> nat \<Rightarrow> bool" where
  "walking P ws m A q ts d \<longleftrightarrow>
     trie (m_nodes m) ws \<and> P \<subseteq> set ws \<and> terminals P ws (m_nodes m) \<and> linked P ws (m_nodes m) A
     \<and> A \<subseteq> {..<length ws} \<and> 0 \<in> A \<and> set q \<subseteq> A - {0} \<and> distinct (q @ ts) \<and> set ts \<subseteq> {..<length ws} - A
     \<and> (\<forall>u < length ws. u \<notin> A \<longrightarrow> node_fail (m_nodes m ! u) = 0 \<and> node_output (m_nodes m ! u) = node_terminal (m_nodes m ! u))
     \<and> (\<forall>t \<in> set ts. length (ws ! t) = d + 1)
     \<and> sorted (map (\<lambda>x. length (ws ! x)) q) \<and> (\<forall>x \<in> set q. d \<le> length (ws ! x) \<and> length (ws ! x) \<le> d + 1)
     \<and> (\<forall>u < length ws. u \<notin> A \<longrightarrow> (\<exists>x \<in> set q. strict_prefix (ws ! x) (ws ! u)) \<or> (\<exists>t \<in> set ts. prefix (ws ! t) (ws ! u)))
     \<and> (\<forall>x < length ws. \<forall>u \<in> A. \<forall>b. ws ! u = ws ! x @ [b] \<longrightarrow> x \<in> A)
     \<and> (\<forall>x \<in> set q. \<forall>t < length ws. \<forall>b. ws ! t = ws ! x @ [b] \<longrightarrow> t \<notin> A \<and> t \<notin> set ts)"

lemma set_links_nodes:
  assumes "t < length (m_nodes m)" and "f \<noteq> t"
  shows "m_nodes (set_links t f m) = (m_nodes m)[t := (m_nodes m ! t)\<lparr>node_fail := f,
      node_outputLink := (if 0 < node_terminal (m_nodes m ! f) then f else node_outputLink (m_nodes m ! f)),
      node_output := max (node_output (m_nodes m ! t)) (node_output (m_nodes m ! f))\<rparr>]"
    and "m_maxPattern (set_links t f m) = m_maxPattern m"
  using assms by (auto simp: set_links_def Let_def max_def nth_list_update intro!: arg_cong [where f = "list_update (m_nodes m) t"])

lemma walkingD:
  assumes "walking P ws m A q ts d"
  shows "trie (m_nodes m) ws" "P \<subseteq> set ws" "terminals P ws (m_nodes m)" "linked P ws (m_nodes m) A"
    "A \<subseteq> {..<length ws}" "0 \<in> A" "set q \<subseteq> A - {0}" "distinct (q @ ts)" "set ts \<subseteq> {..<length ws} - A"
    "\<And>u. u < length ws \<Longrightarrow> u \<notin> A \<Longrightarrow> node_fail (m_nodes m ! u) = 0 \<and> node_output (m_nodes m ! u) = node_terminal (m_nodes m ! u)"
    "\<And>t. t \<in> set ts \<Longrightarrow> length (ws ! t) = d + 1"
    "sorted (map (\<lambda>x. length (ws ! x)) q)" "\<And>x. x \<in> set q \<Longrightarrow> d \<le> length (ws ! x) \<and> length (ws ! x) \<le> d + 1"
    "\<And>u. u < length ws \<Longrightarrow> u \<notin> A \<Longrightarrow> (\<exists>x \<in> set q. strict_prefix (ws ! x) (ws ! u)) \<or> (\<exists>t \<in> set ts. prefix (ws ! t) (ws ! u))"
    "\<And>x u b. x < length ws \<Longrightarrow> u \<in> A \<Longrightarrow> ws ! u = ws ! x @ [b] \<Longrightarrow> x \<in> A"
    "\<And>x t b. x \<in> set q \<Longrightarrow> t < length ws \<Longrightarrow> ws ! t = ws ! x @ [b] \<Longrightarrow> t \<notin> A \<and> t \<notin> set ts"
  using assms unfolding walking_def by (elim conjE; (assumption | blast))+

lemma walkingI:
  assumes "trie (m_nodes m) ws" and "P \<subseteq> set ws" and "terminals P ws (m_nodes m)" and "linked P ws (m_nodes m) A" and "A \<subseteq> {..<length ws}" and "0 \<in> A" and "set q \<subseteq> A - {0}" and "distinct (q @ ts)" and "set ts \<subseteq> {..<length ws} - A" and "\<And>u. u < length ws \<Longrightarrow> u \<notin> A \<Longrightarrow> node_fail (m_nodes m ! u) = 0 \<and> node_output (m_nodes m ! u) = node_terminal (m_nodes m ! u)" and "\<And>t. t \<in> set ts \<Longrightarrow> length (ws ! t) = d + 1" and "sorted (map (\<lambda>x. length (ws ! x)) q)" and "\<And>x. x \<in> set q \<Longrightarrow> d \<le> length (ws ! x) \<and> length (ws ! x) \<le> d + 1" and "\<And>u. u < length ws \<Longrightarrow> u \<notin> A \<Longrightarrow> (\<exists>x \<in> set q. strict_prefix (ws ! x) (ws ! u)) \<or> (\<exists>t \<in> set ts. prefix (ws ! t) (ws ! u))" and "\<And>x u b. x < length ws \<Longrightarrow> u \<in> A \<Longrightarrow> ws ! u = ws ! x @ [b] \<Longrightarrow> x \<in> A" and "\<And>x t b. x \<in> set q \<Longrightarrow> t < length ws \<Longrightarrow> ws ! t = ws ! x @ [b] \<Longrightarrow> t \<notin> A \<and> t \<notin> set ts"
  shows "walking P ws m A q ts d"
  unfolding walking_def
  by (intro conjI, (fact assms(1-9))+, use assms(10) in blast, use assms(11) in blast, fact assms(12),
      use assms(13) in blast, use assms(14) in blast, use assms(15) in blast, use assms(16) in blast)

lemma walking_shallow:
  assumes "walking P ws m A q ts d" and "u < length ws" and "length (ws ! u) \<le> d"
  shows "u \<in> A"
proof (rule ccontr)
  assume "u \<notin> A"
  from walkingD(14) [OF assms(1,2) this] show False
  proof
    assume "\<exists>x \<in> set q. strict_prefix (ws ! x) (ws ! u)"
    then show False using walkingD(13) [OF assms(1)] assms(3) by (fastforce dest: prefix_length_less)
  next
    assume "\<exists>t \<in> set ts. prefix (ws ! t) (ws ! u)"
    then show False using walkingD(11) [OF assms(1)] assms(3) by (fastforce dest: prefix_length_le)
  qed
qed

text \<open>The failure link \<^verbatim>\<open>newMatcher\<close> computes for a child of a visited node.\<close>

lemma link_edge_walking:
  assumes w: "walking P ws m A q (t # ts) d" and s: "s \<in> A" "s \<noteq> 0" "length (ws ! s) = d"
    and e: "edge_node e = t" "ws ! t = ws ! s @ [edge_byte e]"
  shows "\<exists>f. link_edge m s e = Some (set_links t f m) \<and> fails_to ws t f \<and> f \<in> A"
proof -
  note wd = walkingD [OF w] and trie = walkingD(1) [OF w]
  let ?b = "edge_byte e" and ?r = "node_fail (m_nodes m ! s)"
  have fails: "fails_to ws u (node_fail (m_nodes m ! u))" if "u < length ws" "u \<noteq> 0" "length (ws ! u) \<le> d" for u
    using walking_shallow [OF w that(1,3)] wd(4) that(2) by (simp add: linked_def)
  have sl: "s < length ws" using s(1) wd(5) by blast
  have r: "fails_to ws s ?r" using fails sl s by simp
  then have rl: "?r < length ws" "length (ws ! ?r) < d" using s(3) by (auto simp: fails_to_def strict_suffix_def suffix_def)
  have range: "\<forall>u < length ws. u \<noteq> 0 \<longrightarrow> node_fail (m_nodes m ! u) < length ws"
  proof (intro allI impI)
    fix u assume "u < length ws" "u \<noteq> 0"
    then show "node_fail (m_nodes m ! u) < length ws"
      using wd(4,10) rl by (cases "u \<in> A") (auto simp: linked_def fails_to_def)
  qed
  from advance_loop_tracks [OF trie rl(1), of "length (m_nodes m)" ?b] fails rl trie_depth [OF trie rl(1)] trieD(1) [OF trie]
  obtain f where f: "advance_loop (length (m_nodes m)) m ?r ?b = Some f" "tracks ws f (ws ! ?r @ [?b])" by auto
  then have ft: "fails_to ws t f" using fails_to_snoc [OF trie r] e(2) by blast
  have "length (ws ! f) \<le> d" using suffix_length_le [OF tracksD(2) [OF f(2)]] rl(2) by simp
  then have fA: "f \<in> A" using walking_shallow [OF w] tracksD(1) [OF f(2)] by blast
  have "edge m 0 ?b \<noteq> Some t"
    using trie_edge [OF trie, of 0 ?b t] e(2) trieD(1-3) [OF trie] trie_root [OF trie sl] s(2) by auto
  moreover obtain g where "failure_loop (length (m_nodes m)) m ?r ?b = Some g"
    "f = (if g = 0 then (case edge m 0 ?b of Some nxt \<Rightarrow> nxt | None \<Rightarrow> 0) else g)"
    using f(1) unfolding failure_loop_advance [OF trie range rl(1)] by auto
  ultimately have "link_edge m s e = Some (set_links t f m)"
    by (simp add: link_edge_def e(1) split: option.splits)
  then show ?thesis using ft fA by blast
qed

lemma linked_step:
  assumes w: "walking P ws m A q (t # ts) d" and f: "fails_to ws t f" "f \<in> A"
  shows "linked P ws (m_nodes (set_links t f m)) (insert t A)"
proof -
  note wd = walkingD [OF w]
  note l = wd(4) [unfolded linked_def]
  have t: "t < length ws" "t < length (m_nodes m)" "t \<notin> A" using wd(9) trieD(1) [OF wd(1)] by auto
  then have ft: "f \<noteq> t" "f < length ws" using f wd(5) by auto
  have mark: "node_terminal (m_nodes m ! u) = (if ws ! u \<in> P then length (ws ! u) else 0)" if "u < length ws" for u
    using wd(3) that by (simp add: terminals_def)
  have out: "output_of P (ws ! t) (max (node_output (m_nodes m ! t)) (node_output (m_nodes m ! f)))"
    using output_of_step [OF f(1) wd(2), of "node_output (m_nodes m ! f)"] l f(2) wd(10) [OF t(1,3)] mark [OF t(1)] by simp
  have link: "links_to P ws t (if 0 < node_terminal (m_nodes m ! f) then f else node_outputLink (m_nodes m ! f))"
    using links_to_step [OF f(1) wd(2), of "node_outputLink (m_nodes m ! f)"] l f(2) trieD(3) [OF wd(1)] mark [OF ft(2)]
    by (simp split: if_splits)
  have "m_nodes (set_links t f m) ! u = m_nodes m ! u" if "u \<in> A" for u
    using that t ft(1) by (cases "t = u") (simp_all add: set_links_nodes)
  then show ?thesis
    using l out link f(1) t ft by (simp add: linked_def set_links_nodes)
qed

lemma walking_link:
  assumes w: "walking P ws m A q (t # ts) d" and s: "s \<in> A" "length (ws ! s) = d" "ws ! t = ws ! s @ [b]"
    and f: "fails_to ws t f" "f \<in> A"
  shows "walking P ws (set_links t f m) (insert t A) (q @ [t]) ts d"
proof -
  note wd = walkingD [OF w] and tr = trieD [OF walkingD(1) [OF w]]
  have t: "t < length ws" "t < length (m_nodes m)" "t \<notin> A" using wd(9) tr(1) by auto
  have ft: "f \<noteq> t" using f(2) t(3) by blast
  note links = set_links_nodes [OF t(2) ft]
  have sl: "s < length ws" using s(1) wd(5) by blast
  have same: "ws ! u = ws ! v \<longleftrightarrow> u = v" if "u < length ws" "v < length ws" for u v
    using that tr(4) by (simp add: nth_eq_iff_index_eq)
  have "map node_edges (m_nodes (set_links t f m)) = map node_edges (m_nodes m)"
    using t(2) unfolding links by (auto intro!: nth_equalityI simp: nth_list_update)
  then have c1: "trie (m_nodes (set_links t f m)) ws" using wd(1) trie_edges_cong by blast
  have c3: "terminals P ws (m_nodes (set_links t f m))"
    using wd(3) t(2) unfolding links terminals_def by (auto simp: nth_list_update)
  have c10: "node_fail (m_nodes (set_links t f m) ! u) = 0
      \<and> node_output (m_nodes (set_links t f m) ! u) = node_terminal (m_nodes (set_links t f m) ! u)"
    if "u < length ws" "u \<notin> insert t A" for u
    using wd(10) that unfolding links by simp
  have c14: "(\<exists>x \<in> set (q @ [t]). strict_prefix (ws ! x) (ws ! u)) \<or> (\<exists>t \<in> set ts. prefix (ws ! t) (ws ! u))"
    if "u < length ws" "u \<notin> insert t A" for u
    using wd(14) [of u] that same [OF t(1)] by (auto simp: strict_prefix_def)
  have c15: "x \<in> insert t A" if "x < length ws" "u \<in> insert t A" "ws ! u = ws ! x @ [c]" for x u c
    using that wd(15) [of x u c] s same [OF sl that(1)] by auto
  have c16: "k \<notin> insert t A \<and> k \<notin> set ts" if "x \<in> set (q @ [t])" "k < length ws" "ws ! k = ws ! x @ [c]" for x k c
  proof (cases "x = t")
    case True
    have "k \<notin> A" using wd(15) [OF t(1) _ that(3) [unfolded True]] t(3) by blast
    moreover have "length (ws ! k) = d + 2" using that(3) True wd(11) [of t] by simp
    then have "k \<notin> set (t # ts)" using wd(11) [of k] by auto
    ultimately show ?thesis by simp
  next
    case False
    then show ?thesis using that wd(16) [of x k c] by auto
  qed
  have c12: "sorted (map (\<lambda>x. length (ws ! x)) (q @ [t]))"
    using wd(11) [of t] wd(12,13) by (auto simp: sorted_append)
  have c: "insert t A \<subseteq> {..<length ws}" "0 \<in> insert t A" "set (q @ [t]) \<subseteq> insert t A - {0}" "distinct ((q @ [t]) @ ts)"
    "set ts \<subseteq> {..<length ws} - insert t A" "\<And>t. t \<in> set ts \<Longrightarrow> length (ws ! t) = d + 1"
    "\<And>x. x \<in> set (q @ [t]) \<Longrightarrow> d \<le> length (ws ! x) \<and> length (ws ! x) \<le> d + 1"
    using wd(5-9,11,13) t by (auto simp: subset_iff)
  show ?thesis
    by (rule walkingI [OF c1 wd(2) c3 linked_step [OF w f] c(1-5) c10 c(6) c12 c(7) c14 c15 c16])
qed

lemma walking_edges:
  assumes "walking P ws m A q (map edge_node es) d" and "s \<in> A" "s \<noteq> 0" "length (ws ! s) = d"
    and "\<forall>e \<in> set es. ws ! edge_node e = ws ! s @ [edge_byte e]"
  shows "\<exists>m' . link_edges m s es q = Some (m', q @ map edge_node es)
    \<and> walking P ws m' (A \<union> set (map edge_node es)) (q @ map edge_node es) [] d \<and> m_maxPattern m' = m_maxPattern m"
  using assms
proof (induction es arbitrary: m A q)
  case (Cons e es)
  from link_edge_walking [of P ws m A q "edge_node e" "map edge_node es" d s e] Cons.prems obtain f where
    f: "link_edge m s e = Some (set_links (edge_node e) f m)" "fails_to ws (edge_node e) f" "f \<in> A" by auto
  let ?m = "set_links (edge_node e) f m"
  have w: "walking P ws ?m (insert (edge_node e) A) (q @ [edge_node e]) (map edge_node es) d"
    using walking_link [of P ws m A q "edge_node e" "map edge_node es" d s "edge_byte e" f] Cons.prems f by simp
  have "edge_node e < length (m_nodes m)" "edge_node e \<notin> A"
    using walkingD(9) [OF Cons.prems(1)] trieD(1) [OF walkingD(1) [OF Cons.prems(1)]] by auto
  then have "m_maxPattern ?m = m_maxPattern m" using f(3) set_links_nodes(2) by metis
  then show ?case using Cons.IH [OF w] Cons.prems f by auto
qed simp

lemma walking_pop:
  assumes "walking P ws m A (s # q) [] c"
  shows "walking P ws m A q (map edge_node (node_edges (m_nodes m ! s))) (length (ws ! s))"
    and "\<forall>e \<in> set (node_edges (m_nodes m ! s)). ws ! edge_node e = ws ! s @ [edge_byte e]"
proof -
  note wd = walkingD [OF assms] and tr = trieD [OF walkingD(1) [OF assms]]
  let ?es = "node_edges (m_nodes m ! s)"
  have sl: "s < length ws" "s \<in> A" "s \<notin> set q" using wd(5,7,8) by auto
  note child = trie_child [OF wd(1) sl(1)] and children = trie_children [OF wd(1) sl(1)]
  then show "\<forall>e \<in> set ?es. ws ! edge_node e = ws ! s @ [edge_byte e]" by blast
  have fresh: "k \<notin> A" "length (ws ! k) = length (ws ! s) + 1" "k < length ws" if "k \<in> set (map edge_node ?es)" for k
    using that child wd(16) [of s k] by auto
  have c8: "distinct (q @ map edge_node ?es)" using wd(7,8) fresh(1) trie_children_distinct [OF wd(1) sl(1)] by fastforce
  have c7: "set q \<subseteq> A - {0}" using wd(7) by simp
  have c9: "set (map edge_node ?es) \<subseteq> {..<length ws} - A" using fresh by blast
  have c12: "sorted (map (\<lambda>x. length (ws ! x)) q)" using wd(12) by simp
  have c13: "length (ws ! s) \<le> length (ws ! x) \<and> length (ws ! x) \<le> length (ws ! s) + 1" if "x \<in> set q" for x
    using wd(12) wd(13) [of x] wd(13) [of s] that by auto
  have c14: "(\<exists>x \<in> set q. strict_prefix (ws ! x) (ws ! u)) \<or> (\<exists>t \<in> set (map edge_node ?es). prefix (ws ! t) (ws ! u))"
    if u: "u < length ws" "u \<notin> A" for u
  proof -
    from wd(14) [OF u] consider "\<exists>x \<in> set q. strict_prefix (ws ! x) (ws ! u)" | "strict_prefix (ws ! s) (ws ! u)" by auto
    then show ?thesis
    proof cases
      case 2
      then obtain b r where br: "ws ! u = ws ! s @ b # r" by (auto elim: strict_prefixE')
      then have pre: "prefix (ws ! s @ [b]) (ws ! u)" by simp
      then have "ws ! s @ [b] \<in> set ws" using trie_prefix [OF wd(1) nth_mem [OF u(1)]] by blast
      then obtain k where "k < length ws" "ws ! k = ws ! s @ [b]" by (metis in_set_conv_nth)
      then have "k \<in> set (map edge_node ?es)" using children by blast
      then show ?thesis using pre \<open>ws ! k = _\<close> by metis
    qed blast
  qed
  have c16: "k \<notin> A \<and> k \<notin> set (map edge_node ?es)" if x: "x \<in> set q" "k < length ws" "ws ! k = ws ! x @ [b]" for x k b
  proof -
    have "k \<notin> A" using wd(16) [of x k b] x by simp
    moreover have False if "k \<in> set (map edge_node ?es)"
    proof -
      have "ws ! x = ws ! s" using that child x(3) by auto
      then have "x = s" using tr(4) sl(1) x(1) wd(5,7) by (metis DiffD1 list.set_intros(2) lessThan_iff nth_eq_iff_index_eq subsetD)
      then show False using sl(3) x(1) by blast
    qed
    ultimately show ?thesis by blast
  qed
  show "walking P ws m A q (map edge_node ?es) (length (ws ! s))"
    by (rule walkingI [OF wd(1-6) c7 c8 c9 wd(10) fresh(2) c12 c13 c14 wd(15) c16])
qed

lemma link_nodes_walking:
  assumes "walking P ws m A q [] d" and "length q + card ({..<length ws} - A) \<le> fuel"
  shows "\<exists>m' c. link_nodes fuel m q = Some m' \<and> walking P ws m' {..<length ws} [] [] c \<and> m_maxPattern m' = m_maxPattern m"
  using assms
proof (induction fuel arbitrary: m A q d)
  case 0
  then have "q = []" by simp
  moreover have "A = {..<length ws}" using walkingD(5,14) [OF 0(1)] \<open>q = []\<close> by auto
  ultimately show ?case using 0 by auto
next
  case (Suc fuel)
  show ?case
  proof (cases q)
    case Nil
    have "A = {..<length ws}" using walkingD(5,14) [OF Suc(2)] Nil by auto
    then show ?thesis using Suc(2) Nil by auto
  next
    case (Cons s q')
    let ?ts = "map edge_node (node_edges (m_nodes m ! s))"
    note pop = walking_pop [OF Suc(2) [unfolded Cons]]
    have "s \<in> A" "s \<noteq> 0" using walkingD(7) [OF Suc(2)] Cons by auto
    from walking_edges [OF pop(1) this refl pop(2)] obtain m1 where
      m1: "link_edges m s (node_edges (m_nodes m ! s)) q' = Some (m1, q' @ ?ts)" "m_maxPattern m1 = m_maxPattern m"
        "walking P ws m1 (A \<union> set ?ts) (q' @ ?ts) [] (length (ws ! s))" by blast
    have "set ?ts \<subseteq> {..<length ws} - A" "distinct ?ts" using walkingD(8,9) [OF pop(1)] by auto
    then have "card ({..<length ws} - (A \<union> set ?ts)) + length ?ts = card ({..<length ws} - A)"
      using card_Diff_subset [of "set ?ts" "{..<length ws} - A"] card_mono [of "{..<length ws} - A" "set ?ts"]
      by (simp add: Diff_eq Int_assoc distinct_card del: set_map)
    then have "length (q' @ ?ts) + card ({..<length ws} - (A \<union> set ?ts)) \<le> fuel" using Suc(3) Cons by simp
    from Suc.IH [OF m1(3) this] m1(1,2) Cons show ?thesis by auto
  qed
qed

section \<open>The finished automaton\<close>

text \<open>What \<^verbatim>\<open>newMatcher\<close> promises of its result, with the words of its nodes.\<close>

definition automaton :: "string set \<Rightarrow> string list \<Rightarrow> redactionMatcher \<Rightarrow> bool" where
  "automaton P ws m \<longleftrightarrow>
     trie (m_nodes m) ws \<and> P \<subseteq> set ws \<and> terminals P ws (m_nodes m) \<and> linked P ws (m_nodes m) {..<length ws}
     \<and> (\<forall>p \<in> P. length p \<le> m_maxPattern m) \<and> (m_maxPattern m = 0 \<or> (\<exists>p \<in> P. length p = m_maxPattern m))"

lemma planted_walking:
  assumes "planted P m ws"
  shows "walking P ws m (insert 0 (set (map edge_node (node_edges (m_nodes m ! 0))))) (map edge_node (node_edges (m_nodes m ! 0))) [] 1"
proof -
  have tr: "trie (m_nodes m) ws" and P: "P \<subseteq> set ws" using assms by (simp_all add: planted_def)
  let ?q = "map edge_node (node_edges (m_nodes m ! 0))" let ?A = "insert 0 (set ?q)"
  note t = trieD [OF tr]
  have rl: "0 < length ws" using t(1,2) by simp
  have q: "k \<in> set ?q \<longleftrightarrow> k < length ws \<and> length (ws ! k) = 1" for k
    using trie_children [OF tr rl, of k] t(3) by (auto simp: length_Suc_conv)
  have A: "k \<in> ?A \<longleftrightarrow> k < length ws \<and> length (ws ! k) \<le> 1" for k
    using q [of k] trie_root [OF tr, of k] rl t(3) by (auto simp: le_Suc_eq)
  have fields: "node_fail (m_nodes m ! s) = 0" "node_outputLink (m_nodes m ! s) = 0"
    "node_terminal (m_nodes m ! s) = (if ws ! s \<in> P then length (ws ! s) else 0)"
    "node_output (m_nodes m ! s) = node_terminal (m_nodes m ! s)" if "s < length ws" for s
    using assms that by (auto simp: planted_def marks_def)
  have c3: "terminals P ws (m_nodes m)" using fields(3) by (simp add: terminals_def)
  have c4: "linked P ws (m_nodes m) ?A"
    unfolding linked_def
  proof (intro ballI conjI impI)
    fix s assume "s \<in> ?A"
    then have s: "s < length ws" "length (ws ! s) \<le> 1" using A by blast+
    have short: "length w = 0" if "strict_suffix w (ws ! s)" for w
      using that s(2) by (auto simp: strict_suffix_def suffix_def neq_Nil_conv)
    show "output_of P (ws ! s) (node_output (m_nodes m ! s))"
      using fields(3,4) [OF s(1)] short by (fastforce simp: output_of_def strict_suffix_def)
    show "links_to P ws s (node_outputLink (m_nodes m ! s))"
      using fields(2) [OF s(1)] short rl by (fastforce simp: links_to_def)
    assume "s \<noteq> 0"
    then have "strict_suffix [] (ws ! s)" using trie_root [OF tr s(1)] by (simp add: strict_suffix_def)
    then show "fails_to ws s (node_fail (m_nodes m ! s))"
      using fields(1) [OF s(1)] short rl t(3) by (fastforce simp: fails_to_def)
  qed
  have c14: "(\<exists>x \<in> set ?q. strict_prefix (ws ! x) (ws ! u)) \<or> (\<exists>k \<in> set []. prefix (ws ! k) (ws ! u))"
    if "u < length ws" "u \<notin> ?A" for u
  proof -
    have long: "1 < length (ws ! u)" using A that by (meson not_le)
    then have pre: "prefix (take 1 (ws ! u)) (ws ! u)" by (simp add: take_is_prefix)
    then have "take 1 (ws ! u) \<in> set ws" using trie_prefix [OF tr nth_mem [OF that(1)]] by blast
    then obtain k where "k < length ws" "ws ! k = take 1 (ws ! u)" by (metis in_set_conv_nth)
    then have "k \<in> set ?q" "strict_prefix (ws ! k) (ws ! u)" using q pre long by (auto simp: strict_prefix_def)
    then show ?thesis by blast
  qed
  have c15: "x \<in> ?A" if "x < length ws" "u \<in> ?A" "ws ! u = ws ! x @ [b]" for x u b
    using that A [of u] A [of x] by simp
  have c16: "k \<notin> ?A \<and> k \<notin> set []" if "x \<in> set ?q" "k < length ws" "ws ! k = ws ! x @ [b]" for x k b
    using that q [of x] A [of k] by simp
  have c7: "set ?q \<subseteq> ?A - {0}" using q [of 0] t(3) by auto
  have "map (\<lambda>x. length (ws ! x)) ?q = map (\<lambda>_. 1) ?q" using q by (intro map_cong [OF refl]) blast
  then have c12: "sorted (map (\<lambda>x. length (ws ! x)) ?q)" by (metis map_replicate_const sorted_replicate)
  have c8: "distinct (?q @ [])" using trie_children_distinct [OF tr rl] by simp
  have c5: "?A \<subseteq> {..<length ws}" "0 \<in> ?A" "set [] \<subseteq> {..<length ws} - ?A" using A by auto
  have c10: "node_fail (m_nodes m ! u) = 0 \<and> node_output (m_nodes m ! u) = node_terminal (m_nodes m ! u)"
    if "u < length ws" "u \<notin> ?A" for u using fields [OF that(1)] by simp
  have c13: "1 \<le> length (ws ! x) \<and> length (ws ! x) \<le> 1 + 1" if "x \<in> set ?q" for x using q that by simp
  show ?thesis by (rule walkingI [OF tr P c3 c4 c5(1,2) c7 c8 c5(3) c10 _ c12 c13 c14 c15 c16]) simp_all
qed

text \<open>The node limit, and with it the longest pattern.\<close>

lemma insert_bytes_limit:
  "insert_bytes m s bs = Some (m', s') \<Longrightarrow> int (length (m_nodes m)) \<le> MaxRedactionNodes \<Longrightarrow> int (length (m_nodes m')) \<le> MaxRedactionNodes"
proof (induction bs arbitrary: m s)
  case (Cons b bs)
  from Cons.prems(1) obtain m1 s1 where 1: "insert_byte m s b = Some (m1, s1)" "insert_bytes m1 s1 bs = Some (m', s')"
    by (auto split: option.splits)
  have "int (length (m_nodes m1)) \<le> MaxRedactionNodes"
    using 1(1) Cons.prems(2) by (auto simp: insert_byte_def Let_def split: option.splits if_splits)
  then show ?case using Cons.IH 1(2) by blast
qed simp

lemma insert_patterns_limit:
  "insert_patterns m ps = Some m' \<Longrightarrow> int (length (m_nodes m)) \<le> MaxRedactionNodes \<Longrightarrow> int (length (m_nodes m')) \<le> MaxRedactionNodes"
proof (induction ps arbitrary: m)
  case (Cons p ps)
  from Cons.prems(1) obtain m1 where 1: "insert_pattern m p = Some m1" "insert_patterns m1 ps = Some m'"
    by (auto split: option.splits)
  have "int (length (m_nodes m1)) \<le> MaxRedactionNodes"
    using 1(1) Cons.prems(2) by (auto simp: insert_pattern_def mark_terminal_def Let_def dest!: insert_bytes_limit split: option.splits if_splits)
  then show ?case using Cons.IH 1(2) by blast
qed simp

text \<open>\<^verbatim>\<open>newMatcher\<close> ends, and what it returns is the automaton of the patterns.\<close>

lemma newMatcher_cases:
  "newMatcher ps = Inl ErrRedaction
   \<or> (\<exists>m ws. newMatcher ps = Inr m \<and> automaton (set ps) ws m \<and> int (length ws) \<le> MaxRedactionNodes)"
proof (cases "insert_patterns \<lparr>m_nodes = [zero_node], m_maxPattern = 0\<rparr> ps")
  case (Some m)
  let ?q = "map edge_node (node_edges (m_nodes m ! 0))"
  from insert_patterns_planted [OF planted_root Some] obtain ws where ws: "planted (set ps) m ws" by auto
  then have tr: "trie (m_nodes m) ws" by (simp add: planted_def)
  note w = planted_walking [OF ws]
  have sub: "set ?q \<subseteq> {..<length ws} - {0}" using walkingD(5,7) [OF w] by auto
  moreover have "distinct ?q" using walkingD(8) [OF w] by simp
  moreover have "{..<length ws} - insert 0 (set ?q) = {..<length ws} - {0} - set ?q" by blast
  ultimately have "length ?q + card ({..<length ws} - insert 0 (set ?q)) = card ({..<length ws} - {0})"
    using card_mono [OF _ sub] by (simp add: card_Diff_subset distinct_card del: set_map)
  also have "\<dots> \<le> length (m_nodes m)" using trieD(1) [OF tr] card_Diff1_le [of "{..<length ws}" 0] by simp
  finally obtain m' c where m': "link_nodes (length (m_nodes m)) m ?q = Some m'" "m_maxPattern m' = m_maxPattern m"
      "walking (set ps) ws m' {..<length ws} [] [] c"
    using link_nodes_walking [OF w] by blast
  then have "newMatcher ps = Inr m'" by (simp add: newMatcher_def Some)
  moreover have "automaton (set ps) ws m'"
    using walkingD(1-4) [OF m'(3)] ws m'(2) by (simp add: automaton_def planted_def)
  moreover have "int (length ws) \<le> MaxRedactionNodes"
    using insert_patterns_limit [OF Some] trieD(1) [OF tr] by (simp add: MaxRedactionNodes_def)
  ultimately show ?thesis by blast
qed (simp add: newMatcher_def)

lemma newMatcher_maxPattern:
  assumes "newMatcher ps = Inr m"
  shows "int (m_maxPattern m) < MaxRedactionNodes"
proof -
  from newMatcher_cases [of ps] assms obtain ws where a: "automaton (set ps) ws m" and l: "int (length ws) \<le> MaxRedactionNodes" by auto
  have tr: "trie (m_nodes m) ws" using a by (simp add: automaton_def)
  have "m_maxPattern m = 0 \<or> (\<exists>s < length ws. length (ws ! s) = m_maxPattern m)"
    using a by (auto simp: automaton_def subset_iff) (metis in_set_conv_nth)
  then have "m_maxPattern m < length ws" using trie_depth [OF tr] trieD(1,2) [OF tr] by fastforce
  then show ?thesis using l by simp
qed

section \<open>Scanning\<close>

lemma automaton_start: "automaton P ws m \<Longrightarrow> tracks ws 0 []"
  using trieD(1-3) [of "m_nodes m" ws] by (auto simp: automaton_def tracks_def simp flip: length_greater_0_conv)

lemma automaton_advance:
  assumes "automaton P ws m" and "tracks ws s x"
  shows "\<exists>s'. advance m s b = Some s' \<and> tracks ws s' (x @ [b])"
proof -
  have tr: "trie (m_nodes m) ws" and l: "linked P ws (m_nodes m) {..<length ws}" using assms(1) by (simp_all add: automaton_def)
  note s = tracksD [OF assms(2)]
  have "\<forall>u < length ws. u \<noteq> 0 \<and> length (ws ! u) \<le> length (ws ! s) \<longrightarrow> fails_to ws u (node_fail (m_nodes m ! u))"
    using l by (simp add: linked_def)
  from advance_loop_tracks [OF tr s(1) _ this, of "length (m_nodes m)" b] trie_depth [OF tr s(1)] trieD(1) [OF tr]
  obtain s' where s': "advance m s b = Some s'" "tracks ws s' (ws ! s @ [b])" by (auto simp: advance_def)
  have "length w \<le> length (ws ! s')" if w: "w \<in> set ws" "suffix w (x @ [b])" for w
    using w(2)
  proof (cases rule: suffix_snocE)
    case (2 v)
    then have "suffix v (ws ! s)" using w(1) trieD(5) [OF tr] s by (meson suffix_shorter)
    then have "suffix w (ws ! s @ [b])" using 2 by (auto simp: suffix_def)
    then show ?thesis using tracksD(3) [OF s'(2) w(1)] by blast
  qed simp
  moreover have "suffix (ws ! s') (x @ [b])" using tracksD(2) [OF s'(2)] s(2) by (auto simp: suffix_def)
  ultimately show ?thesis using s' by (auto simp: tracks_def simp del: suffix_snoc)
qed

lemma tracks_suffix: "tracks ws s x \<Longrightarrow> w \<in> set ws \<Longrightarrow> suffix w x \<longleftrightarrow> suffix w (ws ! s)"
  using tracksD suffix_shorter suffix_order.trans by metis

lemma automaton_output:
  assumes "automaton P ws m" and "tracks ws s x"
  shows "output_of P x (node_output (m_nodes m ! s))"
  using assms tracks_suffix [OF assms(2)] tracksD(1) [OF assms(2)]
  by (auto simp: automaton_def linked_def output_of_def subset_iff)

end
