(* ===== verification/Redaction_Writer.thy ===== *)
theory Redaction_Writer
  imports Redaction_Matcher Server_Identity "HOL-Library.Word"
begin

text \<open>
  The streaming writer of \<^verbatim>\<open>internal/crypto/redactor.go\<close>.  The destination is an \<^verbatim>\<open>io.Writer\<close>, an
  argument: a function of the calls it has answered so far and of the bytes offered, giving the count
  and whether there was an error.  The writer keeps the calls it made.  An operation returns its
  error, if any, with the state it leaves.  Stream offsets are unbounded integers; the match-work
  counters are 64-bit words.
\<close>

section \<open>The destination\<close>

type_synonym dst_calls = "(string \<times> int) list"
type_synonym io_writer = "dst_calls \<Rightarrow> string \<Rightarrow> int \<times> bool"

text \<open>The bytes a destination reported as written.\<close>

definition received :: "dst_calls \<Rightarrow> string" where
  "received calls = concat (map (\<lambda>(data, n). take (nat n) data) calls)"

function writeAll :: "io_writer \<Rightarrow> dst_calls \<Rightarrow> string \<Rightarrow> redaction_error option \<times> dst_calls" where
  "writeAll dst calls data =
     (if data = [] then (None, calls)
      else
        (let n = fst (dst calls data); calls1 = calls @ [(data, n)]
         in if n < 0 \<or> int (length data) < n then (Some ErrRedaction, calls1)
            else if snd (dst calls data) then (Some ErrSink, calls1)
            else if n = 0 then (Some ErrShortWrite, calls1)
            else writeAll dst calls1 (drop (nat n) data)))"
  by pat_completeness auto

termination
  by (relation "measure (\<lambda>(dst, calls, data). length data)") auto

declare writeAll.simps [simp del]

section \<open>The patterns\<close>

definition Redacted :: string where
  "Redacted = ''[REDACTED]''"

definition MaxRedactionPatterns :: int where
  "MaxRedactionPatterns = 4096"

definition MaxRedactionRawBytes :: int where
  "MaxRedactionRawBytes = 8388608"

definition redactionChunk :: int where
  "redactionChunk = 32768"

function indexBytes_from :: "nat \<Rightarrow> string \<Rightarrow> string \<Rightarrow> int" where
  "indexBytes_from i haystack needle =
     (if i + length needle \<le> length haystack then
        (if take (length needle) (drop i haystack) = needle then int i else indexBytes_from (i + 1) haystack needle)
      else - 1)"
  by pat_completeness auto

termination
  by (relation "measure (\<lambda>(i, haystack, needle). length haystack + 1 - i)") auto

declare indexBytes_from.simps [simp del]

definition indexBytes :: "string \<Rightarrow> string \<Rightarrow> int" where
  "indexBytes haystack needle = indexBytes_from 0 haystack needle"

definition containsMarkerConflict :: "string \<Rightarrow> bool" where
  "containsMarkerConflict p \<longleftrightarrow> 0 < length p \<and> 0 \<le> indexBytes Redacted p"

text \<open>
  The standard base64 alphabet differs from the URL one in its last two characters;
  \<^verbatim>\<open>base64.StdEncoding\<close> pads to a multiple of four.
\<close>

definition std_char :: "char \<Rightarrow> char" where
  "std_char c = (if c = CHR ''-'' then CHR ''+'' else if c = CHR ''_'' then CHR ''/'' else c)"

definition RawStdEncoding :: "string \<Rightarrow> string" where
  "RawStdEncoding s = map std_char (b64_encode s)"

definition StdEncoding :: "string \<Rightarrow> string" where
  "StdEncoding s = RawStdEncoding s @ replicate ((3 - length s mod 3) mod 3) (CHR ''='')"

definition value_patterns :: "string \<Rightarrow> string list" where
  "value_patterns v = [v, StdEncoding v, RawStdEncoding v]"

fun add_patterns :: "string list \<Rightarrow> string list \<Rightarrow> string list option" where
  "add_patterns [] patterns = Some patterns"
| "add_patterns (p # ps) patterns =
     (if p \<in> set patterns then add_patterns ps patterns
      else if MaxRedactionPatterns \<le> int (length patterns) then None
      else if containsMarkerConflict p then None
      else add_patterns ps (patterns @ [p]))"

fun collect_patterns :: "string list \<Rightarrow> int \<Rightarrow> string list \<Rightarrow> string list option" where
  "collect_patterns [] used patterns = Some patterns"
| "collect_patterns (v # vs) used patterns =
     (if length v = 0 then collect_patterns vs used patterns
      else if MaxRedactionRawBytes - used < int (length v) then None
      else (case add_patterns (value_patterns v) patterns of
              None \<Rightarrow> None
            | Some patterns1 \<Rightarrow> collect_patterns vs (used + int (length v)) patterns1))"

definition redactionPatterns :: "string list \<Rightarrow> string list option" where
  "redactionPatterns vs = collect_patterns vs 0 []"

section \<open>State\<close>

record redactingWriter =
  w_dst :: io_writer
  w_calls :: dst_calls
  w_matcher :: redactionMatcher
  w_sourceState :: nat
  w_sourceOffset :: int
  w_sourceTransitions :: "64 word"
  w_pending :: string
  w_pendingBase :: int
  w_candidateStarts :: "int list"
  w_candidateLengths :: "nat list"
  w_matchWork :: "64 word"
  w_safety :: redactionMatcher
  w_safetyState :: nat
  w_safePending :: string
  w_failed :: bool

definition initial_writer :: "io_writer \<Rightarrow> redactionMatcher \<Rightarrow> redactingWriter" where
  "initial_writer dst m =
     \<lparr>w_dst = dst, w_calls = [], w_matcher = m, w_sourceState = 0, w_sourceOffset = 0, w_sourceTransitions = 0,
      w_pending = [], w_pendingBase = 0, w_candidateStarts = replicate (m_maxPattern m) 0,
      w_candidateLengths = replicate (m_maxPattern m) 0, w_matchWork = 0, w_safety = m, w_safetyState = 0,
      w_safePending = [], w_failed = False\<rparr>"

definition NewRedactingWriter :: "io_writer option \<Rightarrow> string list \<Rightarrow> redaction_error + redactingWriter" where
  "NewRedactingWriter dst vs =
     (case dst of
        None \<Rightarrow> Inl ErrRedaction
      | Some d \<Rightarrow>
          (case redactionPatterns vs of
             None \<Rightarrow> Inl ErrRedaction
           | Some patterns \<Rightarrow>
               (case newMatcher patterns of
                  Inl Diverges \<Rightarrow> Inl Diverges
                | Inl _ \<Rightarrow> Inl ErrRedaction
                | Inr m \<Rightarrow> Inr (initial_writer d m))))"

section \<open>Match work\<close>

definition maxRedactionWork :: "64 word" where
  "maxRedactionWork = - 1"

definition redactionMatchWorkLimit :: "64 word \<Rightarrow> 64 word option" where
  "redactionMatchWorkLimit transitions =
     (if (maxRedactionWork - 4096) div 8 < transitions then None else Some (4096 + transitions * 8))"

definition consumeMatchWork :: "redactingWriter \<Rightarrow> bool \<times> redactingWriter" where
  "consumeMatchWork w =
     (if w_matchWork w = maxRedactionWork then (False, w)
      else
        (let w1 = w\<lparr>w_matchWork := w_matchWork w + 1\<rparr>
         in case redactionMatchWorkLimit (w_sourceTransitions w1) of
              None \<Rightarrow> (False, w1)
            | Some limit \<Rightarrow> (w_matchWork w1 \<le> limit, w1)))"

section \<open>Recording matches\<close>

definition candidate_index :: "redactingWriter \<Rightarrow> int \<Rightarrow> nat" where
  "candidate_index w start = nat (start mod int (length (w_candidateLengths w)))"

definition set_candidate :: "nat \<Rightarrow> int \<Rightarrow> nat \<Rightarrow> redactingWriter \<Rightarrow> redactingWriter" where
  "set_candidate i start len w =
     w\<lparr>w_candidateStarts := (w_candidateStarts w)[i := start], w_candidateLengths := (w_candidateLengths w)[i := len]\<rparr>"

definition recordMatch :: "int \<Rightarrow> nat \<Rightarrow> redactingWriter \<Rightarrow> redactingWriter" where
  "recordMatch start len w =
     (if start < w_pendingBase w then w
      else if w_pendingBase w + int (length (w_candidateLengths w)) \<le> start then w\<lparr>w_failed := True\<rparr>
      else
        (case consumeMatchWork w of
           (False, w1) \<Rightarrow> w1\<lparr>w_failed := True\<rparr>
         | (True, w1) \<Rightarrow>
             let i = candidate_index w1 start
             in if w_candidateStarts w1 ! i \<noteq> start \<or> w_candidateLengths w1 ! i < len
                then set_candidate i start len w1 else w1))"

fun record_loop :: "nat \<Rightarrow> nat \<Rightarrow> redactingWriter \<Rightarrow> redactingWriter option" where
  "record_loop 0 state w = None"
| "record_loop (Suc fuel) state w =
     (if state = 0 then Some w
      else
        (case consumeMatchWork w of
           (False, w1) \<Rightarrow> Some (w1\<lparr>w_failed := True\<rparr>)
         | (True, w1) \<Rightarrow>
             let len = node_terminal (m_nodes (w_matcher w1) ! state);
                 w2 = (if 0 < len then recordMatch (w_sourceOffset w1 - int len) len w1 else w1)
             in record_loop fuel (node_outputLink (m_nodes (w_matcher w2) ! state)) w2))"

definition recordSourceMatches :: "redactingWriter \<Rightarrow> redactingWriter option" where
  "recordSourceMatches w = record_loop (length (m_nodes (w_matcher w)) + 1) (w_sourceState w) w"

section \<open>Emitting\<close>

fun emit_bytes :: "string \<Rightarrow> redactingWriter \<Rightarrow> redaction_error option \<times> redactingWriter" where
  "emit_bytes [] w = (None, w)"
| "emit_bytes (b # bs) w =
     (let w1 = w\<lparr>w_safePending := w_safePending w @ [b]\<rparr>
      in case advance (w_safety w1) (w_safetyState w1) b of
           None \<Rightarrow> (Some Diverges, w1)
         | Some s \<Rightarrow>
             let w2 = w1\<lparr>w_safetyState := s\<rparr>
             in if 0 < node_output (m_nodes (w_safety w2) ! s) then (Some ErrRedaction, w2) else emit_bytes bs w2)"

definition flush_safe :: "bool \<Rightarrow> redactingWriter \<Rightarrow> redaction_error option \<times> redactingWriter" where
  "flush_safe final w =
     (let hold = int (m_maxPattern (w_safety w)) - 1;
          flush = (if final then int (length (w_safePending w)) else int (length (w_safePending w)) - hold)
      in if flush \<le> 0 then (None, w)
         else
           (case writeAll (w_dst w) (w_calls w) (take (nat flush) (w_safePending w)) of
              (Some e, calls) \<Rightarrow> (Some e, w\<lparr>w_calls := calls\<rparr>)
            | (None, calls) \<Rightarrow> (None, w\<lparr>w_calls := calls, w_safePending := drop (nat flush) (w_safePending w)\<rparr>)))"

definition emitSafe :: "string \<Rightarrow> bool \<Rightarrow> redactingWriter \<Rightarrow> redaction_error option \<times> redactingWriter" where
  "emitSafe input final w =
     (if m_maxPattern (w_safety w) = 0 then
        (case writeAll (w_dst w) (w_calls w) input of (e, calls) \<Rightarrow> (e, w\<lparr>w_calls := calls\<rparr>))
      else
        (case emit_bytes input w of
           (Some e, w1) \<Rightarrow> (Some e, w1)
         | (None, w1) \<Rightarrow> flush_safe final w1))"

section \<open>Resolving the pending bytes\<close>

fun skip_candidates :: "nat \<Rightarrow> nat \<Rightarrow> redactingWriter \<Rightarrow> bool \<times> redactingWriter" where
  "skip_candidates offset 0 w = (True, w)"
| "skip_candidates offset (Suc n) w =
     (case consumeMatchWork w of
        (False, w1) \<Rightarrow> (False, w1)
      | (True, w1) \<Rightarrow>
          skip_candidates (offset + 1) n (set_candidate (candidate_index w1 (w_pendingBase w1 + int offset)) 0 0 w1))"

text \<open>
  One turn of the loop of \<^verbatim>\<open>resolveSource\<close>: it returns (\<open>Inl\<close>) or goes on with a shorter pending slice
  (\<open>Inr\<close>).  The second half decides the first pending byte.
\<close>

definition decide_head :: "redactingWriter \<Rightarrow> (redaction_error option \<times> redactingWriter) + redactingWriter" where
  "decide_head w =
     (let i = candidate_index w (w_pendingBase w);
          found = (if w_candidateStarts w ! i = w_pendingBase w then w_candidateLengths w ! i else 0);
          w2 = set_candidate i 0 0 w;
          len = (if found = 0 then 1 else found)
      in case (if found = 0 then emitSafe (take 1 (w_pending w2)) False w2
               else if length (w_pending w2) < found then (Some ErrRedaction, w2)
               else emitSafe Redacted False w2) of
           (Some e, w3) \<Rightarrow> Inl (Some e, w3)
         | (None, w3) \<Rightarrow>
             (case skip_candidates 1 (len - 1) w3 of
                (False, w4) \<Rightarrow> Inl (Some ErrRedaction, w4)
              | (True, w4) \<Rightarrow>
                  Inr (w4\<lparr>w_pending := drop len (w_pending w4), w_pendingBase := w_pendingBase w4 + int len\<rparr>)))"

definition resolve_turn ::
  "bool \<Rightarrow> redactingWriter \<Rightarrow> (redaction_error option \<times> redactingWriter) + redactingWriter" where
  "resolve_turn final w =
     (if w_pending w = [] then Inl (None, w)
      else if \<not> final \<and> w_sourceOffset w < w_pendingBase w + int (m_maxPattern (w_matcher w)) then Inl (None, w)
      else
        (case consumeMatchWork w of
           (False, w1) \<Rightarrow> Inl (Some ErrRedaction, w1)
         | (True, w1) \<Rightarrow> decide_head w1))"

lemma consumeMatchWork_pending: "consumeMatchWork w = (ok, w') \<Longrightarrow> w_pending w' = w_pending w"
  by (auto simp: consumeMatchWork_def Let_def split: if_splits option.splits)

lemma set_candidate_pending: "w_pending (set_candidate i start len w) = w_pending w"
  by (simp add: set_candidate_def)

lemma skip_candidates_pending: "skip_candidates offset n w = (ok, w') \<Longrightarrow> w_pending w' = w_pending w"
  by (induction offset n w rule: skip_candidates.induct)
    (auto simp: set_candidate_pending dest!: consumeMatchWork_pending split: prod.splits bool.splits)

lemma emit_bytes_pending: "emit_bytes bs w = (e, w') \<Longrightarrow> w_pending w' = w_pending w"
proof (induction bs arbitrary: w)
  case (Cons b bs)
  then show ?case by (fastforce simp: Let_def split: option.splits if_splits)
qed simp

lemma emitSafe_pending: "emitSafe bs final w = (e, w') \<Longrightarrow> w_pending w' = w_pending w"
  by (auto simp: emitSafe_def flush_safe_def Let_def dest!: emit_bytes_pending split: prod.splits option.splits if_splits)

lemma resolve_turn_shrinks: "resolve_turn final w = Inr w' \<Longrightarrow> length (w_pending w') < length (w_pending w)"
  by (auto simp: resolve_turn_def decide_head_def Let_def set_candidate_pending
      dest!: consumeMatchWork_pending skip_candidates_pending emitSafe_pending
      split: if_splits prod.splits bool.splits option.splits)

function resolveSource :: "bool \<Rightarrow> redactingWriter \<Rightarrow> redaction_error option \<times> redactingWriter" where
  "resolveSource final w =
     (case resolve_turn final w of Inl r \<Rightarrow> r | Inr w1 \<Rightarrow> resolveSource final w1)"
  by pat_completeness auto

termination
  by (relation "measure (\<lambda>(final, w). length (w_pending w))") (auto dest: resolve_turn_shrinks)

declare resolveSource.simps [simp del]

section \<open>Write and Close\<close>

fun accept_bytes :: "string \<Rightarrow> redactingWriter \<Rightarrow> redaction_error option \<times> redactingWriter" where
  "accept_bytes [] w = (None, w)"
| "accept_bytes (b # bs) w =
     (let w1 = w\<lparr>w_pending := w_pending w @ [b]\<rparr>
      in case advance (w_matcher w1) (w_sourceState w1) b of
           None \<Rightarrow> (Some Diverges, w1)
         | Some s \<Rightarrow>
             let w2 = w1\<lparr>w_sourceState := s, w_sourceOffset := w_sourceOffset w1 + 1,
                         w_sourceTransitions := w_sourceTransitions w1 + 1\<rparr>
             in case recordSourceMatches w2 of
                  None \<Rightarrow> (Some Diverges, w2)
                | Some w3 \<Rightarrow>
                    if w_failed w3 then (Some ErrRedaction, w3)
                    else (case resolveSource False w3 of
                            (Some e, w4) \<Rightarrow> (Some e, w4)
                          | (None, w4) \<Rightarrow> accept_bytes bs w4))"

function accept_chunks :: "string \<Rightarrow> redactingWriter \<Rightarrow> redaction_error option \<times> redactingWriter" where
  "accept_chunks input w =
     (if input = [] then (None, w)
      else
        (let n = (if redactionChunk < int (length input) then nat redactionChunk else length input)
         in case accept_bytes (take n input) w of
              (Some e, w1) \<Rightarrow> (Some e, w1)
            | (None, w1) \<Rightarrow> accept_chunks (drop n input) w1))"
  by pat_completeness auto

termination
  by (relation "measure (\<lambda>(input, w). length input)") (auto simp: redactionChunk_def)

declare accept_chunks.simps [simp del]

text \<open>Any error reaches the caller as \<^verbatim>\<open>ErrRedaction\<close>; a loop without end would not return at all.\<close>

definition outward :: "redaction_error \<Rightarrow> redaction_error" where
  "outward e = (if e = Diverges then Diverges else ErrRedaction)"

definition Write :: "string \<Rightarrow> redactingWriter \<Rightarrow> (nat \<times> redaction_error option) \<times> redactingWriter" where
  "Write input w =
     (if w_failed w then ((0, Some ErrRedaction), w)
      else if m_maxPattern (w_matcher w) = 0 then
        (case writeAll (w_dst w) (w_calls w) input of
           (Some e, calls) \<Rightarrow> ((0, Some (outward e)), w\<lparr>w_calls := calls, w_failed := True\<rparr>)
         | (None, calls) \<Rightarrow> ((length input, None), w\<lparr>w_calls := calls\<rparr>))
      else
        (case accept_chunks input w of
           (Some e, w1) \<Rightarrow> ((0, Some (outward e)), w1\<lparr>w_failed := True\<rparr>)
         | (None, w1) \<Rightarrow> ((length input, None), w1)))"

definition Close :: "redactingWriter \<Rightarrow> redaction_error option \<times> redactingWriter" where
  "Close w =
     (if w_failed w then (Some ErrRedaction, w)
      else if m_maxPattern (w_matcher w) \<noteq> 0 then
        (case resolveSource True w of
           (Some e, w1) \<Rightarrow> (Some (outward e), w1\<lparr>w_failed := True\<rparr>)
         | (None, w1) \<Rightarrow>
             (case emitSafe [] True w1 of
                (Some e, w2) \<Rightarrow> (Some (outward e), w2\<lparr>w_failed := True\<rparr>)
              | (None, w2) \<Rightarrow> (None, w2)))
      else (None, w))"

end
