(* ===== verification/Redaction_Safety.thy ===== *)
theory Redaction_Safety
  imports Redaction_Automaton Redaction_Writer
begin

text \<open>
  The safety scan of the redacting writer: nothing is offered to the destination before the bytes
  emitted so far were scanned and found free of patterns.
\<close>

section \<open>Occurrences\<close>

definition pattern_free :: "string set \<Rightarrow> string \<Rightarrow> bool" where
  "pattern_free P x \<longleftrightarrow> (\<forall>p \<in> P. p \<noteq> [] \<longrightarrow> \<not> Contains x p)"

lemma Contains_sublist: "Contains x p \<longleftrightarrow> sublist p x"
  by (simp add: Contains_iff sublist_def)

lemma sublist_snoc: "sublist p (x @ [b]) \<longleftrightarrow> sublist p x \<or> suffix p (x @ [b])"
proof
  assume "sublist p (x @ [b])"
  then obtain u v where uv: "x @ [b] = u @ p @ v" by (auto simp: sublist_def)
  show "sublist p x \<or> suffix p (x @ [b])"
  proof (cases v rule: rev_cases)
    case Nil
    then show ?thesis using uv suffixI by fastforce
  next
    case (snoc v' c)
    then have "x = u @ p @ v'" using uv by simp
    then show ?thesis by auto
  qed
qed (metis sublist_appendI sublist_order.order.trans append_Nil suffix_imp_sublist)

lemma pattern_free_Nil [simp]: "pattern_free P []"
  by (simp add: pattern_free_def)

lemma pattern_free_snoc:
  "pattern_free P (x @ [b]) \<longleftrightarrow> pattern_free P x \<and> (\<forall>p \<in> P. p \<noteq> [] \<longrightarrow> \<not> suffix p (x @ [b]))"
  unfolding pattern_free_def Contains_sublist sublist_snoc by blast

lemma pattern_free_prefix: "pattern_free P (x @ y) \<Longrightarrow> pattern_free P x"
  unfolding pattern_free_def Contains_iff by (metis append.assoc)

section \<open>The destination\<close>

definition offers_free :: "string set \<Rightarrow> dst_calls \<Rightarrow> bool" where
  "offers_free P calls \<longleftrightarrow> (\<forall>xs data n ys. calls = xs @ (data, n) # ys \<longrightarrow> pattern_free P (received xs @ data))"

lemma received_Nil [simp]: "received [] = []"
  by (simp add: received_def)

lemma received_snoc [simp]: "received (calls @ [(data, n)]) = received calls @ take (nat n) data"
  by (simp add: received_def)

lemma offers_free_Nil [simp]: "offers_free P []"
  by (simp add: offers_free_def)

lemma offers_free_snoc:
  "offers_free P (calls @ [(data, n)]) \<longleftrightarrow> offers_free P calls \<and> pattern_free P (received calls @ data)"
proof
  assume all: "offers_free P (calls @ [(data, n)])"
  have "pattern_free P (received xs @ d)" if "calls = xs @ (d, k) # ys" for xs d k ys
    using all that unfolding offers_free_def by (metis append_Cons append_assoc)
  then show "offers_free P calls \<and> pattern_free P (received calls @ data)"
    using all unfolding offers_free_def by blast
next
  assume split: "offers_free P calls \<and> pattern_free P (received calls @ data)"
  have "pattern_free P (received xs @ d)" if "calls @ [(data, n)] = xs @ (d, k) # ys" for xs d k ys
    using split that unfolding offers_free_def by (cases ys rule: rev_cases) auto
  then show "offers_free P (calls @ [(data, n)])" unfolding offers_free_def by blast
qed

lemma writeAll_free:
  assumes "offers_free P calls" and "pattern_free P (received calls @ data)" and "writeAll dst calls data = (e, calls')"
  shows "offers_free P calls'" and "e = None \<Longrightarrow> received calls' = received calls @ data" and "e \<noteq> Some Diverges"
proof -
  have "offers_free P calls' \<and> (e = None \<longrightarrow> received calls' = received calls @ data) \<and> e \<noteq> Some Diverges"
    using assms
  proof (induction dst calls data rule: writeAll.induct)
    case (1 dst calls data)
    let ?n = "fst (dst calls data)"
    show ?case
    proof (cases "data = [] \<or> ?n < 0 \<or> int (length data) < ?n \<or> snd (dst calls data) \<or> ?n = 0")
      case True
      then show ?thesis using 1(2,3) 1(4) [unfolded writeAll.simps [of dst calls data]] by (auto simp: Let_def offers_free_snoc split: if_splits)
    next
      case False
      then have "writeAll dst (calls @ [(data, ?n)]) (drop (nat ?n) data) = (e, calls')"
        using 1(4) [unfolded writeAll.simps [of dst calls data]] by (simp add: Let_def)
      moreover have "received (calls @ [(data, ?n)]) @ drop (nat ?n) data = received calls @ data" by simp
      ultimately show ?thesis using 1(1) [OF _ refl refl] 1(2,3) False by (simp add: offers_free_snoc)
    qed
  qed
  then show "offers_free P calls'" "e = None \<Longrightarrow> received calls' = received calls @ data" "e \<noteq> Some Diverges" by auto
qed

section \<open>The safety scan\<close>

definition emitted :: "redactingWriter \<Rightarrow> string" where
  "emitted w = received (w_calls w) @ w_safePending w"

definition safe :: "string set \<Rightarrow> string list \<Rightarrow> redactingWriter \<Rightarrow> bool" where
  "safe P ws w \<longleftrightarrow> automaton P ws (w_safety w) \<and> m_maxPattern (w_safety w) \<noteq> 0 \<and> offers_free P (w_calls w)
     \<and> tracks ws (w_safetyState w) (emitted w) \<and> pattern_free P (emitted w)"

text \<open>The fields the scan works on; the operations on the source leave them alone.\<close>

definition out_fields :: "redactingWriter \<Rightarrow> io_writer \<times> dst_calls \<times> redactionMatcher \<times> nat \<times> string" where
  "out_fields w = (w_dst w, w_calls w, w_safety w, w_safetyState w, w_safePending w)"

lemma safe_out_fields: "out_fields w = out_fields w' \<Longrightarrow> safe P ws w \<longleftrightarrow> safe P ws w'"
  and emitted_out_fields: "out_fields w = out_fields w' \<Longrightarrow> emitted w = emitted w'"
  by (simp_all add: out_fields_def safe_def emitted_def)

definition source_fields where
  "source_fields w = (w_matcher w, w_sourceState w, w_sourceOffset w, w_sourceTransitions w, w_pending w, w_pendingBase w,
     w_candidateStarts w, w_candidateLengths w, w_matchWork w, w_failed w)"

lemma output_detects:
  assumes "automaton P ws m" and "tracks ws s (x @ [b])" and "pattern_free P x"
  shows "node_output (m_nodes m ! s) = 0 \<longleftrightarrow> pattern_free P (x @ [b])"
proof -
  note out = automaton_output [OF assms(1,2), unfolded output_of_def]
  show ?thesis unfolding pattern_free_snoc using out assms(3) by (metis gr_zeroI le_zero_eq length_0_conv length_greater_0_conv)
qed

lemma emit_bytes_safe:
  assumes "safe P ws w" and "emit_bytes bs w = (e, w')"
  shows "w_calls w' = w_calls w \<and> source_fields w' = source_fields w \<and> w_dst w' = w_dst w \<and> w_safety w' = w_safety w
    \<and> e \<noteq> Some Diverges \<and> (e = None \<longrightarrow> safe P ws w' \<and> emitted w' = emitted w @ bs)"
  using assms
proof (induction bs arbitrary: w)
  case (Cons b bs)
  have tr: "tracks ws (w_safetyState w) (emitted w)" and a: "automaton P ws (w_safety w)" and free: "pattern_free P (emitted w)"
    using Cons.prems(1) by (simp_all add: safe_def)
  from automaton_advance [OF a tr, of b] obtain s where
    s: "advance (w_safety w) (w_safetyState w) b = Some s" "tracks ws s (emitted w @ [b])" by blast
  define w2 where "w2 = w\<lparr>w_safePending := w_safePending w @ [b], w_safetyState := s\<rparr>"
  have em: "emitted w2 = emitted w @ [b]" by (simp add: w2_def emitted_def)
  have w2: "w_calls w2 = w_calls w" "source_fields w2 = source_fields w" "w_dst w2 = w_dst w" "w_safety w2 = w_safety w"
    "w_safetyState w2 = s" by (simp_all add: w2_def source_fields_def)
  have run: "(e, w') = (if 0 < node_output (m_nodes (w_safety w) ! s) then (Some ErrRedaction, w2) else emit_bytes bs w2)"
    using Cons.prems(2) s(1) by (simp add: w2_def Let_def split: if_splits)
  show ?case
  proof (cases "0 < node_output (m_nodes (w_safety w) ! s)")
    case False
    then have "safe P ws w2" using Cons.prems(1) s(2) output_detects [OF a s(2) free] unfolding safe_def w2 em by simp
    then show ?thesis using Cons.IH [of w2] run False w2 em by simp
  qed (use run w2 in simp)
qed simp

lemma flush_safe_safe:
  assumes "safe P ws w" and "flush_safe final w = (e, w')"
  shows "offers_free P (w_calls w') \<and> source_fields w' = source_fields w \<and> w_dst w' = w_dst w \<and> w_safety w' = w_safety w
    \<and> e \<noteq> Some Diverges \<and> (e = None \<longrightarrow> safe P ws w' \<and> emitted w' = emitted w)"
proof -
  let ?f = "if final then int (length (w_safePending w)) else int (length (w_safePending w)) - (int (m_maxPattern (w_safety w)) - 1)"
  obtain r calls where wa: "writeAll (w_dst w) (w_calls w) (take (nat ?f) (w_safePending w)) = (r, calls)" by fastforce
  have free: "offers_free P (w_calls w)" "pattern_free P (received (w_calls w) @ take (nat ?f) (w_safePending w))"
    using assms(1) pattern_free_prefix [of P "received (w_calls w) @ take (nat ?f) (w_safePending w)" "drop (nat ?f) (w_safePending w)"]
    by (simp_all add: safe_def emitted_def)
  note w = writeAll_free [OF free wa]
  show ?thesis
  proof (cases "?f \<le> 0")
    case True
    then show ?thesis using assms free(1) by (auto simp: flush_safe_def Let_def)
  next
    case False
    then show ?thesis
    proof (cases r)
      case None
      then have "w' = w\<lparr>w_calls := calls, w_safePending := drop (nat ?f) (w_safePending w)\<rparr>" "e = None"
        using assms(2) False wa by (auto simp: flush_safe_def Let_def)
      moreover have "received calls @ drop (nat ?f) (w_safePending w) = emitted w" using w(2) None by (simp add: emitted_def)
      ultimately show ?thesis using w(1) assms(1) by (simp add: safe_def emitted_def source_fields_def)
    next
      case (Some c)
      then have "w' = w\<lparr>w_calls := calls\<rparr>" "e = Some c"
        using assms(2) False wa by (auto simp: flush_safe_def Let_def)
      then show ?thesis using w(1,3) Some by (simp add: source_fields_def)
    qed
  qed
qed

lemma emitSafe_safe:
  assumes "safe P ws w" and "emitSafe bs final w = (e, w')"
  shows "offers_free P (w_calls w') \<and> source_fields w' = source_fields w \<and> w_dst w' = w_dst w \<and> w_safety w' = w_safety w
    \<and> e \<noteq> Some Diverges \<and> (e = None \<longrightarrow> safe P ws w' \<and> emitted w' = emitted w @ bs)"
proof -
  obtain r w1 where r: "emit_bytes bs w = (r, w1)" by fastforce
  have big: "m_maxPattern (w_safety w) \<noteq> 0" "offers_free P (w_calls w)" using assms(1) by (simp_all add: safe_def)
  note eb = emit_bytes_safe [OF assms(1) r]
  show ?thesis
  proof (cases r)
    case None
    then have "flush_safe final w1 = (e, w')" "safe P ws w1" using assms(2) r big eb by (simp_all add: emitSafe_def)
    from flush_safe_safe [OF this(2,1)] eb None show ?thesis by simp
  next
    case (Some c)
    then have "e = r" "w' = w1" using assms(2) r big by (simp_all add: emitSafe_def)
    then show ?thesis using eb Some big by simp
  qed
qed

end
