(* ===== verification/Redaction_Source.thy ===== *)
theory Redaction_Source
  imports Redaction_Safety
begin

text \<open>
  The source side of the redacting writer.  A reference redaction replaces, from left to right, the
  longest pattern at each position.  The ring of candidates holds, for every undecided position, the
  longest pattern seen there; a position is decided once a whole pattern window lies behind it.
\<close>

section \<open>The reference redaction\<close>

fun longest_match :: "string list \<Rightarrow> string \<Rightarrow> nat" where
  "longest_match [] s = 0"
| "longest_match (p # ps) s = (if HasPrefix s p then max (length p) (longest_match ps s) else longest_match ps s)"

function redact :: "string list \<Rightarrow> string \<Rightarrow> string" where
  "redact ps s =
     (if s = [] then []
      else if longest_match ps s = 0 then hd s # redact ps (tl s)
      else Redacted @ redact ps (drop (longest_match ps s) s))"
  by pat_completeness auto

termination
  by (relation "measure (\<lambda>(ps, s). length s)") auto

declare redact.simps [simp del]

lemma HasPrefix_prefix: "HasPrefix s p \<longleftrightarrow> prefix p s"
  by (simp add: HasPrefix_iff prefix_def)

lemma longest_match_bound: "p \<in> set ps \<Longrightarrow> prefix p s \<Longrightarrow> length p \<le> longest_match ps s"
  by (induction ps) (auto simp: HasPrefix_prefix)

lemma longest_match_hit: "longest_match ps s = 0 \<or> (\<exists>p \<in> set ps. prefix p s \<and> length p = longest_match ps s)"
  by (induction ps) (auto simp: HasPrefix_prefix max_def)

lemma longest_match_eqI:
  assumes "\<And>p. p \<in> set ps \<Longrightarrow> prefix p s \<Longrightarrow> length p \<le> n" and "n = 0 \<or> (\<exists>p \<in> set ps. prefix p s \<and> length p = n)"
  shows "longest_match ps s = n"
  using assms longest_match_bound [of _ ps s] longest_match_hit [of ps s] by (metis le_antisym le_zero_eq)

lemma longest_match_length: "longest_match ps s \<le> length s"
  using longest_match_hit [of ps s] by (metis le0 prefix_length_le)

lemma longest_match_append:
  assumes "\<And>p. p \<in> set ps \<Longrightarrow> length p \<le> length s"
  shows "longest_match ps (s @ y) = longest_match ps s"
proof (rule longest_match_eqI)
  have pre: "prefix p (s @ y) \<longleftrightarrow> prefix p s" if "p \<in> set ps" for p
    using assms [OF that] by (metis append_prefixD prefix_append prefix_length_prefix prefixI prefix_order.trans)
  then show "length p \<le> longest_match ps s" if "p \<in> set ps" "prefix p (s @ y)" for p
    using that longest_match_bound by blast
  show "longest_match ps s = 0 \<or> (\<exists>p \<in> set ps. prefix p (s @ y) \<and> length p = longest_match ps s)"
    using longest_match_hit [of ps s] pre by blast
qed

text \<open>One more byte: the match that ends with it is the longest one.\<close>

lemma longest_match_snoc:
  "longest_match ps (s @ [b]) = (if s @ [b] \<in> set ps then length s + 1 else longest_match ps s)"
proof (rule longest_match_eqI)
  fix p assume p: "p \<in> set ps" "prefix p (s @ [b])"
  then show "length p \<le> (if s @ [b] \<in> set ps then length s + 1 else longest_match ps s)"
    using longest_match_bound [of p ps s] prefix_length_le [OF p(2)] by (auto simp: prefix_snoc)
next
  show "(if s @ [b] \<in> set ps then length s + 1 else longest_match ps s) = 0 \<or>
    (\<exists>p \<in> set ps. prefix p (s @ [b]) \<and> length p = (if s @ [b] \<in> set ps then length s + 1 else longest_match ps s))"
    using longest_match_hit [of ps s] by (auto intro: prefix_prefix)
qed

section \<open>The ring of candidates\<close>

definition ring :: "int list \<Rightarrow> nat list \<Rightarrow> int \<Rightarrow> nat" where
  "ring starts lens pos =
     (let i = nat (pos mod int (length lens)) in if starts ! i = pos then lens ! i else 0)"

lemma ring_put:
  assumes "length starts = length lens" and "0 < length lens"
  shows "ring (starts[nat (at mod int (length lens)) := start]) (lens[nat (at mod int (length lens)) := len]) pos =
    (if pos mod int (length lens) = at mod int (length lens) then (if pos = start then len else 0) else ring starts lens pos)"
proof -
  have "0 \<le> k mod int (length lens)" "k mod int (length lens) < int (length lens)" for k
    using assms(2) by simp_all
  then have "nat (k mod int (length lens)) < length lens"
    and "nat (k mod int (length lens)) = nat (j mod int (length lens)) \<longleftrightarrow> k mod int (length lens) = j mod int (length lens)" for k j
    by (metis nat_less_iff, metis nat_eq_iff)
  then show ?thesis using assms(1) by (auto simp: ring_def Let_def nth_list_update)
qed

lemma same_residue:
  assumes "(a :: int) mod c = b mod c" and "a < b" and "0 < c"
  shows "a + c \<le> b"
proof -
  have "c dvd b - a" using assms(1) by (metis mod_eq_dvd_iff)
  then show ?thesis using assms(2) zdvd_imp_le [of c "b - a"] by simp
qed

section \<open>Frames\<close>

text \<open>Everything but the candidates, the match work and the failure flag.\<close>

definition kept where
  "kept w = (out_fields w, w_matcher w, w_sourceState w, w_sourceOffset w, w_sourceTransitions w, w_pending w, w_pendingBase w)"

definition rings :: "redactingWriter \<Rightarrow> int list \<times> nat list" where
  "rings w = (w_candidateStarts w, w_candidateLengths w)"

lemma consume_frame:
  "consumeMatchWork w = (ok, w') \<Longrightarrow> kept w' = kept w \<and> rings w' = rings w \<and> w_failed w' = w_failed w"
  by (auto simp: consumeMatchWork_def kept_def out_fields_def rings_def Let_def split: if_splits option.splits)

lemma set_candidate_frame:
  "kept (set_candidate i start len w) = kept w" "w_failed (set_candidate i start len w) = w_failed w"
  "rings (set_candidate i start len w) = ((fst (rings w))[i := start], (snd (rings w))[i := len])"
  by (simp_all add: set_candidate_def kept_def out_fields_def rings_def)

lemma failed_frame: "kept (w\<lparr>w_failed := f\<rparr>) = kept w" "rings (w\<lparr>w_failed := f\<rparr>) = rings w"
  by (simp_all add: kept_def out_fields_def rings_def)

lemma keptD:
  assumes "kept w' = kept w"
  shows "out_fields w' = out_fields w" "w_matcher w' = w_matcher w" "w_sourceState w' = w_sourceState w"
    "w_sourceOffset w' = w_sourceOffset w" "w_sourceTransitions w' = w_sourceTransitions w" "w_pending w' = w_pending w"
    "w_pendingBase w' = w_pendingBase w"
  using assms by (simp_all add: kept_def)

lemma ringsD: "rings w' = (st, ln) \<Longrightarrow> w_candidateStarts w' = st \<and> w_candidateLengths w' = ln"
  by (simp add: rings_def)

lemma recordMatch_frame: "kept (recordMatch start len w) = kept w" "w_failed w \<Longrightarrow> w_failed (recordMatch start len w)"
  by (auto simp: recordMatch_def Let_def set_candidate_frame failed_frame dest!: consume_frame split: prod.splits bool.splits)

definition ring_of :: "redactingWriter \<Rightarrow> int \<Rightarrow> nat" where
  "ring_of w = ring (w_candidateStarts w) (w_candidateLengths w)"

definition ring_sized :: "redactingWriter \<Rightarrow> bool" where
  "ring_sized w \<longleftrightarrow> length (w_candidateStarts w) = m_maxPattern (w_matcher w)
     \<and> length (w_candidateLengths w) = m_maxPattern (w_matcher w) \<and> 0 < m_maxPattern (w_matcher w)"

lemma rings_cong:
  "kept w' = kept w \<Longrightarrow> rings w' = rings w \<Longrightarrow> ring_of w' = ring_of w \<and> (ring_sized w' \<longleftrightarrow> ring_sized w)"
  by (auto simp: kept_def rings_def ring_of_def ring_sized_def)

lemma ring_of_put:
  assumes "ring_sized w"
  shows "ring_of (set_candidate (candidate_index w at) start len w) pos =
      (if pos mod int (m_maxPattern (w_matcher w)) = at mod int (m_maxPattern (w_matcher w)) then (if pos = start then len else 0)
       else ring_of w pos)"
    and "ring_sized (set_candidate (candidate_index w at) start len w)"
  using assms ring_put [of "w_candidateStarts w" "w_candidateLengths w" at start len pos]
  by (auto simp: ring_of_def ring_sized_def set_candidate_def candidate_index_def)

section \<open>Recording the matches of a byte\<close>

text \<open>
  \<open>off\<close> is the number of source bytes so far; a candidate never reaches beyond it, and the undecided
  bytes fit into the ring.
\<close>

definition ring_bounded :: "redactingWriter \<Rightarrow> bool" where
  "ring_bounded w \<longleftrightarrow> ring_sized w \<and> w_sourceOffset w \<le> w_pendingBase w + int (m_maxPattern (w_matcher w))
     \<and> (\<forall>pos \<ge> w_pendingBase w. int (ring_of w pos) \<le> max 0 (w_sourceOffset w - pos))"

lemma ring_bounded_cong: "kept w' = kept w \<Longrightarrow> rings w' = rings w \<Longrightarrow> ring_bounded w' \<longleftrightarrow> ring_bounded w"
  using rings_cong [of w' w] keptD [of w' w] by (simp add: ring_bounded_def)

lemma recordMatch_ring:
  assumes "ring_bounded w" and "0 < len" and w': "recordMatch (w_sourceOffset w - int len) len w = w'" and "\<not> w_failed w'"
  shows "ring_bounded w' \<and> (\<forall>pos \<ge> w_pendingBase w. ring_of w' pos = (if w_sourceOffset w - pos = int len then len else ring_of w pos))"
proof -
  let ?start = "w_sourceOffset w - int len" and ?cap = "int (m_maxPattern (w_matcher w))"
  consider "?start < w_pendingBase w" | "w_pendingBase w \<le> ?start" by linarith
  then show ?thesis
  proof cases
    case 1
    then have "w' = w" using w' by (simp add: recordMatch_def)
    then show ?thesis using 1 assms(1) by auto
  next
    case 2
    have cap: "?start < w_pendingBase w + ?cap" "length (w_candidateLengths w) = m_maxPattern (w_matcher w)"
      using assms(1,2) by (auto simp: ring_bounded_def ring_sized_def)
    obtain ok w1 where c: "consumeMatchWork w = (ok, w1)" by fastforce
    note f = consume_frame [OF c]
    let ?i = "candidate_index w1 ?start"
    have ok: "ok" using 2 cap c assms(4) w' by (cases ok) (auto simp: recordMatch_def)
    have w'1: "w' = (if w_candidateStarts w1 ! ?i \<noteq> ?start \<or> w_candidateLengths w1 ! ?i < len
        then set_candidate ?i ?start len w1 else w1)"
      using 2 cap c ok w' by (simp add: recordMatch_def Let_def)
    have b1: "ring_bounded w1" and s1: "ring_sized w1" and r1: "ring_of w1 = ring_of w"
      using assms(1) ring_bounded_cong [of w1 w] rings_cong [of w1 w] f by (auto simp: ring_bounded_def)
    note k = keptD [of w1 w]
    have same: "w_sourceOffset w1 = w_sourceOffset w" "w_pendingBase w1 = w_pendingBase w" "w_matcher w1 = w_matcher w"
      using k f by auto
    have far: "ring_of w pos = 0" if "pos mod ?cap = ?start mod ?cap" "pos \<noteq> ?start" "w_pendingBase w \<le> pos" for pos
    proof -
      have "0 < ?cap" using assms(1) by (simp add: ring_bounded_def ring_sized_def)
      then have "?start + ?cap \<le> pos"
        using same_residue [OF that(1)] same_residue [OF that(1) [symmetric]] that cap(1) by linarith
      then have "w_sourceOffset w \<le> pos" using assms(1) 2 by (simp add: ring_bounded_def)
      then show ?thesis using assms(1) that(3) by (auto simp: ring_bounded_def)
    qed
    have here: "ring_of w ?start \<le> len" using assms(1) 2 by (auto simp: ring_bounded_def)
    have idx: "?i = nat (?start mod int (length (w_candidateLengths w1)))" by (simp add: candidate_index_def)
    have ring': "ring_of w' pos = (if pos = ?start then len else ring_of w pos)" if "w_pendingBase w \<le> pos" for pos
    proof (cases "w_candidateStarts w1 ! ?i \<noteq> ?start \<or> w_candidateLengths w1 ! ?i < len")
      case True
      then show ?thesis using ring_of_put(1) [OF s1, of ?start ?start len pos] w'1 far [of pos] that r1 same by auto
    next
      case False
      then have "ring_of w1 ?start = w_candidateLengths w1 ! ?i" by (simp add: ring_of_def ring_def Let_def idx)
      then show ?thesis using False w'1 here r1 by auto
    qed
    have "ring_bounded w'"
    proof -
      have "ring_sized w'" using w'1 s1 ring_of_put(2) [OF s1] by simp
      moreover have "kept w' = kept w" using w' recordMatch_frame(1) by blast
      ultimately show ?thesis using ring' assms(1) keptD [of w' w] by (auto simp: ring_bounded_def)
    qed
    then show ?thesis using ring' by auto
  qed
qed

lemma links_chain:
  assumes "links_to P ws s t" and "ws ! 0 = []" and "p \<in> P" and "p \<noteq> []"
  shows "suffix p (ws ! s) \<longleftrightarrow> p = ws ! s \<or> suffix p (ws ! t)"
proof
  assume p: "suffix p (ws ! s)"
  show "p = ws ! s \<or> suffix p (ws ! t)"
  proof (cases "p = ws ! s")
    case False
    then have "length p \<le> length (ws ! t)" using assms(1,3) p by (auto simp: links_to_def strict_suffix_def)
    moreover from this have "t \<noteq> 0" using assms(2,4) by (cases "t = 0") auto
    ultimately show ?thesis using assms(1) p by (auto simp: links_to_def strict_suffix_def intro: suffix_shorter)
  qed simp
next
  assume "p = ws ! s \<or> suffix p (ws ! t)"
  then show "suffix p (ws ! s)"
    using assms by (cases "t = 0") (auto simp: links_to_def strict_suffix_def intro: suffix_order.trans)
qed

lemma record_loop_ring:
  assumes "automaton P ws m" and "s < length ws" and "length (ws ! s) < fuel" and "w_matcher w = m" and "w_failed w \<or> ring_bounded w"
  shows "\<exists>w'. record_loop fuel s w = Some w' \<and> kept w' = kept w \<and> (w_failed w \<longrightarrow> w_failed w')
    \<and> (\<not> w_failed w' \<longrightarrow> ring_bounded w' \<and> (\<forall>pos \<ge> w_pendingBase w. ring_of w' pos =
         (if \<exists>p \<in> P. p \<noteq> [] \<and> suffix p (ws ! s) \<and> int (length p) = w_sourceOffset w - pos
          then nat (w_sourceOffset w - pos) else ring_of w pos)))"
  using assms(2-)
proof (induction fuel arbitrary: s w)
  case (Suc fuel)
  have tr: "trie (m_nodes m) ws" and lk: "linked P ws (m_nodes m) {..<length ws}" and tm: "terminals P ws (m_nodes m)"
    using assms(1) by (simp_all add: automaton_def)
  note root = trieD(3) [OF tr]
  show ?case
  proof (cases "s = 0")
    case True
    then show ?thesis using root Suc.prems by auto
  next
    case False
    obtain ok w1 where c: "consumeMatchWork w = (ok, w1)" by fastforce
    note f = consume_frame [OF c]
    note k1 = keptD [of w1 w]
    show ?thesis
    proof (cases ok)
      case False
      then show ?thesis using \<open>s \<noteq> 0\<close> c f failed_frame by simp
    next
      case True
      let ?len = "node_terminal (m_nodes m ! s)" and ?t = "node_outputLink (m_nodes m ! s)"
      define w2 where "w2 = (if 0 < ?len then recordMatch (w_sourceOffset w1 - int ?len) ?len w1 else w1)"
      have len: "?len = (if ws ! s \<in> P then length (ws ! s) else 0)" using tm Suc.prems(1) by (simp add: terminals_def)
      have link: "links_to P ws s ?t" using lk Suc.prems(1) by (simp add: linked_def)
      have word: "ws ! s \<noteq> []" using trie_root [OF tr Suc.prems(1)] \<open>s \<noteq> 0\<close> by simp
      then have "length (ws ! ?t) < length (ws ! s)"
        using link root by (cases "?t = 0") (auto simp: links_to_def strict_suffix_def suffix_def)
      then have tl: "?t < length ws" "length (ws ! ?t) < fuel" using link Suc.prems(2) by (auto simp: links_to_def)
      have k2: "kept w2 = kept w" using f recordMatch_frame(1) by (simp add: w2_def)
      have m2: "w_matcher w2 = m" using keptD(2) [OF k2] Suc.prems(3) by simp
      have "w_matcher w1 = m" using k1(2) f Suc.prems(3) by simp
      then have "record_loop (Suc fuel) s w = record_loop fuel (node_outputLink (m_nodes (w_matcher w2) ! s)) w2"
        using c True \<open>s \<noteq> 0\<close> by (simp add: w2_def Let_def)
      then have run: "record_loop (Suc fuel) s w = record_loop fuel ?t w2" by (simp only: m2)
      have fl: "w_failed w \<Longrightarrow> w_failed w2" using f recordMatch_frame(2) by (simp add: w2_def)
      have ring2: "ring_bounded w2" "\<And>pos. w_pendingBase w \<le> pos \<Longrightarrow> ring_of w2 pos =
          (if ws ! s \<in> P \<and> int (length (ws ! s)) = w_sourceOffset w - pos then nat (w_sourceOffset w - pos) else ring_of w pos)"
        if "\<not> w_failed w2"
      proof -
        have b1: "ring_bounded w1" "ring_of w1 = ring_of w"
          using that fl Suc.prems(4) ring_bounded_cong [of w1 w] rings_cong [of w1 w] f by auto
        from len word have long: "0 < ?len \<longleftrightarrow> ws ! s \<in> P" "ws ! s \<in> P \<Longrightarrow> ?len = length (ws ! s)" by auto
        have same: "w_sourceOffset w1 = w_sourceOffset w" "w_pendingBase w1 = w_pendingBase w" using k1 f by auto
        show "ring_bounded w2" using recordMatch_ring [OF b1(1)] b1(1) that by (auto simp: w2_def)
        show "ring_of w2 pos = (if ws ! s \<in> P \<and> int (length (ws ! s)) = w_sourceOffset w - pos
            then nat (w_sourceOffset w - pos) else ring_of w pos)" if "w_pendingBase w \<le> pos" for pos
          using recordMatch_ring [OF b1(1) _ refl, of ?len] b1(2) \<open>\<not> w_failed w2\<close> that same long
          by (cases "ws ! s \<in> P") (auto simp: w2_def)
      qed
      have bases: "w_pendingBase w2 = w_pendingBase w" "w_sourceOffset w2 = w_sourceOffset w" using keptD [OF k2] by auto
      from Suc.IH [OF tl m2] ring2(1) obtain w' where w': "record_loop fuel ?t w2 = Some w'" "kept w' = kept w2" "w_failed w2 \<longrightarrow> w_failed w'"
        "\<not> w_failed w' \<longrightarrow> ring_bounded w' \<and> (\<forall>pos \<ge> w_pendingBase w2. ring_of w' pos =
         (if \<exists>p \<in> P. p \<noteq> [] \<and> suffix p (ws ! ?t) \<and> int (length p) = w_sourceOffset w2 - pos
          then nat (w_sourceOffset w2 - pos) else ring_of w2 pos))" by blast
      have "ring_of w' pos = (if \<exists>p \<in> P. p \<noteq> [] \<and> suffix p (ws ! s) \<and> int (length p) = w_sourceOffset w - pos
          then nat (w_sourceOffset w - pos) else ring_of w pos)" if "\<not> w_failed w'" "w_pendingBase w \<le> pos" for pos
      proof -
        have "(\<exists>p \<in> P. p \<noteq> [] \<and> suffix p (ws ! s) \<and> int (length p) = w_sourceOffset w - pos) \<longleftrightarrow>
            (\<exists>p \<in> P. p \<noteq> [] \<and> suffix p (ws ! ?t) \<and> int (length p) = w_sourceOffset w - pos)
            \<or> ws ! s \<in> P \<and> int (length (ws ! s)) = w_sourceOffset w - pos"
          using links_chain [OF link root] word by blast
        then show ?thesis using w'(3,4) that ring2(2) [OF _ that(2)] bases by auto
      qed
      then show ?thesis using run w' k2 fl by auto
    qed
  qed
qed simp

lemma skip_candidates_ring:
  assumes "skip_candidates off n w = (ok, w')" and "ring_sized w"
  shows "kept w' = kept w \<and> w_failed w' = w_failed w \<and> ring_sized w' \<and> (ok \<longrightarrow> (\<forall>pos. ring_of w' pos =
    (if \<exists>k. off \<le> k \<and> k < off + n \<and> pos mod int (m_maxPattern (w_matcher w)) = (w_pendingBase w + int k) mod int (m_maxPattern (w_matcher w))
     then 0 else ring_of w pos)))"
  using assms
proof (induction n arbitrary: off w)
  case (Suc n)
  obtain ok1 w1 where c: "consumeMatchWork w = (ok1, w1)" by fastforce
  note f = consume_frame [OF c]
  note r = rings_cong [of w1 w]
  show ?case
  proof (cases ok1)
    case False
    then show ?thesis using Suc.prems c f r by auto
  next
    case True
    define w2 where "w2 = set_candidate (candidate_index w1 (w_pendingBase w1 + int off)) 0 0 w1"
    have s1: "ring_sized w1" using Suc.prems(2) f r by simp
    have k2: "kept w2 = kept w" "w_failed w2 = w_failed w" using f by (simp_all add: w2_def set_candidate_frame)
    have run: "skip_candidates (off + 1) n w2 = (ok, w')" using Suc.prems(1) c True by (simp add: w2_def)
    have base: "w_pendingBase w2 = w_pendingBase w" "w_matcher w2 = w_matcher w" "w_pendingBase w1 = w_pendingBase w" "w_matcher w1 = w_matcher w"
      using keptD [OF k2(1)] keptD [of w1 w] f by auto
    have put: "ring_of w2 pos = (if pos mod int (m_maxPattern (w_matcher w)) = (w_pendingBase w + int off) mod int (m_maxPattern (w_matcher w))
        then 0 else ring_of w pos)" for pos
      using ring_of_put(1) [OF s1, of "w_pendingBase w1 + int off" 0 0 pos] f r base by (simp add: w2_def)
    have steps: "(\<exists>k. off \<le> k \<and> k < off + Suc n \<and> Q k) \<longleftrightarrow> Q off \<or> (\<exists>k. off + 1 \<le> k \<and> k < off + 1 + n \<and> Q k)" for Q
      by (metis Suc_eq_plus1 Suc_leD Suc_leI add_Suc add_Suc_right add.commute le_add1 le_eq_less_or_eq le_imp_less_Suc)
    have s2: "ring_sized w2" using ring_of_put(2) [OF s1] by (simp add: w2_def)
    show ?thesis using Suc.IH [OF run s2] k2 base put unfolding steps by auto
  qed
qed auto

section \<open>Resolving\<close>

text \<open>
  The counters: the 64-bit count of transitions is the stream offset, and decided positions lie within
  the transitions that match work is granted for.
\<close>

definition maxTransitions :: int where
  "maxTransitions = 2305843009213693439"

lemma maxTransitions_limit: "uint ((maxRedactionWork - 4096) div 8) = maxTransitions"
  by (simp add: maxRedactionWork_def maxTransitions_def uint_div_distrib)

definition counts_ok :: "redactingWriter \<Rightarrow> bool" where
  "counts_ok w \<longleftrightarrow> w_sourceOffset w = uint (w_sourceTransitions w) \<and> w_pendingBase w \<le> maxTransitions
     \<and> int (m_maxPattern (w_matcher w)) < MaxRedactionNodes"

lemma consume_limit: "consumeMatchWork w = (True, w') \<Longrightarrow> uint (w_sourceTransitions w) \<le> maxTransitions"
  by (auto simp: consumeMatchWork_def redactionMatchWorkLimit_def Let_def word_less_def maxTransitions_limit split: if_splits option.splits)

text \<open>
  The writer between two steps, after the source bytes \<open>x\<close>: what it has emitted is the redaction of
  the decided part, for every continuation in \<open>Y\<close> (nothing but the empty one at \<^verbatim>\<open>Close\<close>).
\<close>

definition source_ok :: "string list \<Rightarrow> string list \<Rightarrow> string \<Rightarrow> redactingWriter \<Rightarrow> bool" where
  "source_ok ps ws x w \<longleftrightarrow>
     automaton (set ps) ws (w_matcher w) \<and> tracks ws (w_sourceState w) x \<and> w_sourceOffset w = int (length x) \<and> counts_ok w
     \<and> 0 \<le> w_pendingBase w \<and> w_pendingBase w \<le> int (length x) \<and> w_pending w = drop (nat (w_pendingBase w)) x
     \<and> ring_bounded w \<and> (\<forall>pos \<ge> w_pendingBase w. ring_of w pos = longest_match ps (drop (nat pos) x))"

definition progress :: "string list \<Rightarrow> string \<Rightarrow> string set \<Rightarrow> redactingWriter \<Rightarrow> bool" where
  "progress ps x Y w \<longleftrightarrow>
     (\<forall>y \<in> Y. redact ps (x @ y) = emitted w @ redact ps (drop (nat (w_pendingBase w)) (x @ y)))"

lemma redact_step:
  assumes "s \<noteq> []"
  shows "longest_match ps s = 0 \<Longrightarrow> redact ps s = take 1 s @ redact ps (drop 1 s)"
    and "longest_match ps s \<noteq> 0 \<Longrightarrow> redact ps s = Redacted @ redact ps (drop (longest_match ps s) s)"
  using assms by (simp_all add: redact.simps [of ps s], cases s, auto)

lemma longest_match_final:
  assumes "source_ok ps ws x w" and "final \<longrightarrow> y = []"
    and "\<not> (\<not> final \<and> w_sourceOffset w < w_pendingBase w + int (m_maxPattern (w_matcher w)))"
  shows "longest_match ps (drop (nat (w_pendingBase w)) (x @ y)) = longest_match ps (w_pending w)"
proof (cases "y = []")
  case False
  then have "int (m_maxPattern (w_matcher w)) \<le> int (length x) - w_pendingBase w" using assms by (auto simp: source_ok_def)
  then have "length p \<le> length (w_pending w)" if "p \<in> set ps" for p
    using assms(1) that by (auto simp: source_ok_def automaton_def)
  moreover have "drop (nat (w_pendingBase w)) (x @ y) = w_pending w @ y" using assms(1) by (auto simp: source_ok_def)
  ultimately show ?thesis using longest_match_append [of ps "w_pending w" y] by simp
qed (use assms in \<open>simp add: source_ok_def\<close>)

text \<open>Deciding the first pending position: what is emitted and what remains.\<close>

lemma progress_step:
  assumes "source_ok ps ws x w" and "progress ps x Y w" and "w_pending w \<noteq> []"
    and "\<not> (\<not> final \<and> w_sourceOffset w < w_pendingBase w + int (m_maxPattern (w_matcher w)))"
    and "found = longest_match ps (w_pending w)" and "len = (if found = 0 then 1 else found)"
    and "emitted w' = emitted w @ (if found = 0 then take 1 (w_pending w) else Redacted)"
    and "w_pendingBase w' = w_pendingBase w + int len" and "final \<longrightarrow> Y \<subseteq> {[]}"
  shows "progress ps x Y w'"
  unfolding progress_def
proof
  fix y assume yY: "y \<in> Y"
  then have y: "final \<longrightarrow> y = []" using assms(9) by blast
  let ?s = "drop (nat (w_pendingBase w)) (x @ y)"
  note long = longest_match_final [OF assms(1) y assms(4)]
  have s: "?s = w_pending w @ y" "0 \<le> w_pendingBase w" using assms(1) by (auto simp: source_ok_def)
  then have "?s \<noteq> []" "take 1 ?s = take 1 (w_pending w)" using assms(3) by (auto simp: Suc_le_eq)
  then have "redact ps ?s = (if found = 0 then take 1 (w_pending w) else Redacted) @ redact ps (drop len ?s)"
    using redact_step [of ?s ps] long assms(5,6) by auto
  moreover have "drop len ?s = drop (nat (w_pendingBase w')) (x @ y)"
    unfolding drop_drop using s(2) assms(8) by (simp only: nat_add_distrib of_nat_0_le_iff nat_int add.commute)
  ultimately show "redact ps (x @ y) = emitted w' @ redact ps (drop (nat (w_pendingBase w')) (x @ y))"
    using assms(2) yY assms(7) by (simp add: progress_def)
qed

text \<open>Clearing the candidates of the decided positions does not touch the others.\<close>

lemma ring_cleared:
  assumes "source_ok ps ws x w" and "len \<le> length (w_pending w)"
    and "\<And>pos. ring_of w' pos = (if \<exists>k < len. pos mod int (m_maxPattern (w_matcher w)) = (w_pendingBase w + int k) mod int (m_maxPattern (w_matcher w))
       then 0 else ring_of w pos)"
    and "w_pendingBase w + int len \<le> pos"
  shows "ring_of w' pos = longest_match ps (drop (nat pos) x)"
proof -
  have ring: "ring_of w pos = longest_match ps (drop (nat pos) x)" using assms(1,4) by (simp add: source_ok_def)
  have "longest_match ps (drop (nat pos) x) = 0"
    if "k < len" "pos mod int (m_maxPattern (w_matcher w)) = (w_pendingBase w + int k) mod int (m_maxPattern (w_matcher w))" for k
  proof -
    have cap: "0 < int (m_maxPattern (w_matcher w))" "int (length x) \<le> w_pendingBase w + int (m_maxPattern (w_matcher w))"
      using assms(1) by (auto simp: source_ok_def ring_bounded_def ring_sized_def)
    have "w_pendingBase w + int k + int (m_maxPattern (w_matcher w)) \<le> pos"
      using same_residue [OF that(2) [symmetric] _ cap(1)] that(1) assms(4) by linarith
    then have "int (length x) \<le> pos" using cap(2) by linarith
    then have "length (drop (nat pos) x) = 0" by simp
    then show ?thesis using longest_match_length [of ps "drop (nat pos) x"] by simp
  qed
  then show ?thesis using assms(3) ring by auto
qed

lemma source_fieldsD:
  assumes "source_fields w' = source_fields w"
  shows "w_matcher w' = w_matcher w" "w_sourceState w' = w_sourceState w" "w_sourceOffset w' = w_sourceOffset w"
    "w_pending w' = w_pending w" "w_pendingBase w' = w_pendingBase w" "w_failed w' = w_failed w" "w_sourceTransitions w' = w_sourceTransitions w"
    "rings w' = rings w" "ring_of w' = ring_of w" "ring_sized w' \<longleftrightarrow> ring_sized w"
  using assms by (simp_all add: source_fields_def rings_def ring_of_def ring_sized_def)

definition advanced :: "nat \<Rightarrow> redactingWriter \<Rightarrow> redactingWriter" where
  "advanced len w = w\<lparr>w_pending := drop len (w_pending w), w_pendingBase := w_pendingBase w + int len\<rparr>"

lemma advanced_fields:
  "out_fields (advanced len w) = out_fields w" "w_matcher (advanced len w) = w_matcher w"
  "w_sourceState (advanced len w) = w_sourceState w" "w_sourceOffset (advanced len w) = w_sourceOffset w" "w_sourceTransitions (advanced len w) = w_sourceTransitions w"
  "w_pending (advanced len w) = drop len (w_pending w)" "w_pendingBase (advanced len w) = w_pendingBase w + int len"
  "w_failed (advanced len w) = w_failed w" "ring_of (advanced len w) = ring_of w" "ring_sized (advanced len w) \<longleftrightarrow> ring_sized w"
  by (simp_all add: advanced_def out_fields_def ring_of_def ring_sized_def)

lemma source_ok_advanced:
  assumes ok: "source_ok ps ws x w" and len: "len \<le> length (w_pending w)"
    and same: "w_matcher w' = w_matcher w" "w_sourceState w' = w_sourceState w" "w_sourceOffset w' = w_sourceOffset w"
      "w_pending w' = w_pending w" "w_pendingBase w' = w_pendingBase w" "ring_sized w'" "w_sourceTransitions w' = w_sourceTransitions w"
    and granted: "uint (w_sourceTransitions w) \<le> maxTransitions"
    and ring: "\<And>pos. ring_of w' pos = (if \<exists>k < len. pos mod int (m_maxPattern (w_matcher w)) = (w_pendingBase w + int k) mod int (m_maxPattern (w_matcher w))
       then 0 else ring_of w pos)"
  shows "source_ok ps ws x (advanced len w')"
proof -
  let ?w = "advanced len w'"
  have c: "automaton (set ps) ws (w_matcher w)" "tracks ws (w_sourceState w) x" "w_sourceOffset w = int (length x)"
    "0 \<le> w_pendingBase w" "w_pendingBase w \<le> int (length x)" "w_pending w = drop (nat (w_pendingBase w)) x" "ring_bounded w" "counts_ok w"
    using ok by (auto simp: source_ok_def)
  have base: "w_pendingBase ?w = w_pendingBase w + int len" by (simp add: advanced_fields same)
  have ring': "ring_of ?w pos = longest_match ps (drop (nat pos) x)" if "w_pendingBase ?w \<le> pos" for pos
    using ring_cleared [OF ok len ring] that by (simp add: advanced_fields same)
  have "int (ring_of ?w pos) \<le> max 0 (w_sourceOffset ?w - pos)" if "w_pendingBase ?w \<le> pos" for pos
    using ring' [OF that] longest_match_length [of ps "drop (nat pos) x"] that c(3,4) base by (simp add: advanced_fields same)
  then have "ring_bounded ?w" using c(7) same(6) by (auto simp: ring_bounded_def advanced_fields same)
  moreover have "w_pending ?w = drop (nat (w_pendingBase ?w)) x"
    using c(4,6) base by (simp add: advanced_fields same nat_add_distrib add.commute)
  moreover have "counts_ok ?w" using c len granted by (auto simp: counts_ok_def advanced_fields same)
  ultimately show ?thesis using c len ring' base by (auto simp: source_ok_def advanced_fields same)
qed

text \<open>The turn of the loop of \<^verbatim>\<open>resolveSource\<close>.\<close>

lemma resolve_turn_stop:
  "w_pending w = [] \<or> \<not> final \<and> w_sourceOffset w < w_pendingBase w + int (m_maxPattern (w_matcher w))
   \<Longrightarrow> resolve_turn final w = Inl (None, w)"
  by (auto simp: resolve_turn_def)

lemma decide_head_goes_on: "decide_head w \<noteq> Inl (None, w')"
  by (auto simp: decide_head_def Let_def split: prod.splits option.splits bool.splits)

lemma decide_head_eq:
  assumes "found = (if w_candidateStarts w ! candidate_index w (w_pendingBase w) = w_pendingBase w
      then w_candidateLengths w ! candidate_index w (w_pendingBase w) else 0)"
    and "w2 = set_candidate (candidate_index w (w_pendingBase w)) 0 0 w" and "found \<le> length (w_pending w2)"
  shows "decide_head w =
    (case emitSafe (if found = 0 then take 1 (w_pending w2) else Redacted) False w2 of
       (Some e, w3) \<Rightarrow> Inl (Some e, w3)
     | (None, w3) \<Rightarrow> (case skip_candidates 1 ((if found = 0 then 1 else found) - 1) w3 of
          (False, w4) \<Rightarrow> Inl (Some ErrRedaction, w4)
        | (True, w4) \<Rightarrow> Inr (advanced (if found = 0 then 1 else found) w4)))"
  unfolding decide_head_def Let_def assms(1,2) [symmetric] advanced_def using assms(3) by (cases "found = 0") simp_all

lemma resolve_turn_ok:
  assumes ok: "source_ok ps ws x w" and safe: "safe (set ps) ws w" and prog: "progress ps x Y w"
    and Y: "final \<longrightarrow> Y \<subseteq> {[]}" and turn: "resolve_turn final w = r" and r0: "\<forall>w'. r \<noteq> Inl (None, w')"
  shows "case r of
      Inl (e, w') \<Rightarrow> offers_free (set ps) (w_calls w') \<and> e \<noteq> Some Diverges
    | Inr w' \<Rightarrow> source_ok ps ws x w' \<and> safe (set ps) ws w' \<and> progress ps x Y w' \<and> w_failed w' = w_failed w"
proof -
  have go: "w_pending w \<noteq> []" "\<not> (\<not> final \<and> w_sourceOffset w < w_pendingBase w + int (m_maxPattern (w_matcher w)))"
    using resolve_turn_stop [of w final] turn r0 by blast+
  have calls: "offers_free (set ps) (w_calls w)" using safe by (simp add: safe_def)
  obtain ok1 w1 where c: "consumeMatchWork w = (ok1, w1)" by fastforce
  note f1 = consume_frame [OF c]
  note k1 = keptD [of w1 w]
  have calls_kept: "w_calls u = w_calls v" if "kept u = kept v" for u v using that by (simp add: kept_def out_fields_def)
  show ?thesis
  proof (cases ok1)
    case False
    then have "r = Inl (Some ErrRedaction, w1)" using turn go c by (auto simp: resolve_turn_def)
    then show ?thesis using calls calls_kept [of w1 w] f1 by simp
  next
    case True
    have granted: "uint (w_sourceTransitions w) \<le> maxTransitions" using consume_limit c True by simp
    let ?i = "candidate_index w1 (w_pendingBase w1)"
    define found where "found = (if w_candidateStarts w1 ! ?i = w_pendingBase w1 then w_candidateLengths w1 ! ?i else 0)"
    define w2 where "w2 = set_candidate ?i 0 0 w1"
    define len where "len = (if found = 0 then 1 else found)"
    have r1: "ring_of w1 = ring_of w" "ring_sized w1" using rings_cong [of w1 w] f1 ok by (auto simp: source_ok_def ring_bounded_def)
    have k2: "kept w2 = kept w" "w_failed w2 = w_failed w" using f1 by (simp_all add: w2_def set_candidate_frame)
    note d2 = keptD [OF k2(1)]
    have found: "found = longest_match ps (w_pending w)"
    proof -
      have "found = ring_of w1 (w_pendingBase w1)" by (simp add: found_def ring_of_def ring_def candidate_index_def Let_def)
      then show ?thesis using r1(1) k1(7) f1 ok by (simp add: source_ok_def)
    qed
    then have len_le: "found \<le> length (w_pending w)" "len \<le> length (w_pending w)"
      using longest_match_length [of ps "w_pending w"] go(1) by (auto simp: len_def Suc_le_eq)
    define out where "out = (if found = 0 then take 1 (w_pending w) else Redacted)"
    obtain e w3 where em: "emitSafe out False w2 = (e, w3)" by fastforce
    have safe2: "safe (set ps) ws w2" "emitted w2 = emitted w" using safe safe_out_fields [of w2 w] emitted_out_fields [of w2 w] d2 by auto
    note es = emitSafe_safe [OF safe2(1) em]
    have turn3: "r = (case (e, w3) of (Some e, w3) \<Rightarrow> Inl (Some e, w3)
        | (None, w3) \<Rightarrow> (case skip_candidates 1 (len - 1) w3 of
             (False, w4) \<Rightarrow> Inl (Some ErrRedaction, w4) | (True, w4) \<Rightarrow> Inr (advanced len w4)))"
    proof -
      have "decide_head w1 = r" using turn go c True by (auto simp: resolve_turn_def)
      then show ?thesis
        using decide_head_eq [OF found_def w2_def] len_le(1) em unfolding d2(6) out_def [symmetric] len_def [symmetric] by simp
    qed
    show ?thesis
    proof (cases e)
      case (Some err)
      then show ?thesis using turn3 es by simp
    next
      case None
      obtain ok4 w4 where sk: "skip_candidates 1 (len - 1) w3 = (ok4, w4)" by fastforce
      note d3 = source_fieldsD [of w3 w2]
      have s3: "ring_sized w3" using d3 es ring_of_put(2) [OF r1(2)] by (simp add: w2_def)
      note sr = skip_candidates_ring [OF sk s3]
      show ?thesis
      proof (cases ok4)
        case False
        then have "r = Inl (Some ErrRedaction, w4)" using turn3 None sk by simp
        then show ?thesis using calls_kept [of w4 w3] sr es by simp
      next
        case True
        have ring2: "ring_of w2 pos = (if pos mod int (m_maxPattern (w_matcher w)) = w_pendingBase w mod int (m_maxPattern (w_matcher w))
            then 0 else ring_of w pos)" for pos
          using ring_of_put(1) [OF r1(2), of "w_pendingBase w1" 0 0 pos] r1(1) k1 f1 by (simp add: w2_def)
        have at: "(\<exists>k < len. Q k) \<longleftrightarrow> Q 0 \<or> (\<exists>k. 1 \<le> k \<and> k < 1 + (len - 1) \<and> Q k)" for Q
        proof -
          have "0 < len" by (simp add: len_def)
          then show ?thesis by (metis One_nat_def Suc_leI Suc_pred' gr0I not_one_le_zero plus_1_eq_Suc)
        qed
        have ring4: "ring_of w4 pos = (if \<exists>k < len. pos mod int (m_maxPattern (w_matcher w)) = (w_pendingBase w + int k) mod int (m_maxPattern (w_matcher w))
            then 0 else ring_of w pos)" for pos
          using sr True ring2 [of pos] d3 es d2 unfolding at by auto
        have r: "r = Inr (advanced len w4)" using turn3 None sk True by simp
        note d4 = keptD [of w4 w3]
        have src: "source_ok ps ws x (advanced len w4)"
          using sr d4 d3 es d2 granted by (intro source_ok_advanced [OF ok len_le(2) _ _ _ _ _ _ _ _ ring4]) auto
        have safe4: "safe (set ps) ws (advanced len w4)" "emitted (advanced len w4) = emitted w @ out"
          using es None sr d4(1) safe_out_fields [of "advanced len w4" w3] emitted_out_fields [of "advanced len w4" w3] safe2(2)
          by (auto simp: advanced_fields)
        have base: "w_pendingBase (advanced len w4) = w_pendingBase w + int len" using sr d4 d3 es d2 by (simp add: advanced_fields)
        have "progress ps x Y (advanced len w4)"
          using progress_step [OF ok prog go found len_def _ base Y] safe4(2) by (simp add: out_def)
        moreover have "w_failed (advanced len w4) = w_failed w" using sr d3 es k2 by (simp add: advanced_fields)
        ultimately show ?thesis using r src safe4(1) by simp
      qed
    qed
  qed
qed

lemma resolveSource_ok:
  assumes "source_ok ps ws x w" and "safe (set ps) ws w" and "progress ps x Y w" and "\<not> w_failed w"
    and "resolveSource final w = (e, w')" and "final \<longrightarrow> Y \<subseteq> {[]}"
  shows "offers_free (set ps) (w_calls w') \<and> e \<noteq> Some Diverges
    \<and> (e = None \<longrightarrow> source_ok ps ws x w' \<and> safe (set ps) ws w' \<and> progress ps x Y w' \<and> \<not> w_failed w'
        \<and> (if final then w_pending w' = [] else w_sourceOffset w' < w_pendingBase w' + int (m_maxPattern (w_matcher w'))))"
  using assms
proof (induction final w rule: resolveSource.induct)
  case (1 final w)
  show ?case
  proof (cases "resolve_turn final w")
    case (Inr w1)
    then have "resolveSource final w1 = (e, w')" using 1(6) by (simp add: resolveSource.simps [of final w])
    then show ?thesis using 1(1) [OF Inr] resolve_turn_ok [OF 1(2,3,4,7) Inr] 1(5,7) by simp
  next
    case (Inl r)
    then have r: "r = (e, w')" using 1(6) by (simp add: resolveSource.simps [of final w])
    show ?thesis
    proof (cases e)
      case None
      then have "w' = w" "w_pending w = [] \<or> \<not> final \<and> w_sourceOffset w < w_pendingBase w + int (m_maxPattern (w_matcher w))"
        using Inl r decide_head_goes_on by (auto simp: resolve_turn_def split: if_splits prod.splits bool.splits)
      moreover have "0 < m_maxPattern (w_matcher w)" "w_pending w = [] \<Longrightarrow> w_pendingBase w = w_sourceOffset w" "offers_free (set ps) (w_calls w)"
        using 1(2,3) by (auto simp: source_ok_def ring_bounded_def ring_sized_def safe_def)
      ultimately show ?thesis using 1(2-5) None by auto
    next
      case (Some err)
      then show ?thesis using resolve_turn_ok [OF 1(2,3,4,7) Inl] r by simp
    qed
  qed
qed

end
