(* ===== verification/Redaction_Stream.thy ===== *)
theory Redaction_Stream
  imports Redaction_Source
begin

text \<open>
  Whole runs of the redacting writer: what \<^verbatim>\<open>Write\<close> and \<^verbatim>\<open>Close\<close> keep true, on success and on failure.
\<close>

section \<open>One source byte\<close>

definition next_byte :: "char \<Rightarrow> nat \<Rightarrow> redactingWriter \<Rightarrow> redactingWriter" where
  "next_byte b s w = w\<lparr>w_pending := w_pending w @ [b], w_sourceState := s, w_sourceOffset := w_sourceOffset w + 1,
     w_sourceTransitions := w_sourceTransitions w + 1\<rparr>"

lemma next_byte_fields:
  "out_fields (next_byte b s w) = out_fields w" "w_matcher (next_byte b s w) = w_matcher w"
  "w_sourceState (next_byte b s w) = s" "w_sourceOffset (next_byte b s w) = w_sourceOffset w + 1"
  "w_sourceTransitions (next_byte b s w) = w_sourceTransitions w + 1"
  "w_pending (next_byte b s w) = w_pending w @ [b]" "w_pendingBase (next_byte b s w) = w_pendingBase w"
  "w_failed (next_byte b s w) = w_failed w" "ring_of (next_byte b s w) = ring_of w" "ring_sized (next_byte b s w) \<longleftrightarrow> ring_sized w"
  by (simp_all add: next_byte_def out_fields_def ring_of_def ring_sized_def)

lemma accept_bytes_Cons:
  assumes "advance (w_matcher w) (w_sourceState w) b = Some s" and "recordSourceMatches (next_byte b s w) = Some w3"
  shows "accept_bytes (b # bs) w =
    (if w_failed w3 then (Some ErrRedaction, w3)
     else (case resolveSource False w3 of (Some e, w4) \<Rightarrow> (Some e, w4) | (None, w4) \<Rightarrow> accept_bytes bs w4))"
proof -
  have "w\<lparr>w_pending := w_pending w @ [b]\<rparr>\<lparr>w_sourceState := s, w_sourceOffset := w_sourceOffset w + 1,
     w_sourceTransitions := w_sourceTransitions w + 1\<rparr> = next_byte b s w" by (simp add: next_byte_def)
  then show ?thesis using assms by (simp add: Let_def)
qed

definition writer_ok :: "string list \<Rightarrow> string list \<Rightarrow> string set \<Rightarrow> string \<Rightarrow> redactingWriter \<Rightarrow> bool" where
  "writer_ok ps ws Y x w \<longleftrightarrow> source_ok ps ws x w \<and> safe (set ps) ws w \<and> progress ps x Y w \<and> \<not> w_failed w
     \<and> (Y = UNIV \<or> Y = {}) \<and> w_sourceOffset w < w_pendingBase w + int (m_maxPattern (w_matcher w))"

lemma match_at:
  assumes "0 \<le> pos"
  shows "(\<exists>p \<in> P. p \<noteq> [] \<and> suffix p x \<and> int (length p) = int (length x) - pos) \<longleftrightarrow> pos < int (length x) \<and> drop (nat pos) x \<in> P"
proof
  assume "\<exists>p \<in> P. p \<noteq> [] \<and> suffix p x \<and> int (length p) = int (length x) - pos"
  then obtain p z where p: "p \<in> P" "p \<noteq> []" "x = z @ p" "int (length p) = int (length x) - pos" by (auto simp: suffix_def)
  then have "nat pos = length z" using assms by auto
  then show "pos < int (length x) \<and> drop (nat pos) x \<in> P" using p by auto
next
  assume "pos < int (length x) \<and> drop (nat pos) x \<in> P"
  then show "\<exists>p \<in> P. p \<noteq> [] \<and> suffix p x \<and> int (length p) = int (length x) - pos"
    using assms suffix_drop by (intro bexI [of _ "drop (nat pos) x"]) auto
qed

lemma counts_ok_next:
  assumes "counts_ok w" and "w_sourceOffset w < w_pendingBase w + int (m_maxPattern (w_matcher w))"
  shows "counts_ok (next_byte b s w)"
proof -
  have "uint (w_sourceTransitions w) + 1 < 2 ^ 64"
    using assms by (simp add: counts_ok_def maxTransitions_def MaxRedactionNodes_def)
  then have "uint (w_sourceTransitions w + 1) = uint (w_sourceTransitions w) + 1" by (simp add: uint_word_ariths)
  then show ?thesis using assms by (simp add: counts_ok_def next_byte_fields)
qed

text \<open>After a byte and the recording of its matches, the ring is exact again.\<close>

lemma source_ok_next:
  assumes ok: "writer_ok ps ws Y x w" and adv: "advance (w_matcher w) (w_sourceState w) b = Some s" "tracks ws s (x @ [b])"
  shows "\<exists>w3. recordSourceMatches (next_byte b s w) = Some w3 \<and> out_fields w3 = out_fields w
    \<and> (\<not> w_failed w3 \<longrightarrow> source_ok ps ws (x @ [b]) w3 \<and> safe (set ps) ws w3 \<and> progress ps (x @ [b]) Y w3)"
proof -
  let ?w = "next_byte b s w"
  have src: "source_ok ps ws x w" and below: "w_sourceOffset w < w_pendingBase w + int (m_maxPattern (w_matcher w))"
    using ok by (simp_all add: writer_ok_def)
  have a: "automaton (set ps) ws (w_matcher w)" and off: "w_sourceOffset w = int (length x)" and base: "0 \<le> w_pendingBase w" "w_pendingBase w \<le> int (length x)"
    and pend: "w_pending w = drop (nat (w_pendingBase w)) x" and rb: "ring_bounded w"
    and ring: "\<And>pos. w_pendingBase w \<le> pos \<Longrightarrow> ring_of w pos = longest_match ps (drop (nat pos) x)"
    and counts: "counts_ok w"
    using src by (auto simp: source_ok_def)
  have rb2: "ring_bounded ?w" using rb below by (fastforce simp: ring_bounded_def next_byte_fields)
  have tr: "trie (m_nodes (w_matcher w)) ws" and sub: "set ps \<subseteq> set ws" using a by (simp_all add: automaton_def)
  have sl: "s < length ws" using tracksD(1) [OF adv(2)] .
  have "length (ws ! s) < length (m_nodes (w_matcher ?w)) + 1" using trie_depth [OF tr sl] trieD(1) [OF tr] by (simp add: next_byte_fields)
  from record_loop_ring [OF a sl this, of ?w] rb2 obtain w3 where
    w3: "recordSourceMatches ?w = Some w3" "kept w3 = kept ?w"
      "\<not> w_failed w3 \<Longrightarrow> ring_bounded w3 \<and> (\<forall>pos \<ge> w_pendingBase ?w. ring_of w3 pos =
         (if \<exists>p \<in> set ps. p \<noteq> [] \<and> suffix p (ws ! s) \<and> int (length p) = w_sourceOffset ?w - pos
          then nat (w_sourceOffset ?w - pos) else ring_of ?w pos))"
    by (auto simp: recordSourceMatches_def next_byte_fields)
  note k = keptD [OF w3(2)]
  have off2: "w_sourceOffset ?w = int (length (x @ [b]))" using off by (simp add: next_byte_fields)
  have exact: "ring_of w3 pos = longest_match ps (drop (nat pos) (x @ [b]))" if "\<not> w_failed w3" "w_pendingBase w \<le> pos" for pos
  proof -
    have pos: "0 \<le> pos" using that base by simp
    have "(\<exists>p \<in> set ps. p \<noteq> [] \<and> suffix p (ws ! s) \<and> int (length p) = int (length (x @ [b])) - pos)
        \<longleftrightarrow> pos < int (length (x @ [b])) \<and> drop (nat pos) (x @ [b]) \<in> set ps"
      unfolding match_at [OF pos, symmetric] using tracks_suffix [OF adv(2)] sub by blast
    moreover have "ring_of w3 pos = (if \<exists>p \<in> set ps. p \<noteq> [] \<and> suffix p (ws ! s) \<and> int (length p) = int (length (x @ [b])) - pos
        then nat (int (length (x @ [b])) - pos) else ring_of w pos)"
      using conjunct2 [OF w3(3) [OF that(1)], unfolded off2, unfolded next_byte_fields, THEN spec, of pos] that(2) by (rule mp)
    ultimately have r3: "ring_of w3 pos = (if pos < int (length (x @ [b])) \<and> drop (nat pos) (x @ [b]) \<in> set ps
        then nat (int (length (x @ [b])) - pos) else longest_match ps (drop (nat pos) x))"
      by (simp only: ring [OF that(2)])
    show ?thesis
    proof (cases "pos \<le> int (length x)")
      case True
      then have "drop (nat pos) (x @ [b]) = drop (nat pos) x @ [b]" by simp
      then show ?thesis using r3 longest_match_snoc [of ps "drop (nat pos) x" b] True pos by auto (simp add: nat_diff_distrib nat_add_distrib Suc_diff_le nat_le_iff)?
    next
      case False
      then show ?thesis using r3 by simp
    qed
  qed
  have fields: "out_fields w3 = out_fields w" using k(1) by (simp add: next_byte_fields)
  have "counts_ok w3" using counts_ok_next [OF counts below, of b s] k by (simp add: counts_ok_def)
  then have "source_ok ps ws (x @ [b]) w3" if "\<not> w_failed w3"
    using a adv(2) off base pend k w3(3) [OF that] exact [OF that] by (simp add: source_ok_def next_byte_fields nat_le_iff)
  moreover have "safe (set ps) ws w3" using ok safe_out_fields [OF fields] by (simp add: writer_ok_def)
  moreover have "progress ps (x @ [b]) Y w3"
    using ok emitted_out_fields [OF fields] k(7) by (auto simp: writer_ok_def progress_def next_byte_fields)
  ultimately show ?thesis using w3(1) fields by blast
qed

lemma accept_bytes_ok:
  assumes "writer_ok ps ws Y x w" and "accept_bytes bs w = (e, w')"
  shows "offers_free (set ps) (w_calls w') \<and> e \<noteq> Some Diverges \<and> (e = None \<longrightarrow> writer_ok ps ws Y (x @ bs) w')"
  using assms
proof (induction bs arbitrary: x w)
  case Nil
  then show ?case by (simp add: writer_ok_def safe_def)
next
  case (Cons b bs)
  have a: "automaton (set ps) ws (w_matcher w)" "tracks ws (w_sourceState w) x"
    and free: "offers_free (set ps) (w_calls w)"
    using Cons.prems(1) by (simp_all add: writer_ok_def source_ok_def safe_def)
  from automaton_advance [OF a] obtain s where s: "advance (w_matcher w) (w_sourceState w) b = Some s" "tracks ws s (x @ [b])" by blast
  from source_ok_next [OF Cons.prems(1) s] obtain w3 where
    w3: "recordSourceMatches (next_byte b s w) = Some w3" "out_fields w3 = out_fields w"
      "\<not> w_failed w3 \<Longrightarrow> source_ok ps ws (x @ [b]) w3 \<and> safe (set ps) ws w3 \<and> progress ps (x @ [b]) Y w3" by blast
  note run = Cons.prems(2) [unfolded accept_bytes_Cons [OF s(1) w3(1)]]
  show ?case
  proof (cases "w_failed w3")
    case True
    then show ?thesis using run w3(2) free by (auto simp: out_fields_def)
  next
    case False
    obtain r w4 where r: "resolveSource False w3 = (r, w4)" by fastforce
    have Y: "Y = UNIV \<or> Y = {}" using Cons.prems(1) by (simp add: writer_ok_def)
    note res = resolveSource_ok [OF _ _ _ False r, of ps ws "x @ [b]" Y]
    show ?thesis
    proof (cases r)
      case None
      then have "writer_ok ps ws Y (x @ [b]) w4" using res w3(3) [OF False] Y by (simp add: writer_ok_def)
      from Cons.IH [OF this] show ?thesis using run False r None by simp
    next
      case (Some c)
      then show ?thesis using run False r res w3(3) [OF False] by auto
    qed
  qed
qed

lemma accept_chunks_ok:
  assumes "writer_ok ps ws Y x w" and "accept_chunks bs w = (e, w')"
  shows "offers_free (set ps) (w_calls w') \<and> e \<noteq> Some Diverges \<and> (e = None \<longrightarrow> writer_ok ps ws Y (x @ bs) w')"
  using assms
proof (induction bs w arbitrary: x rule: accept_chunks.induct)
  case (1 bs w)
  show ?case
  proof (cases "bs = []")
    case True
    then show ?thesis using 1(2,3) by (simp add: accept_chunks.simps writer_ok_def safe_def)
  next
    case False
    let ?n = "if redactionChunk < int (length bs) then nat redactionChunk else length bs"
    obtain r w1 where r: "accept_bytes (take ?n bs) w = (r, w1)" by fastforce
    note ok1 = accept_bytes_ok [OF 1(2) r]
    have run: "(e, w') = (case (r, w1) of (Some e, w1) \<Rightarrow> (Some e, w1) | (None, w1) \<Rightarrow> accept_chunks (drop ?n bs) w1)"
      using 1(3) False r by (simp add: accept_chunks.simps [of bs w] Let_def)
    show ?thesis
    proof (cases r)
      case None
      have "accept_chunks (drop ?n bs) w1 = (e, w')" using run None by simp
      from 1(1) [OF False refl r [symmetric] None _ this, of "x @ take ?n bs"] ok1 None show ?thesis by simp
    next
      case (Some c)
      then show ?thesis using run ok1 by simp
    qed
  qed
qed

end
