(* ===== verification/Redaction_Properties.thy ===== *)
theory Redaction_Properties
  imports Redaction_Stream
begin

text \<open>
  What a caller of the redacting writer can rely on: no secret reaches the destination, in no
  encoding the writer knows and over any sequence of calls, and when every call succeeds the
  destination has received the reference redaction of the input, however it was cut into pieces.
\<close>

section \<open>The patterns of the values\<close>

lemma indexBytes_from_found:
  "0 \<le> indexBytes_from i h n \<longleftrightarrow> (\<exists>j \<ge> i. j + length n \<le> length h \<and> take (length n) (drop j h) = n)"
proof (induction i h n rule: indexBytes_from.induct)
  case (1 i h n)
  show ?case
  proof (cases "i + length n \<le> length h \<and> take (length n) (drop i h) \<noteq> n")
    case True
    then have "indexBytes_from i h n = indexBytes_from (i + 1) h n" by (simp add: indexBytes_from.simps [of i])
    then show ?thesis using 1 True by (metis Suc_eq_plus1 Suc_leD le_antisym not_less_eq_eq)
  next
    case False
    then show ?thesis by (auto simp: indexBytes_from.simps [of i])
  qed
qed

lemma containsMarkerConflict_iff: "containsMarkerConflict p \<longleftrightarrow> p \<noteq> [] \<and> Contains Redacted p"
proof -
  have "(\<exists>j. j + length p \<le> length h \<and> take (length p) (drop j h) = p) \<longleftrightarrow> Contains h p" for h
  proof
    assume "\<exists>j. j + length p \<le> length h \<and> take (length p) (drop j h) = p"
    then obtain j where "take (length p) (drop j h) = p" by blast
    then have "h = take j h @ p @ drop (length p) (drop j h)" by (metis append_take_drop_id)
    then show "Contains h p" unfolding Contains_iff by blast
  next
    assume "Contains h p"
    then obtain a b where "h = a @ p @ b" unfolding Contains_iff by blast
    then show "\<exists>j. j + length p \<le> length h \<and> take (length p) (drop j h) = p" by (intro exI [of _ "length a"]) simp
  qed
  then show ?thesis by (simp add: containsMarkerConflict_def indexBytes_def indexBytes_from_found)
qed

definition acceptable :: "string list \<Rightarrow> bool" where
  "acceptable ps \<longleftrightarrow> distinct ps \<and> int (length ps) \<le> MaxRedactionPatterns \<and> (\<forall>p \<in> set ps. \<not> containsMarkerConflict p)"

lemma add_patterns_set:
  "acceptable ps \<Longrightarrow> add_patterns qs ps = Some ps' \<Longrightarrow> acceptable ps' \<and> set ps' = set ps \<union> set qs"
  by (induction qs ps rule: add_patterns.induct) (auto simp: acceptable_def split: if_splits)

lemma collect_patterns_set:
  "acceptable ps \<Longrightarrow> collect_patterns vs used ps = Some ps' \<Longrightarrow>
   acceptable ps' \<and> set ps' = set ps \<union> (\<Union>v \<in> {v \<in> set vs. v \<noteq> []}. set (value_patterns v))"
proof (induction vs used ps rule: collect_patterns.induct)
  case (2 v vs used ps)
  show ?case
  proof (cases "v = []")
    case True
    then show ?thesis using 2 by auto
  next
    case False
    then obtain ps1 where ps1: "add_patterns (value_patterns v) ps = Some ps1" "collect_patterns vs (used + int (length v)) ps1 = Some ps'"
      "\<not> MaxRedactionRawBytes - used < int (length v)"
      using 2(4) by (auto split: if_splits option.splits)
    note one = add_patterns_set [OF 2(3) ps1(1)]
    from 2(2) [OF _ ps1(3,1)] one ps1(2) False
    show ?thesis by auto
  qed
qed simp

lemma redactionPatterns_set:
  assumes "redactionPatterns vs = Some ps"
  shows "acceptable ps" and "set ps = (\<Union>v \<in> {v \<in> set vs. v \<noteq> []}. set (value_patterns v))"
  using collect_patterns_set [of "[]" vs 0 ps] assms by (auto simp: redactionPatterns_def acceptable_def MaxRedactionPatterns_def)

lemma value_patterns_nonempty: "v \<noteq> [] \<Longrightarrow> p \<in> set (value_patterns v) \<Longrightarrow> p \<noteq> []"
  by (cases v rule: b64_encode.cases) (auto simp: value_patterns_def StdEncoding_def RawStdEncoding_def)

section \<open>Runs\<close>

inductive writer_state :: "io_writer \<Rightarrow> string list \<Rightarrow> redactingWriter \<Rightarrow> bool" for dst vs where
  opened: "NewRedactingWriter (Some dst) vs = Inr w \<Longrightarrow> writer_state dst vs w"
| written: "writer_state dst vs w \<Longrightarrow> Write input w = (r, w') \<Longrightarrow> writer_state dst vs w'"
| closed: "writer_state dst vs w \<Longrightarrow> Close w = (r, w') \<Longrightarrow> writer_state dst vs w'"

text \<open>A writer without patterns hands everything on.\<close>

definition plain_ok :: "string list \<Rightarrow> string \<Rightarrow> redactingWriter \<Rightarrow> bool" where
  "plain_ok ps x w \<longleftrightarrow> ps = [] \<and> m_maxPattern (w_matcher w) = 0 \<and> \<not> w_failed w \<and> received (w_calls w) = x"

lemma offers_free_empty [simp]: "offers_free {} calls"
  by (simp add: offers_free_def pattern_free_def)

lemma new_writer:
  assumes "NewRedactingWriter (Some dst) vs = Inr w"
  shows "\<exists>ps ws. redactionPatterns vs = Some ps \<and> (plain_ok ps [] w \<or> writer_ok ps ws UNIV [] w)"
proof -
  from assms obtain ps m where ps: "redactionPatterns vs = Some ps" and m: "newMatcher ps = Inr m" and w: "w = initial_writer dst m"
    by (auto simp: NewRedactingWriter_def split: option.splits sum.splits redaction_error.splits)
  from newMatcher_cases [of ps] m obtain ws where a: "automaton (set ps) ws m" by auto
  have nonempty: "\<forall>p \<in> set ps. p \<noteq> []" using redactionPatterns_set(2) [OF ps] value_patterns_nonempty by fastforce
  note start = automaton_start [OF a]
  show ?thesis
  proof (cases "m_maxPattern m = 0")
    case True
    then have "ps = []" using a nonempty by (cases ps) (auto simp: automaton_def)
    then show ?thesis using ps True by (auto simp: plain_ok_def w initial_writer_def)
  next
    case False
    have "longest_match ps [] = 0" using longest_match_length [of ps "[]"] by simp
    moreover have "counts_ok w" using newMatcher_maxPattern [OF m] by (simp add: counts_ok_def maxTransitions_def w initial_writer_def)
    moreover have ring: "ring_of w pos = 0" for pos
      using False mod_less_divisor [of "m_maxPattern m"] pos_mod_bound [of "int (m_maxPattern m)" pos]
      by (auto simp: ring_of_def ring_def Let_def w initial_writer_def nat_less_iff)
    ultimately have "source_ok ps ws [] w"
      using a start False by (auto simp: source_ok_def ring_bounded_def ring_sized_def) (simp_all add: w initial_writer_def)
    moreover have "safe (set ps) ws w" using a start False by (simp add: safe_def emitted_def w initial_writer_def)
    moreover have "progress ps [] UNIV w" by (simp add: progress_def emitted_def w initial_writer_def)
    ultimately have "writer_ok ps ws UNIV [] w" using False by (simp add: writer_ok_def) (simp add: w initial_writer_def)
    then show ?thesis using ps by blast
  qed
qed

lemma Write_failed: "w_failed w \<Longrightarrow> Write input w = ((0, Some ErrRedaction), w)"
  and Close_failed: "w_failed w \<Longrightarrow> Close w = (Some ErrRedaction, w)"
  by (simp_all add: Write_def Close_def)

lemma outward_diverges: "outward e = Diverges \<longleftrightarrow> e = Diverges"
  by (simp add: outward_def)

lemma Write_ok:
  assumes ok: "writer_ok ps ws Y x w" and run: "Write input w = ((n, e), w')"
  shows "offers_free (set ps) (w_calls w') \<and> e \<noteq> Some Diverges
    \<and> (if e = None then writer_ok ps ws Y (x @ input) w' else w_failed w')"
proof -
  have big: "\<not> w_failed w" "m_maxPattern (w_matcher w) \<noteq> 0"
    using ok by (auto simp: writer_ok_def source_ok_def ring_bounded_def ring_sized_def)
  obtain r w1 where r: "accept_chunks input w = (r, w1)" by fastforce
  note acc = accept_chunks_ok [OF ok r]
  show ?thesis
  proof (cases r)
    case None
    then show ?thesis using run big r acc by (simp add: Write_def)
  next
    case (Some c)
    then have "e = Some (outward c)" "w' = w1\<lparr>w_failed := True\<rparr>" using run big r by (simp_all add: Write_def)
    then show ?thesis using acc Some by (simp add: outward_diverges)
  qed
qed

lemma Write_plain:
  assumes ok: "plain_ok ps x w" and run: "Write input w = ((n, e), w')"
  shows "e \<noteq> Some Diverges \<and> (if e = None then plain_ok ps (x @ input) w' else w_failed w')"
proof -
  obtain r calls where r: "writeAll (w_dst w) (w_calls w) input = (r, calls)" by fastforce
  have "pattern_free {} (received (w_calls w) @ input)" by (simp add: pattern_free_def)
  note all = writeAll_free [OF offers_free_empty this r]
  show ?thesis
  proof (cases r)
    case None
    then show ?thesis using ok run r all(2) by (auto simp: Write_def plain_ok_def)
  next
    case (Some c)
    then have "e = Some (outward c)" "w' = w\<lparr>w_calls := calls, w_failed := True\<rparr>" using ok run r by (simp_all add: Write_def plain_ok_def)
    then show ?thesis using all(3) Some by (simp add: outward_diverges)
  qed
qed

lemma flush_final: "emitSafe [] True w = (None, w') \<Longrightarrow> m_maxPattern (w_safety w) \<noteq> 0 \<Longrightarrow> w_safePending w' = []"
  by (auto simp: emitSafe_def flush_safe_def Let_def split: if_splits prod.splits option.splits)

lemma writer_ok_frame:
  assumes "source_ok ps ws x w1" and "safe (set ps) ws w2" and "source_fields w2 = source_fields w1" and "\<not> w_failed w1" and "w_pending w1 = []"
  shows "writer_ok ps ws {} x w2"
proof -
  note d = source_fieldsD [OF assms(3)]
  have "ring_bounded w2 \<longleftrightarrow> ring_bounded w1" "counts_ok w2 \<longleftrightarrow> counts_ok w1" by (simp_all add: ring_bounded_def counts_ok_def d)
  then have "source_ok ps ws x w2" using assms(1) d by (simp add: source_ok_def)
  moreover have "w_pendingBase w1 = w_sourceOffset w1" using assms(1,5) by (auto simp: source_ok_def)
  ultimately show ?thesis
    using assms(1,2,4) d by (simp add: writer_ok_def progress_def source_ok_def ring_bounded_def ring_sized_def)
qed

lemma Close_ok:
  assumes ok: "writer_ok ps ws Y x w" and run: "Close w = (e, w')"
  shows "offers_free (set ps) (w_calls w') \<and> e \<noteq> Some Diverges
    \<and> (if e = None then writer_ok ps ws {} x w' \<and> (Y = UNIV \<longrightarrow> received (w_calls w') = redact ps x) else w_failed w')"
proof -
  have big: "\<not> w_failed w" "m_maxPattern (w_matcher w) \<noteq> 0" and src: "source_ok ps ws x w" "safe (set ps) ws w" "progress ps x (Y \<inter> {[]}) w"
    using ok by (auto simp: writer_ok_def source_ok_def ring_bounded_def ring_sized_def progress_def)
  obtain r w1 where r: "resolveSource True w = (r, w1)" by fastforce
  from resolveSource_ok [OF src big(1) r] have res: "offers_free (set ps) (w_calls w1)" "r \<noteq> Some Diverges"
    "r = None \<Longrightarrow> source_ok ps ws x w1 \<and> safe (set ps) ws w1 \<and> progress ps x (Y \<inter> {[]}) w1 \<and> \<not> w_failed w1 \<and> w_pending w1 = []" by auto
  show ?thesis
  proof (cases r)
    case (Some c)
    then have "e = Some (outward c)" "w' = w1\<lparr>w_failed := True\<rparr>" using run big r by (simp_all add: Close_def)
    then show ?thesis using res Some by (simp add: outward_diverges)
  next
    case None
    note ok1 = res(3) [OF None]
    obtain q w2 where q: "emitSafe [] True w1 = (q, w2)" by fastforce
    have safe1: "safe (set ps) ws w1" using ok1 by blast
    note es = emitSafe_safe [OF safe1 q]
    show ?thesis
    proof (cases q)
      case (Some c)
      then have "e = Some (outward c)" "w' = w2\<lparr>w_failed := True\<rparr>" using run big r None q by (simp_all add: Close_def)
      then show ?thesis using es Some by (simp add: outward_diverges)
    next
      case q0: None
      have e: "e = None" "w' = w2" using run big r None q q0 by (simp_all add: Close_def)
      have w2: "safe (set ps) ws w2" "emitted w2 = emitted w1" "source_fields w2 = source_fields w1" using es q0 by auto
      have "w_safePending w2 = []" using flush_final [of w1 w2] q q0 safe1 by (simp add: safe_def)
      then have "received (w_calls w2) = emitted w1" using w2(2) by (simp add: emitted_def)
      moreover have "redact ps x = emitted w1" if "Y = UNIV"
      proof -
        have "drop (nat (w_pendingBase w1)) x = []" using ok1 unfolding source_ok_def by metis
        then show ?thesis using ok1 that by (simp add: progress_def redact.simps [of ps "[]"])
      qed
      ultimately show ?thesis using e es writer_ok_frame [OF _ w2(1,3)] ok1 by auto
    qed
  qed
qed

lemma Close_plain: "plain_ok ps x w \<Longrightarrow> Close w = (None, w)"
  by (simp add: Close_def plain_ok_def)

lemma writer_state_invariant:
  assumes "writer_state dst vs w"
  shows "\<exists>ps ws Y x. redactionPatterns vs = Some ps \<and> offers_free (set ps) (w_calls w)
    \<and> (w_failed w \<or> writer_ok ps ws Y x w \<or> plain_ok ps x w)"
  using assms
proof (induction rule: writer_state.induct)
  case (opened w)
  then show ?case using new_writer [OF opened] by (fastforce simp: plain_ok_def writer_ok_def safe_def)
next
  case (written w input r w')
  then obtain ps ws Y x where ih: "redactionPatterns vs = Some ps" "offers_free (set ps) (w_calls w)"
    "w_failed w \<or> writer_ok ps ws Y x w \<or> plain_ok ps x w" by blast
  obtain n e where r: "r = (n, e)" by fastforce
  from ih(3) show ?case
  proof (elim disjE)
    assume "w_failed w"
    then show ?thesis using written ih Write_failed by fastforce
  next
    assume "writer_ok ps ws Y x w"
    from Write_ok [OF this] written(2) r ih(1) show ?thesis by (metis (full_types))
  next
    assume p: "plain_ok ps x w"
    then have "ps = []" by (simp add: plain_ok_def)
    then show ?thesis using Write_plain [OF p] written(2) r ih(1) by (metis (full_types) offers_free_empty list.set(1))
  qed
next
  case (closed w e w')
  then obtain ps ws Y x where ih: "redactionPatterns vs = Some ps" "offers_free (set ps) (w_calls w)"
    "w_failed w \<or> writer_ok ps ws Y x w \<or> plain_ok ps x w" by blast
  from ih(3) show ?case
  proof (elim disjE)
    assume "w_failed w"
    then show ?thesis using closed ih Close_failed by fastforce
  next
    assume "writer_ok ps ws Y x w"
    from Close_ok [OF this closed(2)] ih(1) show ?thesis by (metis (full_types))
  next
    assume "plain_ok ps x w"
    then show ?thesis using Close_plain closed(2) ih by fastforce
  qed
qed

section \<open>Properties\<close>

lemma offers_free_received: "offers_free P calls \<Longrightarrow> pattern_free P (received calls)"
proof (cases calls rule: rev_cases)
  case (snoc xs c)
  obtain d n where c: "c = (d, n)" by fastforce
  assume "offers_free P calls"
  then have "pattern_free P ((received xs @ take (nat n) d) @ drop (nat n) d)" by (simp add: snoc c offers_free_snoc)
  then show ?thesis unfolding snoc c received_snoc by (rule pattern_free_prefix)
qed simp

text \<open>
  C11: whatever calls of \<^verbatim>\<open>Write\<close> and \<^verbatim>\<open>Close\<close> are made and however the destination behaves, the bytes it
  has received never contain a secret value, its base64 encoding or its unpadded base64 encoding;
  nor do they together with the bytes offered in any call.
\<close>

theorem redacted_output_leaks_nothing:
  assumes "writer_state dst vs w" and "v \<in> set vs" and "v \<noteq> []" and "p \<in> set (value_patterns v)"
  shows "\<not> Contains (received (w_calls w)) p
    \<and> (\<forall>before data n after. w_calls w = before @ (data, n) # after \<longrightarrow> \<not> Contains (received before @ data) p)"
proof -
  from writer_state_invariant [OF assms(1)] obtain ps where ps: "redactionPatterns vs = Some ps" "offers_free (set ps) (w_calls w)" by blast
  have p: "p \<in> set ps" "p \<noteq> []" using redactionPatterns_set(2) [OF ps(1)] assms(2-4) value_patterns_nonempty by auto
  show ?thesis
    using p ps(2) offers_free_received [OF ps(2)] unfolding offers_free_def pattern_free_def by blast
qed

text \<open>A destination that takes everything, and a writer on it for one secret.\<close>

definition reliable :: io_writer where
  "reliable = (\<lambda>calls data. (int (length data), False))"

definition ex_writer :: redactingWriter where
  "ex_writer = projr (NewRedactingWriter (Some reliable) [''k''])"

lemma ex_opened: "NewRedactingWriter (Some reliable) [''k''] = Inr ex_writer"
proof -
  have "isl (NewRedactingWriter (Some reliable) [''k'']) = False" by code_simp
  then show ?thesis by (cases "NewRedactingWriter (Some reliable) [''k'']") (simp_all add: ex_writer_def)
qed

lemma ex_written: "fst (Write ''ok'' ex_writer) = (2, None)"
  unfolding ex_writer_def by code_simp

lemma ex_closed: "fst (Close (snd (Write ''ok'' ex_writer))) = None"
  unfolding ex_writer_def by code_simp

lemma ex_state: "writer_state reliable [''k''] (snd (Close (snd (Write ''ok'' ex_writer))))"
  by (rule writer_state.closed [OF writer_state.written [OF writer_state.opened [OF ex_opened]]]) (rule prod.collapse [symmetric])+

theorem redacted_output_leaks_nothing_witness:
  "received (w_calls (snd (Close (snd (Write ''ok'' ex_writer))))) = ''o[REDACTED]''
   \<and> \<not> Contains (received (w_calls (snd (Close (snd (Write ''ok'' ex_writer)))))) ''aw==''"
proof -
  have "''aw=='' \<in> set (value_patterns ''k'')" by code_simp
  moreover have "received (w_calls (snd (Close (snd (Write ''ok'' ex_writer))))) = ''o[REDACTED]''" unfolding ex_writer_def by code_simp
  ultimately show ?thesis using redacted_output_leaks_nothing [OF ex_state, of "''k''" "''aw==''"] by simp
qed

text \<open>A caller's writes, one after the other until one fails.\<close>

fun write_pieces :: "string list \<Rightarrow> redactingWriter \<Rightarrow> redaction_error option \<times> redactingWriter" where
  "write_pieces [] w = (None, w)"
| "write_pieces (x # xs) w = (case Write x w of ((n, Some e), w1) \<Rightarrow> (Some e, w1) | ((n, None), w1) \<Rightarrow> write_pieces xs w1)"

lemma write_pieces_ok:
  assumes "write_pieces xs w = (None, w')"
  shows "writer_ok ps ws UNIV x w \<Longrightarrow> writer_ok ps ws UNIV (x @ concat xs) w'" and "plain_ok ps x w \<Longrightarrow> plain_ok ps (x @ concat xs) w'"
  using assms
proof (induction xs arbitrary: w x)
  case (Cons y ys)
  case 1
  then obtain n w1 where w1: "Write y w = ((n, None), w1)" "write_pieces ys w1 = (None, w')" by (auto split: prod.splits option.splits)
  from Write_ok [OF 1(1) w1(1)] have "writer_ok ps ws UNIV (x @ y) w1" by simp
  from Cons(1) [OF this w1(2)] show ?case by simp
next
  case (Cons y ys)
  case 2
  then obtain n w1 where w1: "Write y w = ((n, None), w1)" "write_pieces ys w1 = (None, w')" by (auto split: prod.splits option.splits)
  from Write_plain [OF 2(1) w1(1)] have "plain_ok ps (x @ y) w1" by simp
  from Cons(2) [OF this w1(2)] show ?case by simp
qed simp_all

lemma redact_none: "redact [] s = s"
  by (induction "[] :: string list" s rule: redact.induct) (simp add: redact.simps)

text \<open>
  C12: when all writes and the final \<^verbatim>\<open>Close\<close> succeed, the destination has received the reference
  redaction of the input: the secrets replaced from left to right, at each place the longest pattern,
  whatever pieces the input came in and whatever counts the destination returned.
\<close>

theorem redaction_is_the_reference:
  assumes "NewRedactingWriter (Some dst) vs = Inr w" and "redactionPatterns vs = Some ps"
    and "write_pieces xs w = (None, w1)" and "Close w1 = (None, w2)"
  shows "received (w_calls w2) = redact ps (concat xs)"
proof -
  from new_writer [OF assms(1)] assms(2) obtain ws where "plain_ok ps [] w \<or> writer_ok ps ws UNIV [] w" by auto
  then show ?thesis
  proof
    assume p: "plain_ok ps [] w"
    from write_pieces_ok(2) [OF assms(3) p] have "plain_ok ps (concat xs) w1" by simp
    then show ?thesis using Close_plain [of ps "concat xs" w1] assms(4) by (auto simp: plain_ok_def redact_none)
  next
    assume ok: "writer_ok ps ws UNIV [] w"
    from write_pieces_ok(1) [OF assms(3) ok] have "writer_ok ps ws UNIV (concat xs) w1" by simp
    from Close_ok [OF this assms(4)] show ?thesis by simp
  qed
qed

theorem redaction_is_the_reference_witness:
  "received (w_calls (snd (Close (snd (Write ''ok'' ex_writer))))) = redact [''k'', ''aw=='', ''aw''] ''ok''"
proof -
  have a: "redactionPatterns [''k''] = Some [''k'', ''aw=='', ''aw'']" by code_simp
  have b: "write_pieces [''ok''] ex_writer = (None, snd (Write ''ok'' ex_writer))"
    using ex_written by (cases "Write ''ok'' ex_writer") auto
  have c: "Close (snd (Write ''ok'' ex_writer)) = (None, snd (Close (snd (Write ''ok'' ex_writer))))"
    using ex_closed by (metis prod.collapse)
  from redaction_is_the_reference [OF ex_opened a b c] show ?thesis by (simp only: concat.simps append_Nil2)
qed

text \<open>
  C36: no operation of the writer runs forever, opening it included: the loops that follow failure and
  output links always come to an end.
\<close>

theorem redaction_always_returns:
  "NewRedactingWriter dst vs \<noteq> Inl Diverges
   \<and> (writer_state d vs w \<longrightarrow> snd (fst (Write input w)) \<noteq> Some Diverges \<and> fst (Close w) \<noteq> Some Diverges)"
proof
  have "newMatcher ps \<noteq> Inl Diverges" for ps using newMatcher_cases [of ps] by auto
  then show "NewRedactingWriter dst vs \<noteq> Inl Diverges"
    by (simp add: NewRedactingWriter_def split: option.split sum.split redaction_error.split)
  show "writer_state d vs w \<longrightarrow> snd (fst (Write input w)) \<noteq> Some Diverges \<and> fst (Close w) \<noteq> Some Diverges"
  proof
    assume "writer_state d vs w"
    from writer_state_invariant [OF this] obtain ps ws Y x where "w_failed w \<or> writer_ok ps ws Y x w \<or> plain_ok ps x w" by blast
    moreover obtain n e w1 where wr: "Write input w = ((n, e), w1)" by (metis prod.collapse)
    moreover obtain c w2 where cl: "Close w = (c, w2)" by fastforce
    ultimately have "e \<noteq> Some Diverges \<and> c \<noteq> Some Diverges"
    proof (elim disjE)
      assume "w_failed w"
      then show ?thesis using Write_failed [of w input] Close_failed [of w] wr cl by simp
    next
      assume ok: "writer_ok ps ws Y x w"
      show ?thesis using Write_ok [OF ok wr] Close_ok [OF ok cl] by blast
    next
      assume ok: "plain_ok ps x w"
      show ?thesis using Write_plain [OF ok wr] Close_plain [OF ok] cl by auto
    qed
    then show "snd (fst (Write input w)) \<noteq> Some Diverges \<and> fst (Close w) \<noteq> Some Diverges" using wr cl by simp
  qed
qed

theorem redaction_always_returns_witness:
  "snd (fst (Write ''more'' (snd (Close (snd (Write ''ok'' ex_writer)))))) \<noteq> Some Diverges"
  using redaction_always_returns [of None "[''k'']" reliable] ex_state by blast

text \<open>
  as long as the writer has not failed, its 64-bit stream positions are exact: the count of
  transitions is the number of source bytes, and the positions stay below the match-work ceiling plus
  the node limit, far from the signed 64-bit range's end.
\<close>

lemma redaction_counters_fit:
  assumes "writer_state dst vs w" and "\<not> w_failed w" and "m_maxPattern (w_matcher w) \<noteq> 0"
  shows "0 \<le> w_pendingBase w \<and> w_pendingBase w \<le> w_sourceOffset w \<and> w_sourceOffset w = uint (w_sourceTransitions w)
    \<and> w_sourceOffset w < maxTransitions + MaxRedactionNodes \<and> maxTransitions + MaxRedactionNodes < 2 ^ 62"
proof -
  from writer_state_invariant [OF assms(1)] obtain ps ws Y x where "writer_ok ps ws Y x w \<or> plain_ok ps x w" using assms(2) by blast
  then show ?thesis
    using assms(3) by (auto simp: writer_ok_def plain_ok_def source_ok_def counts_ok_def maxTransitions_def MaxRedactionNodes_def)
qed

section \<open>The matcher as a scanner\<close>

text \<open>
  What the writer needs of its matcher: a state that stands for the text scanned so far, a step that
  never gets stuck, and an output that is the length of the longest pattern the text ends with.
\<close>

fun scan :: "(nat \<Rightarrow> char \<Rightarrow> nat option) \<Rightarrow> nat \<Rightarrow> string \<Rightarrow> nat option" where
  "scan step s [] = Some s"
| "scan step s (b # bs) = (case step s b of None \<Rightarrow> None | Some s1 \<Rightarrow> scan step s1 bs)"

locale pattern_scanner =
  fixes build :: "string list \<Rightarrow> redaction_error + 'm" and step :: "'m \<Rightarrow> nat \<Rightarrow> char \<Rightarrow> nat option"
    and out :: "'m \<Rightarrow> nat \<Rightarrow> nat" and after :: "string list \<Rightarrow> 'm \<Rightarrow> nat \<Rightarrow> string \<Rightarrow> bool"
  assumes start: "build ps = Inr m \<Longrightarrow> after ps m 0 []"
    and stepped: "after ps m s x \<Longrightarrow> \<exists>s1. step m s b = Some s1 \<and> after ps m s1 (x @ [b])"
    and reports: "after ps m s x \<Longrightarrow> output_of (set ps) x (out m s)"
begin

lemma scan_after: "after ps m s x \<Longrightarrow> \<exists>s1. scan (step m) s y = Some s1 \<and> after ps m s1 (x @ y)"
proof (induction y arbitrary: s x)
  case (Cons b y)
  from stepped [OF Cons.prems, of b] obtain s1 where s1: "step m s b = Some s1" "after ps m s1 (x @ [b])" by blast
  from Cons.IH [OF s1(2)] s1(1) show ?case by simp
qed simp

lemma scan_output:
  assumes "build ps = Inr m"
  shows "\<exists>s. scan (step m) 0 x = Some s \<and> out m s = longest_match (map rev ps) (rev x)"
proof -
  from scan_after [OF start [OF assms]] obtain s where s: "scan (step m) 0 x = Some s" "after ps m s x" by fastforce
  have "longest_match (map rev ps) (rev x) = out m s"
    using reports [OF s(2)] by (intro longest_match_eqI) (auto simp: output_of_def suffix_to_prefix)
  then show ?thesis using s(1) by auto
qed

end

interpretation redactor: pattern_scanner newMatcher advance "\<lambda>m s. node_output (m_nodes m ! s)"
  "\<lambda>ps m s x. \<exists>ws. automaton (set ps) ws m \<and> tracks ws s x"
proof
  show "\<exists>ws. automaton (set ps) ws m \<and> tracks ws 0 []" if "newMatcher ps = Inr m" for ps m
    using newMatcher_cases [of ps] that automaton_start by fastforce
qed (use automaton_advance automaton_output in blast)+

text \<open>
  after scanning any text, the state of the matcher \<^verbatim>\<open>newMatcher\<close> built has as its output the length
  of the longest pattern the text ends with, zero when there is none.
\<close>

lemma matcher_finds_longest_pattern:
  "newMatcher ps = Inr m \<Longrightarrow>
   \<exists>s. scan (advance m) 0 x = Some s \<and> node_output (m_nodes m ! s) = longest_match (map rev ps) (rev x)"
  by (rule redactor.scan_output)

end
