(* ===== verification/Webhook.thy ===== *)
theory Webhook
  imports Activation_Text Queue
begin

text \<open>
  \<^verbatim>\<open>internal/github/webhook.go\<close>: the normalized values a GitHub webhook is reduced to, with their
  validation.  An enumeration is a Go string type, so it has a constructor for any other text.
\<close>

section \<open>Receipts\<close>

datatype webhook_event = EventPush | EventInstallation | EventInstallationRepositories | EventOther string

datatype verification_state = VerificationPending | VerificationVerified | VerificationRejected | VerificationOther string

datatype processing_state = ProcessingPending | ProcessingProcessed | ProcessingRejected | ProcessingOther string

datatype webhook_failure =
  FailureNone | FailureSignature | FailureMalformed | FailureUnsupported | FailureUnauthorized | FailureOther string

definition validEvent :: "webhook_event \<Rightarrow> bool" where
  "validEvent v \<longleftrightarrow> v = EventPush \<or> v = EventInstallation \<or> v = EventInstallationRepositories"

record webhook_headers =
  hd_delivery :: string
  hd_event :: webhook_event
  hd_signature :: string

definition Headers_Validate :: "webhook_headers \<Rightarrow> bool" where
  "Headers_Validate h \<longleftrightarrow>
     \<not> (\<not> ValidOpaqueID (hd_delivery h) \<or> \<not> validEvent (hd_event h) \<or> hd_signature h = [] \<or> length (hd_signature h) > 256)"

text \<open>A digest is an array of 32 bytes; the zero array is no digest.\<close>

definition Digest_valid :: "string \<Rightarrow> bool" where
  "Digest_valid d \<longleftrightarrow> d \<noteq> replicate 32 (CHR 0x00)"

record delivery =
  dv_id :: string
  dv_event :: webhook_event
  dv_digest :: string
  dv_verification :: verification_state
  dv_processing :: processing_state
  dv_failure :: webhook_failure

definition Delivery_Validate :: "delivery \<Rightarrow> bool" where
  "Delivery_Validate d \<longleftrightarrow>
     ValidOpaqueID (dv_id d) \<and> validEvent (dv_event d) \<and> Digest_valid (dv_digest d) \<and>
     (case dv_verification d of
        VerificationPending \<Rightarrow> dv_processing d = ProcessingPending \<and> dv_failure d = FailureNone
      | VerificationRejected \<Rightarrow> dv_processing d = ProcessingRejected \<and> dv_failure d = FailureSignature
      | VerificationVerified \<Rightarrow>
          (case dv_processing d of
             ProcessingPending \<Rightarrow> dv_failure d = FailureNone
           | ProcessingProcessed \<Rightarrow> dv_failure d = FailureNone
           | ProcessingRejected \<Rightarrow> dv_failure d \<in> {FailureMalformed, FailureUnsupported, FailureUnauthorized}
           | ProcessingOther _ \<Rightarrow> False)
      | VerificationOther _ \<Rightarrow> False)"

section \<open>Events\<close>

record push =
  ps_installation :: int
  ps_repository :: int
  ps_owner :: int
  ps_ref :: string
  ps_commit :: string

definition Push_Validate :: "push \<Rightarrow> bool" where
  "Push_Validate p \<longleftrightarrow>
     \<not> (ps_installation p \<le> 0 \<or> ps_repository p \<le> 0 \<or> ps_owner p \<le> 0
        \<or> \<not> ValidBranchRef (ps_ref p) \<or> \<not> ValidCommitSHA (ps_commit p))"

record lifecycle =
  lc_event :: webhook_event
  lc_installation :: int
  lc_repository :: int
  lc_owner :: int
  lc_repositories :: "int list"
  lc_action :: string

definition MaxLifecycleRepositories :: int where
  "MaxLifecycleRepositories = 100"

text \<open>The loop over the ids: each is positive and larger than the one before.\<close>

fun ascending_ids :: "int option \<Rightarrow> int list \<Rightarrow> bool" where
  "ascending_ids previous [] = True"
| "ascending_ids previous (i # ids) =
     (if i \<le> 0 \<or> (case previous of None \<Rightarrow> False | Some p \<Rightarrow> p \<ge> i) then False else ascending_ids (Some i) ids)"

definition Lifecycle_Validate :: "lifecycle \<Rightarrow> bool" where
  "Lifecycle_Validate e \<longleftrightarrow>
     \<not> (lc_installation e \<le> 0 \<or> lc_owner e \<le> 0) \<and>
     (case lc_event e of
        EventInstallation \<Rightarrow>
          \<not> ((lc_repositories e \<noteq> [] \<or> lc_repository e \<noteq> 0)
             \<or> lc_action e \<notin> {''created'', ''deleted'', ''suspend'', ''unsuspend''})
      | EventInstallationRepositories \<Rightarrow>
          (let ids = (if lc_repositories e = [] \<and> lc_repository e > 0 then [lc_repository e] else lc_repositories e)
           in \<not> (ids = [] \<or> int (length ids) > MaxLifecycleRepositories \<or> lc_action e \<notin> {''added'', ''removed''})
              \<and> ascending_ids None ids)
      | _ \<Rightarrow> False)"

definition CanonicalLifecycleRepositories :: "int list \<Rightarrow> int list" where
  "CanonicalLifecycleRepositories ids = sort ids"

lemma ascending_ids_iff:
  "ascending_ids previous ids \<longleftrightarrow> sorted_wrt (<) ids \<and> (\<forall>i \<in> set ids. 0 < i \<and> (case previous of None \<Rightarrow> True | Some p \<Rightarrow> p < i))"
proof (induction previous ids rule: ascending_ids.induct)
  case (2 previous i ids)
  show ?case
  proof (cases "i \<le> 0 \<or> (case previous of None \<Rightarrow> False | Some p \<Rightarrow> p \<ge> i)")
    case True
    then show ?thesis by (auto split: option.splits)
  next
    case False
    then show ?thesis using 2 by (fastforce split: option.splits)
  qed
qed simp

end
