(* ===== verification/Webhook_Intake.thy ===== *)
theory Webhook_Intake
  imports Webhook Lease_System Server_Repository Deployment_Repository
begin

text \<open>
  \<^verbatim>\<open>internal/store/postgres/webhook_job_repository.go\<close>: how a verified push becomes a deployment and a
  job.  The store adds to the database of the lease repository (\<open>core\<close>) the GitHub tables of
  migrations 000005 and 000009, the receipts and intents of migration 000010, and the columns of
  \<^verbatim>\<open>agent_jobs\<close> that only this repository reads, by job.  A transaction is atomic: its row locks are
  held to the commit.  A number drawn from a sequence in a transaction that fails is drawn again; in
  PostgreSQL it is skipped, and nothing depends on which numbers are used.
\<close>

section \<open>Tables\<close>

record app_row =
  app_id :: int
  app_active :: bool

record installation_row =
  ins_id :: int
  ins_owner :: string
  ins_account :: int
  ins_active :: bool
  ins_suspended :: bool
  ins_revision :: int

record repository_row =
  rep_id :: int
  rep_installation :: int
  rep_owner :: string
  rep_github_owner :: int
  rep_active :: bool
  rep_revision :: int

record project_binding_row =
  pb_owner :: string
  pb_project :: string
  pb_repository :: int
  pb_installation :: int
  pb_active :: bool
  pb_revision :: int
  pb_ref :: "string option"
  pb_environment :: "string option"
  pb_server :: "string option"

record delivery_row =
  dl_id :: int
  dl_app :: int
  dl_delivery :: string
  dl_event :: webhook_event
  dl_action :: string
  dl_digest :: string
  dl_verification :: verification_state
  dl_processing :: processing_state
  dl_failure :: webhook_failure
  dl_installation :: "int option"
  dl_repository :: "int option"
  dl_owner :: "int option"
  dl_processed :: "int option"

record intent_row =
  int_id :: int
  int_delivery :: int
  int_owner :: string
  int_project :: string
  int_repository :: int
  int_ref :: string
  int_commit :: string
  int_deployment :: string

record job_identity_row =
  ji_job :: int
  ji_version :: int
  ji_key :: string
  ji_digest :: string

record intake =
  core :: db
  apps :: "app_row list"
  installations :: "installation_row list"
  repositories :: "repository_row list"
  project_bindings :: "project_binding_row list"
  deliveries :: "delivery_row list"
  next_delivery :: int
  lifecycle_repositories :: "(int \<times> int) list"
  intents :: "intent_row list"
  next_intent :: int
  job_identities :: "job_identity_row list"
  next_job :: int

section \<open>Errors\<close>

text \<open>\<open>IntakeError\<close> is any other error, wrapped by \<^verbatim>\<open>fmt.Errorf\<close>.\<close>

datatype intake_error = ErrWebhookUnauthorized | ErrWebhookIntegrity | IntakeError lease_error

type_synonym 'a isql = "(intake, lease_error, 'a) tx"
type_synonym 'a itx = "(intake, intake_error, 'a) tx"

definition catch :: "(lease_error \<Rightarrow> intake_error) \<Rightarrow> 'a isql \<Rightarrow> 'a itx" where
  "catch h m s = (case m s of Inl e \<Rightarrow> Inl (h e) | Inr r \<Rightarrow> Inr r)"

definition on_core :: "'a dbtx \<Rightarrow> 'a isql" where
  "on_core m s = (case m (core s) of Inl e \<Rightarrow> Inl e | Inr (x, c) \<Rightarrow> Inr (x, s\<lparr>core := c\<rparr>))"

definition integrity_if_unique :: "lease_error \<Rightarrow> intake_error" where
  "integrity_if_unique e = (if isUniqueViolation e then ErrWebhookIntegrity else IntakeError e)"

section \<open>Statements on receipts (webhook_deliveries)\<close>

definition is_positive :: "int option \<Rightarrow> bool" where
  "is_positive v = (case v of None \<Rightarrow> False | Some i \<Rightarrow> 0 < i)"

definition delivery_checks :: "delivery_row \<Rightarrow> bool" where
  "delivery_checks r \<longleftrightarrow>
     length (dl_delivery r) \<ge> 1 \<and> length (dl_delivery r) \<le> 128 \<and> validEvent (dl_event r) \<and> length (dl_digest r) = 32
     \<and> (\<forall>v \<in> {dl_installation r, dl_repository r, dl_owner r}. v = None \<or> is_positive v)
     \<and> (dl_verification r = VerificationVerified \<and> dl_processing r \<in> {ProcessingPending, ProcessingProcessed} \<and> dl_failure r = FailureNone
        \<or> dl_verification r = VerificationPending \<and> dl_processing r = ProcessingPending \<and> dl_failure r = FailureNone
        \<or> dl_verification r = VerificationVerified \<and> dl_processing r = ProcessingRejected
          \<and> dl_failure r \<in> {FailureMalformed, FailureUnsupported, FailureUnauthorized}
        \<or> dl_verification r = VerificationRejected \<and> dl_processing r = ProcessingRejected \<and> dl_failure r = FailureSignature)
     \<and> ((dl_processing r = ProcessingProcessed) = (dl_processed r \<noteq> None))
     \<and> (dl_verification r = VerificationVerified \<and> dl_processing r \<in> {ProcessingPending, ProcessingProcessed}
          \<and> is_positive (dl_installation r) \<and> is_positive (dl_owner r)
          \<and> (dl_event r = EventPush \<and> dl_action r = [] \<and> is_positive (dl_repository r)
             \<or> dl_event r = EventInstallation \<and> dl_action r \<in> {''created'', ''deleted'', ''suspend'', ''unsuspend''} \<and> dl_repository r = None
             \<or> dl_event r = EventInstallationRepositories \<and> dl_action r \<in> {''added'', ''removed''} \<and> is_positive (dl_repository r))
        \<or> dl_processing r = ProcessingRejected)
     \<and> (dl_processing r \<noteq> ProcessingRejected \<or> dl_action r = [])"

text \<open>
  \<^verbatim>\<open>INSERT ... ON CONFLICT (app_registration_id, delivery_id) DO NOTHING RETURNING id\<close>: no row comes
  back when the receipt exists; the body digest of a verified receipt is unique.
\<close>

definition insert_delivery :: "delivery_row \<Rightarrow> int option isql" where
  "insert_delivery r s =
     (if \<not> delivery_checks r then Inl (PgError ''23514'' ''webhook_deliveries_check'')
      else if list_ex (\<lambda>q. dl_app q = dl_app r \<and> dl_delivery q = dl_delivery r) (deliveries s) then Inr (None, s)
      else if dl_verification r = VerificationVerified
          \<and> list_ex (\<lambda>q. dl_verification q = VerificationVerified \<and> dl_app q = dl_app r \<and> dl_digest q = dl_digest r) (deliveries s)
      then Inl (unique_violation ''webhook_deliveries_verified_body_digest_uq'')
      else if \<not> list_ex (\<lambda>a. app_id a = dl_app r) (apps s)
      then Inl (PgError ''23503'' ''webhook_deliveries_app_registration_id_fkey'')
      else Inr (Some (next_delivery s),
                s\<lparr>deliveries := deliveries s @ [r\<lparr>dl_id := next_delivery s\<rparr>], next_delivery := next_delivery s + 1\<rparr>))"

definition find_delivery :: "int \<Rightarrow> string \<Rightarrow> intake \<Rightarrow> delivery_row option" where
  "find_delivery app k s = find (\<lambda>q. dl_app q = app \<and> dl_delivery q = k) (deliveries s)"

definition processed_delivery :: "int \<Rightarrow> delivery_row \<Rightarrow> delivery_row" where
  "processed_delivery now r = r\<lparr>dl_processing := ProcessingProcessed, dl_processed := Some now\<rparr>"

text \<open>The rows \<^verbatim>\<open>markDeliveryProcessed\<close> updates; the trigger accepts pending to processed.\<close>

definition pending_receipt :: "int \<Rightarrow> delivery_row \<Rightarrow> bool" where
  "pending_receipt k r \<longleftrightarrow> dl_id r = k \<and> dl_verification r = VerificationVerified \<and> dl_processing r = ProcessingPending"

definition markDeliveryProcessed :: "int \<Rightarrow> int \<Rightarrow> unit itx" where
  "markDeliveryProcessed k now s =
     (if length (filter (pending_receipt k) (deliveries s)) \<noteq> 1 then Inl ErrWebhookIntegrity
      else Inr ((), s\<lparr>deliveries := map (\<lambda>r. if pending_receipt k r then processed_delivery now r else r) (deliveries s)\<rparr>))"

section \<open>Terminal rejections\<close>

record rejection =
  rj_app :: int
  rj_delivery :: delivery
  rj_action :: string
  rj_installation :: "int option"
  rj_repository :: "int option"
  rj_owner :: "int option"

definition validTerminalRejection :: "rejection \<Rightarrow> bool" where
  "validTerminalRejection r \<longleftrightarrow>
     rj_app r = 1 \<and> Delivery_Validate (rj_delivery r) \<and> dv_processing (rj_delivery r) = ProcessingRejected \<and> rj_action r = []
     \<and> (\<forall>v \<in> {rj_installation r, rj_repository r, rj_owner r}. v = None \<or> is_positive v)
     \<and> (dv_verification (rj_delivery r) = VerificationRejected
        \<or> dv_verification (rj_delivery r) = VerificationVerified
          \<and> dv_failure (rj_delivery r) \<in> {FailureMalformed, FailureUnsupported, FailureUnauthorized})"

definition rejection_row :: "rejection \<Rightarrow> delivery_row" where
  "rejection_row r = \<lparr>dl_id = 0, dl_app = rj_app r, dl_delivery = dv_id (rj_delivery r), dl_event = dv_event (rj_delivery r),
     dl_action = rj_action r, dl_digest = dv_digest (rj_delivery r), dl_verification = dv_verification (rj_delivery r),
     dl_processing = dv_processing (rj_delivery r), dl_failure = dv_failure (rj_delivery r),
     dl_installation = rj_installation r, dl_repository = rj_repository r, dl_owner = rj_owner r, dl_processed = None\<rparr>"

definition same_rejection :: "rejection \<Rightarrow> delivery_row \<Rightarrow> bool" where
  "same_rejection r q \<longleftrightarrow> q\<lparr>dl_id := 0, dl_processed := None\<rparr> = rejection_row r"

definition record_rejection_tx :: "rejection \<Rightarrow> int itx" where
  "record_rejection_tx r =
     and_then (catch integrity_if_unique (insert_delivery (rejection_row r))) (\<lambda>inserted. case inserted of
         Some k \<Rightarrow> ret k
       | None \<Rightarrow>
           and_then (query_row ErrWebhookIntegrity (find_delivery (rj_app r) (dv_id (rj_delivery r)))) (\<lambda>q.
           seq (ensure (same_rejection r q) ErrWebhookIntegrity) (ret (dl_id q))))"

section \<open>Authority of a push\<close>

record webhookTarget =
  tg_owner :: string
  tg_project :: string
  tg_environment :: string
  tg_server :: string

definition active_app :: "int \<Rightarrow> intake \<Rightarrow> app_row option" where
  "active_app k s = find (\<lambda>a. app_id a = k \<and> app_active a) (apps s)"

definition usable_installation :: "push \<Rightarrow> intake \<Rightarrow> installation_row option" where
  "usable_installation p s =
     find (\<lambda>i. ins_id i = ps_installation p \<and> ins_account i = ps_owner p \<and> ins_active i \<and> \<not> ins_suspended i) (installations s)"

definition usable_repository :: "push \<Rightarrow> string \<Rightarrow> intake \<Rightarrow> repository_row option" where
  "usable_repository p owner s =
     find (\<lambda>r. rep_id r = ps_repository p \<and> rep_installation r = ps_installation p \<and> rep_owner r = owner
                \<and> rep_github_owner r = ps_owner p \<and> rep_active r) (repositories s)"

definition usable_binding :: "push \<Rightarrow> string \<Rightarrow> intake \<Rightarrow> project_binding_row option" where
  "usable_binding p owner s =
     find (\<lambda>b. pb_owner b = owner \<and> pb_repository b = ps_repository p \<and> pb_installation b = ps_installation p \<and> pb_active b
                \<and> pb_ref b = Some (ps_ref p) \<and> pb_environment b \<noteq> None \<and> pb_server b \<noteq> None) (project_bindings s)"

definition target_of :: "project_binding_row \<Rightarrow> webhookTarget" where
  "target_of b = \<lparr>tg_owner = pb_owner b, tg_project = pb_project b, tg_environment = the (pb_environment b), tg_server = the (pb_server b)\<rparr>"

definition lockWebhookAuthorityForPush :: "int \<Rightarrow> push \<Rightarrow> webhookTarget itx" where
  "lockWebhookAuthorityForPush app p =
     and_then (query_row ErrWebhookUnauthorized (active_app app)) (\<lambda>_.
     and_then (query_row ErrWebhookUnauthorized (usable_installation p)) (\<lambda>i.
     and_then (query_row ErrWebhookUnauthorized (usable_repository p (ins_owner i))) (\<lambda>_.
     and_then (query_row ErrWebhookUnauthorized (usable_binding p (ins_owner i))) (\<lambda>b.
     ret (target_of b)))))"

text \<open>Length-prefixed fields under one hash; the deployment id and the job key are cut from its hex digits.\<close>

definition be32 :: "nat \<Rightarrow> string" where
  "be32 n = map char_of [n div 16777216 mod 256, n div 65536 mod 256, n div 256 mod 256, n mod 256 :: nat]"

definition webhook_fields :: "webhookTarget \<Rightarrow> push \<Rightarrow> string list" where
  "webhook_fields t p = [''autodeploy:webhook:v1'', tg_owner t, tg_project t, tg_environment t, tg_server t,
     itoa (ps_repository p), ps_ref p, ps_commit p]"

definition webhookIDs :: "(string \<Rightarrow> string) \<Rightarrow> webhookTarget \<Rightarrow> push \<Rightarrow> string \<times> string" where
  "webhookIDs sha256 t p =
     (let seed = hex_encode (sha256 (concat (map (\<lambda>v. be32 (length v) @ v) (webhook_fields t p))))
      in (''whd_'' @ take 40 seed, ''whj_'' @ drop 40 seed))"

section \<open>Enqueueing\<close>

record enqueue_input =
  en_app :: int
  en_delivery :: delivery
  en_push :: push
  en_deployment :: deployment
  en_job :: queue_job

record enqueue_result =
  er_delivery :: int
  er_deployment :: string
  er_job :: int

definition targetMatches :: "enqueue_input \<Rightarrow> webhookTarget \<Rightarrow> bool" where
  "targetMatches i t \<longleftrightarrow>
     \<not> (jb_owner (en_job i) \<noteq> tg_owner t \<or> jb_project (en_job i) \<noteq> tg_project t
        \<or> id_project (dep_identity (en_deployment i)) \<noteq> tg_project t \<or> jb_environment (en_job i) \<noteq> tg_environment t
        \<or> id_environment (dep_identity (en_deployment i)) \<noteq> tg_environment t \<or> jb_server (en_job i) \<noteq> tg_server t
        \<or> id_server (dep_identity (en_deployment i)) \<noteq> tg_server t)"

definition push_receipt :: "enqueue_input \<Rightarrow> delivery_row" where
  "push_receipt i = \<lparr>dl_id = 0, dl_app = en_app i, dl_delivery = dv_id (en_delivery i), dl_event = dv_event (en_delivery i),
     dl_action = [], dl_digest = dv_digest (en_delivery i), dl_verification = VerificationVerified,
     dl_processing = ProcessingPending, dl_failure = FailureNone, dl_installation = Some (ps_installation (en_push i)),
     dl_repository = Some (ps_repository (en_push i)), dl_owner = Some (ps_owner (en_push i)), dl_processed = None\<rparr>"

text \<open>Scanning a NULL into an int64 is an error, so a receipt without the three ids does not resolve.\<close>

definition insertOrResolveDelivery :: "enqueue_input \<Rightarrow> (int \<times> bool) itx" where
  "insertOrResolveDelivery i =
     and_then (catch integrity_if_unique (insert_delivery (push_receipt i))) (\<lambda>inserted. case inserted of
         Some k \<Rightarrow> ret (k, True)
       | None \<Rightarrow>
           and_then (query_row (IntakeError ErrNoRows) (find_delivery (en_app i) (dv_id (en_delivery i)))) (\<lambda>q.
           seq (ensure (dl_installation q \<noteq> None \<and> dl_repository q \<noteq> None \<and> dl_owner q \<noteq> None) (IntakeError (ErrPlain ''scan NULL''))) (
           seq (ensure (dl_digest q = dv_digest (en_delivery i) \<and> dl_event q = dv_event (en_delivery i)
                        \<and> dl_installation q = Some (ps_installation (en_push i))
                        \<and> dl_repository q = Some (ps_repository (en_push i)) \<and> dl_owner q = Some (ps_owner (en_push i))) ErrWebhookIntegrity)
           (ret (dl_id q, False)))))"

definition intent_key :: "intent_row \<Rightarrow> string \<times> string \<times> int \<times> string \<times> string" where
  "intent_key r = (int_owner r, int_project r, int_repository r, int_ref r, int_commit r)"

definition push_intent :: "int \<Rightarrow> enqueue_input \<Rightarrow> intent_row" where
  "push_intent k i = \<lparr>int_id = 0, int_delivery = k, int_owner = jb_owner (en_job i), int_project = jb_project (en_job i),
     int_repository = ps_repository (en_push i), int_ref = ps_ref (en_push i), int_commit = ps_commit (en_push i),
     int_deployment = jb_deployment (en_job i)\<rparr>"

definition insert_intent :: "intent_row \<Rightarrow> int option isql" where
  "insert_intent r s =
     (if list_ex (\<lambda>q. intent_key q = intent_key r) (intents s) then Inr (None, s)
      else if list_ex (\<lambda>q. int_delivery q = int_delivery r) (intents s)
      then Inl (unique_violation ''automatic_deployment_intents_delivery_id_key'')
      else if list_ex (\<lambda>q. int_deployment q = int_deployment r) (intents s)
      then Inl (unique_violation ''automatic_deployment_intents_deployment_id_key'')
      else if \<not> list_ex (\<lambda>b. pb_owner b = int_owner r \<and> pb_project b = int_project r) (project_bindings s)
      then Inl (PgError ''23503'' ''automatic_deployment_intents_binding_fkey'')
      else Inr (Some (next_intent s), s\<lparr>intents := intents s @ [r\<lparr>int_id := next_intent s\<rparr>], next_intent := next_intent s + 1\<rparr>))"

definition find_intent :: "string \<times> string \<times> int \<times> string \<times> string \<Rightarrow> intake \<Rightarrow> intent_row option" where
  "find_intent key s = find (\<lambda>q. intent_key q = key) (intents s)"

definition insertOrResolveIntent :: "int \<Rightarrow> enqueue_input \<Rightarrow> (int \<times> bool) itx" where
  "insertOrResolveIntent k i =
     and_then (catch integrity_if_unique (insert_intent (push_intent k i))) (\<lambda>inserted. case inserted of
         Some n \<Rightarrow> ret (n, True)
       | None \<Rightarrow> and_then (query_row (IntakeError ErrNoRows) (find_intent (intent_key (push_intent k i)))) (\<lambda>q. ret (int_id q, False)))"

definition job_row_of :: "int \<Rightarrow> int \<Rightarrow> queue_job \<Rightarrow> job_row" where
  "job_row_of k created j = \<lparr>job_id = k, job_owner = jb_owner j, job_project = jb_project j, job_environment = jb_environment j,
     job_server = jb_server j, job_deployment = jb_deployment j, job_repository = jb_repository j, job_ref = jb_ref j,
     job_commit = jb_commit j, job_priority = jb_priority j, job_created = created, job_state = JobQueued,
     job_available = jb_available j, job_attempt_count = 0, job_cancel_requested = None, job_updated = created\<rparr>"

definition identity_of_job :: "int \<Rightarrow> intake \<Rightarrow> job_identity_row option" where
  "identity_of_job k s = select_row ji_job k (job_identities s)"

definition insert_job :: "queue_job \<Rightarrow> int \<Rightarrow> int isql" where
  "insert_job j created s =
     (if jb_version j \<noteq> 1 \<or> jb_kind j \<noteq> ''deployment_execution'' \<or> jb_state j \<noteq> ''queued''
         \<or> jb_priority j < -100 \<or> jb_priority j > 100 \<or> jb_repository j \<le> 0
      then Inl (PgError ''23514'' ''agent_jobs_check'')
      else if get_job (next_job s) (core s) \<noteq> None then Inl (unique_violation ''agent_jobs_pkey'')
      else if list_ex (\<lambda>q. job_deployment q = jb_deployment j) (jobs (core s))
      then Inl (unique_violation ''agent_jobs_deployment_id_job_kind_key'')
      else if list_ex (\<lambda>q. job_owner q = jb_owner j \<and> map_option ji_key (identity_of_job (job_id q) s) = Some (jb_idempotency j)) (jobs (core s))
      then Inl (unique_violation ''agent_jobs_owner_id_idempotency_key_key'')
      else Inr (next_job s,
        s\<lparr>core := (core s)\<lparr>jobs := jobs (core s) @ [job_row_of (next_job s) created j]\<rparr>,
          job_identities := job_identities s @
            [\<lparr>ji_job = next_job s, ji_version = jb_version j, ji_key = jb_idempotency j, ji_digest = jb_payload j\<rparr>],
          next_job := next_job s + 1\<rparr>))"

definition insert_enqueued_event :: "int \<Rightarrow> unit isql" where
  "insert_enqueued_event k s =
     (if list_ex (\<lambda>e. jev_job e = k \<and> jev_sequence e = 1) (job_events (core s)) then Inl (unique_violation ''agent_job_events_pkey'')
      else Inr ((), s\<lparr>core := (core s)\<lparr>job_events := job_events (core s) @
        [\<lparr>jev_job = k, jev_sequence = 1, jev_type = EvEnqueued, jev_attempt = None\<rparr>]\<rparr>\<rparr>))"

text \<open>The joins of an intent with the job of its deployment.\<close>

definition job_of_deployment :: "string \<Rightarrow> intake \<Rightarrow> job_row option" where
  "job_of_deployment d s = find (\<lambda>j. job_deployment j = d) (jobs (core s))"

definition result_of_intent :: "int \<Rightarrow> intent_row \<Rightarrow> intake \<Rightarrow> enqueue_result option" where
  "result_of_intent k i s =
     (case job_of_deployment (int_deployment i) s of
        None \<Rightarrow> None
      | Some j \<Rightarrow> if int_deployment i = [] then None
                  else Some \<lparr>er_delivery = k, er_deployment = int_deployment i, er_job = job_id j\<rparr>)"

definition resultForDelivery :: "int \<Rightarrow> enqueue_result itx" where
  "resultForDelivery k =
     query_row ErrWebhookIntegrity
       (\<lambda>s. case find (\<lambda>i. int_delivery i = k) (intents s) of None \<Rightarrow> None | Some i \<Rightarrow> result_of_intent k i s)"

definition resultForStoredIntent :: "int \<Rightarrow> int \<Rightarrow> enqueue_result itx" where
  "resultForStoredIntent n k =
     query_row ErrWebhookIntegrity
       (\<lambda>s. case find (\<lambda>i. int_id i = n) (intents s) of None \<Rightarrow> None | Some i \<Rightarrow> result_of_intent k i s)"

text \<open>
  \<^verbatim>\<open>resultForIntent\<close> wants the stored deployment, its creation event and the job to be exactly the
  ones of the input.
\<close>

definition stored_as_given :: "enqueue_input \<Rightarrow> intent_row \<Rightarrow> job_row \<Rightarrow> snapshot \<Rightarrow> job_identity_row \<Rightarrow> bool" where
  "stored_as_given i q j d ji \<longleftrightarrow>
     (case (Snapshot (en_deployment i), snap_events d) of
        (Inr snap, e # _) \<Rightarrow>
          snap_identity d = dep_identity (en_deployment i) \<and> int_deployment q = id_deployment (dep_identity (en_deployment i))
          \<and> snap_version d = snap_version snap \<and> snap_created d = snap_created snap
          \<and> ev_from e = no_status \<and> ev_to e = StatusQueued \<and> map ev_at (take 1 (snap_events snap)) = [ev_at e]
          \<and> ji_version ji = jb_version (en_job i) \<and> jb_kind (en_job i) = ''deployment_execution''
          \<and> job_owner j = jb_owner (en_job i) \<and> job_project j = jb_project (en_job i)
          \<and> job_environment j = jb_environment (en_job i) \<and> job_server j = jb_server (en_job i)
          \<and> job_deployment j = jb_deployment (en_job i) \<and> job_repository j = jb_repository (en_job i)
          \<and> job_ref j = jb_ref (en_job i) \<and> job_commit j = jb_commit (en_job i) \<and> job_priority j = jb_priority (en_job i)
          \<and> job_available j = jb_available (en_job i) \<and> ji_key ji = jb_idempotency (en_job i)
          \<and> ji_digest ji = jb_payload (en_job i) \<and> job_state j = JobQueued \<and> jb_state (en_job i) = ''queued''
      | _ \<Rightarrow> False)"

definition resultForIntent :: "int \<Rightarrow> enqueue_input \<Rightarrow> enqueue_result itx" where
  "resultForIntent n i =
     and_then (query_row ErrWebhookIntegrity (\<lambda>s. find (\<lambda>q. int_id q = n) (intents s))) (\<lambda>q.
     and_then (query_row ErrWebhookIntegrity (job_of_deployment (int_deployment q))) (\<lambda>j.
     and_then (query_row ErrWebhookIntegrity (\<lambda>s. get_deployment (int_deployment q) (core s))) (\<lambda>d.
     and_then (query_row ErrWebhookIntegrity (identity_of_job (job_id j))) (\<lambda>ji.
     seq (ensure (stored_as_given i q j d ji) ErrWebhookIntegrity)
       (ret \<lparr>er_delivery = int_delivery q, er_deployment = int_deployment q, er_job = job_id j\<rparr>)))))"

definition create_error :: "lease_error \<Rightarrow> intake_error" where
  "create_error e = (if isUniqueViolation e \<or> e = ErrAlreadyExists then ErrWebhookIntegrity else IntakeError e)"

definition enqueueVerifiedPushTx ::
  "(nat \<Rightarrow> int) \<Rightarrow> enqueue_input \<Rightarrow> webhookTarget \<Rightarrow> bool \<Rightarrow> enqueue_result itx" where
  "enqueueVerifiedPushTx clock i t strictReplay =
     seq (ensure (targetMatches i t) ErrWebhookUnauthorized) (
     and_then (insertOrResolveDelivery i) (\<lambda>(k, created).
     if \<not> created then resultForDelivery k
     else and_then (insertOrResolveIntent k i) (\<lambda>(n, inserted).
       if \<not> inserted then
         and_then (if strictReplay then resultForIntent n i else resultForStoredIntent n k) (\<lambda>result.
         seq (markDeliveryProcessed k (clock 2)) (ret result))
       else
         and_then (catch integrity_if_unique (insert_job (en_job i) (clock 1))) (\<lambda>job.
         seq (catch create_error (on_core (createTx (en_deployment i)))) (
         seq (catch IntakeError (insert_enqueued_event job)) (
         seq (markDeliveryProcessed k (clock 2))
           (ret \<lparr>er_delivery = k, er_deployment = id_deployment (dep_identity (en_deployment i)), er_job = job\<rparr>)))))))"

section \<open>Commit\<close>

text \<open>The foreign keys to deployments are checked at the commit.\<close>

definition intake_commit_checks :: "intake \<Rightarrow> bool" where
  "intake_commit_checks s \<longleftrightarrow>
     commit_checks (core s)
     \<and> list_all (\<lambda>i. get_deployment (int_deployment i) (core s) \<noteq> None) (intents s)
     \<and> list_all (\<lambda>ji. case get_job (ji_job ji) (core s) of None \<Rightarrow> True
                      | Some j \<Rightarrow> get_deployment (job_deployment j) (core s) \<noteq> None) (job_identities s)"

definition run_intake :: "'a itx \<Rightarrow> intake \<Rightarrow> (intake_error + 'a) \<times> intake" where
  "run_intake m s = (case m s of
       Inl e \<Rightarrow> (Inl e, s)
     | Inr (r, t) \<Rightarrow> if intake_commit_checks t then (Inr r, t) else (Inl (IntakeError (PgError ''23503'' ''deferred'')), s))"

definition RecordTerminalRejection :: "rejection \<Rightarrow> intake \<Rightarrow> (intake_error + int) \<times> intake" where
  "RecordTerminalRejection r s =
     (if \<not> validTerminalRejection r then (Inl ErrWebhookUnauthorized, s) else run_intake (record_rejection_tx r) s)"

definition verified_push :: "delivery \<Rightarrow> push \<Rightarrow> bool" where
  "verified_push d p \<longleftrightarrow> Delivery_Validate d \<and> dv_event d = EventPush \<and> dv_verification d = VerificationVerified
     \<and> dv_processing d = ProcessingPending \<and> Push_Validate p"

definition validWebhookEnqueueInput :: "(string \<Rightarrow> string) \<Rightarrow> (int \<Rightarrow> string) \<Rightarrow> enqueue_input \<Rightarrow> bool" where
  "validWebhookEnqueueInput sha256 rfc3339 i \<longleftrightarrow>
     en_app i = 1 \<and> verified_push (en_delivery i) (en_push i) \<and> Job_Validate sha256 rfc3339 (en_job i)
     \<and> (case Snapshot (en_deployment i) of
          Inl _ \<Rightarrow> False
        | Inr snap \<Rightarrow>
            snap_status snap = StatusQueued \<and> snap_revision snap = 1 \<and> length (snap_events snap) = 1
            \<and> ev_from (hd (snap_events snap)) = no_status \<and> ev_to (hd (snap_events snap)) = StatusQueued
            \<and> ev_at (hd (snap_events snap)) = snap_created snap
            \<and> id_deployment (dep_identity (en_deployment i)) = jb_deployment (en_job i)
            \<and> id_commit (dep_identity (en_deployment i)) = ps_commit (en_push i)
            \<and> jb_repository (en_job i) = ps_repository (en_push i) \<and> jb_ref (en_job i) = ps_ref (en_push i)
            \<and> jb_commit (en_job i) = ps_commit (en_push i))"

definition EnqueueVerifiedPush ::
  "(string \<Rightarrow> string) \<Rightarrow> (int \<Rightarrow> string) \<Rightarrow> (nat \<Rightarrow> int) \<Rightarrow> enqueue_input \<Rightarrow> intake \<Rightarrow> (intake_error + enqueue_result) \<times> intake" where
  "EnqueueVerifiedPush sha256 rfc3339 clock i s =
     (if \<not> validWebhookEnqueueInput sha256 rfc3339 i then (Inl ErrWebhookUnauthorized, s)
      else run_intake (and_then (lockWebhookAuthorityForPush (en_app i) (en_push i)) (\<lambda>t. enqueueVerifiedPushTx clock i t True)) s)"

text \<open>\<^verbatim>\<open>ProcessPush\<close> builds the deployment and the job from the locked target; \<open>clock 0\<close> is its time.\<close>

definition process_push_tx ::
  "(string \<Rightarrow> string) \<Rightarrow> (int \<Rightarrow> string) \<Rightarrow> (nat \<Rightarrow> int) \<Rightarrow> delivery \<Rightarrow> push \<Rightarrow> enqueue_result itx" where
  "process_push_tx sha256 rfc3339 clock d p =
     and_then (lockWebhookAuthorityForPush 1 p) (\<lambda>t.
     let (deploymentID, jobKey) = webhookIDs sha256 t p in
     and_then (lift_result (\<lambda>_. ErrWebhookUnauthorized)
       (New \<lparr>id_deployment = deploymentID, id_project = tg_project t, id_environment = tg_environment t,
              id_server = tg_server t, id_commit = ps_commit p\<rparr> (clock 0))) (\<lambda>dep.
     and_then (lift_result (\<lambda>_. ErrWebhookUnauthorized)
       (NewDeploymentExecutionJob sha256 rfc3339 (tg_owner t) (tg_project t) (tg_environment t) (tg_server t) deploymentID
          (ps_repository p) (ps_ref p) (ps_commit p) jobKey 0 (clock 0))) (\<lambda>j.
     enqueueVerifiedPushTx clock \<lparr>en_app = 1, en_delivery = d, en_push = p, en_deployment = dep, en_job = j\<rparr> t False)))"

definition ProcessPush ::
  "(string \<Rightarrow> string) \<Rightarrow> (int \<Rightarrow> string) \<Rightarrow> (nat \<Rightarrow> int) \<Rightarrow> delivery \<Rightarrow> push \<Rightarrow> intake \<Rightarrow>
   (intake_error + enqueue_result) \<times> intake" where
  "ProcessPush sha256 rfc3339 clock d p s =
     (if \<not> verified_push d p then (Inl ErrWebhookUnauthorized, s) else run_intake (process_push_tx sha256 rfc3339 clock d p) s)"

section \<open>Lifecycle events\<close>

definition lifecycleRepositoryIDs :: "lifecycle \<Rightarrow> int list" where
  "lifecycleRepositoryIDs l =
     (if lc_repositories l \<noteq> [] then lc_repositories l else if lc_repository l > 0 then [lc_repository l] else [])"

definition known_installation :: "lifecycle \<Rightarrow> intake \<Rightarrow> installation_row option" where
  "known_installation l s = find (\<lambda>i. ins_id i = lc_installation l \<and> ins_account i = lc_owner l) (installations s)"

definition known_repository :: "lifecycle \<Rightarrow> int \<Rightarrow> intake \<Rightarrow> repository_row option" where
  "known_repository l k s =
     find (\<lambda>r. rep_id r = k \<and> rep_installation r = lc_installation l \<and> rep_github_owner r = lc_owner l) (repositories s)"

definition lockLifecycleAuthority :: "lifecycle \<Rightarrow> unit itx" where
  "lockLifecycleAuthority l =
     and_then (query_row ErrWebhookUnauthorized (active_app 1)) (\<lambda>_.
     and_then (query_row ErrWebhookUnauthorized (known_installation l)) (\<lambda>_.
     if lc_event l = EventInstallationRepositories
     then for_each (\<lambda>k. and_then (query_row ErrWebhookUnauthorized (known_repository l k)) (\<lambda>_. ret ())) (lifecycleRepositoryIDs l)
     else ret ()))"

definition nullableRepository :: "lifecycle \<Rightarrow> int option" where
  "nullableRepository l = (if lc_repository l = 0 then None else Some (lc_repository l))"

definition lifecycle_receipt :: "delivery \<Rightarrow> lifecycle \<Rightarrow> delivery_row" where
  "lifecycle_receipt d l = \<lparr>dl_id = 0, dl_app = 1, dl_delivery = dv_id d, dl_event = dv_event d, dl_action = lc_action l,
     dl_digest = dv_digest d, dl_verification = VerificationVerified, dl_processing = ProcessingPending, dl_failure = FailureNone,
     dl_installation = Some (lc_installation l), dl_repository = nullableRepository l, dl_owner = Some (lc_owner l), dl_processed = None\<rparr>"

definition get_delivery :: "int \<Rightarrow> intake \<Rightarrow> delivery_row option" where
  "get_delivery k s = find (\<lambda>q. dl_id q = k) (deliveries s)"

text \<open>The insert trigger seals the repository set once the receipt is no longer pending.\<close>

definition insert_lifecycle_repository :: "int \<Rightarrow> int \<Rightarrow> unit isql" where
  "insert_lifecycle_repository k rep s =
     (case get_delivery k s of
        None \<Rightarrow> Inl (PgError ''23503'' ''webhook_lifecycle_repositories_delivery_id_fkey'')
      | Some q \<Rightarrow>
          if dl_verification q \<noteq> VerificationVerified \<or> dl_processing q \<noteq> ProcessingPending
          then Inl (PgError ''P0001'' ''webhook lifecycle repository set is sealed'')
          else if rep \<le> 0 then Inl (PgError ''23514'' ''webhook_lifecycle_repositories_repository_id_check'')
          else if (k, rep) \<in> set (lifecycle_repositories s) then Inl (unique_violation ''webhook_lifecycle_repositories_pkey'')
          else Inr ((), s\<lparr>lifecycle_repositories := lifecycle_repositories s @ [(k, rep)]\<rparr>))"

definition insertLifecycleRepositories :: "int \<Rightarrow> int list \<Rightarrow> unit itx" where
  "insertLifecycleRepositories k ids = for_each (\<lambda>rep. catch IntakeError (insert_lifecycle_repository k rep)) ids"

definition lifecycleRepositoriesMatch :: "int \<Rightarrow> int list \<Rightarrow> unit itx" where
  "lifecycleRepositoriesMatch k want s =
     (if sort (map snd (filter (\<lambda>r. fst r = k) (lifecycle_repositories s))) = want then Inr ((), s) else Inl ErrWebhookIntegrity)"

definition disabled_installation :: "installation_row \<Rightarrow> installation_row" where
  "disabled_installation i = i\<lparr>ins_active := False, ins_suspended := True, ins_revision := ins_revision i + 1\<rparr>"

definition disabled_repository :: "repository_row \<Rightarrow> repository_row" where
  "disabled_repository r = r\<lparr>rep_active := False, rep_revision := rep_revision r + 1\<rparr>"

definition disabled_binding :: "project_binding_row \<Rightarrow> project_binding_row" where
  "disabled_binding b = b\<lparr>pb_active := False, pb_revision := pb_revision b + 1\<rparr>"

text \<open>An UPDATE of all rows that satisfy a condition; \<^verbatim>\<open>requireOneUpdate\<close> wants exactly one.\<close>

definition update_where :: "('r \<Rightarrow> bool) \<Rightarrow> ('r \<Rightarrow> 'r) \<Rightarrow> 'r list \<Rightarrow> 'r list" where
  "update_where c f rows = map (\<lambda>r. if c r then f r else r) rows"

definition disable_installation :: "int \<Rightarrow> int \<Rightarrow> unit itx" where
  "disable_installation k account s =
     (let c = (\<lambda>i. ins_id i = k \<and> ins_account i = account)
      in if length (filter c (installations s)) \<noteq> 1 then Inl ErrWebhookUnauthorized
         else Inr ((), s\<lparr>installations := update_where c disabled_installation (installations s)\<rparr>))"

definition disable_repository :: "int \<Rightarrow> int \<Rightarrow> unit itx" where
  "disable_repository rep k s =
     (let c = (\<lambda>r. rep_id r = rep \<and> rep_installation r = k)
      in if length (filter c (repositories s)) \<noteq> 1 then Inl ErrWebhookUnauthorized
         else Inr ((), s\<lparr>repositories := update_where c disabled_repository (repositories s)\<rparr>))"

definition disable_repositories_of :: "int \<Rightarrow> unit itx" where
  "disable_repositories_of k s = Inr ((), s\<lparr>repositories := update_where (\<lambda>r. rep_installation r = k) disabled_repository (repositories s)\<rparr>)"

definition disable_bindings :: "(project_binding_row \<Rightarrow> bool) \<Rightarrow> unit itx" where
  "disable_bindings c s = Inr ((), s\<lparr>project_bindings := update_where c disabled_binding (project_bindings s)\<rparr>)"

definition lifecycle_effect :: "lifecycle \<Rightarrow> unit itx" where
  "lifecycle_effect l =
     seq (if lc_event l = EventInstallation \<and> lc_action l \<in> {''deleted'', ''suspend''} then
            seq (disable_installation (lc_installation l) (lc_owner l)) (
            seq (disable_repositories_of (lc_installation l))
                (disable_bindings (\<lambda>b. pb_installation b = lc_installation l)))
          else ret ())
         (if lc_event l = EventInstallationRepositories \<and> lc_action l = ''removed'' then
            for_each (\<lambda>rep.
              seq (disable_repository rep (lc_installation l))
                  (disable_bindings (\<lambda>b. pb_repository b = rep \<and> pb_installation b = lc_installation l))) (lc_repositories l)
          else ret ())"

definition same_lifecycle :: "delivery \<Rightarrow> lifecycle \<Rightarrow> delivery_row \<Rightarrow> bool" where
  "same_lifecycle d l q \<longleftrightarrow>
     dl_digest q = dv_digest d \<and> dl_event q = dv_event d \<and> dl_action q = lc_action l
     \<and> dl_installation q = Some (lc_installation l)
     \<and> (case dl_repository q of None \<Rightarrow> 0 | Some r \<Rightarrow> r) = lc_repository l \<and> dl_owner q = Some (lc_owner l)"

definition canonical_lifecycle :: "lifecycle \<Rightarrow> lifecycle" where
  "canonical_lifecycle l =
     (let ids = lifecycleRepositoryIDs l
      in l\<lparr>lc_repositories := ids, lc_repository := (if ids \<noteq> [] then hd ids else lc_repository l)\<rparr>)"

definition process_lifecycle_tx :: "(nat \<Rightarrow> int) \<Rightarrow> delivery \<Rightarrow> lifecycle \<Rightarrow> unit itx" where
  "process_lifecycle_tx clock d l =
     seq (lockLifecycleAuthority l) (
     and_then (catch IntakeError (insert_delivery (lifecycle_receipt d l))) (\<lambda>inserted. case inserted of
         None \<Rightarrow>
           and_then (query_row ErrWebhookIntegrity (find_delivery 1 (dv_id d))) (\<lambda>q.
           seq (ensure (same_lifecycle d l q) ErrWebhookIntegrity)
             (lifecycleRepositoriesMatch (dl_id q) (lc_repositories l)))
       | Some k \<Rightarrow>
           seq (insertLifecycleRepositories k (lc_repositories l)) (
           seq (lifecycle_effect l) (markDeliveryProcessed k (clock 0)))))"

definition ProcessLifecycle :: "(nat \<Rightarrow> int) \<Rightarrow> delivery \<Rightarrow> lifecycle \<Rightarrow> intake \<Rightarrow> (intake_error + unit) \<times> intake" where
  "ProcessLifecycle clock d l s =
     (if \<not> Delivery_Validate d \<or> \<not> Lifecycle_Validate l then (Inl ErrWebhookUnauthorized, s)
      else run_intake (process_lifecycle_tx clock d (canonical_lifecycle l)) s)"

section \<open>The processor\<close>

definition Reject :: "delivery \<Rightarrow> intake \<Rightarrow> intake_error option \<times> intake" where
  "Reject d s =
     (case RecordTerminalRejection
        \<lparr>rj_app = 1, rj_delivery = d, rj_action = [], rj_installation = None, rj_repository = None, rj_owner = None\<rparr> s of
        (Inl e, t) \<Rightarrow> (Some e, t) | (Inr _, t) \<Rightarrow> (None, t))"

definition IsTerminalWebhookError :: "intake_error \<Rightarrow> bool" where
  "IsTerminalWebhookError e \<longleftrightarrow> e = ErrWebhookUnauthorized \<or> e = ErrWebhookIntegrity"

definition discard_value :: "(intake_error + 'a) \<times> intake \<Rightarrow> intake_error option \<times> intake" where
  "discard_value r = (case fst r of Inl e \<Rightarrow> Some e | Inr _ \<Rightarrow> None, snd r)"

end
