(* ===== verification/Webhook_System.thy ===== *)
theory Webhook_System
  imports Webhook_Intake
begin

text \<open>
  The intake beside the rest of the control plane: what an accepted push does to the tables, the
  states reachable by deliveries interleaved with every other operation, and what holds in them.
\<close>

section \<open>Statements\<close>

lemma catch_Inr [tx_simps]: "catch h m s = Inr r \<longleftrightarrow> m s = Inr r"
  by (simp add: catch_def split: sum.splits)

lemma on_core_Inr [tx_simps]: "on_core m s = Inr (x, t) \<longleftrightarrow> (\<exists>c. m (core s) = Inr (x, c) \<and> t = s\<lparr>core := c\<rparr>)"
  by (auto simp: on_core_def split: sum.splits)

text \<open>The target a push is authorized for: the binding reached through active rows only.\<close>

definition push_authority :: "int \<Rightarrow> push \<Rightarrow> intake \<Rightarrow> project_binding_row option" where
  "push_authority app p s =
     (case (active_app app s, usable_installation p s) of
        (Some _, Some i) \<Rightarrow> (case usable_repository p (ins_owner i) s of None \<Rightarrow> None | Some _ \<Rightarrow> usable_binding p (ins_owner i) s)
      | _ \<Rightarrow> None)"

lemma lock_authority:
  "lockWebhookAuthorityForPush app p s =
     (case push_authority app p s of None \<Rightarrow> Inl ErrWebhookUnauthorized | Some b \<Rightarrow> Inr (target_of b, s))"
  by (simp add: lockWebhookAuthorityForPush_def push_authority_def and_then_def query_row_def ret_def tx_bind_def split: option.splits)

text \<open>The states between the statements of an accepted push.\<close>

definition receipt_added :: "enqueue_input \<Rightarrow> intake \<Rightarrow> intake" where
  "receipt_added i s = s\<lparr>deliveries := deliveries s @ [(push_receipt i)\<lparr>dl_id := next_delivery s\<rparr>], next_delivery := next_delivery s + 1\<rparr>"

definition intended :: "int \<Rightarrow> enqueue_input \<Rightarrow> intake \<Rightarrow> intake" where
  "intended k i s = s\<lparr>intents := intents s @ [(push_intent k i)\<lparr>int_id := next_intent s\<rparr>], next_intent := next_intent s + 1\<rparr>"

definition matching_receipt :: "enqueue_input \<Rightarrow> delivery_row \<Rightarrow> bool" where
  "matching_receipt i q \<longleftrightarrow> dl_digest q = dv_digest (en_delivery i) \<and> dl_event q = dv_event (en_delivery i)
     \<and> dl_installation q = Some (ps_installation (en_push i)) \<and> dl_repository q = Some (ps_repository (en_push i))
     \<and> dl_owner q = Some (ps_owner (en_push i))"

lemma insert_delivery_Inr [tx_simps]:
  "insert_delivery r s = Inr (k, t) \<longleftrightarrow> delivery_checks r \<and>
     (if list_ex (\<lambda>q. dl_app q = dl_app r \<and> dl_delivery q = dl_delivery r) (deliveries s) then k = None \<and> t = s
      else \<not> (dl_verification r = VerificationVerified \<and> list_ex (\<lambda>q. dl_verification q = VerificationVerified
                \<and> dl_app q = dl_app r \<and> dl_digest q = dl_digest r) (deliveries s))
        \<and> list_ex (\<lambda>a. app_id a = dl_app r) (apps s) \<and> k = Some (next_delivery s)
        \<and> t = s\<lparr>deliveries := deliveries s @ [r\<lparr>dl_id := next_delivery s\<rparr>], next_delivery := next_delivery s + 1\<rparr>)"
  by (auto simp: insert_delivery_def)

lemma insert_delivery_cases:
  assumes "insert_delivery r s = Inr (k, t)"
  obtains (known) "k = None" "t = s" "\<exists>q \<in> set (deliveries s). dl_app q = dl_app r \<and> dl_delivery q = dl_delivery r"
  | (new) "k = Some (next_delivery s)" "delivery_checks r"
      "\<forall>q \<in> set (deliveries s). \<not> (dl_app q = dl_app r \<and> dl_delivery q = dl_delivery r)"
      "t = s\<lparr>deliveries := deliveries s @ [r\<lparr>dl_id := next_delivery s\<rparr>], next_delivery := next_delivery s + 1\<rparr>"
  using assms unfolding insert_delivery_Inr list_ex_iff by (auto split: if_splits)

lemma insert_intent_cases:
  assumes "insert_intent r s = Inr (k, t)"
  obtains (known) "k = None" "t = s" "\<exists>q \<in> set (intents s). intent_key q = intent_key r"
  | (new) "k = Some (next_intent s)" "intent_key r \<notin> intent_key ` set (intents s)" "int_delivery r \<notin> int_delivery ` set (intents s)"
      "int_deployment r \<notin> int_deployment ` set (intents s)"
      "t = s\<lparr>intents := intents s @ [r\<lparr>int_id := next_intent s\<rparr>], next_intent := next_intent s + 1\<rparr>"
proof (cases "list_ex (\<lambda>q. intent_key q = intent_key r) (intents s)")
  case True
  with assms known show ?thesis by (simp add: insert_intent_def list_ex_iff)
next
  case False
  with assms new show ?thesis by (auto simp: insert_intent_def list_ex_iff image_iff eq_commute split: if_splits)
qed

lemma insert_job_Inr:
  assumes "insert_job j now s = Inr (k, t)"
  shows "k = next_job s" "get_job k (core s) = None" "jb_deployment j \<notin> job_deployment ` set (jobs (core s))"
    "t = s\<lparr>core := (core s)\<lparr>jobs := jobs (core s) @ [job_row_of k now j]\<rparr>,
          job_identities := job_identities s @ [\<lparr>ji_job = k, ji_version = jb_version j, ji_key = jb_idempotency j, ji_digest = jb_payload j\<rparr>],
          next_job := k + 1\<rparr>"
  using assms by (auto simp: insert_job_def list_ex_iff split: if_splits)

lemma insert_enqueued_event_Inr:
  assumes "insert_enqueued_event k s = Inr (u, t)"
  shows "t = s\<lparr>core := (core s)\<lparr>job_events := job_events (core s) @
    [\<lparr>jev_job = k, jev_sequence = 1, jev_type = EvEnqueued, jev_attempt = None\<rparr>]\<rparr>\<rparr>"
  using assms by (auto simp: insert_enqueued_event_def split: if_splits)

lemma mark_processed_Inr:
  assumes "markDeliveryProcessed k now s = Inr (u, t)"
  shows "t = s\<lparr>deliveries := map (\<lambda>r. if pending_receipt k r then processed_delivery now r else r) (deliveries s)\<rparr>"
  using assms by (auto simp: markDeliveryProcessed_def split: if_splits)


section \<open>An accepted push\<close>

lemma resolve_delivery_cases:
  assumes "insertOrResolveDelivery i s = Inr ((k, created), t)"
  obtains (known) q where "\<not> created" "t = s" "find_delivery (en_app i) (dv_id (en_delivery i)) s = Some q" "k = dl_id q"
      "matching_receipt i q"
  | (new) "created" "k = next_delivery s" "t = receipt_added i s" "delivery_checks (push_receipt i)"
      "\<forall>q \<in> set (deliveries s). \<not> (dl_app q = en_app i \<and> dl_delivery q = dv_id (en_delivery i))"
proof -
  from assms obtain x u where x: "insert_delivery (push_receipt i) s = Inr (x, u)"
    and y: "(case x of None \<Rightarrow>
           and_then (query_row (IntakeError ErrNoRows) (find_delivery (en_app i) (dv_id (en_delivery i)))) (\<lambda>q.
           seq (ensure (dl_installation q \<noteq> None \<and> dl_repository q \<noteq> None \<and> dl_owner q \<noteq> None) (IntakeError (ErrPlain ''scan NULL''))) (
           seq (ensure (dl_digest q = dv_digest (en_delivery i) \<and> dl_event q = dv_event (en_delivery i)
                        \<and> dl_installation q = Some (ps_installation (en_push i))
                        \<and> dl_repository q = Some (ps_repository (en_push i)) \<and> dl_owner q = Some (ps_owner (en_push i))) ErrWebhookIntegrity)
           (ret (dl_id q, False)))) | Some k \<Rightarrow> ret (k, True)) u = Inr ((k, created), t)"
    unfolding insertOrResolveDelivery_def and_then_Inr catch_Inr by (auto simp: option.case_eq_if)
  from x show ?thesis
  proof (cases rule: insert_delivery_cases)
    case known
    with y show ?thesis by (auto simp: tx_simps ret_def matching_receipt_def intro: that(1))
  next
    case new
    with y show ?thesis by (intro that(2)) (auto simp: ret_def receipt_added_def push_receipt_def)
  qed
qed

lemma resolve_intent_cases:
  assumes "insertOrResolveIntent k i s = Inr ((n, inserted), t)"
  obtains (known) q where "\<not> inserted" "t = s" "find_intent (intent_key (push_intent k i)) s = Some q" "n = int_id q"
  | (new) "inserted" "n = next_intent s" "t = intended k i s" "intent_key (push_intent k i) \<notin> intent_key ` set (intents s)"
      "k \<notin> int_delivery ` set (intents s)" "jb_deployment (en_job i) \<notin> int_deployment ` set (intents s)"
proof -
  from assms obtain x u where x: "insert_intent (push_intent k i) s = Inr (x, u)"
    and y: "(case x of None \<Rightarrow> and_then (query_row (IntakeError ErrNoRows) (find_intent (intent_key (push_intent k i)))) (\<lambda>q. ret (int_id q, False))
       | Some n \<Rightarrow> ret (n, True)) u = Inr ((n, inserted), t)"
    unfolding insertOrResolveIntent_def and_then_Inr catch_Inr by (auto simp: option.case_eq_if)
  from x show ?thesis
  proof (cases rule: insert_intent_cases)
    case known
    with y show ?thesis by (auto simp: tx_simps ret_def intro: that(1))
  next
    case new
    with y show ?thesis by (intro that(2)) (auto simp: ret_def intended_def push_intent_def)
  qed
qed

text \<open>The new rows of a push that created its intent.\<close>

definition enqueued_core :: "enqueue_input \<Rightarrow> int \<Rightarrow> int \<Rightarrow> db \<Rightarrow> db \<Rightarrow> bool" where
  "enqueued_core i k now c e \<longleftrightarrow> get_job k c = None \<and> jb_deployment (en_job i) \<notin> job_deployment ` set (jobs c) \<and>
     (\<exists>d. createTx (en_deployment i) (c\<lparr>jobs := jobs c @ [job_row_of k now (en_job i)]\<rparr>) = Inr ((), d) \<and>
        e = d\<lparr>job_events := job_events d @ [\<lparr>jev_job = k, jev_sequence = 1, jev_type = EvEnqueued, jev_attempt = None\<rparr>]\<rparr>)"

definition enqueued :: "enqueue_input \<Rightarrow> int \<Rightarrow> db \<Rightarrow> intake \<Rightarrow> intake" where
  "enqueued i k e s = (intended k i (receipt_added i s))\<lparr>core := e, next_job := next_job s + 1,
     job_identities := job_identities s @
       [\<lparr>ji_job = next_job s, ji_version = jb_version (en_job i), ji_key = jb_idempotency (en_job i), ji_digest = jb_payload (en_job i)\<rparr>]\<rparr>"

definition processed :: "int \<Rightarrow> int \<Rightarrow> intake \<Rightarrow> intake" where
  "processed k now s = s\<lparr>deliveries := map (\<lambda>r. if pending_receipt k r then processed_delivery now r else r) (deliveries s)\<rparr>"

lemma enqueue_cases:
  assumes "enqueueVerifiedPushTx clock i g strict s = Inr (r, t)"
  obtains (replayed) q where "targetMatches i g" "t = s" "find_delivery (en_app i) (dv_id (en_delivery i)) s = Some q"
      "matching_receipt i q" "resultForDelivery (dl_id q) s = Inr (r, s)"
  | (joined) q where "targetMatches i g" "delivery_checks (push_receipt i)"
      "\<forall>q \<in> set (deliveries s). \<not> (dl_app q = en_app i \<and> dl_delivery q = dv_id (en_delivery i))"
      "find_intent (intent_key (push_intent (next_delivery s) i)) s = Some q"
      "(if strict then resultForIntent (int_id q) i else resultForStoredIntent (int_id q) (next_delivery s)) (receipt_added i s) = Inr (r, receipt_added i s)"
      "t = processed (next_delivery s) (clock 2) (receipt_added i s)"
  | (new) e where "targetMatches i g" "delivery_checks (push_receipt i)"
      "\<forall>q \<in> set (deliveries s). \<not> (dl_app q = en_app i \<and> dl_delivery q = dv_id (en_delivery i))"
      "intent_key (push_intent (next_delivery s) i) \<notin> intent_key ` set (intents s)" "next_delivery s \<notin> int_delivery ` set (intents s)"
      "jb_deployment (en_job i) \<notin> int_deployment ` set (intents s)"
      "enqueued_core i (next_job s) (clock 1) (core s) e" "t = processed (next_delivery s) (clock 2) (enqueued i (next_delivery s) e s)"
      "r = \<lparr>er_delivery = next_delivery s, er_deployment = id_deployment (dep_identity (en_deployment i)), er_job = next_job s\<rparr>"
proof -
  let ?tail = "\<lambda>k. \<lambda>(n, inserted). if \<not> inserted then
         and_then (if strict then resultForIntent n i else resultForStoredIntent n k) (\<lambda>result.
         seq (markDeliveryProcessed k (clock 2)) (ret result))
       else
         and_then (catch integrity_if_unique (insert_job (en_job i) (clock 1))) (\<lambda>job.
         seq (catch create_error (on_core (createTx (en_deployment i)))) (
         seq (catch IntakeError (insert_enqueued_event job)) (
         seq (markDeliveryProcessed k (clock 2))
           (ret \<lparr>er_delivery = k, er_deployment = id_deployment (dep_identity (en_deployment i)), er_job = job\<rparr>))))"
  from assms obtain k created u where g: "targetMatches i g" and d: "insertOrResolveDelivery i s = Inr ((k, created), u)"
    and rest: "(if \<not> created then resultForDelivery k else and_then (insertOrResolveIntent k i) (?tail k)) u = Inr (r, t)"
    unfolding enqueueVerifiedPushTx_def seq_Inr and_then_Inr ensure_Inr by fast
  from d show ?thesis
  proof (cases rule: resolve_delivery_cases)
    case (known q)
    with rest have "resultForDelivery (dl_id q) s = Inr (r, t)" by simp
    moreover from this have "t = s" by (simp add: resultForDelivery_def tx_simps)
    ultimately show ?thesis using replayed g known by simp
  next
    case new
    note receipt = this
    with rest have "and_then (insertOrResolveIntent k i) (?tail k) u = Inr (r, t)" by simp
    then obtain n inserted v where n: "insertOrResolveIntent k i u = Inr ((n, inserted), v)" and tl: "?tail k (n, inserted) v = Inr (r, t)"
      unfolding and_then_Inr by fast
    from n show ?thesis
    proof (cases rule: resolve_intent_cases)
      case (known q)
      with tl obtain w where res: "(if strict then resultForIntent n i else resultForStoredIntent n k) u = Inr (r, w)"
        and m: "markDeliveryProcessed k (clock 2) w = Inr ((), t)" by (auto simp: tx_simps ret_def)
      from res have "w = u" by (auto simp: resultForIntent_def resultForStoredIntent_def tx_simps ret_def split: if_splits)
      have t: "t = processed k (clock 2) u" using mark_processed_Inr [OF m] \<open>w = u\<close> by (simp add: processed_def)
      have q: "find_intent (intent_key (push_intent k i)) s = Some q"
        using known(3) receipt(3) by (simp add: find_intent_def receipt_added_def)
      show ?thesis
        by (rule joined [OF g receipt(4,5) q [unfolded receipt(2)] res [unfolded \<open>w = u\<close> receipt(2,3) known(4)] t [unfolded receipt(2,3)]])
    next
      case new
      with tl obtain job w x y where "insert_job (en_job i) (clock 1) v = Inr (job, w)"
        "createTx (en_deployment i) (core w) = Inr ((), x)" "insert_enqueued_event job (w\<lparr>core := x\<rparr>) = Inr ((), y)"
        "markDeliveryProcessed k (clock 2) y = Inr ((), t)"
        "r = \<lparr>er_delivery = k, er_deployment = id_deployment (dep_identity (en_deployment i)), er_job = job\<rparr>"
        by (auto simp: tx_simps ret_def)
      note steps = insert_job_Inr [OF this(1)] this(2) insert_enqueued_event_Inr [OF this(3)] mark_processed_Inr [OF this(4)] this(5)
      define e where "e = core t"
      show ?thesis
        by (rule that(3) [of e])
          (use steps new receipt g in \<open>simp_all add: e_def enqueued_core_def enqueued_def processed_def intended_def receipt_added_def\<close>)
    qed
  qed
qed


section \<open>Receipts\<close>

text \<open>Receipts have their own ids, one per delivery id, and a processed receipt never changes.\<close>

definition receipts_ok :: "intake \<Rightarrow> bool" where
  "receipts_ok s \<longleftrightarrow> (\<forall>q \<in> set (deliveries s). dl_id q < next_delivery s) \<and> distinct (map dl_id (deliveries s)) \<and>
     distinct (map (\<lambda>q. (dl_app q, dl_delivery q)) (deliveries s)) \<and> (\<forall>l \<in> set (lifecycle_repositories s). fst l < next_delivery s)"

definition processed_stay :: "intake \<Rightarrow> intake \<Rightarrow> bool" where
  "processed_stay s t \<longleftrightarrow> (\<forall>q \<in> set (deliveries s). dl_processing q = ProcessingProcessed \<longrightarrow> q \<in> set (deliveries t))"

definition receipts_follow :: "intake \<Rightarrow> intake \<Rightarrow> bool" where
  "receipts_follow s t \<longleftrightarrow> (receipts_ok s \<longrightarrow> receipts_ok t) \<and> processed_stay s t"

text \<open>What lifecycle events and rejections leave alone.\<close>

definition same_work :: "intake \<Rightarrow> intake \<Rightarrow> bool" where
  "same_work s t \<longleftrightarrow> core t = core s \<and> intents t = intents s \<and> next_intent t = next_intent s \<and>
     job_identities t = job_identities s \<and> next_job t = next_job s \<and> receipts_follow s t"

lemma receipts_follow_refl: "receipts_follow s s"
  by (simp add: receipts_follow_def processed_stay_def)

lemma receipts_follow_trans: "receipts_follow s t \<Longrightarrow> receipts_follow t u \<Longrightarrow> receipts_follow s u"
  by (auto simp: receipts_follow_def processed_stay_def)

interpretation work: kept_relation same_work
  by unfold_locales (auto simp: same_work_def receipts_follow_refl intro: receipts_follow_trans)

lemma receipt_appended:
  assumes "\<forall>q \<in> set (deliveries s). \<not> (dl_app q = dl_app r \<and> dl_delivery q = dl_delivery r)"
    and "deliveries t = deliveries s @ [r\<lparr>dl_id := next_delivery s\<rparr>]" and "next_delivery t = next_delivery s + 1"
    and "lifecycle_repositories t = lifecycle_repositories s"
  shows "receipts_follow s t"
  using assms by (auto simp: receipts_follow_def processed_stay_def receipts_ok_def)

lemma processed_follows: "receipts_follow s (processed k now s)"
proof -
  let ?f = "\<lambda>r. if pending_receipt k r then processed_delivery now r else r"
  let ?t = "processed k now s"
  have ids: "map dl_id (deliveries ?t) = map dl_id (deliveries s)"
    and names: "map (\<lambda>q. (dl_app q, dl_delivery q)) (deliveries ?t) = map (\<lambda>q. (dl_app q, dl_delivery q)) (deliveries s)"
    by (simp_all add: processed_def processed_delivery_def)
  have "receipts_ok s \<Longrightarrow> receipts_ok ?t"
    unfolding receipts_ok_def ids names bounded_keys [OF ids] by (simp add: processed_def)
  moreover have "q \<in> ?f ` set (deliveries s)" if "q \<in> set (deliveries s)" "dl_processing q = ProcessingProcessed" for q
    using that by (intro image_eqI [of _ _ q]) (simp_all add: pending_receipt_def)
  ultimately show ?thesis by (simp add: receipts_follow_def processed_stay_def processed_def)
qed

lemma insert_delivery_work: "work.keeps (catch h (insert_delivery r))"
proof (rule work.keepsI)
  fix s x t assume "catch h (insert_delivery r) s = Inr (x, t)"
  then have "insert_delivery r s = Inr (x, t)" by (simp add: catch_Inr)
  then show "same_work s t"
  proof (cases rule: insert_delivery_cases)
    case new
    with receipt_appended [of s r t] show ?thesis by (simp add: same_work_def)
  qed (simp add: work.refl)
qed

lemma mark_processed_work: "work.keeps (markDeliveryProcessed k now)"
proof (rule work.keepsI)
  fix s x t assume "markDeliveryProcessed k now s = Inr (x, t)"
  then have "t = processed k now s" by (simp add: mark_processed_Inr processed_def)
  then show "same_work s t" using processed_follows [of s k now] by (simp add: same_work_def processed_def)
qed

lemma github_rows_work:
  "receipts_follow s t \<Longrightarrow> core t = core s \<Longrightarrow> intents t = intents s \<Longrightarrow> next_intent t = next_intent s \<Longrightarrow>
   job_identities t = job_identities s \<Longrightarrow> next_job t = next_job s \<Longrightarrow> same_work s t"
  by (simp add: same_work_def)

lemma same_receipts:
  "deliveries t = deliveries s \<Longrightarrow> next_delivery t = next_delivery s \<Longrightarrow> lifecycle_repositories t = lifecycle_repositories s \<Longrightarrow>
   receipts_follow s t"
  by (simp add: receipts_follow_def receipts_ok_def processed_stay_def)

lemma lifecycle_statements_work:
  "work.keeps (disable_installation k a)" "work.keeps (disable_repository r k)" "work.keeps (disable_repositories_of k)"
  "work.keeps (disable_bindings c)" "work.keeps (lifecycleRepositoriesMatch k want)"
  by (rule work.keepsI; rule github_rows_work;
      auto simp: disable_installation_def disable_repository_def disable_repositories_of_def disable_bindings_def
        lifecycleRepositoriesMatch_def Let_def intro!: same_receipts split: if_splits)+

lemma insert_lifecycle_repository_work: "work.keeps (catch h (insert_lifecycle_repository k r))"
proof (rule work.keepsI)
  fix s u t assume "catch h (insert_lifecycle_repository k r) s = Inr (u, t)"
  then obtain q where "find (\<lambda>q. dl_id q = k) (deliveries s) = Some q" and t: "t = s\<lparr>lifecycle_repositories := lifecycle_repositories s @ [(k, r)]\<rparr>"
    by (auto simp: catch_Inr insert_lifecycle_repository_def get_delivery_def split: option.splits if_splits)
  then have "k \<in> dl_id ` set (deliveries s)" by (metis (mono_tags, lifting) find_Some_iff image_eqI nth_mem)
  then have "receipts_follow s t" by (auto simp: receipts_follow_def receipts_ok_def processed_stay_def t)
  then show "same_work s t" by (rule github_rows_work) (simp_all add: t)
qed

lemma lifecycle_work: "work.keeps (process_lifecycle_tx clock d l)"
  unfolding process_lifecycle_tx_def lockLifecycleAuthority_def insertLifecycleRepositories_def lifecycle_effect_def
  by (intro work.keeps_intros insert_delivery_work mark_processed_work lifecycle_statements_work insert_lifecycle_repository_work)

lemma rejection_work: "work.keeps (record_rejection_tx r)"
  unfolding record_rejection_tx_def by (intro work.keeps_intros insert_delivery_work)

lemma run_intake_cases:
  assumes "run_intake m s = (r, t)"
  obtains (refused) e where "r = Inl e" "t = s"
  | (committed) x where "r = Inr x" "m s = Inr (x, t)" "intake_commit_checks t"
  using assms by (auto simp: run_intake_def split: sum.splits prod.splits if_splits)

end
