(* ===== verification/Webhook_Reach.thy ===== *)
theory Webhook_Reach
  imports Webhook_System
begin

section \<open>The job table of a lease step\<close>

text \<open>No operation of the lease repository adds or removes a job.\<close>

definition same_jobs :: "db \<Rightarrow> db \<Rightarrow> bool" where
  "same_jobs s t \<longleftrightarrow> map job_id (jobs t) = map job_id (jobs s)"

interpretation job_list: kept_relation same_jobs
  by unfold_locales (simp_all add: same_jobs_def)

lemma lease_rows_jobs: "lease_rows.keeps m \<Longrightarrow> job_list.keeps m"
  unfolding lease_rows.keeps_def job_list.keeps_def same_lease_rows_def same_jobs_def by metis

lemma update_row_jobs:
  assumes "\<And>r s. same_jobs s (put r s)"
  shows "job_list.keeps (update_row get put chk k p f)"
  using assms by (intro job_list.keepsI) (auto simp: tx_simps job_list.refl split: option.splits if_splits)

lemma updates_jobs:
  "job_list.keeps (update_job i a b)" "job_list.keeps (update_slot e c d)" "job_list.keeps (update_attempt k p f)"
  unfolding update_job_def update_slot_def update_attempt_def
  by (rule update_row_jobs; simp add: same_jobs_def put_job_def put_slot_def put_attempt_def)+

lemma inserts_jobs: "job_list.keeps (insert_slot now e)" "job_list.keeps (insert_attempt mk)"
  by (rule job_list.keepsI; auto simp: insert_slot_def insert_attempt_def Let_def same_jobs_def split: if_splits option.splits)+

lemma saveTx_jobs: "job_list.keeps (saveTx d)"
  unfolding saveTx_def readSnapshot_def appendEvents_def
  by (intro job_list.keeps_intros lease_rows_jobs frame_statements)

interpretation job_list: statements_kept same_jobs
  by unfold_locales (intro updates_jobs inserts_jobs saveTx_jobs lease_rows_jobs [OF other_updates_frame(1)]
    lease_rows_jobs [OF other_updates_frame(2)] lease_rows_jobs [OF other_updates_frame(3)]
    lease_rows_jobs [OF inserts_frame(1)] lease_rows_jobs [OF inserts_frame(2)] lease_rows_jobs [OF inserts_frame(3)]
    lease_rows_jobs [OF inserts_frame(4)] lease_rows_jobs [OF inserts_frame(5)] lease_rows_jobs [OF inserts_frame(6)]
    lease_rows_jobs [OF inserts_frame(7)] lease_rows_jobs [OF inserts_frame(8)])+

lemma lease_step_same_jobs: "lease_step s t \<Longrightarrow> same_jobs s t"
  by (rule job_list.step_kept)

text \<open>Then the rows of the two job tables are the versions of the same jobs.\<close>

lemma same_jobs_follow:
  assumes "same_jobs c e" and "grows c e" and "keyed c" and "keyed e"
  shows "list_all2 job_follows (jobs c) (jobs e)"
proof (rule list_all2_all_nthI)
  show len: "length (jobs c) = length (jobs e)" using assms(1) unfolding same_jobs_def by (metis length_map)
  fix n assume n: "n < length (jobs c)"
  then have "job_id (jobs e ! n) = job_id (jobs c ! n)" using assms(1) len unfolding same_jobs_def by (metis nth_map)
  moreover from keyed_get(3) [OF assms(3), of "jobs c ! n"] n assms(2)
  obtain q where "get_job (job_id (jobs c ! n)) e = Some q" "job_follows (jobs c ! n) q"
    unfolding grows_def by (meson nth_mem rows_followD)
  moreover have "get_job (job_id (jobs e ! n)) e = Some (jobs e ! n)" using keyed_get(3) [OF assms(4)] n len by simp
  ultimately show "job_follows (jobs c ! n) (jobs e ! n)" by simp
qed

lemma followed_jobs:
  assumes "list_all2 job_follows js ks"
  shows "map job_deployment ks = map job_deployment js" "j \<in> set js \<Longrightarrow> \<exists>k \<in> set ks. job_follows j k"
    "k \<in> set ks \<Longrightarrow> \<exists>j \<in> set js. job_follows j k"
proof -
  show "map job_deployment ks = map job_deployment js"
    using assms by (induction rule: list_all2_induct) (simp_all add: job_follows_def same_job_identity_def)
  show "j \<in> set js \<Longrightarrow> \<exists>k \<in> set ks. job_follows j k" "k \<in> set ks \<Longrightarrow> \<exists>j \<in> set js. job_follows j k"
    using assms by (induction rule: list_all2_induct) auto
qed

section \<open>Reachable intake states\<close>

text \<open>
  Deliveries arrive in any order between the steps of the rest of the control plane, which changes
  the GitHub tables at will but enqueues no job itself.
\<close>

definition empty_intake :: intake where
  "empty_intake = \<lparr>core = empty_db, apps = [], installations = [], repositories = [], project_bindings = [], deliveries = [],
     next_delivery = 1, lifecycle_repositories = [], intents = [], next_intent = 1, job_identities = [], next_job = 1\<rparr>"

inductive intake_step :: "intake \<Rightarrow> intake \<Rightarrow> bool" where
  configure_github: "intake_step s (s\<lparr>apps := as, installations := ins, repositories := rs, project_bindings := bs\<rparr>)"
| control_plane: "system_step (core s) c \<Longrightarrow> same_jobs (core s) c \<Longrightarrow> intake_step s (s\<lparr>core := c\<rparr>)"
| process_push: "intake_step s (snd (ProcessPush sha256 rfc3339 clock d p s))"
| enqueue_push: "intake_step s (snd (EnqueueVerifiedPush sha256 rfc3339 clock i s))"
| process_lifecycle: "intake_step s (snd (ProcessLifecycle clock d l s))"
| reject: "intake_step s (snd (RecordTerminalRejection r s))"

inductive intake_reachable :: "intake \<Rightarrow> bool" where
  intake_start: "intake_reachable empty_intake"
| intake_next: "intake_reachable s \<Longrightarrow> intake_step s t \<Longrightarrow> intake_reachable t"

section \<open>The invariant\<close>

definition job_serves :: "intent_row \<Rightarrow> job_row \<Rightarrow> bool" where
  "job_serves i j \<longleftrightarrow> job_deployment j = int_deployment i \<and> job_owner j = int_owner i \<and> job_project j = int_project i \<and>
     job_repository j = int_repository i \<and> job_ref j = int_ref i \<and> job_commit j = int_commit i"

definition intent_received :: "intent_row \<Rightarrow> delivery_row \<Rightarrow> bool" where
  "intent_received i q \<longleftrightarrow> dl_id q = int_delivery i \<and> dl_processing q = ProcessingProcessed \<and> dl_event q = EventPush \<and>
     dl_repository q = Some (int_repository i)"

definition intents_ok :: "intake \<Rightarrow> bool" where
  "intents_ok s \<longleftrightarrow> (\<forall>i \<in> set (intents s). int_id i < next_intent s) \<and> distinct (map int_id (intents s)) \<and>
     distinct (map intent_key (intents s)) \<and> distinct (map int_delivery (intents s)) \<and> distinct (map int_deployment (intents s))"

definition jobs_ok :: "intake \<Rightarrow> bool" where
  "jobs_ok s \<longleftrightarrow> distinct (map job_deployment (jobs (core s)))"

definition accounted :: "intake \<Rightarrow> bool" where
  "accounted s \<longleftrightarrow> (\<forall>i \<in> set (intents s). (\<exists>j \<in> set (jobs (core s)). job_serves i j) \<and> (\<exists>q \<in> set (deliveries s). intent_received i q))"

definition intake_ok :: "intake \<Rightarrow> bool" where
  "intake_ok s \<longleftrightarrow> reachable (core s) \<and> receipts_ok s \<and> intents_ok s \<and> jobs_ok s \<and> accounted s \<and> intake_commit_checks s"

lemma intake_okI:
  "reachable (core s) \<Longrightarrow> receipts_ok s \<Longrightarrow> intents_ok s \<Longrightarrow> jobs_ok s \<Longrightarrow> accounted s \<Longrightarrow> intake_commit_checks s \<Longrightarrow> intake_ok s"
  by (simp add: intake_ok_def)

lemma intake_okD:
  assumes "intake_ok s"
  shows "reachable (core s)" "receipts_ok s" "intents_ok s" "jobs_ok s" "accounted s" "intake_commit_checks s"
  using assms by (simp_all add: intake_ok_def)

lemma accounted_follows:
  assumes "accounted s" and "processed_stay s t" and "intents t = intents s"
    and "\<And>i j. j \<in> set (jobs (core s)) \<Longrightarrow> job_serves i j \<Longrightarrow> \<exists>k \<in> set (jobs (core t)). job_serves i k"
  shows "accounted t"
  unfolding accounted_def
proof (intro ballI conjI)
  fix i assume "i \<in> set (intents t)"
  with assms(1,3) obtain j q where "j \<in> set (jobs (core s))" "job_serves i j" "q \<in> set (deliveries s)" "intent_received i q"
    unfolding accounted_def by metis
  with assms(2,4) show "\<exists>j \<in> set (jobs (core t)). job_serves i j" "\<exists>q \<in> set (deliveries t). intent_received i q"
    unfolding processed_stay_def intent_received_def by blast+
qed

lemma accounted_grows:
  assumes "accounted s" and "processed_stay s t" and "set (jobs (core s)) \<subseteq> set (jobs (core t))"
    and "intents t = intents s @ [i]" and "j \<in> set (jobs (core t))" "job_serves i j" "q \<in> set (deliveries t)" "intent_received i q"
  shows "accounted t"
proof -
  have "accounted (t\<lparr>intents := intents s\<rparr>)"
    by (rule accounted_follows [OF assms(1)]) (use assms(2,3) in \<open>auto simp: processed_stay_def\<close>)
  then show ?thesis using assms(4-8) by (auto simp: accounted_def)
qed

lemma same_work_commits: "same_work s t \<Longrightarrow> intake_commit_checks t = intake_commit_checks s"
  unfolding same_work_def intake_commit_checks_def by metis

lemma same_work_ok:
  assumes "intake_ok s" and "same_work s t"
  shows "intake_ok t"
proof (rule intake_okI)
  have w: "core t = core s" "intents t = intents s" "next_intent t = next_intent s" "receipts_follow s t"
    using assms(2) by (simp_all add: same_work_def)
  show "reachable (core t)" "intents_ok t" "jobs_ok t" "receipts_ok t"
    using intake_okD(1-4) [OF assms(1)] w by (simp_all add: intents_ok_def jobs_ok_def receipts_follow_def)
  show "accounted t" by (rule accounted_follows [OF intake_okD(5) [OF assms(1)]]) (use w in \<open>auto simp: receipts_follow_def\<close>)
  show "intake_commit_checks t" using intake_okD(6) [OF assms(1)] same_work_commits [OF assms(2)] by simp
qed

lemma run_work_ok:
  assumes "intake_ok s" and "work.keeps m"
  shows "intake_ok (snd (run_intake m s))"
proof -
  obtain r t where "run_intake m s = (r, t)" by fastforce
  then have "intake_ok t"
  proof (cases rule: run_intake_cases)
    case (committed x)
    show ?thesis by (rule same_work_ok [OF assms(1) work.keepsD [OF assms(2) committed(2)]])
  qed (use assms(1) in simp)
  with \<open>run_intake m s = (r, t)\<close> show ?thesis by simp
qed


section \<open>Enqueueing is a run of the system\<close>

lemma createTx_commits: "commits.keeps (createTx d)"
proof -
  have "commits.keeps (insert_deployment x)" "commits.keeps (insert_deployment_event k e)" for x k e
    by (rule commits.keepsI; auto simp: insert_deployment_def insert_deployment_event_def put_deployment_def
        elim!: commit_checks_same split: if_splits option.splits)+
  then show ?thesis unfolding createTx_def appendEvents_def by (intro commits.keeps_intros)
qed

text \<open>The job row, the deployment and the event of an accepted push are three steps of the control plane.\<close>

lemma enqueued_core_reachable:
  assumes "reachable c" and "enqueued_core i k now c e"
  shows "reachable e"
proof -
  let ?j = "job_row_of k now (en_job i)"
  let ?c = "c\<lparr>jobs := jobs c @ [?j]\<rparr>"
  from assms(2) obtain d where free: "get_job k c = None" and create: "createTx (en_deployment i) ?c = Inr ((), d)"
    and e: "e = d\<lparr>job_events := job_events d @ [\<lparr>jev_job = k, jev_sequence = 1, jev_type = EvEnqueued, jev_attempt = None\<rparr>]\<rparr>"
    unfolding enqueued_core_def by blast
  have "outside_step c ?c" by (rule outside_step.enqueue) (simp_all add: job_row_of_def free)
  then have r1: "reachable ?c" using assms(1) reachable.step unfolding system_step_def by blast
  then have "commit_checks d" using commits.keepsD [OF createTx_commits create] reachable_commits by blast
  with create have "Create (en_deployment i) ?c = (Inr (), d)" by (simp add: Create_def run_tx_def and_then_def ret_def)
  then have "outside_step ?c d" using outside_step.create [of ?c "en_deployment i"] by simp
  then have "reachable d" using r1 reachable.step unfolding system_step_def by blast
  then show ?thesis using reachable.step [of d e] outside_step.enqueued [of d k] e unfolding system_step_def by simp
qed

lemma enqueued_core_jobs:
  assumes "enqueued_core i k now c e"
  shows "jobs e = jobs c @ [job_row_of k now (en_job i)]"
proof -
  have "lease_rows.keeps (createTx d)" for d
    unfolding createTx_def appendEvents_def
    by (intro lease_rows.keeps_intros frame_statements lease_rows.keepsI)
      (auto simp: insert_deployment_def same_lease_rows_def split: if_splits)
  from lease_rows.keepsD [OF this] assms show ?thesis by (auto simp: enqueued_core_def same_lease_rows_def)
qed

section \<open>Pushes keep the invariant\<close>

text \<open>What both callers of \<open>enqueueVerifiedPushTx\<close> have established of its input.\<close>

definition consistent :: "enqueue_input \<Rightarrow> bool" where
  "consistent i \<longleftrightarrow> dv_event (en_delivery i) = EventPush \<and> jb_repository (en_job i) = ps_repository (en_push i) \<and>
     jb_ref (en_job i) = ps_ref (en_push i) \<and> jb_commit (en_job i) = ps_commit (en_push i)"

lemma received_follows:
  assumes "\<forall>q \<in> set (deliveries s). \<not> (dl_app q = en_app i \<and> dl_delivery q = dv_id (en_delivery i))"
  shows "receipts_follow s (receipt_added i s)"
  using receipt_appended [of s "push_receipt i" "receipt_added i s"] assms by (simp add: receipt_added_def push_receipt_def)

lemma enqueue_ok:
  assumes ok: "intake_ok s" and "consistent i" and run: "enqueueVerifiedPushTx clock i g strict s = Inr (r, t)"
    and "intake_commit_checks t"
  shows "intake_ok t"
  using run
proof (cases rule: enqueue_cases)
  case (joined q)
  have "receipts_follow s t"
    using receipts_follow_trans [OF received_follows [OF joined(3)] processed_follows] joined(6) by simp
  then have "same_work s t" using joined(6) by (simp add: same_work_def processed_def receipt_added_def)
  then show ?thesis using same_work_ok ok by blast
next
  case (new e)
  let ?k = "next_delivery s"
  have e: "reachable e" "jobs e = jobs (core s) @ [job_row_of (next_job s) (clock 1) (en_job i)]"
    using enqueued_core_reachable [OF intake_okD(1) [OF ok] new(7)] enqueued_core_jobs [OF new(7)] by blast+
  have f: "receipts_follow s t"
  proof -
    have "receipts_follow (receipt_added i s) (enqueued i ?k e s)" by (rule same_receipts) (simp_all add: enqueued_def intended_def receipt_added_def)
    then show ?thesis
      using received_follows [OF new(3)] processed_follows [of "enqueued i ?k e s"] receipts_follow_trans new(8) by metis
  qed
  have t: "core t = e" "intents t = intents s @ [(push_intent ?k i)\<lparr>int_id := next_intent s\<rparr>]" "next_intent t = next_intent s + 1"
    by (simp_all add: new(8) processed_def enqueued_def intended_def receipt_added_def)
  show ?thesis
  proof (rule intake_okI)
    show "reachable (core t)" using e t by simp
    show "receipts_ok t" using f intake_okD(2) [OF ok] by (simp add: receipts_follow_def)
    show "intents_ok t"
      using intake_okD(3) [OF ok] new(4-6) by (auto simp: intents_ok_def t intent_key_def push_intent_def)
    show "jobs_ok t" using intake_okD(4) [OF ok] new(7) e(2) by (auto simp: jobs_ok_def t enqueued_core_def job_row_of_def)
    show "accounted t"
    proof (rule accounted_grows [OF intake_okD(5) [OF ok] _ _ t(2)])
      show "job_serves ((push_intent ?k i)\<lparr>int_id := next_intent s\<rparr>) (job_row_of (next_job s) (clock 1) (en_job i))"
        using assms(2) by (simp add: job_serves_def push_intent_def job_row_of_def consistent_def)
      show "intent_received ((push_intent ?k i)\<lparr>int_id := next_intent s\<rparr>) (processed_delivery (clock 2) ((push_receipt i)\<lparr>dl_id := ?k\<rparr>))"
        using assms(2) by (simp add: intent_received_def push_intent_def processed_delivery_def push_receipt_def consistent_def)
      show "processed_delivery (clock 2) ((push_receipt i)\<lparr>dl_id := ?k\<rparr>) \<in> set (deliveries t)"
        by (simp add: new(8) processed_def enqueued_def intended_def receipt_added_def pending_receipt_def push_receipt_def)
    qed (use f in \<open>auto simp: t e receipts_follow_def\<close>)
  qed (rule assms(4))
qed (use ok in simp)


section \<open>The callers\<close>

text \<open>What \<open>ProcessPush\<close> hands to the transaction: everything but the times comes from the binding and the push.\<close>

definition built_input ::
  "(string \<Rightarrow> string) \<Rightarrow> (int \<Rightarrow> string) \<Rightarrow> int \<Rightarrow> delivery \<Rightarrow> push \<Rightarrow> webhookTarget \<Rightarrow> enqueue_input \<Rightarrow> bool" where
  "built_input sha256 rfc3339 now d p g i \<longleftrightarrow> en_app i = 1 \<and> en_delivery i = d \<and> en_push i = p \<and>
     New \<lparr>id_deployment = fst (webhookIDs sha256 g p), id_project = tg_project g, id_environment = tg_environment g,
       id_server = tg_server g, id_commit = ps_commit p\<rparr> now = Inr (en_deployment i) \<and>
     NewDeploymentExecutionJob sha256 rfc3339 (tg_owner g) (tg_project g) (tg_environment g) (tg_server g) (fst (webhookIDs sha256 g p))
       (ps_repository p) (ps_ref p) (ps_commit p) (snd (webhookIDs sha256 g p)) 0 now = Inr (en_job i)"

lemma process_push_iff:
  "process_push_tx sha256 rfc3339 clock d p s = Inr (r, t) \<longleftrightarrow>
     (\<exists>b i. push_authority 1 p s = Some b \<and> built_input sha256 rfc3339 (clock 0) d p (target_of b) i \<and>
        enqueueVerifiedPushTx clock i (target_of b) False s = Inr (r, t))" (is "?l \<longleftrightarrow> (\<exists>b i. ?r b i)")
proof
  assume ?l
  then obtain b x y where "?r b \<lparr>en_app = 1, en_delivery = d, en_push = p, en_deployment = x, en_job = y\<rparr>"
    by (auto simp: process_push_tx_def tx_simps lock_authority built_input_def case_prod_unfold Let_def split: option.splits)
  then show "\<exists>b i. ?r b i" by blast
next
  assume "\<exists>b i. ?r b i"
  then obtain b i where r: "?r b i" by blast
  then show ?l
    by (cases i) (auto simp: process_push_tx_def tx_simps lock_authority built_input_def case_prod_unfold Let_def)
qed

lemma ProcessPush_run:
  assumes "ProcessPush sha256 rfc3339 clock d p s = (Inr r, t)"
  obtains b i where "verified_push d p" "push_authority 1 p s = Some b" "built_input sha256 rfc3339 (clock 0) d p (target_of b) i"
    "enqueueVerifiedPushTx clock i (target_of b) False s = Inr (r, t)" "intake_commit_checks t"
proof -
  from assms have v: "verified_push d p" and "run_intake (process_push_tx sha256 rfc3339 clock d p) s = (Inr r, t)"
    by (auto simp: ProcessPush_def split: if_splits)
  from this(2) have "process_push_tx sha256 rfc3339 clock d p s = Inr (r, t) \<and> intake_commit_checks t"
    by (cases rule: run_intake_cases) auto
  with v that show ?thesis unfolding process_push_iff by blast
qed

lemma new_job_fields:
  assumes "NewDeploymentExecutionJob sha256 rfc3339 owner project environment server deployment repository ref commit key prio at = Inr j"
  shows "jb_owner j = owner \<and> jb_project j = project \<and> jb_environment j = environment \<and> jb_server j = server \<and>
    jb_deployment j = deployment \<and> jb_repository j = repository \<and> jb_ref j = ref \<and> jb_commit j = commit \<and>
    Job_Validate sha256 rfc3339 j"
  using assms unfolding NewDeploymentExecutionJob_def Let_def by (auto split: if_splits)

lemma built_job:
  assumes "built_input sha256 rfc3339 now d p g i"
  shows "jb_owner (en_job i) = tg_owner g" "jb_project (en_job i) = tg_project g" "jb_environment (en_job i) = tg_environment g"
    "jb_server (en_job i) = tg_server g" "jb_deployment (en_job i) = fst (webhookIDs sha256 g p)"
    "jb_repository (en_job i) = ps_repository p" "jb_ref (en_job i) = ps_ref p" "jb_commit (en_job i) = ps_commit p"
    "Job_Validate sha256 rfc3339 (en_job i)"
  using assms new_job_fields unfolding built_input_def by blast+

lemma built_consistent: "built_input sha256 rfc3339 now d p g i \<Longrightarrow> verified_push d p \<Longrightarrow> consistent i"
  by (frule built_job(6), frule built_job(7), frule built_job(8))
    (simp add: consistent_def built_input_def verified_push_def)

lemma ProcessPush_unchanged: "ProcessPush sha256 rfc3339 clock d p s = (Inl x, t) \<Longrightarrow> t = s"
  by (auto simp: ProcessPush_def run_intake_def split: if_splits sum.splits)

lemma ProcessPush_ok:
  assumes "intake_ok s"
  shows "intake_ok (snd (ProcessPush sha256 rfc3339 clock d p s))"
proof -
  obtain x t where x: "ProcessPush sha256 rfc3339 clock d p s = (x, t)" by fastforce
  have "intake_ok t"
  proof (cases x)
    case (Inr r)
    from x [unfolded this] show ?thesis
      by (rule ProcessPush_run) (blast intro: enqueue_ok [OF assms] built_consistent)
  qed (use x assms ProcessPush_unchanged in blast)
  with x show ?thesis by simp
qed

lemma EnqueueVerifiedPush_ok:
  assumes "intake_ok s"
  shows "intake_ok (snd (EnqueueVerifiedPush sha256 rfc3339 clock i s))"
proof (cases "validWebhookEnqueueInput sha256 rfc3339 i")
  case True
  then have "consistent i" by (auto simp: validWebhookEnqueueInput_def consistent_def verified_push_def split: sum.splits)
  let ?m = "and_then (lockWebhookAuthorityForPush (en_app i) (en_push i)) (\<lambda>g. enqueueVerifiedPushTx clock i g True)"
  obtain x t where x: "run_intake ?m s = (x, t)" by fastforce
  then have "intake_ok t"
  proof (cases rule: run_intake_cases)
    case (committed r)
    then obtain b where "enqueueVerifiedPushTx clock i (target_of b) True s = Inr (r, t)"
      by (auto simp: tx_simps lock_authority split: option.splits)
    then show ?thesis using enqueue_ok [OF assms \<open>consistent i\<close>] committed(3) by blast
  qed (use assms in simp)
  with x True show ?thesis by (simp add: EnqueueVerifiedPush_def)
qed (use assms in \<open>simp add: EnqueueVerifiedPush_def\<close>)

lemma commit_checks_core:
  assumes "intake_commit_checks s" and "commit_checks c" and "list_all2 job_follows (jobs (core s)) (jobs c)"
    and "keyed (core s)" and "grows (core s) c"
  shows "intake_commit_checks (s\<lparr>core := c\<rparr>)"
proof -
  have d: "get_deployment k c \<noteq> None" if "get_deployment k (core s) \<noteq> None" for k
    using that assms(5) unfolding grows_def by (metis not_Some_eq rows_followD)
  have "get_deployment (job_deployment q) c \<noteq> None" if "ji \<in> set (job_identities s)" "get_job (ji_job ji) c = Some q" for ji q
  proof -
    from that(2) have "q \<in> set (jobs c)" "job_id q = ji_job ji" using job_tbl.get_mem job_tbl.get_key by blast+
    with followed_jobs(3) [OF assms(3)] obtain j where "j \<in> set (jobs (core s))" "job_follows j q" by blast
    with keyed_get(3) [OF assms(4)] \<open>job_id q = ji_job ji\<close> have "get_job (ji_job ji) (core s) = Some j" "job_deployment q = job_deployment j"
      by (auto simp: job_follows_def same_job_identity_def)
    with assms(1) that(1) d show ?thesis by (auto simp: intake_commit_checks_def list_all_iff split: option.splits)
  qed
  with assms(1,2) d show ?thesis by (auto simp: intake_commit_checks_def list_all_iff split: option.splits)
qed

lemma control_plane_ok:
  assumes ok: "intake_ok s" and "system_step (core s) c" and "same_jobs (core s) c"
  shows "intake_ok (s\<lparr>core := c\<rparr>)"
proof -
  have r: "reachable c" using intake_okD(1) [OF ok] assms(2) by (rule reachable.step)
  have g: "grows (core s) c" using later_grows [OF later.after [OF later.now assms(2)]] .
  note k = reachable_keyed [OF intake_okD(1) [OF ok]] reachable_keyed [OF r]
  note f = same_jobs_follow [OF assms(3) g k]
  have same: "job_serves i q = job_serves i j" if "job_follows j q" for i j q
    using that by (simp add: job_follows_def same_job_identity_def job_serves_def)
  show ?thesis
  proof (rule intake_okI)
    show "accounted (s\<lparr>core := c\<rparr>)"
    proof (rule accounted_follows [OF intake_okD(5) [OF ok]])
      show "\<exists>k \<in> set (jobs (core (s\<lparr>core := c\<rparr>))). job_serves i k" if "j \<in> set (jobs (core s))" "job_serves i j" for i j
        using followed_jobs(2) [OF f that(1)] same that(2) by fastforce
    qed (simp_all add: processed_stay_def)
    show "jobs_ok (s\<lparr>core := c\<rparr>)" using intake_okD(4) [OF ok] followed_jobs(1) [OF f] by (simp add: jobs_ok_def)
    show "intake_commit_checks (s\<lparr>core := c\<rparr>)"
      by (rule commit_checks_core [OF intake_okD(6) [OF ok] reachable_commits [OF r] f k(1) g])
  qed (use r intake_okD(2,3) [OF ok] in \<open>simp_all add: receipts_ok_def intents_ok_def\<close>)
qed

lemma intake_step_ok: "intake_step s t \<Longrightarrow> intake_ok s \<Longrightarrow> intake_ok t"
proof (induction rule: intake_step.induct)
  case (process_lifecycle s clock d l)
  then show ?case using run_work_ok [OF _ lifecycle_work] by (simp add: ProcessLifecycle_def)
next
  case (reject s r)
  then show ?case using run_work_ok [OF _ rejection_work] by (simp add: RecordTerminalRejection_def)
next
  case (configure_github s bs rs ins as)
  let ?t = "s\<lparr>apps := as, installations := ins, repositories := rs, project_bindings := bs\<rparr>"
  have "same_work s ?t" by (rule github_rows_work) (simp_all add: same_receipts)
  then show ?case using same_work_ok configure_github by blast
qed (simp_all add: ProcessPush_ok EnqueueVerifiedPush_ok control_plane_ok)

lemma empty_intake_ok: "intake_ok empty_intake"
  using reachable.start reachable_commits [OF reachable.start]
  by (simp add: intake_ok_def empty_intake_def receipts_ok_def intents_ok_def jobs_ok_def accounted_def intake_commit_checks_def
      empty_db_def)

lemma intake_reachable_ok: "intake_reachable s \<Longrightarrow> intake_ok s"
  by (induction rule: intake_reachable.induct) (use empty_intake_ok intake_step_ok in blast)+

end
