(* ===== verification/Webhook_Handler.thy ===== *)
theory Webhook_Handler
  imports Webhook_Reach
begin

text \<open>
  \<^verbatim>\<open>internal/github/http/handler.go\<close>: the public end of the webhook path.  A request is a record of
  what the handler reads of it; HMAC-SHA256, the JSON decoder and the address parser of Go are
  arguments, and the processor is any value with the operations of the \<^verbatim>\<open>Processor\<close> interface.  The
  answer is the status code.
\<close>

section \<open>Requests\<close>

text \<open>\<open>rq_url\<close> is path, raw path and raw query; a body is what can be read of it and whether reading it fails.\<close>

record http_request =
  rq_method :: string
  rq_url :: "(string \<times> string \<times> string) option"
  rq_tls :: bool
  rq_remote :: string
  rq_header :: "string \<Rightarrow> string list"
  rq_body :: "(string \<times> bool) option"

definition Path :: string where
  "Path = ''/webhooks/github''"

definition MaxBodyBytes :: int where
  "MaxBodyBytes = 2 ^ 20"

record secret_ring =
  active_version :: string
  active_secret :: string
  retained :: "(string \<times> string) list"

definition ring_valid :: "secret_ring \<Rightarrow> bool" where
  "ring_valid r \<longleftrightarrow>
     \<not> (active_version r = [] \<or> length (active_secret r) < 32 \<or> length (retained r) > 4)
     \<and> \<not> list_ex (\<lambda>(version, secret). version = active_version r) (retained r)
     \<and> \<not> list_ex (\<lambda>(version, secret). version = [] \<or> length secret < 32) (retained r)"

text \<open>
  \<^verbatim>\<open>https\<close>: the transport, or a trusted proxy that says so.  \<open>parse_peer\<close> is \<^verbatim>\<open>net.SplitHostPort\<close>
  with \<^verbatim>\<open>netip.ParseAddr\<close> and \<^verbatim>\<open>Unmap\<close>, \<open>contains\<close> is \<^verbatim>\<open>netip.Prefix.Contains\<close>.
\<close>

definition https :: "(string \<Rightarrow> 'ip option) \<Rightarrow> ('cidr \<Rightarrow> 'ip \<Rightarrow> bool) \<Rightarrow> 'cidr list \<Rightarrow> http_request \<Rightarrow> bool" where
  "https parse_peer contains cidrs r \<longleftrightarrow>
     rq_tls r \<or> (case parse_peer (rq_remote r) of
       None \<Rightarrow> False
     | Some peer \<Rightarrow> list_ex (\<lambda>c. contains c peer) cidrs \<and> rq_header r ''X-Forwarded-Proto'' = [''https''])"

definition single :: "string list \<Rightarrow> string option" where
  "single values = (case values of
       [v] \<Rightarrow> if v = [] \<or> length v > 256 \<or> list_ex (\<lambda>c. c \<in> {CHR 0x0D, CHR 0x0A, CHR 0x00}) v then None else Some v
     | _ \<Rightarrow> None)"

definition event_of :: "string \<Rightarrow> webhook_event" where
  "event_of v = (if v = ''push'' then EventPush else if v = ''installation'' then EventInstallation
     else if v = ''installation_repositories'' then EventInstallationRepositories else EventOther v)"

definition canonicalHeaders :: "(string \<Rightarrow> string list) \<Rightarrow> webhook_headers option" where
  "canonicalHeaders header =
     (case single (header ''X-GitHub-Delivery'') of None \<Rightarrow> None
      | Some delivery \<Rightarrow> (case single (header ''X-GitHub-Event'') of None \<Rightarrow> None
      | Some event \<Rightarrow> (case single (header ''X-Hub-Signature-256'') of None \<Rightarrow> None
      | Some signature \<Rightarrow>
          let h = \<lparr>hd_delivery = delivery, hd_event = event_of event, hd_signature = signature\<rparr>
          in if Headers_Validate h then Some h else None)))"

definition readBody :: "http_request \<Rightarrow> int + string" where
  "readBody r = (case rq_body r of
       None \<Rightarrow> Inl 400
     | Some (content, failing) \<Rightarrow> if failing \<or> int (length content) > MaxBodyBytes then Inl 413 else Inr content)"

section \<open>Signatures\<close>

definition verify :: "(string \<Rightarrow> string \<Rightarrow> string) \<Rightarrow> string \<Rightarrow> string \<Rightarrow> secret_ring \<Rightarrow> bool" where
  "verify hmac signature body ring =
     (if \<not> HasPrefix signature ''sha256='' \<or> length signature \<noteq> length ''sha256='' + 64 then False
      else (case hex_decode (TrimPrefix signature ''sha256='') of
          None \<Rightarrow> False
        | Some want \<Rightarrow> length want = 32 \<and>
            foldl (\<lambda>valid secret. hmac (snd secret) body = want \<or> valid) (hmac (active_secret ring) body = want) (retained ring)))"

section \<open>Payloads\<close>

datatype parse_error = Malformed | UnsupportedWebhook

record push_payload =
  pp_installation :: int
  pp_repository :: int
  pp_owner :: int
  pp_ref :: string
  pp_after :: string
  pp_deleted :: bool

text \<open>A decoder gives the first value of the body and whether nothing follows it.\<close>

definition parsePush :: "(string \<Rightarrow> (push_payload \<times> bool) option) \<Rightarrow> string \<Rightarrow> parse_error + push" where
  "parsePush decode body = (case decode body of
       None \<Rightarrow> Inl Malformed
     | Some (payload, finished) \<Rightarrow>
         if \<not> finished then Inl Malformed
         else if pp_deleted payload then Inl Malformed
         else let p = \<lparr>ps_installation = pp_installation payload, ps_repository = pp_repository payload, ps_owner = pp_owner payload,
                       ps_ref = pp_ref payload, ps_commit = pp_after payload\<rparr>
              in if Push_Validate p then Inr p else Inl Malformed)"

record lifecycle_payload =
  lp_action :: string
  lp_installation :: int
  lp_account :: int
  lp_removed :: "(int \<times> int) list"
  lp_added :: "(int \<times> int) list"

definition parseLifecycle ::
  "(string \<Rightarrow> (lifecycle_payload \<times> bool) option) \<Rightarrow> webhook_event \<Rightarrow> string \<Rightarrow> parse_error + lifecycle" where
  "parseLifecycle decode event body = (case decode body of
       None \<Rightarrow> Inl Malformed
     | Some (payload, finished) \<Rightarrow>
         let value = \<lparr>lc_event = event, lc_installation = lp_installation payload, lc_repository = 0, lc_owner = 0,
                      lc_repositories = [], lc_action = lp_action payload\<rparr>;
             validated = (\<lambda>v. if Lifecycle_Validate v then Inr v else Inl Malformed)
         in if \<not> finished then Inl Malformed
            else if event = EventInstallation then
              (if lp_action payload \<notin> {''created'', ''deleted'', ''suspend'', ''unsuspend''} then Inl UnsupportedWebhook
               else validated (value\<lparr>lc_owner := lp_account payload\<rparr>))
            else if lp_action payload \<notin> {''added'', ''removed''} then Inl UnsupportedWebhook
            else let items = (if lp_action payload = ''added'' then lp_added payload else lp_removed payload)
              in if items = [] \<or> int (length items) > MaxLifecycleRepositories then Inl Malformed
                 else if list_ex (\<lambda>(k, owner). owner \<noteq> lp_account payload) items then Inl Malformed
                 else let ids = CanonicalLifecycleRepositories (map fst items)
                      in validated (value\<lparr>lc_owner := lp_account payload, lc_repositories := ids, lc_repository := hd ids\<rparr>))"

definition failureFor :: "parse_error \<Rightarrow> webhook_failure" where
  "failureFor e = (if e = UnsupportedWebhook then FailureUnsupported else FailureMalformed)"

section \<open>The handler\<close>

text \<open>\<open>pc_terminal\<close> is \<open>None\<close> for a processor that does not classify its errors.\<close>

record ('s, 'e) processor =
  pc_push :: "delivery \<Rightarrow> push \<Rightarrow> 's \<Rightarrow> 'e option \<times> 's"
  pc_lifecycle :: "delivery \<Rightarrow> lifecycle \<Rightarrow> 's \<Rightarrow> 'e option \<times> 's"
  pc_reject :: "delivery \<Rightarrow> 's \<Rightarrow> 'e option \<times> 's"
  pc_terminal :: "('e \<Rightarrow> bool) option"

text \<open>The Go library the handler calls.\<close>

record ('ip, 'cidr) library =
  lib_sha256 :: "string \<Rightarrow> string"
  lib_hmac :: "string \<Rightarrow> string \<Rightarrow> string"
  lib_push :: "string \<Rightarrow> (push_payload \<times> bool) option"
  lib_lifecycle :: "string \<Rightarrow> (lifecycle_payload \<times> bool) option"
  lib_peer :: "string \<Rightarrow> 'ip option"
  lib_contains :: "'cidr \<Rightarrow> 'ip \<Rightarrow> bool"

definition answer_processed :: "('s, 'e) processor \<Rightarrow> 'e option \<times> 's \<Rightarrow> int \<times> 's" where
  "answer_processed p r = (case r of
       (None, t) \<Rightarrow> (204, t)
     | (Some e, t) \<Rightarrow>
         (case pc_terminal p of
            None \<Rightarrow> (503, t)
          | Some terminal \<Rightarrow> if terminal e then (400, t) else (503, t)))"

definition answer_rejected :: "('s, 'e) processor \<Rightarrow> delivery \<Rightarrow> parse_error \<Rightarrow> 's \<Rightarrow> int \<times> 's" where
  "answer_rejected p d e s =
     (case pc_reject p (d\<lparr>dv_processing := ProcessingRejected, dv_failure := failureFor e\<rparr>) s of
        (Some _, t) \<Rightarrow> (503, t)
      | (None, t) \<Rightarrow> (400, t))"

definition verified_delivery :: "('ip, 'cidr) library \<Rightarrow> webhook_headers \<Rightarrow> string \<Rightarrow> delivery" where
  "verified_delivery lib h body = \<lparr>dv_id = hd_delivery h, dv_event = hd_event h, dv_digest = lib_sha256 lib body,
     dv_verification = VerificationVerified, dv_processing = ProcessingPending, dv_failure = FailureNone\<rparr>"

definition dispatch :: "('ip, 'cidr) library \<Rightarrow> ('s, 'e) processor \<Rightarrow> webhook_headers \<Rightarrow> string \<Rightarrow> 's \<Rightarrow> int \<times> 's" where
  "dispatch lib p h body s =
     (let d = verified_delivery lib h body in
      if hd_event h = EventPush then
        (case parsePush (lib_push lib) body of
           Inr v \<Rightarrow> answer_processed p (pc_push p d v s) | Inl e \<Rightarrow> answer_rejected p d e s)
      else if hd_event h = EventInstallation \<or> hd_event h = EventInstallationRepositories then
        (case parseLifecycle (lib_lifecycle lib) (hd_event h) body of
           Inr v \<Rightarrow> answer_processed p (pc_lifecycle p d v s) | Inl e \<Rightarrow> answer_rejected p d e s)
      else answer_rejected p d UnsupportedWebhook s)"

definition ServeHTTP ::
  "('ip, 'cidr) library \<Rightarrow> secret_ring \<Rightarrow> 'cidr list \<Rightarrow> ('s, 'e) processor option \<Rightarrow> http_request \<Rightarrow> 's \<Rightarrow> int \<times> 's" where
  "ServeHTTP lib secrets cidrs proc r s =
     (if rq_method r \<noteq> ''POST'' \<or> rq_url r \<noteq> Some (Path, [], []) \<or> \<not> https (lib_peer lib) (lib_contains lib) cidrs r
         \<or> \<not> ring_valid secrets
      then (404, s)
      else (case canonicalHeaders (rq_header r) of
          None \<Rightarrow> (400, s)
        | Some h \<Rightarrow> (case readBody r of
            Inl status \<Rightarrow> (status, s)
          | Inr body \<Rightarrow>
              if \<not> verify (lib_hmac lib) (hd_signature h) body secrets then (401, s)
              else (case proc of None \<Rightarrow> (401, s) | Some p \<Rightarrow> dispatch lib p h body s))))"

text \<open>A request that carries a valid signature over its whole body.\<close>

definition authentic :: "('ip, 'cidr) library \<Rightarrow> secret_ring \<Rightarrow> http_request \<Rightarrow> webhook_headers \<Rightarrow> string \<Rightarrow> bool" where
  "authentic lib secrets r h body \<longleftrightarrow> rq_method r = ''POST'' \<and> canonicalHeaders (rq_header r) = Some h \<and> rq_body r = Some (body, False) \<and>
     int (length body) \<le> MaxBodyBytes \<and>
     (\<exists>secret \<in> insert (active_secret secrets) (snd ` set (retained secrets)).
        hex_decode (TrimPrefix (hd_signature h) ''sha256='') = Some (lib_hmac lib secret body))"

lemma verify_secret:
  assumes "verify hmac signature body ring"
  shows "\<exists>secret \<in> insert (active_secret ring) (snd ` set (retained ring)).
    hex_decode (TrimPrefix signature ''sha256='') = Some (hmac secret body)"
proof -
  have fold: "foldl (\<lambda>valid secret. hmac (snd secret) body = want \<or> valid) b rs \<longleftrightarrow> b \<or> (\<exists>x \<in> set rs. hmac (snd x) body = want)" for want b rs
    by (induction rs arbitrary: b) auto
  show ?thesis using assms by (force simp: verify_def fold split: if_splits option.splits)
qed

text \<open>Everything but an authentic request ends before the processor.\<close>

lemma ServeHTTP_cases:
  assumes "ServeHTTP lib secrets cidrs proc r s = (status, t)"
  obtains (refused) "status \<in> {400, 401, 404, 413}" "t = s"
  | (served) h body p where "authentic lib secrets r h body" "proc = Some p" "dispatch lib p h body s = (status, t)"
proof (cases "\<exists>h body p. canonicalHeaders (rq_header r) = Some h \<and> readBody r = Inr body \<and> verify (lib_hmac lib) (hd_signature h) body secrets \<and>
    proc = Some p \<and> dispatch lib p h body s = (status, t) \<and> rq_method r = ''POST''")
  case True
  then obtain h body p where h: "canonicalHeaders (rq_header r) = Some h" "readBody r = Inr body" "verify (lib_hmac lib) (hd_signature h) body secrets"
    "proc = Some p" "dispatch lib p h body s = (status, t)" "rq_method r = ''POST''" by blast
  moreover have "rq_body r = Some (body, False)" "int (length body) \<le> MaxBodyBytes"
    using h(2) by (auto simp: readBody_def split: option.splits if_splits)
  ultimately show ?thesis using served verify_secret by (simp add: authentic_def)
next
  case False
  have "readBody r = Inl x \<Longrightarrow> x \<in> {400, 413}" for x by (auto simp: readBody_def split: option.splits if_splits)
  with False assms have "status \<in> {400, 401, 404, 413} \<and> t = s"
    by (auto simp: ServeHTTP_def split: if_splits option.splits sum.splits)
  then show ?thesis using refused by blast
qed


section \<open>The processor interface\<close>

text \<open>
  What the handler relies on: a processor that reports success has recorded the delivery with the
  digest of its body, and one that reports an error has changed nothing, so that the sender may try
  again.
\<close>

locale webhook_processor =
  fixes proc :: "('s, 'e) processor"
    and recorded :: "string \<Rightarrow> string \<Rightarrow> 's \<Rightarrow> bool"
  assumes push_recorded: "pc_push proc d p s = (None, t) \<Longrightarrow> recorded (dv_id d) (dv_digest d) t"
    and push_failed: "pc_push proc d p s = (Some e, t) \<Longrightarrow> t = s"
    and lifecycle_recorded: "pc_lifecycle proc d l s = (None, t) \<Longrightarrow> recorded (dv_id d) (dv_digest d) t"
    and lifecycle_failed: "pc_lifecycle proc d l s = (Some e, t) \<Longrightarrow> t = s"
    and reject_recorded: "pc_reject proc d s = (None, t) \<Longrightarrow> recorded (dv_id d) (dv_digest d) t"
    and reject_failed: "pc_reject proc d s = (Some e, t) \<Longrightarrow> t = s"
begin

lemma answer_contract:
  assumes "answer_processed proc r = (status, t)"
    and "\<And>t. r = (None, t) \<Longrightarrow> recorded k g t" and "\<And>e t. r = (Some e, t) \<Longrightarrow> t = s"
  shows "status \<in> {204, 400, 503} \<and> (status = 204 \<longrightarrow> recorded k g t) \<and> (t = s \<or> recorded k g t) \<and> (status = 503 \<longrightarrow> t = s)"
  using assms by (cases r; cases "fst r") (auto simp: answer_processed_def split: option.splits if_splits)

lemma rejected_contract:
  assumes "answer_rejected proc d e s = (status, t)"
  shows "status \<in> {400, 503} \<and> (t = s \<or> recorded (dv_id d) (dv_digest d) t) \<and> (status = 503 \<longrightarrow> t = s)"
  using assms reject_failed reject_recorded [of "d\<lparr>dv_processing := ProcessingRejected, dv_failure := failureFor e\<rparr>" s]
  by (auto simp: answer_rejected_def split: prod.splits option.splits)

lemma dispatch_contract:
  assumes "dispatch lib proc h body s = (status, t)"
  shows "status \<in> {204, 400, 503} \<and> (status = 204 \<longrightarrow> recorded (hd_delivery h) (lib_sha256 lib body) t) \<and>
    (t = s \<or> recorded (hd_delivery h) (lib_sha256 lib body) t) \<and> (status = 503 \<longrightarrow> t = s)"
proof -
  let ?d = "verified_delivery lib h body"
  have d: "dv_id ?d = hd_delivery h" "dv_digest ?d = lib_sha256 lib body" by (simp_all add: verified_delivery_def)
  have ok: "status \<in> {204, 400, 503} \<and> (status = 204 \<longrightarrow> recorded (hd_delivery h) (lib_sha256 lib body) t) \<and>
    (t = s \<or> recorded (hd_delivery h) (lib_sha256 lib body) t) \<and> (status = 503 \<longrightarrow> t = s)"
    if "(\<exists>v. answer_processed proc (pc_push proc ?d v s) = (status, t)) \<or> (\<exists>v. answer_processed proc (pc_lifecycle proc ?d v s) = (status, t))
      \<or> (\<exists>e. answer_rejected proc ?d e s = (status, t))"
    using that
  proof (elim disjE exE)
    fix v assume "answer_processed proc (pc_push proc ?d v s) = (status, t)"
    then show ?thesis by (rule answer_contract) (use push_recorded [of ?d v s] push_failed [of ?d v s] d in auto)
  next
    fix v assume "answer_processed proc (pc_lifecycle proc ?d v s) = (status, t)"
    then show ?thesis by (rule answer_contract) (use lifecycle_recorded [of ?d v s] lifecycle_failed [of ?d v s] d in auto)
  next
    fix e assume "answer_rejected proc ?d e s = (status, t)"
    then show ?thesis using rejected_contract d by fastforce
  qed
  show ?thesis by (rule ok) (use assms in \<open>auto simp: dispatch_def Let_def split: if_splits sum.splits\<close>)
qed

lemma served_contract:
  assumes "ServeHTTP lib secrets cidrs (Some proc) r s = (status, t)"
  shows "status \<in> {204, 400, 401, 404, 413, 503} \<and> (status \<notin> {204, 400} \<longrightarrow> t = s) \<and>
    (status = 204 \<or> t \<noteq> s \<longrightarrow> (\<exists>h body. authentic lib secrets r h body \<and> recorded (hd_delivery h) (lib_sha256 lib body) t))"
  using assms
proof (cases rule: ServeHTTP_cases)
  case (served h body p)
  then have "dispatch lib proc h body s = (status, t)" by simp
  from dispatch_contract [OF this] served(1) show ?thesis by auto
qed auto

end

section \<open>The intake as the processor\<close>

definition intake_processor ::
  "(string \<Rightarrow> string) \<Rightarrow> (int \<Rightarrow> string) \<Rightarrow> (nat \<Rightarrow> int) \<Rightarrow> (intake, intake_error) processor" where
  "intake_processor sha256 rfc3339 clock = \<lparr>
     pc_push = (\<lambda>d p s. discard_value (ProcessPush sha256 rfc3339 clock d p s)),
     pc_lifecycle = (\<lambda>d l s. discard_value (ProcessLifecycle clock d l s)),
     pc_reject = Reject, pc_terminal = Some IsTerminalWebhookError\<rparr>"

definition delivery_recorded :: "string \<Rightarrow> string \<Rightarrow> intake \<Rightarrow> bool" where
  "delivery_recorded k g s \<longleftrightarrow> (\<exists>q \<in> set (deliveries s). dl_app q = 1 \<and> dl_delivery q = k \<and> dl_digest q = g)"

end
