(* ===== verification/Webhook_Later.thy ===== *)
theory Webhook_Later
  imports Webhook_Reach "HOL-Library.Sublist"
begin

text \<open>
  The intake over time: what a delivery left behind is found unchanged in every state the system can
  reach afterwards, whatever else was delivered, configured or worked on in between.
\<close>

section \<open>Lookups\<close>

lemma find_Some_mem: "find P xs = Some x \<Longrightarrow> x \<in> set xs \<and> P x"
  by (induction xs) (auto split: if_splits)

lemma find_append_new: "(\<And>x. x \<in> set xs \<Longrightarrow> \<not> P x) \<Longrightarrow> P y \<Longrightarrow> find P (xs @ [y]) = Some y"
  by (induction xs) auto

lemma find_delivery_None:
  "find_delivery app k s = None \<longleftrightarrow> (\<forall>q \<in> set (deliveries s). \<not> (dl_app q = app \<and> dl_delivery q = k))"
  by (auto simp: find_delivery_def find_None_iff)

section \<open>The run of a lifecycle event\<close>

lemma lock_lifecycle_reads: "lockLifecycleAuthority l s = Inr (u, t) \<Longrightarrow> t = s"
proof -
  have e: "for_each (\<lambda>k. and_then (query_row e (g k)) (\<lambda>_. ret ())) ks s = Inr (u, t) \<Longrightarrow> t = s" for e g ks s u t
    by (induction ks arbitrary: s) (auto simp: tx_simps ret_def)
  show "lockLifecycleAuthority l s = Inr (u, t) \<Longrightarrow> t = s"
    unfolding lockLifecycleAuthority_def by (auto simp: tx_simps ret_def split: if_splits dest: e)
qed

lemma first_lifecycle_run:
  assumes "process_lifecycle_tx clock d l s = Inr (u, t)" and "find_delivery 1 (dv_id d) s = None"
  obtains v w where "lockLifecycleAuthority l s = Inr ((), s)" "delivery_checks (lifecycle_receipt d l)"
    "insertLifecycleRepositories (next_delivery s) (lc_repositories l)
       (s\<lparr>deliveries := deliveries s @ [(lifecycle_receipt d l)\<lparr>dl_id := next_delivery s\<rparr>], next_delivery := next_delivery s + 1\<rparr>) = Inr ((), v)"
    "lifecycle_effect l v = Inr ((), w)" "markDeliveryProcessed (next_delivery s) (clock 0) w = Inr ((), t)"
proof -
  from assms(1) obtain k v s' where a: "lockLifecycleAuthority l s = Inr ((), s')" and k: "insert_delivery (lifecycle_receipt d l) s' = Inr (k, v)"
    and rest: "(case k of None \<Rightarrow> and_then (query_row ErrWebhookIntegrity (find_delivery 1 (dv_id d))) (\<lambda>q.
           seq (ensure (same_lifecycle d l q) ErrWebhookIntegrity) (lifecycleRepositoriesMatch (dl_id q) (lc_repositories l)))
       | Some k \<Rightarrow> seq (insertLifecycleRepositories k (lc_repositories l)) (
           seq (lifecycle_effect l) (markDeliveryProcessed k (clock 0)))) v = Inr (u, t)"
    unfolding process_lifecycle_tx_def seq_Inr and_then_Inr catch_Inr by (auto simp: option.case_eq_if)
  from a have "s' = s" by (rule lock_lifecycle_reads)
  from k show ?thesis
  proof (cases rule: insert_delivery_cases)
    case known
    with assms(2) \<open>s' = s\<close> show ?thesis by (auto simp: find_delivery_None lifecycle_receipt_def)
  next
    case new
    with rest a \<open>s' = s\<close> show ?thesis by (auto simp: tx_simps intro: that)
  qed
qed

text \<open>What the effect of a lifecycle event does not change: the receipts.\<close>

definition same_receipt_rows :: "intake \<Rightarrow> intake \<Rightarrow> bool" where
  "same_receipt_rows s t \<longleftrightarrow> deliveries t = deliveries s \<and> next_delivery t = next_delivery s \<and>
     lifecycle_repositories t = lifecycle_repositories s"

interpretation receipt_rows: kept_relation same_receipt_rows
  by unfold_locales (auto simp: same_receipt_rows_def)

lemma lifecycle_effect_receipts: "receipt_rows.keeps (lifecycle_effect l)"
proof -
  have "receipt_rows.keeps (disable_installation k a)" "receipt_rows.keeps (disable_repository r k)"
    "receipt_rows.keeps (disable_repositories_of k)" "receipt_rows.keeps (disable_bindings c)" for k a r c
    by (rule receipt_rows.keepsI; auto simp: disable_installation_def disable_repository_def disable_repositories_of_def
        disable_bindings_def Let_def same_receipt_rows_def split: if_splits)+
  then show ?thesis unfolding lifecycle_effect_def by (intro receipt_rows.keeps_intros)
qed

lemma insert_repositories_run:
  "insertLifecycleRepositories k ids s = Inr (u, t) \<Longrightarrow> t = s\<lparr>lifecycle_repositories := lifecycle_repositories s @ map (Pair k) ids\<rparr>"
proof (induction ids arbitrary: s)
  case (Cons i ids)
  then obtain v where "insert_lifecycle_repository k i s = Inr ((), v)" "insertLifecycleRepositories k ids v = Inr (u, t)"
    by (auto simp: insertLifecycleRepositories_def tx_simps)
  with Cons.IH [of v] show ?case by (auto simp: insert_lifecycle_repository_def split: option.splits if_splits)
qed (simp add: insertLifecycleRepositories_def ret_def)

lemma known_lifecycle_run:
  assumes "process_lifecycle_tx clock d l s = Inr (u, t)" and q: "find_delivery 1 (dv_id d) s = Some q"
  shows "t = s \<and> lockLifecycleAuthority l s = Inr ((), s) \<and> delivery_checks (lifecycle_receipt d l) \<and> same_lifecycle d l q \<and>
    lifecycleRepositoriesMatch (dl_id q) (lc_repositories l) s = Inr ((), s)"
proof -
  have "list_ex (\<lambda>x. dl_app x = 1 \<and> dl_delivery x = dv_id d) (deliveries s)"
    using q by (auto simp: find_delivery_def list_ex_iff dest: find_Some_mem)
  moreover from assms(1) obtain s' where a: "lockLifecycleAuthority l s = Inr ((), s')" by (auto simp: process_lifecycle_tx_def seq_Inr)
  moreover have "s' = s" using a by (rule lock_lifecycle_reads)
  moreover have "lifecycleRepositoriesMatch k ids s = Inr (x, v) \<Longrightarrow> v = s" for k ids x v
    by (simp add: lifecycleRepositoriesMatch_def split: if_splits)
  ultimately show ?thesis
    using assms unfolding process_lifecycle_tx_def
    by (auto simp: tx_simps insert_delivery_Inr lifecycle_receipt_def split: option.splits)
qed

section \<open>What every step keeps\<close>

text \<open>
  A step appends: receipts, intents and the repositories of a lifecycle event are never changed or
  removed, new repositories belong to new receipts, and every job is still there for its deployment.
\<close>

definition intake_extends :: "intake \<Rightarrow> intake \<Rightarrow> bool" where
  "intake_extends s t \<longleftrightarrow> prefix (deliveries s) (deliveries t) \<and> next_delivery s \<le> next_delivery t \<and> prefix (intents s) (intents t) \<and>
     (\<forall>k < next_delivery s. filter (\<lambda>r. fst r = k) (lifecycle_repositories t) = filter (\<lambda>r. fst r = k) (lifecycle_repositories s)) \<and>
     (\<forall>j \<in> set (jobs (core s)). \<exists>q \<in> set (jobs (core t)). job_id q = job_id j \<and> job_deployment q = job_deployment j)"

lemma intake_extends_refl: "intake_extends s s"
  by (auto simp: intake_extends_def)

lemma intake_extends_trans: "intake_extends s t \<Longrightarrow> intake_extends t u \<Longrightarrow> intake_extends s u"
  unfolding intake_extends_def by (auto intro: prefix_order.trans) metis

text \<open>Marking the new receipt leaves the older ones alone.\<close>

lemma older_receipts:
  assumes "receipts_ok s"
  shows "map (\<lambda>r. if pending_receipt (next_delivery s) r then processed_delivery now r else r) (deliveries s) = deliveries s"
  using assms by (intro map_idI) (auto simp: receipts_ok_def pending_receipt_def)

lemma receipt_extends:
  assumes "receipts_ok s" and "deliveries t = map (\<lambda>r. if pending_receipt (next_delivery s) r then processed_delivery now r else r)
      (deliveries s @ ds)" "next_delivery s \<le> next_delivery t" "prefix (intents s) (intents t)"
    and "lifecycle_repositories t = lifecycle_repositories s @ map (Pair (next_delivery s)) ids"
    and "set (jobs (core s)) \<subseteq> set (jobs (core t))"
  shows "intake_extends s t"
  using assms(2-6) older_receipts [OF assms(1)] by (auto simp: intake_extends_def filter_map comp_def)

lemma enqueue_extends:
  assumes ok: "receipts_ok s" and "enqueueVerifiedPushTx clock i g strict s = Inr (r, t)"
  shows "intake_extends s t"
  using assms(2)
proof (cases rule: enqueue_cases)
  case (joined q)
  show ?thesis
    by (rule receipt_extends [OF ok, where now = "clock 2" and ids = "[]" and ds = "[(push_receipt i)\<lparr>dl_id := next_delivery s\<rparr>]"])
      (simp_all add: joined(6) processed_def receipt_added_def)
next
  case (new e)
  show ?thesis
    by (rule receipt_extends [OF ok, where now = "clock 2" and ids = "[]" and ds = "[(push_receipt i)\<lparr>dl_id := next_delivery s\<rparr>]"])
      (use enqueued_core_jobs [OF new(7)] in \<open>auto simp: new(8) processed_def enqueued_def intended_def receipt_added_def\<close>)
qed (simp add: intake_extends_refl)

lemma lifecycle_extends:
  assumes ok: "receipts_ok s" and tx: "process_lifecycle_tx clock d l s = Inr (u, t)"
  shows "intake_extends s t"
proof (cases "find_delivery 1 (dv_id d) s")
  case None
  from first_lifecycle_run [OF tx this] obtain v w where
    v: "insertLifecycleRepositories (next_delivery s) (lc_repositories l)
       (s\<lparr>deliveries := deliveries s @ [(lifecycle_receipt d l)\<lparr>dl_id := next_delivery s\<rparr>], next_delivery := next_delivery s + 1\<rparr>) = Inr ((), v)"
    and w: "lifecycle_effect l v = Inr ((), w)" and m: "markDeliveryProcessed (next_delivery s) (clock 0) w = Inr ((), t)" .
  note run = insert_repositories_run [OF v] receipt_rows.keepsD [OF lifecycle_effect_receipts w] mark_processed_Inr [OF m]
  have "same_work s t" using work.keepsD [OF lifecycle_work tx] .
  with run show ?thesis
    by (intro receipt_extends [OF ok, where now = "clock 0" and ids = "lc_repositories l"
        and ds = "[(lifecycle_receipt d l)\<lparr>dl_id := next_delivery s\<rparr>]"])
      (simp_all add: same_receipt_rows_def same_work_def)
qed (use known_lifecycle_run [OF tx] in \<open>simp add: intake_extends_refl\<close>)

lemma rejection_extends:
  assumes "record_rejection_tx r s = Inr (k, t)"
  shows "intake_extends s t"
proof -
  from assms obtain x where "insert_delivery (rejection_row r) s = Inr (x, t)"
    unfolding record_rejection_tx_def and_then_Inr catch_Inr by (auto simp: tx_simps ret_def split: option.splits)
  then show ?thesis by (cases rule: insert_delivery_cases) (auto simp: intake_extends_def)
qed

lemma control_plane_extends:
  assumes ok: "intake_ok s" and "system_step (core s) c" and "same_jobs (core s) c"
  shows "intake_extends s (s\<lparr>core := c\<rparr>)"
proof -
  have "reachable c" using intake_okD(1) [OF ok] assms(2) by (rule reachable.step)
  then have "list_all2 job_follows (jobs (core s)) (jobs c)"
    using same_jobs_follow [OF assms(3) later_grows [OF later.after [OF later.now assms(2)]]] reachable_keyed intake_okD(1) [OF ok] by blast
  from followed_jobs(2) [OF this] show ?thesis
    by (force simp: intake_extends_def job_follows_def same_job_identity_def)
qed

lemma run_extends:
  assumes "\<And>x t. m s = Inr (x, t) \<Longrightarrow> intake_extends s t"
  shows "intake_extends s (snd (run_intake m s))"
  using assms by (auto simp: run_intake_def intake_extends_refl split: sum.splits)

lemma intake_step_extends: "intake_step s t \<Longrightarrow> intake_ok s \<Longrightarrow> intake_extends s t"
proof (induction rule: intake_step.induct)
  case (process_push s sha256 rfc3339 clock d p)
  note ok = intake_okD(2) [OF process_push]
  have "intake_extends s (snd (run_intake (process_push_tx sha256 rfc3339 clock d p) s))"
    by (rule run_extends) (auto simp: process_push_iff dest: enqueue_extends [OF ok])
  then show ?case by (simp add: ProcessPush_def intake_extends_refl)
next
  case (enqueue_push s sha256 rfc3339 clock i)
  note ok = intake_okD(2) [OF enqueue_push]
  have "intake_extends s (snd (run_intake
      (and_then (lockWebhookAuthorityForPush (en_app i) (en_push i)) (\<lambda>g. enqueueVerifiedPushTx clock i g True)) s))"
    by (rule run_extends) (auto simp: tx_simps lock_authority split: option.splits dest: enqueue_extends [OF ok])
  then show ?case by (simp add: EnqueueVerifiedPush_def intake_extends_refl)
next
  case (process_lifecycle s clock d l)
  note ok = intake_okD(2) [OF process_lifecycle]
  have "intake_extends s (snd (run_intake (process_lifecycle_tx clock d (canonical_lifecycle l)) s))"
    by (rule run_extends) (rule lifecycle_extends [OF ok])
  then show ?case by (simp add: ProcessLifecycle_def intake_extends_refl)
next
  case (reject s r)
  have "intake_extends s (snd (run_intake (record_rejection_tx r) s))" by (rule run_extends) (rule rejection_extends)
  then show ?case by (simp add: RecordTerminalRejection_def intake_extends_refl)
next
  case (control_plane s c)
  then show ?case by (blast intro: control_plane_extends)
qed (auto simp: intake_extends_def)

section \<open>Later states\<close>

inductive intake_later :: "intake \<Rightarrow> intake \<Rightarrow> bool" where
  intake_now: "intake_later s s"
| intake_after: "intake_later s t \<Longrightarrow> intake_step t u \<Longrightarrow> intake_later s u"

lemma later_intake:
  assumes "intake_later s t" and "intake_reachable s"
  shows "intake_reachable t" "intake_extends s t"
proof -
  from assms have "intake_reachable t \<and> intake_extends s t"
    by (induction rule: intake_later.induct)
      (blast intro: intake_extends_refl intake_next intake_extends_trans intake_step_extends intake_reachable_ok)+
  then show "intake_reachable t" "intake_extends s t" by blast+
qed

text \<open>Then the receipt, the intent and the job of a delivery are found again.\<close>

lemma find_unique:
  assumes "distinct (map f xs)" and "x \<in> set xs"
  shows "find (\<lambda>y. f y = f x) xs = Some x"
  using assms by (induction xs) force+

lemma find_prefix: "find P xs = Some x \<Longrightarrow> prefix xs ys \<Longrightarrow> find P ys = Some x"
proof -
  assume "find P xs = Some x" and "prefix xs ys"
  then obtain zs where "ys = xs @ zs" by (auto simp: prefix_def)
  with \<open>find P xs = Some x\<close> show ?thesis by (induction xs arbitrary: ys) (auto split: if_splits)
qed

lemma later_receipt:
  "intake_extends s t \<Longrightarrow> find_delivery app k s = Some q \<Longrightarrow> find_delivery app k t = Some q"
  unfolding find_delivery_def intake_extends_def by (blast intro: find_prefix)

lemma later_job:
  assumes "intake_extends s t" and "jobs_ok t" and "job_of_deployment d s = Some j"
  shows "\<exists>q. job_of_deployment d t = Some q \<and> job_id q = job_id j"
proof -
  have "j \<in> set (jobs (core s))" "job_deployment j = d"
    using assms(3) unfolding job_of_deployment_def by (auto dest: find_Some_mem)
  with assms(1) obtain q where "q \<in> set (jobs (core t))" "job_id q = job_id j" "job_deployment q = d"
    unfolding intake_extends_def by blast
  with find_unique [of job_deployment "jobs (core t)" q] assms(2) show ?thesis by (auto simp: job_of_deployment_def jobs_ok_def)
qed

lemma later_result:
  assumes "intake_extends s t" and "jobs_ok t" and "resultForDelivery k s = Inr (r, s)"
  shows "resultForDelivery k t = Inr (r, t)"
proof -
  from assms(3) obtain i j where i: "find (\<lambda>i. int_delivery i = k) (intents s) = Some i"
    and j: "job_of_deployment (int_deployment i) s = Some j" and d: "int_deployment i \<noteq> []"
    and r: "r = \<lparr>er_delivery = k, er_deployment = int_deployment i, er_job = job_id j\<rparr>"
    by (auto simp: resultForDelivery_def query_row_def result_of_intent_def split: option.splits if_splits)
  have "find (\<lambda>i. int_delivery i = k) (intents t) = Some i"
    using i assms(1) by (auto simp: intake_extends_def intro: find_prefix)
  moreover obtain q where "job_of_deployment (int_deployment i) t = Some q" "job_id q = job_id j"
    using later_job [OF assms(1,2) j] by blast
  ultimately show ?thesis using d r by (simp add: resultForDelivery_def query_row_def result_of_intent_def)
qed

lemma later_match:
  assumes "intake_extends s t" and "k < next_delivery s" and "lifecycleRepositoriesMatch k ids s = Inr ((), s)"
  shows "lifecycleRepositoriesMatch k ids t = Inr ((), t)"
  using assms by (simp add: lifecycleRepositoriesMatch_def intake_extends_def split: if_splits)

end
