(* ===== verification/Webhook_Properties.thy ===== *)
theory Webhook_Properties
  imports Webhook_Later Lease_Example
begin

text \<open>
  What the intake of webhooks promises: a push is admitted only through active GitHub rows and gets
  the target of its binding, a commit is enqueued once, redelivery of a delivery has no second
  effect, and an event that takes authority away stops further pushes.
\<close>

text \<open>A push whose commit the binding already has an intent for.\<close>

definition commit_known :: "project_binding_row \<Rightarrow> push \<Rightarrow> intake \<Rightarrow> bool" where
  "commit_known b p s \<longleftrightarrow> find_intent (pb_owner b, pb_project b, ps_repository p, ps_ref p, ps_commit p) s \<noteq> None"

section \<open>An example store\<close>

text \<open>One app, installation, repository and binding; the hash is constant, so all ids come from one seed.\<close>

definition ex_github :: intake where
  "ex_github = \<lparr>core = empty_db, apps = [\<lparr>app_id = 1, app_active = True\<rparr>],
     installations = [\<lparr>ins_id = 7, ins_owner = ''o'', ins_account = 8, ins_active = True, ins_suspended = False, ins_revision = 1\<rparr>],
     repositories = [\<lparr>rep_id = 9, rep_installation = 7, rep_owner = ''o'', rep_github_owner = 8, rep_active = True, rep_revision = 1\<rparr>],
     project_bindings = [\<lparr>pb_owner = ''o'', pb_project = ''p'', pb_repository = 9, pb_installation = 7, pb_active = True, pb_revision = 1,
       pb_ref = Some ''refs/heads/main'', pb_environment = Some ''e'', pb_server = Some ''v''\<rparr>],
     deliveries = [], next_delivery = 1, lifecycle_repositories = [], intents = [], next_intent = 1, job_identities = [], next_job = 1\<rparr>"

definition ex_push :: push where
  "ex_push = \<lparr>ps_installation = 7, ps_repository = 9, ps_owner = 8, ps_ref = ''refs/heads/main'', ps_commit = replicate 40 (CHR ''a'')\<rparr>"

definition ex_delivery :: "webhook_event \<Rightarrow> char \<Rightarrow> delivery" where
  "ex_delivery event c = \<lparr>dv_id = [c], dv_event = event, dv_digest = replicate 32 c, dv_verification = VerificationVerified,
     dv_processing = ProcessingPending, dv_failure = FailureNone\<rparr>"

definition ex_process :: "char \<Rightarrow> intake \<Rightarrow> (intake_error + enqueue_result) \<times> intake" where
  "ex_process c = ProcessPush (\<lambda>x. replicate 32 (CHR ''h'')) itoa (\<lambda>n. 5001) (ex_delivery EventPush c) ex_push"

definition ex_suspend :: lifecycle where
  "ex_suspend = \<lparr>lc_event = EventInstallation, lc_installation = 7, lc_repository = 0, lc_owner = 8, lc_repositories = [], lc_action = ''suspend''\<rparr>"

definition ex_lifecycle :: "intake \<Rightarrow> (intake_error + unit) \<times> intake" where
  "ex_lifecycle = ProcessLifecycle (\<lambda>n. 5001) (ex_delivery EventInstallation (CHR ''3'')) ex_suspend"

definition ex_id :: string where
  "ex_id = ''whd_'' @ concat (replicate 20 ''68'')"

definition ex_answer :: enqueue_result where
  "ex_answer = \<lparr>er_delivery = 1, er_deployment = ex_id, er_job = 1\<rparr>"

definition ex_first :: intake where
  "ex_first = ex_github\<lparr>
     core := empty_db\<lparr>
       jobs := [\<lparr>job_id = 1, job_owner = ''o'', job_project = ''p'', job_environment = ''e'', job_server = ''v'', job_deployment = ex_id,
         job_repository = 9, job_ref = ''refs/heads/main'', job_commit = replicate 40 (CHR ''a''), job_priority = 0, job_created = 5001,
         job_state = JobQueued, job_available = 5000, job_attempt_count = 0, job_cancel_requested = None, job_updated = 5001\<rparr>],
       job_events := [\<lparr>jev_job = 1, jev_sequence = 1, jev_type = EvEnqueued, jev_attempt = None\<rparr>],
       deployments := [\<lparr>snap_version = 1, snap_identity = \<lparr>id_deployment = ex_id, id_project = ''p'', id_environment = ''e'', id_server = ''v'',
           id_commit = replicate 40 (CHR ''a'')\<rparr>, snap_status = StatusQueued, snap_created = 5000, snap_updated = 5000, snap_revision = 1,
         snap_events = [\<lparr>ev_from = no_status, ev_to = StatusQueued, ev_at = 5000\<rparr>]\<rparr>]\<rparr>,
     deliveries := [\<lparr>dl_id = 1, dl_app = 1, dl_delivery = ''1'', dl_event = EventPush, dl_action = [], dl_digest = replicate 32 (CHR ''1''),
       dl_verification = VerificationVerified, dl_processing = ProcessingProcessed, dl_failure = FailureNone, dl_installation = Some 7,
       dl_repository = Some 9, dl_owner = Some 8, dl_processed = Some 5001\<rparr>],
     next_delivery := 2,
     intents := [\<lparr>int_id = 1, int_delivery = 1, int_owner = ''o'', int_project = ''p'', int_repository = 9, int_ref = ''refs/heads/main'',
       int_commit = replicate 40 (CHR ''a''), int_deployment = ex_id\<rparr>],
     next_intent := 2,
     job_identities := [\<lparr>ji_job = 1, ji_version = 1, ji_key = ''whj_'' @ concat (replicate 12 ''68''), ji_digest = replicate 32 (CHR ''h'')\<rparr>],
     next_job := 2\<rparr>"

definition ex_second :: intake where
  "ex_second = snd (ex_process (CHR ''2'') ex_first)"

definition ex_suspended :: intake where
  "ex_suspended = snd (ex_lifecycle ex_github)"

lemma ex_answers:
  "ex_process (CHR ''1'') ex_github = (Inr ex_answer, ex_first)"
  "ex_process (CHR ''2'') ex_first = (Inr (ex_answer\<lparr>er_delivery := 2\<rparr>), ex_second)"
  "ex_lifecycle ex_github = (Inr (), ex_suspended)"
proof -
  show "ex_process (CHR ''1'') ex_github = (Inr ex_answer, ex_first)" by code_simp
  have "fst (ex_process (CHR ''2'') ex_first) = Inr (ex_answer\<lparr>er_delivery := 2\<rparr>)" by code_simp
  then show "ex_process (CHR ''2'') ex_first = (Inr (ex_answer\<lparr>er_delivery := 2\<rparr>), ex_second)"
    by (simp add: ex_second_def prod_eq_iff)
  have "fst (ex_lifecycle ex_github) = Inr ()" by code_simp
  then show "ex_lifecycle ex_github = (Inr (), ex_suspended)" by (simp add: ex_suspended_def prod_eq_iff)
qed

lemma ex_binding:
  "push_authority 1 ex_push ex_github = Some (hd (project_bindings ex_github))"
  "push_authority 1 ex_push ex_first = Some (hd (project_bindings ex_first))"
  "\<not> commit_known (hd (project_bindings ex_github)) ex_push ex_github" "commit_known (hd (project_bindings ex_first)) ex_push ex_first"
  "find_delivery 1 ''1'' ex_github = None" "find_delivery 1 ''2'' ex_first = None" "find_delivery 1 ''3'' ex_github = None"
  by code_simp+

lemma ex_reachable: "intake_reachable ex_github" "intake_reachable ex_first"
proof -
  show g: "intake_reachable ex_github"
    using intake_next [OF intake_start configure_github, of "project_bindings ex_github" "repositories ex_github"
      "installations ex_github" "apps ex_github"] by (simp add: ex_github_def empty_intake_def)
  have "intake_reachable (snd (ex_process (CHR ''1'') ex_github))" unfolding ex_process_def by (rule intake_next [OF g process_push])
  then show "intake_reachable ex_first" by (simp add: ex_answers)
qed

section \<open>Deliveries seen again\<close>

lemma process_push_eval:
  assumes "push_authority 1 p s = Some b" and "built_input sha256 rfc3339 (clock 0) d p (target_of b) i"
  shows "process_push_tx sha256 rfc3339 clock d p s = enqueueVerifiedPushTx clock i (target_of b) False s"
  using assms
  by (cases i) (simp add: process_push_tx_def lock_authority built_input_def and_then_def lift_result_def case_prod_unfold Let_def)

lemma New_identity: "New x now = Inr dep \<Longrightarrow> dep_identity dep = x"
  by (auto simp: New_def Let_def split: option.splits if_splits)

lemma New_again: "New x now = Inr dep \<Longrightarrow> at \<noteq> 0 \<Longrightarrow> \<exists>e. New x at = Inr e"
  by (auto simp: New_def Let_def split: option.splits if_splits)

lemma new_job_again:
  assumes "NewDeploymentExecutionJob sha256 rfc3339 owner project environment server deployment repository ref commit key prio now = Inr j"
    and "1000 \<le> at"
  shows "\<exists>k. NewDeploymentExecutionJob sha256 rfc3339 owner project environment server deployment repository ref commit key prio at = Inr k"
proof -
  have "at - at mod 1000 \<noteq> 0" "(at - at mod 1000) mod 1000 = 0"
    using assms(2) pos_mod_bound [of 1000 at] by (auto simp: minus_mod_eq_mult_div)
  then show ?thesis
    using assms(1) unfolding NewDeploymentExecutionJob_def Let_def Job_Validate_def
    by (auto simp: payloadDigest_def payload_parts_def split: if_splits)
qed

text \<open>The redelivered push is built again, at another time, from the same binding.\<close>

lemma built_again:
  assumes "built_input sha256 rfc3339 now d p g i" and "1000 \<le> at"
  shows "\<exists>j. built_input sha256 rfc3339 at d p g j"
proof -
  from assms New_again [of _ now _ at] new_job_again [OF _ assms(2)] obtain dep k where
    "New \<lparr>id_deployment = fst (webhookIDs sha256 g p), id_project = tg_project g, id_environment = tg_environment g,
       id_server = tg_server g, id_commit = ps_commit p\<rparr> at = Inr dep"
    "NewDeploymentExecutionJob sha256 rfc3339 (tg_owner g) (tg_project g) (tg_environment g) (tg_server g) (fst (webhookIDs sha256 g p))
       (ps_repository p) (ps_ref p) (ps_commit p) (snd (webhookIDs sha256 g p)) 0 at = Inr k"
    unfolding built_input_def by fastforce
  then have "built_input sha256 rfc3339 at d p g \<lparr>en_app = 1, en_delivery = d, en_push = p, en_deployment = dep, en_job = k\<rparr>"
    by (simp add: built_input_def)
  then show ?thesis ..
qed

lemma built_receipt:
  "built_input sha256 rfc3339 now d p g i \<Longrightarrow> built_input sha256 rfc3339 now' d p g j \<Longrightarrow> push_receipt j = push_receipt i"
  by (simp add: built_input_def push_receipt_def)

lemma built_matches: "built_input sha256 rfc3339 now d p g i \<Longrightarrow> targetMatches i g"
proof -
  assume b: "built_input sha256 rfc3339 now d p g i"
  then have "dep_identity (en_deployment i) = \<lparr>id_deployment = fst (webhookIDs sha256 g p), id_project = tg_project g,
      id_environment = tg_environment g, id_server = tg_server g, id_commit = ps_commit p\<rparr>"
    unfolding built_input_def using New_identity by blast
  with built_job(1-4) [OF b] show ?thesis by (simp add: targetMatches_def)
qed

lemma built_deployment:
  assumes "built_input sha256 rfc3339 now d p g i"
  shows "id_deployment (dep_identity (en_deployment i)) = jb_deployment (en_job i)" "jb_deployment (en_job i) \<noteq> []"
proof -
  from assms have "dep_identity (en_deployment i) = \<lparr>id_deployment = fst (webhookIDs sha256 g p), id_project = tg_project g,
      id_environment = tg_environment g, id_server = tg_server g, id_commit = ps_commit p\<rparr>"
    unfolding built_input_def using New_identity by blast
  with built_job(5) [OF assms] show "id_deployment (dep_identity (en_deployment i)) = jb_deployment (en_job i)"
    "jb_deployment (en_job i) \<noteq> []" by (simp_all add: webhookIDs_def Let_def)
qed

text \<open>The receipt an accepted push leaves behind, whether it created its intent or joined one.\<close>

definition left_receipt :: "int \<Rightarrow> enqueue_input \<Rightarrow> intake \<Rightarrow> delivery_row" where
  "left_receipt now i s = processed_delivery now ((push_receipt i)\<lparr>dl_id := next_delivery s\<rparr>)"

lemma receipt_left:
  assumes "\<forall>q \<in> set (deliveries s). \<not> (dl_app q = en_app i \<and> dl_delivery q = dv_id (en_delivery i))"
    and "deliveries t = map (\<lambda>r. if pending_receipt (next_delivery s) r then processed_delivery now r else r)
      (deliveries s @ [(push_receipt i)\<lparr>dl_id := next_delivery s\<rparr>])"
  shows "find_delivery (en_app i) (dv_id (en_delivery i)) t = Some (left_receipt now i s)"
proof -
  have t: "deliveries t = map (\<lambda>r. if pending_receipt (next_delivery s) r then processed_delivery now r else r) (deliveries s)
      @ [left_receipt now i s]"
    by (simp add: assms(2) left_receipt_def pending_receipt_def push_receipt_def)
  show ?thesis unfolding find_delivery_def t
    by (rule find_append_new) (use assms(1) in \<open>auto simp: processed_delivery_def left_receipt_def push_receipt_def\<close>)
qed

lemma enqueue_replays:
  assumes "targetMatches j g" and "delivery_checks (push_receipt j)"
    and "find_delivery (en_app j) (dv_id (en_delivery j)) t = Some q" and "matching_receipt j q"
  shows "enqueueVerifiedPushTx clock j g strict t = resultForDelivery (dl_id q) t"
proof -
  from assms(3) have "list_ex (\<lambda>q. dl_app q = en_app j \<and> dl_delivery q = dv_id (en_delivery j)) (deliveries t)"
    by (auto simp: find_delivery_def list_ex_iff dest: find_Some_mem)
  then have "insert_delivery (push_receipt j) t = Inr (None, t)"
    using assms(2) by (simp add: insert_delivery_Inr push_receipt_def)
  moreover have "dl_installation q \<noteq> None \<and> dl_repository q \<noteq> None \<and> dl_owner q \<noteq> None" using assms(4) by (simp add: matching_receipt_def)
  ultimately have "insertOrResolveDelivery j t = Inr ((dl_id q, False), t)"
    using assms(3,4) unfolding insertOrResolveDelivery_def and_then_Inr catch_Inr
    by (auto simp: tx_simps ret_def matching_receipt_def)
  then show ?thesis using assms(1) by (simp add: enqueueVerifiedPushTx_def seq_def and_then_def ensure_def ret_def)
qed


lemma same_authority:
  "apps t = apps s \<Longrightarrow> installations t = installations s \<Longrightarrow> repositories t = repositories s \<Longrightarrow> project_bindings t = project_bindings s \<Longrightarrow>
   push_authority app p t = push_authority app p s"
  by (simp add: push_authority_def active_app_def usable_installation_def usable_repository_def usable_binding_def cong: option.case_cong)

lemma built_key:
  "built_input sha256 rfc3339 now d p (target_of b) i \<Longrightarrow>
   intent_key (push_intent k i) = (pb_owner b, pb_project b, ps_repository p, ps_ref p, ps_commit p)"
  by (frule built_job(1), frule built_job(2)) (simp add: intent_key_def push_intent_def built_input_def target_of_def)

lemma redelivered:
  assumes r: "intake_reachable t" and v: "verified_push d p" and a: "push_authority 1 p t = Some b"
    and i: "built_input sha256 rfc3339 now d p (target_of b) i" and c: "delivery_checks (push_receipt i)"
    and q: "find_delivery 1 (dv_id d) t = Some (left_receipt now' i s)" and at: "1000 \<le> clock 0"
  shows "ProcessPush sha256 rfc3339 clock d p t = run_intake (resultForDelivery (next_delivery s)) t"
proof -
  obtain j where j: "built_input sha256 rfc3339 (clock 0) d p (target_of b) j" using built_again [OF i at] by blast
  have e: "en_app j = 1" "en_delivery j = d" "en_push j = p" "en_app i = 1" "en_delivery i = d" "en_push i = p"
    using i j by (simp_all add: built_input_def)
  have "matching_receipt j (left_receipt now' i s)"
    by (simp add: matching_receipt_def left_receipt_def processed_delivery_def push_receipt_def e)
  then have "enqueueVerifiedPushTx clock j (target_of b) False t = resultForDelivery (next_delivery s) t"
    using enqueue_replays [OF built_matches [OF j], of t "left_receipt now' i s" clock False] c q built_receipt [OF i j] e
    by (simp add: left_receipt_def processed_delivery_def)
  then have "process_push_tx sha256 rfc3339 clock d p t = resultForDelivery (next_delivery s) t"
    using process_push_eval [where clock = clock, OF a j] by simp
  then show ?thesis using v by (simp add: ProcessPush_def run_intake_def)
qed

lemma run_result:
  "intake_reachable t \<Longrightarrow> resultForDelivery k t = Inr (r, t) \<Longrightarrow> run_intake (resultForDelivery k) t = (Inr r, t)"
  using intake_okD(6) [OF intake_reachable_ok] by (simp add: run_intake_def)

lemma intents_have_receipts:
  assumes "intake_reachable s" and "i \<in> set (intents s)"
  shows "int_delivery i < next_delivery s"
  using intake_okD(2,5) [OF intake_reachable_ok [OF assms(1)]] assms(2)
  unfolding receipts_ok_def accounted_def intent_received_def by force

text \<open>The run that created the intent, and what it leaves to answer from.\<close>

lemma created_result:
  assumes s: "intake_reachable s" and run: "ProcessPush sha256 rfc3339 clock d p s = (Inr r, t)"
    and first: "find_delivery 1 (dv_id d) s = None" and b: "push_authority 1 p s = Some b" and fresh: "\<not> commit_known b p s"
  obtains i where "verified_push d p" "built_input sha256 rfc3339 (clock 0) d p (target_of b) i" "delivery_checks (push_receipt i)"
    "find_delivery 1 (dv_id d) t = Some (left_receipt (clock 2) i s)" "resultForDelivery (next_delivery s) t = Inr (r, t)"
proof -
  from run obtain i where v: "verified_push d p" and i: "built_input sha256 rfc3339 (clock 0) d p (target_of b) i"
    and e: "enqueueVerifiedPushTx clock i (target_of b) False s = Inr (r, t)"
    using b by (elim ProcessPush_run) auto
  have en: "en_app i = 1" "en_delivery i = d" "en_push i = p" using i by (simp_all add: built_input_def)
  from e show ?thesis
  proof (cases rule: enqueue_cases)
    case (new x)
    have q: "find_delivery 1 (dv_id d) t = Some (left_receipt (clock 2) i s)"
      using receipt_left [of s i t "clock 2"] new(3,8) en by (simp add: processed_def enqueued_def intended_def receipt_added_def)
    let ?i = "(push_intent (next_delivery s) i)\<lparr>int_id := next_intent s\<rparr>"
    have it: "intents t = intents s @ [?i]" "core t = x" by (simp_all add: new(8) processed_def enqueued_def intended_def receipt_added_def)
    have "find (\<lambda>k. int_delivery k = next_delivery s) (intents t) = Some ?i"
      unfolding it by (rule find_append_new) (use new(5) in \<open>force simp: push_intent_def\<close>)+
    moreover have free: "jb_deployment (en_job i) \<notin> job_deployment ` set (jobs (core s))" using new(7) by (simp add: enqueued_core_def)
    have "job_of_deployment (int_deployment ?i) t = Some (job_row_of (next_job s) (clock 1) (en_job i))"
      unfolding job_of_deployment_def it enqueued_core_jobs [OF new(7)]
      by (rule find_append_new) (use free in \<open>force simp: push_intent_def job_row_of_def\<close>)+
    moreover have "jb_deployment (en_job i) \<noteq> []" "id_deployment (dep_identity (en_deployment i)) = jb_deployment (en_job i)"
      using built_deployment [OF i] by simp_all
    ultimately have "resultForDelivery (next_delivery s) t = Inr (r, t)"
      by (simp add: resultForDelivery_def query_row_def result_of_intent_def new(9) push_intent_def job_row_of_def)
    with that v i new(2) q show ?thesis by blast
  qed (use first fresh built_key [OF i] en in \<open>simp_all add: commit_known_def\<close>)
qed

text \<open>
  C17: Exact redelivery of the push that created a job is harmless.  When GitHub sends the same
  delivery again, in any state the system reaches afterwards (other deliveries, changes of the GitHub
  rows, progress, cancellation or completion of the job in between), and the push is authorized for
  the same target then, the processor answers with the same receipt, deployment and job as the first
  time, and the store does not change at all.
\<close>

theorem redelivery_returns_the_result:
  assumes s: "intake_reachable s" and run: "ProcessPush sha256 rfc3339 clock d p s = (Inr r, t)"
    and first: "find_delivery 1 (dv_id d) s = None" and b: "push_authority 1 p s = Some b" and fresh: "\<not> commit_known b p s"
    and later: "intake_later t u" and still: "push_authority 1 p u = Some b'" "target_of b' = target_of b" and at: "1000 \<le> clock' 0"
  shows "ProcessPush sha256 rfc3339 clock' d p u = (Inr r, u)"
proof -
  obtain i where v: "verified_push d p" and i: "built_input sha256 rfc3339 (clock 0) d p (target_of b) i"
    and c: "delivery_checks (push_receipt i)" and q: "find_delivery 1 (dv_id d) t = Some (left_receipt (clock 2) i s)"
    and r: "resultForDelivery (next_delivery s) t = Inr (r, t)" by (rule created_result [OF s run first b fresh])
  have t: "intake_reachable t" using intake_next [OF s process_push, of sha256 rfc3339 clock d p] run by simp
  note u = later_intake [OF later t]
  have "resultForDelivery (next_delivery s) u = Inr (r, u)"
    using later_result [OF u(2) _ r] intake_okD(4) [OF intake_reachable_ok [OF u(1)]] by blast
  then show ?thesis
    using redelivered [where clock = clock', OF u(1) v still(1) i [folded still(2)] c later_receipt [OF u(2) q] at] run_result [OF u(1)]
    by simp
qed

text \<open>An administrator signs in and cancels the job the first delivery created.\<close>

definition ex_signed_in :: db where
  "ex_signed_in = (core ex_first)\<lparr>sessions := sessions ex_based, users := users ex_based\<rparr>"

definition ex_worked :: intake where
  "ex_worked = ex_first\<lparr>core := snd (RequestCancellation ex_admin 1 20000 ex_signed_in)\<rparr>"

lemma ex_worked_later: "intake_later ex_first ex_worked"
proof -
  let ?s = "ex_first\<lparr>core := ex_signed_in\<rparr>"
  have "outside_step (core ex_first) ex_signed_in"
    using outside_step.configure [where s = "core ex_first" and sess = "sessions ex_based" and usrs = "users ex_based"
        and cfgs = "runtime_configs (core ex_first)" and bs = "bindings (core ex_first)" and shs = "secret_heads (core ex_first)"
        and svs = "secret_versions (core ex_first)"] by (simp add: ex_signed_in_def)
  then have "intake_step ex_first ?s"
    by (intro control_plane) (simp_all add: system_step_def same_jobs_def ex_signed_in_def)
  moreover have "lease_step ex_signed_in (core ex_worked)"
    unfolding ex_worked_def using request_cancellation_step [of ex_signed_in ex_admin 1 20000] by simp
  then have "intake_step ?s (?s\<lparr>core := core ex_worked\<rparr>)"
    using lease_step_same_jobs by (intro control_plane) (simp_all add: system_step_def)
  ultimately show ?thesis
    using intake_after [OF intake_after [OF intake_now]] by (simp add: ex_worked_def)
qed

theorem redelivery_returns_the_result_witness:
  "map job_state (jobs (core ex_worked)) = [JobCancelled] \<and> ex_process (CHR ''1'') ex_github = (Inr ex_answer, ex_first) \<and>
   ex_process (CHR ''1'') ex_worked = (Inr ex_answer, ex_worked)"
proof -
  have a: "push_authority 1 ex_push ex_worked = Some (hd (project_bindings ex_github))"
    "map job_state (jobs (core ex_worked)) = [JobCancelled]" by code_simp+
  show ?thesis
    using redelivery_returns_the_result [OF ex_reachable(1) ex_answers(1) [unfolded ex_process_def] _ ex_binding(1,3)
        ex_worked_later a(1) refl, of "\<lambda>n. 5001"] ex_answers(1) ex_binding(5) a(2)
    by (simp add: ex_process_def ex_delivery_def)
qed

text \<open>
  C18: Exact redelivery of a push whose commit was already known is refused.  Such a push (the branch
  was moved back, or two events name one commit) is accepted the first time: it joins the stored
  intent and its receipt is marked processed.  The same delivery sent again is answered
  \<open>ErrWebhookIntegrity\<close>, because \<open>resultForDelivery\<close> looks for an intent created by this very
  receipt and there is none; the store does not change.
\<close>

theorem redelivery_of_a_known_commit_is_refused:
  assumes s: "intake_reachable s" and run: "ProcessPush sha256 rfc3339 clock d p s = (Inr r, t)"
    and first: "find_delivery 1 (dv_id d) s = None" and b: "push_authority 1 p s = Some b" and known: "commit_known b p s"
    and at: "1000 \<le> clock' 0"
  shows "ProcessPush sha256 rfc3339 clock' d p t = (Inl ErrWebhookIntegrity, t)"
proof -
  from run obtain i where v: "verified_push d p" and i: "built_input sha256 rfc3339 (clock 0) d p (target_of b) i"
    and e: "enqueueVerifiedPushTx clock i (target_of b) False s = Inr (r, t)"
    using b by (elim ProcessPush_run) auto
  have en: "en_app i = 1" "en_delivery i = d" "en_push i = p" using i by (simp_all add: built_input_def)
  have t: "intake_reachable t" using intake_next [OF s process_push, of sha256 rfc3339 clock d p] run by simp
  from e show ?thesis
  proof (cases rule: enqueue_cases)
    case (joined q)
    have q: "find_delivery 1 (dv_id d) t = Some (left_receipt (clock 2) i s)"
      using receipt_left [of s i t "clock 2"] joined(3,6) en by (simp add: processed_def receipt_added_def)
    have a: "push_authority 1 p t = Some b"
      using b same_authority [of t s] by (simp add: joined(6) processed_def receipt_added_def)
    have "find (\<lambda>k. int_delivery k = next_delivery s) (intents s) = None"
      using intents_have_receipts [OF s] by (force simp: find_None_iff)
    then have "resultForDelivery (next_delivery s) t = Inl ErrWebhookIntegrity"
      by (simp add: resultForDelivery_def query_row_def joined(6) processed_def receipt_added_def)
    then show ?thesis using redelivered [where clock = clock', OF t v a i joined(2) q at] by (simp add: run_intake_def)
  qed (use first known built_key [OF i] en in \<open>force simp: commit_known_def find_intent_def find_None_iff\<close>)+
qed

theorem redelivery_of_a_known_commit_is_refused_witness:
  "ex_process (CHR ''2'') ex_first = (Inr (ex_answer\<lparr>er_delivery := 2\<rparr>), ex_second) \<and>
   ex_process (CHR ''2'') ex_second = (Inl ErrWebhookIntegrity, ex_second)"
  using redelivery_of_a_known_commit_is_refused
      [OF ex_reachable(2) ex_answers(2) [unfolded ex_process_def] _ ex_binding(2,4), of "\<lambda>n. 5001"]
    ex_answers(2) ex_binding(6)
  by (simp add: ex_process_def ex_delivery_def)

section \<open>Authority\<close>

lemma push_authorityD:
  assumes "push_authority 1 p s = Some b"
  shows "(\<exists>a \<in> set (apps s). app_id a = 1 \<and> app_active a) \<and>
    (\<exists>i \<in> set (installations s). ins_id i = ps_installation p \<and> ins_account i = ps_owner p \<and> ins_active i \<and> \<not> ins_suspended i \<and>
       ins_owner i = pb_owner b) \<and>
    (\<exists>q \<in> set (repositories s). rep_id q = ps_repository p \<and> rep_installation q = ps_installation p \<and> rep_owner q = pb_owner b \<and>
       rep_github_owner q = ps_owner p \<and> rep_active q) \<and>
    b \<in> set (project_bindings s) \<and> pb_repository b = ps_repository p \<and> pb_installation b = ps_installation p \<and> pb_active b \<and>
    pb_ref b = Some (ps_ref p) \<and> pb_environment b \<noteq> None \<and> pb_server b \<noteq> None"
proof -
  from assms obtain a i q where "active_app 1 s = Some a" "usable_installation p s = Some i"
    "usable_repository p (ins_owner i) s = Some q" "usable_binding p (ins_owner i) s = Some b"
    by (auto simp: push_authority_def split: option.splits)
  then show ?thesis
    unfolding active_app_def usable_installation_def usable_repository_def usable_binding_def
    by (auto dest!: find_Some_mem)
qed


text \<open>The receipt and the job an accepted push is answered with.\<close>

lemma answered_replay:
  assumes s: "intake_reachable s" and q: "find_delivery 1 (dv_id d) s = Some q" and r: "resultForDelivery (dl_id q) s = Inr (r, s)"
  shows "q \<in> set (deliveries s) \<and> dl_delivery q = dv_id d \<and> dl_id q = er_delivery r \<and> dl_processing q = ProcessingProcessed"
proof -
  from r obtain i where i: "find (\<lambda>i. int_delivery i = dl_id q) (intents s) = Some i" "result_of_intent (dl_id q) i s = Some r"
    by (auto simp: resultForDelivery_def tx_simps split: option.splits)
  from find_Some_mem [OF i(1)] intake_okD(5) [OF intake_reachable_ok [OF s]]
  obtain x where x: "x \<in> set (deliveries s)" "dl_id x = dl_id q" "dl_processing x = ProcessingProcessed"
    by (auto simp: accounted_def intent_received_def)
  have m: "q \<in> set (deliveries s)" "dl_delivery q = dv_id d" using q by (auto simp: find_delivery_def dest: find_Some_mem)
  have "x = q"
    using intake_okD(2) [OF intake_reachable_ok [OF s]] x m(1) by (auto simp: receipts_ok_def distinct_map inj_on_def)
  with x m i(2) show ?thesis by (auto simp: result_of_intent_def split: option.splits if_splits)
qed

text \<open>The queued job of an accepted push: its target is the binding, its source the push.\<close>

definition job_of_push :: "project_binding_row \<Rightarrow> push \<Rightarrow> enqueue_result \<Rightarrow> job_row \<Rightarrow> bool" where
  "job_of_push b p r j \<longleftrightarrow> job_id j = er_job r \<and> job_deployment j = er_deployment r \<and> job_state j = JobQueued \<and>
     job_owner j = pb_owner b \<and> job_project j = pb_project b \<and> pb_environment b = Some (job_environment j) \<and>
     pb_server b = Some (job_server j) \<and> job_repository j = ps_repository p \<and> job_ref j = ps_ref p \<and> job_commit j = ps_commit p"

definition answered_with :: "delivery \<Rightarrow> enqueue_result \<Rightarrow> delivery_row \<Rightarrow> bool" where
  "answered_with d r q \<longleftrightarrow> dl_delivery q = dv_id d \<and> dl_id q = er_delivery r \<and> dl_processing q = ProcessingProcessed"

lemma left_receipt_answers:
  assumes "find_delivery 1 (dv_id d) t = Some (left_receipt now i s)" and "en_delivery i = d" and "er_delivery r = next_delivery s"
  shows "\<exists>q \<in> set (deliveries t). answered_with d r q"
proof
  show "left_receipt now i s \<in> set (deliveries t)" using assms(1) by (auto simp: find_delivery_def dest: find_Some_mem)
  show "answered_with d r (left_receipt now i s)"
    using assms(2,3) by (simp add: answered_with_def left_receipt_def processed_delivery_def push_receipt_def)
qed

lemma push_answered:
  assumes s: "intake_reachable s" and b: "push_authority 1 p s = Some b"
    and i: "built_input sha256 rfc3339 (clock 0) d p (target_of b) i"
    and e: "enqueueVerifiedPushTx clock i (target_of b) False s = Inr (r, t)"
  shows "(\<exists>q \<in> set (deliveries t). answered_with d r q) \<and>
    (jobs (core t) = jobs (core s) \<or> (\<exists>j. jobs (core t) = jobs (core s) @ [j] \<and> job_of_push b p r j))"
proof -
  have en: "en_app i = 1" "en_delivery i = d" "en_push i = p" using i by (simp_all add: built_input_def)
  from e show ?thesis
  proof (cases rule: enqueue_cases)
    case (replayed q)
    then show ?thesis using answered_replay [OF s, of d q r] en by (auto simp: answered_with_def)
  next
    case (joined q)
    have "find_delivery 1 (dv_id d) t = Some (left_receipt (clock 2) i s)"
      using receipt_left [of s i t "clock 2"] joined(3,6) en by (simp add: processed_def receipt_added_def)
    moreover have "er_delivery r = next_delivery s"
      using joined(5) by (auto simp: resultForStoredIntent_def tx_simps result_of_intent_def split: option.splits if_splits)
    moreover have "core t = core s" by (simp add: joined(6) processed_def receipt_added_def)
    ultimately show ?thesis using left_receipt_answers en(2) by metis
  next
    case (new x)
    have "find_delivery 1 (dv_id d) t = Some (left_receipt (clock 2) i s)"
      using receipt_left [of s i t "clock 2"] new(3,8) en by (simp add: processed_def enqueued_def intended_def receipt_added_def)
    moreover have "er_delivery r = next_delivery s" by (simp add: new(9))
    moreover have "jobs (core t) = jobs (core s) @ [job_row_of (next_job s) (clock 1) (en_job i)]"
      using enqueued_core_jobs [OF new(7)] by (simp add: new(8) processed_def enqueued_def)
    moreover have "job_of_push b p r (job_row_of (next_job s) (clock 1) (en_job i))"
      using built_job [OF i] built_deployment(1) [OF i] push_authorityD [OF b]
      by (simp add: job_of_push_def job_row_of_def new(9) target_of_def)
    ultimately show ?thesis using left_receipt_answers en(2) by metis
  qed
qed

text \<open>
  No push gets in without authority, and none chooses its target.  If a push is accepted, the app
  registration is active, the installation is active and not suspended, the repository is active and
  the owner has an active binding of that repository for exactly this ref.  The delivery has a
  processed receipt, the one in the answer.  At most one job is added, and it is queued for the
  owner, project, environment and server of the binding, with the repository, ref and commit of the
  push.
\<close>

lemma accepted_push_is_authorized:
  assumes s: "intake_reachable s" and run: "ProcessPush sha256 rfc3339 clock d p s = (Inr r, t)"
  shows "\<exists>b \<in> set (project_bindings s).
    pb_active b \<and> pb_repository b = ps_repository p \<and> pb_installation b = ps_installation p \<and> pb_ref b = Some (ps_ref p) \<and>
    (\<exists>a \<in> set (apps s). app_id a = 1 \<and> app_active a) \<and>
    (\<exists>i \<in> set (installations s). ins_id i = ps_installation p \<and> ins_owner i = pb_owner b \<and> ins_active i \<and> \<not> ins_suspended i) \<and>
    (\<exists>q \<in> set (repositories s). rep_id q = ps_repository p \<and> rep_owner q = pb_owner b \<and> rep_active q) \<and>
    (\<exists>q \<in> set (deliveries t). answered_with d r q) \<and>
    (jobs (core t) = jobs (core s) \<or> (\<exists>j. jobs (core t) = jobs (core s) @ [j] \<and> job_of_push b p r j))"
proof -
  from run obtain b i where b: "push_authority 1 p s = Some b" and i: "built_input sha256 rfc3339 (clock 0) d p (target_of b) i"
    and e: "enqueueVerifiedPushTx clock i (target_of b) False s = Inr (r, t)" by (elim ProcessPush_run) auto
  from push_authorityD [OF b] push_answered [OF s b i e] show ?thesis by (intro bexI [of _ b]) auto
qed

section \<open>One job per commit\<close>

text \<open>
  C14: One deployment job per accepted commit.  In every state reached by deliveries interleaved with
  the lease repository and the rest of the control plane, there is at most one intent per owner,
  project, repository, ref and commit, and each intent has exactly one job, for the same source, and
  a stored deployment.  The database below the intake is in a state the control plane reaches, so
  everything proved of the lease repository holds of jobs that came in through webhooks.
\<close>

theorem accepted_commit_has_one_job:
  assumes "intake_reachable s"
  shows "reachable (core s) \<and> distinct (map intent_key (intents s)) \<and>
    (\<forall>i \<in> set (intents s). \<exists>j. {k \<in> set (jobs (core s)). job_deployment k = int_deployment i} = {j} \<and>
       job_owner j = int_owner i \<and> job_project j = int_project i \<and> job_repository j = int_repository i \<and>
       job_ref j = int_ref i \<and> job_commit j = int_commit i \<and> get_deployment (int_deployment i) (core s) \<noteq> None)"
proof -
  note ok = intake_okD [OF intake_reachable_ok [OF assms]]
  have "\<exists>j. {k \<in> set (jobs (core s)). job_deployment k = int_deployment i} = {j} \<and>
       job_owner j = int_owner i \<and> job_project j = int_project i \<and> job_repository j = int_repository i \<and>
       job_ref j = int_ref i \<and> job_commit j = int_commit i \<and> get_deployment (int_deployment i) (core s) \<noteq> None"
    if i: "i \<in> set (intents s)" for i
  proof -
    from ok(5) i obtain j where j: "j \<in> set (jobs (core s))" "job_serves i j" by (auto simp: accounted_def)
    then have "{k \<in> set (jobs (core s)). job_deployment k = int_deployment i} = {j}"
      using ok(4) unfolding jobs_ok_def job_serves_def distinct_map inj_on_def by auto
    moreover have "get_deployment (int_deployment i) (core s) \<noteq> None" using ok(6) i by (simp add: intake_commit_checks_def list_all_iff)
    ultimately show ?thesis using j(2) unfolding job_serves_def by blast
  qed
  with ok(1,3) show ?thesis by (simp add: intents_ok_def)
qed

theorem accepted_commit_has_one_job_witness:
  "length (intents ex_first) = 1 \<and> (\<exists>j. {k \<in> set (jobs (core ex_first)). job_deployment k = int_deployment (hd (intents ex_first))} = {j})"
proof -
  have "length (intents ex_first) = 1" by code_simp
  moreover from this have "hd (intents ex_first) \<in> set (intents ex_first)" by (cases "intents ex_first") auto
  ultimately show ?thesis using accepted_commit_has_one_job [OF ex_reachable(2)] by blast
qed


section \<open>Lifecycle events\<close>

lemma no_repository_no_authority:
  "\<forall>q \<in> set (repositories s). \<not> (rep_id q = ps_repository p \<and> rep_installation q = ps_installation p \<and> rep_active q) \<Longrightarrow>
   push_authority 1 p s = None"
  using push_authorityD [of p s] by (cases "push_authority 1 p s") (simp, blast)

lemma unauthorized_push: "push_authority 1 p s = None \<Longrightarrow> ProcessPush sha256 rfc3339 clock d p s = (Inl ErrWebhookUnauthorized, s)"
  by (simp add: ProcessPush_def process_push_tx_def lock_authority and_then_def run_intake_def)

lemma mem_update_where:
  "q \<in> set (update_where c f rows) \<longleftrightarrow> (\<exists>r \<in> set rows. q = (if c r then f r else r))"
  by (auto simp: update_where_def)

text \<open>The repositories a lifecycle event takes away.\<close>

definition revoked_by :: "lifecycle \<Rightarrow> int \<Rightarrow> bool" where
  "revoked_by l rep \<longleftrightarrow> lc_event l = EventInstallation \<and> lc_action l \<in> {''deleted'', ''suspend''} \<or>
     lc_event l = EventInstallationRepositories \<and> lc_action l = ''removed'' \<and> rep \<in> set (lifecycleRepositoryIDs l)"

definition repository_off :: "int \<Rightarrow> int \<Rightarrow> intake \<Rightarrow> bool" where
  "repository_off ins rep s \<longleftrightarrow> (\<forall>q \<in> set (repositories s). \<not> (rep_id q = rep \<and> rep_installation q = ins \<and> rep_active q))"

interpretation switched_off: kept_relation "\<lambda>s t. repository_off ins rep s \<longrightarrow> repository_off ins rep t"
  by unfold_locales simp_all

lemma lifecycle_keeps_off:
  "switched_off.keeps ins rep (disable_installation k a)" "switched_off.keeps ins rep (disable_repository r k)"
  "switched_off.keeps ins rep (disable_repositories_of k)" "switched_off.keeps ins rep (disable_bindings c)"
  "switched_off.keeps ins rep (markDeliveryProcessed m now)"
  by (rule switched_off.keepsI;
      auto simp: disable_installation_def disable_repository_def disable_repositories_of_def disable_bindings_def
        markDeliveryProcessed_def repository_off_def mem_update_where disabled_repository_def Let_def split: if_splits)+


lemma switch_off:
  assumes "repositories t = update_where c disabled_repository (repositories s)"
    and "\<And>q. rep_id q = rep \<Longrightarrow> rep_installation q = k \<Longrightarrow> c q"
  shows "repository_off k rep t"
  unfolding repository_off_def assms(1)
proof (intro ballI notI, elim conjE)
  fix q assume "q \<in> set (update_where c disabled_repository (repositories s))" and q: "rep_id q = rep" "rep_installation q = k" "rep_active q"
  then obtain r where r: "q = (if c r then disabled_repository r else r)" unfolding mem_update_where by blast
  then have "rep_id r = rep_id q" "rep_installation r = rep_installation q" by (simp_all add: disabled_repository_def)
  with assms(2) q r have "q = disabled_repository r" by metis
  with q(3) show False by (simp add: disabled_repository_def)
qed

lemma disable_repositories_off:
  shows "disable_repositories_of k s = Inr (u, t) \<Longrightarrow> repository_off k rep t"
    and "disable_repository rep k s = Inr (u, t) \<Longrightarrow> repository_off k rep t"
  using switch_off [of t "\<lambda>r. rep_installation r = k" s rep k] switch_off [of t "\<lambda>r. rep_id r = rep \<and> rep_installation r = k" s rep k]
  by (auto simp: disable_repositories_of_def disable_repository_def Let_def split: if_splits)

lemma removal_off:
  assumes "for_each (\<lambda>rep. seq (disable_repository rep k) (disable_bindings (c rep))) ids s = Inr (u, t)" and "rep \<in> set ids"
  shows "repository_off k rep t"
  using assms
proof (induction ids arbitrary: s)
  case (Cons i ids)
  let ?f = "\<lambda>rep. seq (disable_repository rep k) (disable_bindings (c rep))"
  from Cons.prems(1) obtain v x where v: "?f i s = Inr (x, v)" and rest: "for_each ?f ids v = Inr (u, t)"
    by (auto simp: seq_Inr)
  show ?case
  proof (cases "rep \<in> set ids")
    case False
    with Cons.prems(2) v obtain a b w where "disable_repository rep k s = Inr (a, w)" and w: "disable_bindings (c rep) w = Inr (b, v)"
      unfolding seq_Inr by auto
    then have "repository_off k rep w" by (intro disable_repositories_off(2))
    then have "repository_off k rep v" by (rule mp [OF switched_off.keepsD [OF lifecycle_keeps_off(4) w]])
    moreover have k: "switched_off.keeps k rep (for_each ?f ids)" by (intro switched_off.keeps_intros lifecycle_keeps_off)
    ultimately show ?thesis using switched_off.keepsD [OF k rest] by blast
  qed (rule Cons.IH [OF rest])
qed simp

lemma lifecycle_effect_off:
  assumes run: "lifecycle_effect l s = Inr (u, t)" and "revoked_by l rep" and ids: "lc_repositories l = lifecycleRepositoryIDs l"
  shows "repository_off (lc_installation l) rep t"
proof (cases "lc_event l = EventInstallation")
  case True
  with assms(2) have "lc_action l \<in> {''deleted'', ''suspend''}" by (simp add: revoked_by_def)
  with True run obtain v w x where "disable_repositories_of (lc_installation l) v = Inr (w, x)"
    and t: "disable_bindings (\<lambda>b. pb_installation b = lc_installation l) x = Inr ((), t)"
    by (auto simp: lifecycle_effect_def tx_simps ret_def)
  then have "repository_off (lc_installation l) rep x" by (intro disable_repositories_off(1))
  then show ?thesis by (rule mp [OF switched_off.keepsD [OF lifecycle_keeps_off(4) t]])
next
  case False
  with assms(2) ids have "lc_event l = EventInstallationRepositories" "lc_action l = ''removed''" "rep \<in> set (lc_repositories l)"
    by (auto simp: revoked_by_def)
  with run show ?thesis by (auto simp: lifecycle_effect_def tx_simps ret_def intro: removal_off)
qed

lemma canonical_lifecycle_same:
  "lc_event (canonical_lifecycle l) = lc_event l" "lc_action (canonical_lifecycle l) = lc_action l"
  "lc_installation (canonical_lifecycle l) = lc_installation l" "lc_owner (canonical_lifecycle l) = lc_owner l"
  "lc_repositories (canonical_lifecycle l) = lifecycleRepositoryIDs l"
  "lifecycleRepositoryIDs (canonical_lifecycle l) = lifecycleRepositoryIDs l"
  by (simp_all add: canonical_lifecycle_def lifecycleRepositoryIDs_def Let_def)

text \<open>
  C15: Withdrawn authority stops pushes.  After an installation was suspended or deleted, or a
  repository removed from it, every push of that installation (of that repository) is refused as
  unauthorized and changes nothing, whatever its delivery says; work that was accepted before is left
  as it is.
\<close>

theorem lifecycle_withdraws_authority:
  assumes run: "ProcessLifecycle clock d l s = (Inr (), t)" and first: "find_delivery 1 (dv_id d) s = None"
    and revoked: "revoked_by l (ps_repository p)" "ps_installation p = lc_installation l"
  shows "ProcessPush sha256 rfc3339 clock' e p t = (Inl ErrWebhookUnauthorized, t) \<and> core t = core s \<and> intents t = intents s"
proof -
  from run have tx: "process_lifecycle_tx clock d (canonical_lifecycle l) s = Inr ((), t)"
    by (auto simp: ProcessLifecycle_def run_intake_def split: if_splits sum.splits)
  then obtain v w where "lifecycle_effect (canonical_lifecycle l) v = Inr ((), w)"
    "markDeliveryProcessed (next_delivery s) (clock 0) w = Inr ((), t)" by (rule first_lifecycle_run [OF _ first])
  note effect = this
  have "revoked_by (canonical_lifecycle l) (ps_repository p)"
    using revoked(1) by (simp add: revoked_by_def canonical_lifecycle_same)
  then have "repository_off (ps_installation p) (ps_repository p) w"
    using lifecycle_effect_off [OF effect(1)] revoked(2) by (simp add: canonical_lifecycle_same)
  then have "repository_off (ps_installation p) (ps_repository p) t"
    by (rule mp [OF switched_off.keepsD [OF lifecycle_keeps_off(5) effect(2)]])
  then have "push_authority 1 p t = None" by (intro no_repository_no_authority) (simp add: repository_off_def)
  moreover have "same_work s t" using work.keepsD [OF lifecycle_work tx] .
  ultimately show ?thesis using unauthorized_push by (simp add: same_work_def)
qed

theorem lifecycle_withdraws_authority_witness:
  "ex_process (CHR ''1'') ex_suspended = (Inl ErrWebhookUnauthorized, ex_suspended) \<and> core ex_suspended = core ex_github"
  using lifecycle_withdraws_authority [OF ex_answers(3) [unfolded ex_lifecycle_def],
      of ex_push "\<lambda>x. replicate 32 (CHR ''h'')" itoa "\<lambda>n. 5001" "ex_delivery EventPush (CHR ''1'')"] ex_binding(7)
  by (simp add: ex_process_def ex_push_def ex_suspend_def revoked_by_def ex_delivery_def)


section \<open>Lifecycle events seen again\<close>

lemma match_inserted:
  assumes "\<forall>l \<in> set (lifecycle_repositories s). fst l < k" and "sorted_wrt (<) ids"
    and "lifecycle_repositories t = lifecycle_repositories s @ map (Pair k) ids"
  shows "lifecycleRepositoriesMatch k ids t = Inr ((), t)"
proof -
  have "filter (\<lambda>r. fst r = k) (lifecycle_repositories s) = []" using assms(1) by (auto simp: filter_empty_conv)
  then have "map snd (filter (\<lambda>r. fst r = k) (lifecycle_repositories t)) = ids" by (simp add: assms(3) comp_def filter_map)
  moreover have "sorted ids" using assms(2) by (rule strict_sorted_imp_sorted)
  ultimately show ?thesis by (simp add: lifecycleRepositoriesMatch_def sorted_sort_id)
qed

lemma valid_lifecycle_ids: "Lifecycle_Validate l \<Longrightarrow> sorted_wrt (<) (lifecycleRepositoryIDs l)"
  by (auto simp: Lifecycle_Validate_def lifecycleRepositoryIDs_def ascending_ids_iff Let_def split: webhook_event.splits if_splits)

text \<open>The receipt of a lifecycle event resolves its redelivery.\<close>

lemma lifecycle_again:
  assumes "lockLifecycleAuthority l t = Inr ((), t)" and "delivery_checks (lifecycle_receipt d l)"
    and q: "find_delivery 1 (dv_id d) t = Some q" and "same_lifecycle d l q"
    and "lifecycleRepositoriesMatch (dl_id q) (lc_repositories l) t = Inr ((), t)"
  shows "process_lifecycle_tx clock d l t = Inr ((), t)"
proof -
  have "list_ex (\<lambda>x. dl_app x = 1 \<and> dl_delivery x = dv_id d) (deliveries t)"
    using q by (auto simp: find_delivery_def list_ex_iff dest: find_Some_mem)
  then have "insert_delivery (lifecycle_receipt d l) t = Inr (None, t)"
    using assms(2) by (simp add: insert_delivery_Inr lifecycle_receipt_def)
  with assms show ?thesis
    by (simp add: process_lifecycle_tx_def seq_def and_then_def catch_def query_row_def ensure_def ret_def)
qed

text \<open>What the first delivery of a lifecycle event leaves behind answers the second.\<close>

lemma first_lifecycle_leaves:
  assumes s: "intake_reachable s" and tx: "process_lifecycle_tx clock d l s = Inr ((), t)" and first: "find_delivery 1 (dv_id d) s = None"
    and ids: "sorted_wrt (<) (lc_repositories l)"
  obtains q where "delivery_checks (lifecycle_receipt d l)"
    "find_delivery 1 (dv_id d) t = Some q" "same_lifecycle d l q"
    "lifecycleRepositoriesMatch (dl_id q) (lc_repositories l) t = Inr ((), t)"
proof -
  let ?k = "next_delivery s"
  let ?r = "(lifecycle_receipt d l)\<lparr>dl_id := ?k\<rparr>"
  let ?q = "processed_delivery (clock 0) ?r"
  let ?f = "\<lambda>r. if pending_receipt ?k r then processed_delivery (clock 0) r else r"
  from tx obtain u w where c: "delivery_checks (lifecycle_receipt d l)"
    and u: "insertLifecycleRepositories ?k (lc_repositories l)
         (s\<lparr>deliveries := deliveries s @ [?r], next_delivery := ?k + 1\<rparr>) = Inr ((), u)"
    and w: "lifecycle_effect l u = Inr ((), w)" and m: "markDeliveryProcessed ?k (clock 0) w = Inr ((), t)"
    by (rule first_lifecycle_run [OF _ first])
  note run = insert_repositories_run [OF u] receipt_rows.keepsD [OF lifecycle_effect_receipts w] mark_processed_Inr [OF m]
  have t: "deliveries t = map ?f (deliveries s) @ [?q]"
    "lifecycle_repositories t = lifecycle_repositories s @ map (Pair ?k) (lc_repositories l)"
    using run by (simp_all add: same_receipt_rows_def pending_receipt_def lifecycle_receipt_def)
  show ?thesis
  proof (rule that [of ?q])
    show "find_delivery 1 (dv_id d) t = Some ?q"
      unfolding find_delivery_def t(1)
      by (rule find_append_new) (use first in \<open>auto simp: find_delivery_None processed_delivery_def lifecycle_receipt_def\<close>)
    show "same_lifecycle d l ?q"
      by (simp add: same_lifecycle_def processed_delivery_def lifecycle_receipt_def nullableRepository_def)
    show "lifecycleRepositoriesMatch (dl_id ?q) (lc_repositories l) t = Inr ((), t)"
      using match_inserted [OF _ ids t(2)] intake_okD(2) [OF intake_reachable_ok [OF s]]
      by (simp add: receipts_ok_def processed_delivery_def)
  qed (rule c)
qed

text \<open>The rows a lifecycle event refers to, active or not.\<close>

definition lifecycle_rows_known :: "lifecycle \<Rightarrow> intake \<Rightarrow> bool" where
  "lifecycle_rows_known l s \<longleftrightarrow> active_app 1 s \<noteq> None \<and> known_installation l s \<noteq> None \<and>
     (lc_event l = EventInstallationRepositories \<longrightarrow> list_all (\<lambda>k. known_repository l k s \<noteq> None) (lifecycleRepositoryIDs l))"

lemma for_each_refused:
  "for_each (\<lambda>k. and_then (query_row e (g k)) (\<lambda>_. ret ())) ks s = (if list_all (\<lambda>k. g k s \<noteq> None) ks then Inr ((), s) else Inl e)"
  by (induction ks) (auto simp: and_then_def seq_def query_row_def ret_def tx_bind_def split: option.splits)

lemma lock_lifecycle_eval:
  "lockLifecycleAuthority (canonical_lifecycle l) s = (if lifecycle_rows_known l s then Inr ((), s) else Inl ErrWebhookUnauthorized)"
proof -
  have "known_installation (canonical_lifecycle l) s = known_installation l s"
    "known_repository (canonical_lifecycle l) k s = known_repository l k s" for k
    by (simp_all add: known_installation_def known_repository_def canonical_lifecycle_same)
  then show ?thesis
    by (auto simp: lockLifecycleAuthority_def lifecycle_rows_known_def canonical_lifecycle_same for_each_refused and_then_def
        query_row_def ret_def tx_bind_def split: option.splits)
qed

text \<open>The receipt of a lifecycle event that was acknowledged, whether this delivery was the first one or not.\<close>

lemma acknowledged_lifecycle:
  assumes s: "intake_reachable s" and run: "ProcessLifecycle clock d l s = (Inr (), t)"
  obtains q where "Delivery_Validate d" "Lifecycle_Validate l" "delivery_checks (lifecycle_receipt d (canonical_lifecycle l))"
    "find_delivery 1 (dv_id d) t = Some q" "same_lifecycle d (canonical_lifecycle l) q"
    "lifecycleRepositoriesMatch (dl_id q) (lc_repositories (canonical_lifecycle l)) t = Inr ((), t)"
proof -
  from run have v: "Delivery_Validate d" "Lifecycle_Validate l" and tx: "process_lifecycle_tx clock d (canonical_lifecycle l) s = Inr ((), t)"
    by (auto simp: ProcessLifecycle_def run_intake_def split: if_splits sum.splits)
  show ?thesis
  proof (cases "find_delivery 1 (dv_id d) s")
    case (Some q)
    with known_lifecycle_run [OF tx Some] that v show ?thesis by simp
  next
    case None
    have "sorted_wrt (<) (lc_repositories (canonical_lifecycle l))"
      using valid_lifecycle_ids [OF v(2)] by (simp add: canonical_lifecycle_same)
    then show ?thesis by (rule first_lifecycle_leaves [OF s tx None]) (use that v in blast)
  qed
qed

text \<open>
  C19: A lifecycle event takes effect once.  After a lifecycle event was processed, the same delivery
  sent again, in any state the system reaches afterwards, changes nothing: no authorization revision
  moves a second time and an installation, repository or binding that was set up again in the
  meantime is not taken down.  It is acknowledged as long as the rows it names are known, and refused
  as unauthorized otherwise.
\<close>

theorem lifecycle_redelivery_changes_nothing:
  assumes s: "intake_reachable s" and run: "ProcessLifecycle clock d l s = (Inr (), t)" and later: "intake_later t u"
  shows "ProcessLifecycle clock' d l u = (if lifecycle_rows_known l u then Inr () else Inl ErrWebhookUnauthorized, u)"
proof -
  let ?l = "canonical_lifecycle l"
  obtain q where v: "Delivery_Validate d" "Lifecycle_Validate l" and c: "delivery_checks (lifecycle_receipt d ?l)"
    and q: "find_delivery 1 (dv_id d) t = Some q" "same_lifecycle d ?l q"
    and m: "lifecycleRepositoriesMatch (dl_id q) (lc_repositories ?l) t = Inr ((), t)"
    by (rule acknowledged_lifecycle [OF s run])
  have t: "intake_reachable t" using intake_next [OF s process_lifecycle, of clock d l] run by simp
  note u = later_intake [OF later t]
  have "dl_id q < next_delivery t"
    using q(1) intake_okD(2) [OF intake_reachable_ok [OF t]] by (auto simp: find_delivery_def receipts_ok_def dest: find_Some_mem)
  note again = lifecycle_again [where clock = clock', OF _ c later_receipt [OF u(2) q(1)] q(2) later_match [OF u(2) this m]]
  have "process_lifecycle_tx clock' d ?l u = (if lifecycle_rows_known l u then Inr ((), u) else Inl ErrWebhookUnauthorized)"
    using again by (cases "lifecycle_rows_known l u") (simp_all add: lock_lifecycle_eval process_lifecycle_tx_def seq_def and_then_def)
  then show ?thesis using v intake_okD(6) [OF intake_reachable_ok [OF u(1)]] by (simp add: ProcessLifecycle_def run_intake_def)
qed

text \<open>The suspended installation is set up again, and the event is sent once more.\<close>

definition ex_restored :: intake where
  "ex_restored = ex_suspended\<lparr>apps := apps ex_github, installations := installations ex_github, repositories := repositories ex_github,
     project_bindings := project_bindings ex_github\<rparr>"

theorem lifecycle_redelivery_changes_nothing_witness:
  "push_authority 1 ex_push ex_suspended = None \<and> ex_lifecycle ex_restored = (Inr (), ex_restored) \<and>
   push_authority 1 ex_push ex_restored = Some (hd (project_bindings ex_github))"
proof -
  have "intake_later ex_suspended ex_restored"
    unfolding ex_restored_def by (rule intake_after [OF intake_now configure_github])
  note again = lifecycle_redelivery_changes_nothing [OF ex_reachable(1) ex_answers(3) [unfolded ex_lifecycle_def] this]
  have "lifecycle_rows_known ex_suspend ex_restored" "push_authority 1 ex_push ex_suspended = None"
    "push_authority 1 ex_push ex_restored = Some (hd (project_bindings ex_github))" by code_simp+
  with again show ?thesis by (simp add: ex_lifecycle_def)
qed

end
