(* ===== verification/Webhook_Endpoint.thy ===== *)
theory Webhook_Endpoint
  imports Webhook_Handler Webhook_Properties
begin

text \<open>
  The handler on the intake: the webhook repository meets the processor interface, and what that
  says about requests.
\<close>

section \<open>The intake records what it accepts\<close>

lemma recorded_receipt: "find_delivery 1 k s = Some q \<Longrightarrow> dl_digest q = g \<Longrightarrow> delivery_recorded k g s"
  by (auto simp: delivery_recorded_def find_delivery_def dest: find_Some_mem)

lemma push_records:
  assumes "ProcessPush sha256 rfc3339 clock d p s = (Inr r, t)"
  shows "delivery_recorded (dv_id d) (dv_digest d) t"
proof -
  from assms obtain b i where i: "built_input sha256 rfc3339 (clock 0) d p (target_of b) i"
    and e: "enqueueVerifiedPushTx clock i (target_of b) False s = Inr (r, t)" by (elim ProcessPush_run) auto
  have en: "en_app i = 1" "en_delivery i = d" using i by (simp_all add: built_input_def)
  have left: "dl_digest (left_receipt now i s) = dv_digest d" for now
    by (simp add: left_receipt_def processed_delivery_def push_receipt_def en)
  from e show ?thesis
  proof (cases rule: enqueue_cases)
    case (replayed q)
    then show ?thesis using recorded_receipt en by (simp add: matching_receipt_def)
  next
    case (joined q)
    have "find_delivery 1 (dv_id d) t = Some (left_receipt (clock 2) i s)"
      using receipt_left [of s i t "clock 2"] joined(3,6) en by (simp add: processed_def receipt_added_def)
    then show ?thesis by (rule recorded_receipt) (rule left)
  next
    case (new x)
    have "find_delivery 1 (dv_id d) t = Some (left_receipt (clock 2) i s)"
      using receipt_left [of s i t "clock 2"] new(3,8) en by (simp add: processed_def enqueued_def intended_def receipt_added_def)
    then show ?thesis by (rule recorded_receipt) (rule left)
  qed
qed

lemma processed_fields:
  "dl_app (processed_delivery now q) = dl_app q" "dl_delivery (processed_delivery now q) = dl_delivery q"
  "dl_digest (processed_delivery now q) = dl_digest q"
  by (simp_all add: processed_delivery_def)

lemma processed_recorded:
  "delivery_recorded k g s \<Longrightarrow> deliveries t = map (\<lambda>r. if pending_receipt n r then processed_delivery now r else r) (deliveries s) \<Longrightarrow>
   delivery_recorded k g t"
proof -
  assume "delivery_recorded k g s" and t: "deliveries t = map (\<lambda>r. if pending_receipt n r then processed_delivery now r else r) (deliveries s)"
  then obtain q where "q \<in> set (deliveries s)" "dl_app q = 1" "dl_delivery q = k" "dl_digest q = g" unfolding delivery_recorded_def by blast
  moreover from this t have "(if pending_receipt n q then processed_delivery now q else q) \<in> set (deliveries t)" by auto
  ultimately show ?thesis unfolding delivery_recorded_def by (metis processed_fields)
qed

lemma lifecycle_records:
  assumes "ProcessLifecycle clock d l s = (Inr u, t)"
  shows "delivery_recorded (dv_id d) (dv_digest d) t"
proof -
  from assms have tx: "process_lifecycle_tx clock d (canonical_lifecycle l) s = Inr ((), t)"
    by (auto simp: ProcessLifecycle_def run_intake_def split: if_splits sum.splits)
  show ?thesis
  proof (cases "find_delivery 1 (dv_id d) s")
    case (Some q)
    then show ?thesis using known_lifecycle_run [OF tx Some] recorded_receipt by (simp add: same_lifecycle_def)
  next
    case None
    let ?l = "canonical_lifecycle l"
    from tx obtain v w where v: "insertLifecycleRepositories (next_delivery s) (lc_repositories ?l)
        (s\<lparr>deliveries := deliveries s @ [(lifecycle_receipt d ?l)\<lparr>dl_id := next_delivery s\<rparr>], next_delivery := next_delivery s + 1\<rparr>) = Inr ((), v)"
      and w: "lifecycle_effect ?l v = Inr ((), w)" and m: "markDeliveryProcessed (next_delivery s) (clock 0) w = Inr ((), t)"
      by (rule first_lifecycle_run [OF _ None])
    have "deliveries w = deliveries s @ [(lifecycle_receipt d ?l)\<lparr>dl_id := next_delivery s\<rparr>]"
      using insert_repositories_run [OF v] receipt_rows.keepsD [OF lifecycle_effect_receipts w] by (simp add: same_receipt_rows_def)
    then have "delivery_recorded (dv_id d) (dv_digest d) w" by (simp add: delivery_recorded_def lifecycle_receipt_def)
    then show ?thesis by (rule processed_recorded [where n = "next_delivery s" and now = "clock 0"]) (simp add: mark_processed_Inr [OF m])
  qed
qed

lemma rejection_records:
  assumes "Reject d s = (None, t)"
  shows "delivery_recorded (dv_id d) (dv_digest d) t"
proof -
  let ?r = "\<lparr>rj_app = 1, rj_delivery = d, rj_action = [], rj_installation = None, rj_repository = None, rj_owner = None\<rparr>"
  from assms obtain k where "record_rejection_tx ?r s = Inr (k, t)"
    by (auto simp: Reject_def RecordTerminalRejection_def run_intake_def split: if_splits sum.splits prod.splits)
  then obtain x u where x: "insert_delivery (rejection_row ?r) s = Inr (x, u)"
    and rest: "x = None \<Longrightarrow> \<exists>q. find_delivery 1 (dv_id d) u = Some q \<and> same_rejection ?r q \<and> t = u" "x \<noteq> None \<Longrightarrow> t = u"
    by (auto simp: record_rejection_tx_def tx_simps ret_def split: option.splits)
  from x show ?thesis
  proof (cases rule: insert_delivery_cases)
    case known
    with rest(1) obtain q where "find_delivery 1 (dv_id d) t = Some q" "same_rejection ?r q" by auto
    moreover have "dl_digest q = dl_digest (q\<lparr>dl_id := 0, dl_processed := None\<rparr>)" by simp
    ultimately show ?thesis
      using recorded_receipt [of "dv_id d" t q] unfolding same_rejection_def by (simp add: rejection_row_def)
  next
    case new
    with rest(2) show ?thesis by (simp add: delivery_recorded_def rejection_row_def)
  qed
qed

lemma failures_change_nothing:
  "ProcessLifecycle clock d l s = (Inl e, t) \<Longrightarrow> t = s" "Reject d s = (Some x, t) \<Longrightarrow> t = s"
  by (auto simp: ProcessLifecycle_def Reject_def RecordTerminalRejection_def run_intake_def split: if_splits sum.splits prod.splits)

interpretation intake_handler: webhook_processor "intake_processor sha256 rfc3339 clock" delivery_recorded
proof
  fix d :: delivery and p l and s t :: intake and e
  show "pc_push (intake_processor sha256 rfc3339 clock) d p s = (None, t) \<Longrightarrow> delivery_recorded (dv_id d) (dv_digest d) t"
    using push_records by (cases "ProcessPush sha256 rfc3339 clock d p s") (auto simp: intake_processor_def discard_value_def split: sum.splits)
  show "pc_push (intake_processor sha256 rfc3339 clock) d p s = (Some e, t) \<Longrightarrow> t = s"
    using ProcessPush_unchanged by (cases "ProcessPush sha256 rfc3339 clock d p s") (auto simp: intake_processor_def discard_value_def split: sum.splits)
  show "pc_lifecycle (intake_processor sha256 rfc3339 clock) d l s = (None, t) \<Longrightarrow> delivery_recorded (dv_id d) (dv_digest d) t"
    using lifecycle_records by (cases "ProcessLifecycle clock d l s") (auto simp: intake_processor_def discard_value_def split: sum.splits)
  show "pc_lifecycle (intake_processor sha256 rfc3339 clock) d l s = (Some e, t) \<Longrightarrow> t = s"
    using failures_change_nothing(1) by (cases "ProcessLifecycle clock d l s") (auto simp: intake_processor_def discard_value_def split: sum.splits)
  show "pc_reject (intake_processor sha256 rfc3339 clock) d s = (None, t) \<Longrightarrow> delivery_recorded (dv_id d) (dv_digest d) t"
    using rejection_records by (simp add: intake_processor_def)
  show "pc_reject (intake_processor sha256 rfc3339 clock) d s = (Some e, t) \<Longrightarrow> t = s"
    using failures_change_nothing(2) by (simp add: intake_processor_def)
qed

text \<open>Only the push branch touches the job table.\<close>

lemma discard_cases: "discard_value x = (v, t) \<Longrightarrow> t = snd x \<and> (v = None \<longleftrightarrow> \<not> isl (fst x))"
  by (cases "fst x") (auto simp: discard_value_def)

lemma work_jobs: "work.keeps m \<Longrightarrow> core (snd (run_intake m s)) = core s"
proof -
  assume m: "work.keeps m"
  obtain x t where "run_intake m s = (x, t)" by fastforce
  moreover from this have "core t = core s"
    by (cases rule: run_intake_cases) (use work.keepsD [OF m] in \<open>auto simp: same_work_def\<close>)
  ultimately show ?thesis by simp
qed

lemma other_calls_jobs: "core (snd (ProcessLifecycle clock d l s)) = core s" "core (snd (Reject d s)) = core s"
proof -
  show "core (snd (ProcessLifecycle clock d l s)) = core s" by (simp add: ProcessLifecycle_def work_jobs [OF lifecycle_work])
  have "core (snd (RecordTerminalRejection r s)) = core s" for r by (simp add: RecordTerminalRejection_def work_jobs [OF rejection_work])
  then show "core (snd (Reject d s)) = core s" by (auto simp: Reject_def split: prod.splits sum.splits) (metis snd_conv)+
qed

lemma answered_core: "answer_processed p x = (status, t) \<Longrightarrow> t = snd x" "answer_processed p x = (204, t) \<Longrightarrow> fst x = None"
  by (auto simp: answer_processed_def split: prod.splits option.splits if_splits)

lemma dispatched_job:
  assumes d: "dispatch lib (intake_processor sha256 rfc3339 clock) h body s = (status, t)" and new: "jobs (core t) \<noteq> jobs (core s)"
  shows "status = 204 \<and> hd_event h = EventPush \<and>
    (\<exists>p r. parsePush (lib_push lib) body = Inr p \<and> ProcessPush sha256 rfc3339 clock (verified_delivery lib h body) p s = (Inr r, t))"
proof -
  let ?P = "intake_processor sha256 rfc3339 clock"
  let ?d = "verified_delivery lib h body"
  have rej: "core t = core s" if "answer_rejected ?P ?d e s = (status, t)" for e
    using that other_calls_jobs(2) by (auto simp: answer_rejected_def intake_processor_def split: prod.splits option.splits) (metis snd_conv)+
  have life: "core t = core s" if "answer_processed ?P (pc_lifecycle ?P ?d v s) = (status, t)" for v
    using answered_core(1) [OF that] other_calls_jobs(1) by (simp add: intake_processor_def discard_value_def)
  from d new rej life obtain p where ev: "hd_event h = EventPush" and p: "parsePush (lib_push lib) body = Inr p"
    and a: "answer_processed ?P (pc_push ?P ?d p s) = (status, t)"
    by (auto simp: dispatch_def Let_def split: if_splits sum.splits)
  obtain x u where x: "ProcessPush sha256 rfc3339 clock ?d p s = (x, u)" by fastforce
  have push: "pc_push ?P ?d p s = discard_value (x, u)" by (simp add: intake_processor_def x)
  with answered_core(1) [OF a] have "u = t" by (simp add: discard_value_def)
  with new x have "\<not> isl x" by (metis ProcessPush_unchanged isl_def)
  then obtain r where "x = Inr r" by (cases x) auto
  moreover from this a push have "status = 204" by (simp add: answer_processed_def discard_value_def)
  ultimately show ?thesis using ev p x \<open>u = t\<close> by blast
qed

section \<open>An example request\<close>

definition ex_lib :: "(unit, unit) library" where
  "ex_lib = \<lparr>lib_sha256 = (\<lambda>b. replicate 32 (CHR ''1'')), lib_hmac = (\<lambda>k b. replicate 32 (CHR ''m'')),
     lib_push = (\<lambda>b. Some (\<lparr>pp_installation = 7, pp_repository = 9, pp_owner = 8, pp_ref = ''refs/heads/main'',
       pp_after = replicate 40 (CHR ''a''), pp_deleted = False\<rparr>, True)),
     lib_lifecycle = (\<lambda>b. None), lib_peer = (\<lambda>a. None), lib_contains = (\<lambda>c a. False)\<rparr>"

definition ex_ring :: secret_ring where
  "ex_ring = \<lparr>active_version = ''v'', active_secret = replicate 32 (CHR ''k''), retained = []\<rparr>"

definition ex_headers :: webhook_headers where
  "ex_headers = \<lparr>hd_delivery = ''1'', hd_event = EventPush, hd_signature = ''sha256='' @ concat (replicate 32 ''6d'')\<rparr>"

definition ex_request :: http_request where
  "ex_request = \<lparr>rq_method = ''POST'', rq_url = Some (Path, [], []), rq_tls = True, rq_remote = [],
     rq_header = (\<lambda>n. if n = ''X-GitHub-Delivery'' then [''1''] else if n = ''X-GitHub-Event'' then [''push'']
       else if n = ''X-Hub-Signature-256'' then [hd_signature ex_headers] else []), rq_body = Some (''{}'', False)\<rparr>"

definition ex_serve :: "intake \<Rightarrow> int \<times> intake" where
  "ex_serve = ServeHTTP ex_lib ex_ring [] (Some (intake_processor (\<lambda>x. replicate 32 (CHR ''h'')) itoa (\<lambda>n. 5001))) ex_request"

lemma ex_served: "ex_serve ex_github = (204, ex_first)"
proof -
  have h: "canonicalHeaders (rq_header ex_request) = Some ex_headers" by code_simp
  have b: "readBody ex_request = Inr ''{}''" by code_simp
  have v: "verify (lib_hmac ex_lib) (hd_signature ex_headers) ''{}'' ex_ring" by code_simp
  have r: "ring_valid ex_ring" by code_simp
  have p: "parsePush (lib_push ex_lib) ''{}'' = Inr ex_push" by code_simp
  have d: "verified_delivery ex_lib ex_headers ''{}'' = ex_delivery EventPush (CHR ''1'')"
    by (simp add: verified_delivery_def ex_lib_def ex_headers_def ex_delivery_def)
  have "dispatch ex_lib (intake_processor (\<lambda>x. replicate 32 (CHR ''h'')) itoa (\<lambda>n. 5001)) ex_headers ''{}'' ex_github = (204, ex_first)"
    using ex_answers(1) unfolding dispatch_def Let_def p d ex_process_def
    by (simp add: ex_headers_def intake_processor_def answer_processed_def discard_value_def)
  then show ?thesis
    unfolding ex_serve_def ServeHTTP_def h b using v r by (simp add: ex_request_def https_def)
qed

section \<open>Requests\<close>

text \<open>
  C16: What the webhook endpoint promises its sender.  Whatever the request, the database changes only
  if the request was a POST with a body of at most one megabyte whose signature header is the
  HMAC-SHA256 of that very body under a secret of the ring, and then the delivery is recorded with
  the digest of the body.  204 means that the delivery is recorded; every answer other than 204 and
  400, in particular 503, means that nothing was changed and the sender may try again.
\<close>

theorem webhook_endpoint_contract:
  assumes "ServeHTTP lib secrets cidrs (Some (intake_processor sha256 rfc3339 clock)) r s = (status, t)"
  shows "status \<in> {204, 400, 401, 404, 413, 503} \<and> (status \<notin> {204, 400} \<longrightarrow> t = s) \<and>
    (status = 204 \<or> t \<noteq> s \<longrightarrow> (\<exists>h body. authentic lib secrets r h body \<and> delivery_recorded (hd_delivery h) (lib_sha256 lib body) t))"
  using assms by (rule intake_handler.served_contract)

theorem webhook_endpoint_contract_witness:
  "ex_serve ex_github = (204, ex_first) \<and>
   (\<exists>h body. authentic ex_lib ex_ring ex_request h body \<and> delivery_recorded (hd_delivery h) (lib_sha256 ex_lib body) ex_first)"
  using webhook_endpoint_contract [OF ex_served [unfolded ex_serve_def]] ex_served by blast

text \<open>
  C13: From the network to the queue.  A request adds a job only if it carries a valid signature, is a
  push that parses and passes validation, and an active binding of the pushed repository and ref
  admits it; then exactly one job is appended, for the target of that binding and the pushed commit,
  and the sender gets 204.
\<close>

theorem served_job_is_signed_and_authorized:
  assumes s: "intake_reachable s"
    and run: "ServeHTTP lib secrets cidrs (Some (intake_processor sha256 rfc3339 clock)) r s = (status, t)"
    and new: "jobs (core t) \<noteq> jobs (core s)"
  shows "status = 204 \<and> (\<exists>h body p b a j. authentic lib secrets r h body \<and> hd_event h = EventPush \<and>
    parsePush (lib_push lib) body = Inr p \<and> b \<in> set (project_bindings s) \<and> pb_active b \<and> pb_repository b = ps_repository p \<and>
    pb_installation b = ps_installation p \<and> pb_ref b = Some (ps_ref p) \<and>
    jobs (core t) = jobs (core s) @ [j] \<and> job_of_push b p a j)"
  using run
proof (cases rule: ServeHTTP_cases)
  case (served h body q)
  then have "dispatch lib (intake_processor sha256 rfc3339 clock) h body s = (status, t)" by simp
  from dispatched_job [OF this new] obtain p a where d: "status = 204" "hd_event h = EventPush" "parsePush (lib_push lib) body = Inr p"
    and a: "ProcessPush sha256 rfc3339 clock (verified_delivery lib h body) p s = (Inr a, t)" by blast
  from a obtain b i where b: "push_authority 1 p s = Some b"
    and i: "built_input sha256 rfc3339 (clock 0) (verified_delivery lib h body) p (target_of b) i"
    and e: "enqueueVerifiedPushTx clock i (target_of b) False s = Inr (a, t)" by (elim ProcessPush_run) auto
  from push_answered [OF s b i e] new obtain j where "jobs (core t) = jobs (core s) @ [j]" "job_of_push b p a j" by blast
  with d served(1) push_authorityD [OF b] show ?thesis by blast
qed (use new in simp)

theorem served_job_is_signed_and_authorized_witness:
  "\<exists>b p a j. pb_active b \<and> pb_ref b = Some (ps_ref p) \<and> jobs (core ex_first) = jobs (core ex_github) @ [j] \<and> job_of_push b p a j"
proof -
  have "jobs (core ex_first) \<noteq> jobs (core ex_github)" by (simp add: ex_first_def ex_github_def empty_db_def)
  from served_job_is_signed_and_authorized [OF ex_reachable(1) ex_served [unfolded ex_serve_def] this] show ?thesis by blast
qed

end
