(* ===== verification/Spec2Isabelle.thy ===== *)
theory Spec2Isabelle
  imports Activation_Properties Server_Properties Freeze_Properties Redaction_Properties Webhook_Endpoint
begin

text \<open>
  AutoDeploy is a self-hosted deployment system.  A control plane written in Go keeps its state in
  PostgreSQL; agents on the servers claim deployment jobs over HTTP, build and start containers,
  and switch live traffic by writing a Traefik route.  This development models the control plane's
  core: the deployment aggregate, the execution queue, the servers and their credentials, the
  routes, the intake of GitHub webhooks, and above all the lease repository, which decides who may work on an environment, for how
  long, and what becomes of work that was not finished.

  \<^bold>\<open>The parts and where they are modelled.\<close>

  \<^item> Deployment (\<^verbatim>\<open>internal/deployment/deployment.go\<close>): the event-sourced aggregate, its statuses,
    transitions, snapshots.  Theory Deployment; its PostgreSQL store
    (\<^verbatim>\<open>store/postgres/deployment_repository.go\<close>) is Deployment_Repository.
  \<^item> Jobs, retry policy and source identifiers (\<^verbatim>\<open>internal/queue\<close>, \<^verbatim>\<open>internal/github/source.go\<close>):
    theories Queue and Go_Strings.
  \<^item> The database the lease repository works on: Lease_Store has the rows, Lease_Rules the statements
    with the triggers, CHECK constraints and unique indexes of the migrations that judge them.
  \<^item> The lease repository (\<^verbatim>\<open>store/postgres/agent_lease_repository.go\<close>, \<^verbatim>\<open>agent_lease_execution.go\<close>,
    \<^verbatim>\<open>agent_lease_materialize.go\<close>): Lease_Common has the credential and session locks and the event
    log, Lease_Claim claiming, configuration freezing and renewal, Lease_Finish completion,
    cancellation, expiry, revocation, reconciliation, materialization, checkout and progress.
  \<^item> Activation, the two-transaction protocol around the traffic switch (\<^verbatim>\<open>Activate\<close>,
    \<^verbatim>\<open>ReportActivationResult\<close>, \<^verbatim>\<open>activation_state.go\<close>, \<^verbatim>\<open>activation_late_report.go\<close>,
    \<^verbatim>\<open>activation_resolution.go\<close>): Activation_Text has the bounded evidence texts, Activation the two
    transactions, Activation_Resolution the declared outcomes.
  \<^item> The route document (\<^verbatim>\<open>runtime/traefik\<close>: names, route, render; \<^verbatim>\<open>runtime/dockerid\<close>;
    \<^verbatim>\<open>healthgate/validate.go\<close>): Route_Document has the validation of a route and the YAML text
    \<^verbatim>\<open>Activate\<close> fixes the digest of.
  \<^item> Servers (\<^verbatim>\<open>internal/server\<close>, \<^verbatim>\<open>store/postgres/server_repository.go\<close>): Server_Identity has names,
    ids and tokens with their encoding, Server_Repository the tables and methods, Server_Accounts
    what every method keeps of them.
  \<^item> Route heads (\<^verbatim>\<open>store/postgres/route_head_repository.go\<close>): Route_Heads assigns hostnames.
  \<^item> The secret redactor (\<^verbatim>\<open>crypto/redactor.go\<close>), through which build output leaves the process:
    Redaction_Matcher has the Aho-Corasick automaton, Redaction_Writer the streaming writer.
  \<^item> Webhooks, where jobs come from (\<^verbatim>\<open>internal/github/webhook.go\<close>, \<^verbatim>\<open>internal/github/http/handler.go\<close>,
    \<^verbatim>\<open>store/postgres/webhook_job_repository.go\<close>): Webhook has the validated values, Webhook_Handler
    the HTTP handler, Webhook_Intake the repository; its store contains the database of the lease
    repository (\<open>core\<close>), into which a push puts a deployment, a job and its first event.

  \<^bold>\<open>How the code is read.\<close>  Every repository method is one function from the database to a result
  and the next database.  A Go error is a value of \<open>lease_error\<close>, a statement PostgreSQL refuses is
  \<open>PgError\<close> with its SQLSTATE.  Inside a method the statements are composed in the transaction monad
  of Prelude: an error rolls back, \<open>run_tx\<close> adds the deferred checks of COMMIT.  The methods take
  their row locks in one order and hold them to the commit, so a transaction is atomic here; what
  interleaves are transactions, in any order, which is what the step relation ranges over.  The
  claim's \<^verbatim>\<open>SKIP LOCKED\<close> is a pair of predicates that say which rows somebody else holds.
  \<^verbatim>\<open>clock_timestamp()\<close> is an argument (nanoseconds), and nothing assumes it grows: one value per
  reading, except that \<open>Claim\<close>, \<open>ExpireBatch\<close> and \<open>blockActivationForReconciliation\<close> share one value among
  the readings of a call and a release inserted by \<open>ensureRelease\<close> is stamped with the claim's reading
  (the step relation takes the transactions of the two batches apart, each with its own).  SHA-256, the text of a Go error, the random bytes of tokens and the random draw of the
  retry delay are arguments too, and so are HMAC, the JSON decoder and the address parser of the
  webhook handler (record \<open>library\<close>).

  \<^bold>\<open>What is shown.\<close>  Lease_Steps collects the methods into the step relation \<open>lease_step\<close> and turns
  every relation kept by the single statements into one kept by all methods (locales
  \<open>work_statements_kept\<close> for everything but claims and confirmed switches, \<open>quiet_statements_kept\<close> with
  claims, \<open>statements_kept\<close> with both).  Lease_History, Lease_Keys and Lease_Frames interpret
  them: what follows what, which keys and constraints hold, who may touch traffic.  Lease_Occupancy
  has the deep invariant, stated on an abstract view of the database in which a method either
  closes one attempt or grants one.  Server_Accounts has the account tables' own relation.
  Lease_System interleaves these steps with the other writers of the same tables: server and
  hostname administration by the modelled methods, deployments created by the modelled repository,
  jobs enqueued, and sessions, users, runtime configuration and secrets changing at will; it
  defines \<open>reachable\<close> and \<open>later\<close>.  Lease_Example is a concrete run through registration, enrollment,
  claim, progress, activation, report, expiry and retry, evaluated by the kernel; it is the input of
  the witnesses.  The properties of single operations stand in Deployment, Queue, Route_Document and
  Server_Identity; Claim_Properties, Agent_Properties, Sweep_Properties, Activation_Properties and
  Server_Properties have those of the methods of the repositories, Freeze_Properties shows that all
  attempts of a job run with the configuration the first of them froze, and this theory those of the
  whole system: exclusion, fencing, finality and the bound on retries.

  The redactor's proofs go from the trie (Redaction_Trie) over the failure links
  (Redaction_Automaton) to the scan of what is emitted (Redaction_Safety), the ring of candidates
  against a reference redaction (Redaction_Source) and whole runs (Redaction_Stream); its properties
  are in Redaction_Properties, where the locale \<open>pattern_scanner\<close> is the matcher's contract.

  For the webhooks, Webhook_System describes what an accepted push does to the tables, Webhook_Reach
  interleaves deliveries with the steps of the control plane (\<open>intake_step\<close>), shows that enqueueing is
  a run of that control plane and proves the invariant of receipts, intents and jobs.  Webhook_Later
  follows a state through any further steps (\<open>intake_later\<close>): receipts, intents and the repositories of
  a lifecycle event are only appended to, and jobs keep their ids.  Webhook_Properties has single use, redelivery and withdrawal of authority.  The locale
  \<open>webhook_processor\<close> of Webhook_Handler is what the handler relies on; Webhook_Endpoint interprets it
  on the repository and states what a request can do.

  \<^bold>\<open>Bounds.\<close>  Every loop of the repositories is structural or has a termination proof.  The loops of
  the automaton that follow links carry the number of nodes as fuel; running out is the outcome
  \<open>Diverges\<close>, and \<open>redaction_always_returns\<close> shows it away.  Revisions and the match-work counters are
  64-bit words, all other counters are integers; \<open>redaction_counters_fit\<close> shows that the stream
  positions stay in range.

  \<^bold>\<open>Not modelled.\<close>  Infrastructure errors (lost connections, contexts, failed commits for other
  reasons than the deferred triggers) and the fault injection seam of the tests; \<^verbatim>\<open>created_at\<close> columns
  nobody reads (and with them the CHECK that an operation closes after it was created), length and
  pattern CHECKs on columns the Go code validates before it writes them (jobs, intents, deployments),
  and the composite foreign key from a route head to its active release, each of which leaves more
  states reachable here than in the program; runes outside ASCII in \<^verbatim>\<open>strings.ToLower\<close> other than the
  two that map into it (such a hostname is refused either way); the sweeper's ticker; the configuration, secret
  and GitHub repositories, of which only the rows matter here and change at will; the agents' and
  the administrator's HTTP interfaces, the agent process, Docker and Traefik drivers, encryption and
  key storage, calls to the GitHub API and the administrator's login.
\<close>

section \<open>Properties of the whole system\<close>

lemma ex_live_later: "later ex_activating ex_live"
  using later.after [OF later.now] lease_step.report_step
      [of ex_activating ex_sha ex_describe "''s''" ex_key 1 1 "''1''" True ex_route_digest "[]" 31000]
  unfolding report_run by (auto simp: system_step_def)

lemma ex_resolved_later: "later ex_live (snd (Complete 0 ''s'' ex_key 1 1 CompletionSucceeded (FailureClassOther []) ''x'' ''y'' 40000 ex_live))"
  using later.after [OF later.now] lease_step.complete_step by (auto simp: system_step_def)

text \<open>
  C1: Mutual exclusion.  In every reachable database an environment has at most one leased
  attempt, whatever claims, reports, sweeps, revocations and administrator actions came before.
\<close>

theorem mutual_exclusion:
  assumes "reachable s" and "a \<in> set (attempts s)" "b \<in> set (attempts s)"
    and "att_state a = AttemptLeased" "att_state b = AttemptLeased"
    and "att_environment a = att_environment b"
  shows "a = b"
proof -
  note k = reachable_keyed [OF assms(1)]
  from occ_unique [OF reachable_occupied [OF assms(1), unfolded occupied_properly_def]
      locked_view(1) [OF keyed_get(1) [OF k assms(2)] assms(4)] locked_view(1) [OF keyed_get(1) [OF k assms(3)] assms(5)]]
  have "att_id a = att_id b" using assms(4-6) by (simp add: view_attempt_def)
  with keyed_get(1) [OF k assms(2)] keyed_get(1) [OF k assms(3)] show ?thesis by (metis option.inject)
qed

theorem mutual_exclusion_witness:
  "{b \<in> set (attempts ex_claimed). att_state b = AttemptLeased \<and> att_environment b = ''e''} = {ex_attempt}"
proof -
  have m: "ex_attempt \<in> set (attempts ex_claimed)" by (simp add: ex_claimed_def)
  have a: "att_state ex_attempt = AttemptLeased" "att_environment ex_attempt = ''e''" by (simp_all add: ex_attempt_def)
  from mutual_exclusion [OF claimed_reachable _ m _ a(1)] m a show ?thesis by auto
qed

text \<open>
  C2: A leased attempt is the occupant of its environment's slot and carries the slot's
  current fence; its job is leased too, for the same environment and at the same attempt number.
\<close>

theorem leased_attempt_is_occupant:
  assumes "reachable s" and "get_attempt k s = Some a" and "att_state a = AttemptLeased"
  shows "(\<exists>r. get_slot (att_environment a) s = Some r \<and> slot_fence r = att_fence a \<and> slot_current r = Some k) \<and>
    (\<exists>j. get_job (att_job a) s = Some j \<and> job_state j = JobLeased \<and> job_environment j = att_environment a \<and>
       job_attempt_count j = att_number a)"
  using leased_row [OF assms] .

theorem leased_attempt_is_occupant_witness:
  "(\<exists>r. get_slot ''e'' ex_claimed = Some r \<and> slot_fence r = 1 \<and> slot_current r = Some 1) \<and>
   (\<exists>j. get_job 1 ex_claimed = Some j \<and> job_state j = JobLeased \<and> job_environment j = ''e'' \<and> job_attempt_count j = 1)"
  using leased_attempt_is_occupant [OF claimed_reachable, of 1 ex_attempt]
  by (simp add: get_attempt_def ex_claimed_def ex_attempt_def)

text \<open>
  C8: A job is leased exactly while one of its attempts is: no job is left leased with nobody
  working on it, and no attempt runs for a job the queue considers free or finished.
\<close>

theorem job_leased_iff_attempt_leased:
  assumes "reachable s" and "get_job i s = Some j"
  shows "job_state j = JobLeased \<longleftrightarrow> (\<exists>a \<in> set (attempts s). att_job a = i \<and> att_state a = AttemptLeased)"
proof
  assume "job_state j = JobLeased"
  with occ_job [OF reachable_occupied [OF assms(1), unfolded occupied_properly_def], of i "view_job j"] assms(2)
  show "\<exists>a \<in> set (attempts s). att_job a = i \<and> att_state a = AttemptLeased"
    by (auto simp: job_of_def view_job_def att_of_def view_attempt_def dest!: attempt_tbl.get_mem)
next
  assume "\<exists>a \<in> set (attempts s). att_job a = i \<and> att_state a = AttemptLeased"
  then obtain a where a: "a \<in> set (attempts s)" "att_job a = i" "att_state a = AttemptLeased" by blast
  from leased_row [OF assms(1) keyed_get(1) [OF reachable_keyed [OF assms(1)] a(1)] a(3)] a(2) assms(2)
  show "job_state j = JobLeased" by auto
qed

theorem job_leased_iff_attempt_leased_witness:
  "\<exists>a \<in> set (attempts ex_claimed). att_job a = 1 \<and> att_state a = AttemptLeased"
  using job_leased_iff_attempt_leased [OF claimed_reachable, of 1]
  by (simp add: get_job_def ex_claimed_def ex_job_def)

text \<open>
  C3: Fencing tokens.  Of two attempts of one environment the later one has the strictly
  larger fence, so a fence an agent still holds after it lost the lease is never valid again.
\<close>

theorem fences_increase:
  assumes "reachable s" and "a \<in> set (attempts s)" "b \<in> set (attempts s)"
    and "att_environment a = att_environment b" and "att_id a < att_id b"
  shows "att_fence a < att_fence b"
proof -
  have v: "att_of s (att_id c) = Some (view_attempt c)" if "c \<in> set (attempts s)" for c
    using keyed_get(1) [OF reachable_keyed [OF assms(1)] that] by (simp add: att_of_def)
  from occ_fence [OF reachable_occupied [OF assms(1), unfolded occupied_properly_def] v [OF assms(2)] v [OF assms(3)]]
    assms(4,5) show ?thesis by (simp add: view_attempt_def)
qed

theorem fences_increase_witness:
  "\<exists>a b. a \<in> set (attempts ex_retried) \<and> b \<in> set (attempts ex_retried) \<and> att_id a < att_id b \<and>
     att_fence a < att_fence b"
proof -
  let ?a = "ex_attempt\<lparr>att_state := AttemptExpired, att_closed := Some 90000010000\<rparr>"
  let ?b = "ex_attempt\<lparr>att_id := 2, att_number := 2, att_fence := 3, att_lease_expires := 180000030000,
     att_authority_expires := 180000030000\<rparr>"
  have m: "?a \<in> set (attempts ex_retried)" "?b \<in> set (attempts ex_retried)"
    unfolding retried_attempts by (simp_all add: ex_expired_def)
  have "att_environment ?a = att_environment ?b" "att_id ?a < att_id ?b" by (simp_all add: ex_attempt_def)
  with fences_increase [OF retried_reachable(3) m] m show ?thesis by blast
qed

text \<open>
  C4: What is finished stays as it is: a closed attempt, a terminal job and a settled
  operation are never changed by any later step of the system.
\<close>

theorem finished_work_is_final:
  assumes "later s t"
  shows "(\<forall>k a. get_attempt k s = Some a \<longrightarrow> att_state a \<noteq> AttemptLeased \<longrightarrow> get_attempt k t = Some a) \<and>
    (\<forall>k j. get_job k s = Some j \<longrightarrow> job_terminal (job_state j) \<longrightarrow> get_job k t = Some j) \<and>
    (\<forall>k p. get_operation k s = Some p \<longrightarrow> op_state p = OpSucceeded \<or> op_state p = OpFailed \<longrightarrow>
       get_operation k t = Some p)"
proof -
  from later_grows [OF assms] have
    "rows_follow get_attempt attempt_follows s t" "rows_follow get_job job_follows s t"
    "rows_follow get_operation operation_follows s t"
    by (simp_all add: grows_def)
  note f = this [THEN rows_followD]
  show ?thesis
    by (auto dest!: f simp: attempt_follows_def job_follows_def operation_follows_def unresolvedActivation_def
        activationTerminalStates_def)
qed

theorem finished_work_is_final_witness:
  "get_operation 1 (snd (Complete 0 ''s'' ex_key 1 1 CompletionSucceeded (FailureClassOther []) ''x'' ''y'' 40000 ex_live))
     = get_operation 1 ex_live \<and> get_operation 1 ex_live \<noteq> None"
proof -
  obtain p where "get_operation 1 ex_live = Some p" "op_state p = OpSucceeded"
    by (simp add: get_operation_def ex_live_def ex_operation_def)
  with finished_work_is_final [OF ex_resolved_later] show ?thesis by simp
qed

text \<open>
  C10: Fences and route revisions never go back, a route's active release changes only
  together with its revision, stored deployment histories are only extended, and the job event
  log, route event log, audit log and frozen configurations are append-only.
\<close>

theorem counters_and_records_only_grow:
  assumes "later s t"
  shows "(\<forall>e r. get_slot e s = Some r \<longrightarrow> (\<exists>q. get_slot e t = Some q \<and> slot_fence r \<le> slot_fence q)) \<and>
    (\<forall>e h. get_head e s = Some h \<longrightarrow> (\<exists>g. get_head e t = Some g \<and> rh_revision h \<le> rh_revision g \<and>
       (rh_revision g = rh_revision h \<longrightarrow> rh_active g = rh_active h))) \<and>
    (\<forall>k d. get_deployment k s = Some d \<longrightarrow> (\<exists>c. get_deployment k t = Some c \<and> prefix (snap_events d) (snap_events c))) \<and>
    prefix (job_events s) (job_events t) \<and> prefix (route_events s) (route_events t) \<and>
    prefix (audits s) (audits t) \<and> prefix (executions s) (executions t) \<and>
    prefix (frozen_secrets s) (frozen_secrets t) \<and> prefix (frozen_literals s) (frozen_literals t)"
proof -
  from later_grows [OF assms] have
    "rows_follow get_slot slot_follows s t" "rows_follow get_head head_follows s t"
    "rows_follow get_deployment deployment_follows s t"
    by (simp_all add: grows_def)
  note f = this [THEN rows_followD]
  have "get_slot e s = Some r \<Longrightarrow> \<exists>q. get_slot e t = Some q \<and> slot_fence r \<le> slot_fence q" for e r
    using f(1) [of e r] by (auto simp: slot_follows_def)
  moreover have "get_head e s = Some h \<Longrightarrow> \<exists>g. get_head e t = Some g \<and> rh_revision h \<le> rh_revision g \<and>
       (rh_revision g = rh_revision h \<longrightarrow> rh_active g = rh_active h)" for e h
    using f(2) [of e h] by (auto simp: head_follows_def)
  moreover have "get_deployment k s = Some d \<Longrightarrow> \<exists>c. get_deployment k t = Some c \<and> prefix (snap_events d) (snap_events c)"
    for k d using f(3) [of k d] by (auto simp: deployment_follows_def)
  ultimately show ?thesis using later_grows [OF assms] by (auto simp: grows_def)
qed

theorem counters_and_records_only_grow_witness:
  "prefix (job_events ex_activating) (job_events ex_live) \<and> job_events ex_activating \<noteq> job_events ex_live"
  using counters_and_records_only_grow [OF ex_live_later] by (simp add: ex_live_def)

text \<open>
  C25: Retrying ends.  In every reachable database a job has at most five attempts, whatever expired,
  failed or was revoked in between, since attempts of one job are numbered from one to five without
  repetition.
\<close>

theorem job_is_tried_at_most_five_times:
  assumes "reachable s"
  shows "length (filter (\<lambda>a. att_job a = i) (attempts s)) \<le> 5"
proof -
  let ?as = "filter (\<lambda>a. att_job a = i) (attempts s)"
  have "distinct (map (\<lambda>a. (att_job a, att_number a)) ?as)"
    using reachable_keyed [OF assms] by (simp add: keyed_def distinct_map_filter)
  then have "distinct (map att_number ?as)" by (auto simp: distinct_map inj_on_def)
  moreover have "set (map att_number ?as) \<subseteq> {1..5}"
    using reachable_checked [OF assms] by (auto simp: checked_def attempt_checks_def)
  ultimately have "length (map att_number ?as) \<le> card {1..5 :: int}"
    by (metis card_mono distinct_card finite_atLeastAtMost_int)
  then show ?thesis by simp
qed

theorem job_is_tried_at_most_five_times_witness: "length (filter (\<lambda>a. att_job a = 1) (attempts ex_retried)) \<le> 5"
  using job_is_tried_at_most_five_times [OF retried_reachable(3)] .

text \<open>
  C9: In every reachable database an environment has at most one activation whose outcome
  is not settled, so there is never a doubt which switch an operator's declaration is about.
\<close>

theorem one_unsettled_activation_per_environment:
  assumes "reachable s" and "p \<in> set (operations s)" "q \<in> set (operations s)"
    and "unresolved_operation p" "unresolved_operation q" "op_environment p = op_environment q"
  shows "p = q"
  using unsettled_unique [OF assms] .

theorem one_unsettled_activation_per_environment_witness:
  "{op_id q |q. q \<in> set (operations ex_blocked) \<and> unresolved_operation q \<and> op_environment q = Some ''e''} = {1}"
proof -
  let ?p = "ex_operation\<lparr>op_state := OpReconciliationRequired, op_closed := Some 31000, op_summary := ''boom''\<rparr>"
  have "?p \<in> set (operations ex_blocked)" "unresolved_operation ?p" "op_environment ?p = Some ''e''" "op_id ?p = 1"
    by (simp_all add: ex_blocked_def ex_operation_def unresolved_operation_def unresolvedActivation_def activationTerminalStates_def)
  then obtain p where p: "p \<in> set (operations ex_blocked)" "unresolved_operation p" "op_environment p = Some ''e''" "op_id p = 1"
    by blast
  have "q = p" if "q \<in> set (operations ex_blocked)" "unresolved_operation q" "op_environment q = Some ''e''" for q
    using one_unsettled_activation_per_environment [OF reported_reachable(2) that(1) p(1) that(2) p(2)] that(3) p(3) by simp
  with p have "{q. q \<in> set (operations ex_blocked) \<and> unresolved_operation q \<and> op_environment q = Some ''e''} = {p}"
    by blast
  then show ?thesis by (simp add: setcompr_eq_image p(4))
qed

end
